(* ===== verification/QM_Prelude.thy ===== *)
theory QM_Prelude
  imports Main "HOL-Library.Word"
begin

text \<open>
  Shared vocabulary of the development: fallible computations as sums, the Go idioms that
  occur in every component (a set built by a loop of map insertions, a search that stops at
  the first hit, a conversion of a slice that stops at the first error), bytes, and the
  collections of facts that the component proofs hand to the simplifier.

  Go strings are sequences of bytes, and so is the HOL type \<^typ>\<open>string\<close>; Go slices are
  lists; a Go \<^verbatim>\<open>map[K]bool\<close> that only ever stores \<open>true\<close> is a set; a Go pointer that may be
  nil is an option.
\<close>

named_theorems frame_simps \<open>which fields of a state an operation leaves alone\<close>
named_theorems match_simps \<open>characterisations of matching functions\<close>
named_theorems res_simps \<open>evaluation of fallible computations\<close>

type_synonym byte = "8 word"
type_synonym bytes = "byte list"

subsection \<open>Fallible computations\<close>

text \<open>\<^verbatim>\<open>(T, error)\<close> results: \<^term>\<open>Inl e\<close> is a non-nil error.\<close>

type_synonym ('e, 'a) res = "'e + 'a"

definition bindE :: "('e, 'a) res \<Rightarrow> ('a \<Rightarrow> ('e, 'b) res) \<Rightarrow> ('e, 'b) res" where
  "bindE x f = (case x of Inl e \<Rightarrow> Inl e | Inr a \<Rightarrow> f a)"

definition is_ok :: "('e, 'a) res \<Rightarrow> bool" where
  "is_ok x = (case x of Inl _ \<Rightarrow> False | Inr _ \<Rightarrow> True)"

text \<open>The loop \<^verbatim>\<open>for i, x := range xs { y, err := f(x); if err != nil { return err }; ... }\<close>.\<close>

fun mapE :: "('a \<Rightarrow> ('e, 'b) res) \<Rightarrow> 'a list \<Rightarrow> ('e, 'b list) res" where
  "mapE f [] = Inr []"
| "mapE f (x # xs) = bindE (f x) (\<lambda>y. bindE (mapE f xs) (\<lambda>ys. Inr (y # ys)))"

text \<open>The same loop where the error is wrapped with the index of the element.\<close>

fun mapE_at :: "(nat \<Rightarrow> 'e \<Rightarrow> 'f) \<Rightarrow> ('a \<Rightarrow> ('e, 'b) res) \<Rightarrow> nat \<Rightarrow> 'a list \<Rightarrow> ('f, 'b list) res" where
  "mapE_at w f i [] = Inr []"
| "mapE_at w f i (x # xs) =
     (case f x of
        Inl e \<Rightarrow> Inl (w i e)
      | Inr y \<Rightarrow> bindE (mapE_at w f (Suc i) xs) (\<lambda>ys. Inr (y # ys)))"

text \<open>A conjunction that stops at the first false element; an element may panic.\<close>

fun everyE :: "('a \<Rightarrow> ('e, bool) res) \<Rightarrow> 'a list \<Rightarrow> ('e, bool) res" where
  "everyE f [] = Inr True"
| "everyE f (x # xs) = bindE (f x) (\<lambda>b. if b then everyE f xs else Inr False)"

text \<open>The same loop where only the error matters.\<close>

fun allE :: "('a \<Rightarrow> 'e option) \<Rightarrow> 'a list \<Rightarrow> 'e option" where
  "allE f [] = None"
| "allE f (x # xs) = (case f x of Some e \<Rightarrow> Some e | None \<Rightarrow> allE f xs)"

subsection \<open>Go idioms\<close>

text \<open>\<^verbatim>\<open>m := make(map[K]bool); for _, x := range xs { m[x] = true }\<close>\<close>

definition go_set :: "'a list \<Rightarrow> 'a set" where
  "go_set xs = foldl (\<lambda>m x. insert x m) {} xs"

text \<open>The \<open>i\<close>-th element of a slice, \<open>None\<close> where Go panics.\<close>

definition nth_opt :: "'a list \<Rightarrow> nat \<Rightarrow> 'a option" where
  "nth_opt xs i = (if i < length xs then Some (xs ! i) else None)"

lemma bindE_simps [simp, res_simps]:
  "bindE (Inl e) f = Inl e"
  "bindE (Inr a) f = f a"
  by (simp_all add: bindE_def)

lemma bindE_Inr_iff: "bindE x f = Inr b \<longleftrightarrow> (\<exists>a. x = Inr a \<and> f a = Inr b)"
  by (cases x) simp_all

lemma bindE_InrE [elim!]:
  assumes "bindE x f = Inr b"
  obtains a where "x = Inr a" "f a = Inr b"
  using assms by (auto simp: bindE_Inr_iff)

lemma is_ok_simps [simp, res_simps]: "is_ok (Inr a)" "\<not> is_ok (Inl e)"
  by (simp_all add: is_ok_def)

lemma is_ok_iff: "is_ok x \<longleftrightarrow> (\<exists>a. x = Inr a)"
  by (cases x) simp_all

lemma mapE_cong [fundef_cong]:
  assumes "xs = ys" and "\<And>x. x \<in> set ys \<Longrightarrow> f x = g x"
  shows "mapE f xs = mapE g ys"
  using assms by (induction xs arbitrary: ys) auto

lemma mapE_at_cong [fundef_cong]:
  assumes "xs = ys" and "\<And>x. x \<in> set ys \<Longrightarrow> f x = g x" and "w = w'" and "i = i'"
  shows "mapE_at w f i xs = mapE_at w' g i' ys"
  using assms by (induction xs arbitrary: i i' ys) (auto split: sum.split)

lemma everyE_cong [fundef_cong]:
  assumes "xs = ys" and "\<And>x. x \<in> set ys \<Longrightarrow> f x = g x"
  shows "everyE f xs = everyE g ys"
  using assms by (induction xs arbitrary: ys) (auto simp: bindE_def split: sum.split)

lemma mapE_at_Inr_iff: "mapE_at w f i xs = Inr ys \<longleftrightarrow> list_all2 (\<lambda>x y. f x = Inr y) xs ys"
proof (induction xs arbitrary: i ys)
  case (Cons x xs)
  show ?case
  proof (cases "f x")
    case (Inl e)
    then show ?thesis by (auto simp: list_all2_Cons1)
  next
    case (Inr y)
    have "mapE_at w f i (x # xs) = Inr ys \<longleftrightarrow> (\<exists>zs. ys = y # zs \<and> mapE_at w f (Suc i) xs = Inr zs)"
      using Inr by (auto simp: bindE_def split: sum.splits)
    also have "\<dots> \<longleftrightarrow> (\<exists>zs. ys = y # zs \<and> list_all2 (\<lambda>x y. f x = Inr y) xs zs)"
      by (simp only: Cons.IH)
    also have "\<dots> \<longleftrightarrow> list_all2 (\<lambda>x y. f x = Inr y) (x # xs) ys"
      using Inr by (auto simp: list_all2_Cons1)
    finally show ?thesis .
  qed
qed auto

lemma mapE_Inr_length: "mapE f xs = Inr ys \<Longrightarrow> length ys = length xs"
  by (induction xs arbitrary: ys) auto

lemma mapE_Inr_iff: "mapE f xs = Inr ys \<longleftrightarrow> list_all2 (\<lambda>x y. f x = Inr y) xs ys"
proof (induction xs arbitrary: ys)
  case Nil
  then show ?case by auto
next
  case (Cons x xs)
  show ?case
  proof
    assume "mapE f (x # xs) = Inr ys"
    then obtain z zs where *: "f x = Inr z" "mapE f xs = Inr zs" "ys = z # zs" by auto
    then have "list_all2 (\<lambda>x y. f x = Inr y) xs zs" using Cons.IH by blast
    with * show "list_all2 (\<lambda>x y. f x = Inr y) (x # xs) ys" by simp
  next
    assume "list_all2 (\<lambda>x y. f x = Inr y) (x # xs) ys"
    then obtain z zs where *: "ys = z # zs" "f x = Inr z" "list_all2 (\<lambda>x y. f x = Inr y) xs zs"
      by (auto simp: list_all2_Cons1)
    then have "mapE f xs = Inr zs" using Cons.IH by blast
    with * show "mapE f (x # xs) = Inr ys" by simp
  qed
qed

lemma mapE_map_Inr: "(\<And>x. x \<in> set xs \<Longrightarrow> f x = Inr (g x)) \<Longrightarrow> mapE f xs = Inr (map g xs)"
  by (induction xs) simp_all

lemma mapE_Inl_iff:
  "(\<exists>e. mapE f xs = Inl e) \<longleftrightarrow> (\<exists>x \<in> set xs. \<exists>e. f x = Inl e)"
proof (induction xs)
  case Nil
  then show ?case by simp
next
  case (Cons x xs)
  then show ?case
    by (cases "f x"; cases "mapE f xs") auto
qed

lemma allE_cong [fundef_cong]:
  assumes "xs = ys" and "\<And>x. x \<in> set ys \<Longrightarrow> f x = g x"
  shows "allE f xs = allE g ys"
  using assms by (induction xs arbitrary: ys) (auto split: option.splits)

lemma allE_None_iff: "allE f xs = None \<longleftrightarrow> (\<forall>x \<in> set xs. f x = None)"
  by (induction xs) (auto split: option.splits)

lemma foldl_insert: "foldl (\<lambda>m x. insert x m) A xs = A \<union> set xs"
  by (induction xs arbitrary: A) auto

lemma go_set_eq [simp]: "go_set xs = set xs"
  by (simp add: go_set_def foldl_insert)

lemma nth_opt_Some_iff [simp]: "nth_opt xs i = Some x \<longleftrightarrow> i < length xs \<and> xs ! i = x"
  by (auto simp: nth_opt_def)

subsection \<open>Slices\<close>

text \<open>A Go slice where nil and empty are told apart.\<close>

type_synonym 'a slice = "'a list option"

fun elems :: "'a slice \<Rightarrow> 'a list" where
  "elems None = []"
| "elems (Some xs) = xs"

definition nonempty :: "'a slice \<Rightarrow> bool" where
  "nonempty s = (elems s \<noteq> [])"

end
