(* ===== verification/Netip.thy ===== *)
theory Netip
  imports QM_Prelude
begin

text \<open>
  The address types of Go's standard package \<^verbatim>\<open>net/netip\<close>, as far as the program uses them:
  \<^verbatim>\<open>Addr\<close> (the zero value, an IPv4 address, an IPv6 address with an optional zone), \<^verbatim>\<open>Prefix\<close>,
  and the address triple \<^verbatim>\<open>M.Socksaddr\<close> that routing metadata carries. IPv4-mapped IPv6
  addresses are IPv6 addresses, as in the Go package.
\<close>

unbundle bit_operations_syntax

subsection \<open>Addresses\<close>

datatype addr = AddrZero | Addr4 "32 word" | Addr6 "128 word" string

fun addr_IsValid :: "addr \<Rightarrow> bool" where
  "addr_IsValid AddrZero = False"
| "addr_IsValid (Addr4 _) = True"
| "addr_IsValid (Addr6 _ _) = True"

fun addr_Is4 :: "addr \<Rightarrow> bool" where
  "addr_Is4 (Addr4 _) = True"
| "addr_Is4 _ = False"

fun addr_Is6 :: "addr \<Rightarrow> bool" where
  "addr_Is6 (Addr6 _ _) = True"
| "addr_Is6 _ = False"

fun addr_BitLen :: "addr \<Rightarrow> nat" where
  "addr_BitLen AddrZero = 0"
| "addr_BitLen (Addr4 _) = 32"
| "addr_BitLen (Addr6 _ _) = 128"

fun addr_hasZone :: "addr \<Rightarrow> bool" where
  "addr_hasZone (Addr6 _ z) = (z \<noteq> [])"
| "addr_hasZone _ = False"

fun addr_WithoutZone :: "addr \<Rightarrow> addr" where
  "addr_WithoutZone (Addr6 w _) = Addr6 w []"
| "addr_WithoutZone a = a"

text \<open>\<^verbatim>\<open>Addr.Next\<close>: the zero value when there is no next address of the same family.\<close>

fun addr_Next :: "addr \<Rightarrow> addr" where
  "addr_Next AddrZero = AddrZero"
| "addr_Next (Addr4 w) = (if w + 1 = 0 then AddrZero else Addr4 (w + 1))"
| "addr_Next (Addr6 w z) = (if w + 1 = 0 then AddrZero else Addr6 (w + 1) z)"

text \<open>\<^verbatim>\<open>Addr.Unmap\<close>: the IPv4 address inside an IPv4-mapped IPv6 address.\<close>

fun addr_Unmap :: "addr \<Rightarrow> addr" where
  "addr_Unmap (Addr6 w z) =
     (if drop_bit 32 w = 0xFFFF then Addr4 (ucast w) else Addr6 w z)"
| "addr_Unmap a = a"

subsection \<open>Prefixes\<close>

text \<open>
  \<^verbatim>\<open>netip.Prefix\<close> stores the address and \<^verbatim>\<open>bitsPlusOne\<close>; \<open>prefix_bits = None\<close> stands for
  \<^verbatim>\<open>bitsPlusOne = 0\<close>, the invalid prefix.
\<close>

record prefix =
  prefix_Addr :: addr
  prefix_bits :: "nat option"

definition prefix_zero :: prefix where
  "prefix_zero = \<lparr>prefix_Addr = AddrZero, prefix_bits = None\<rparr>"

definition PrefixFrom :: "addr \<Rightarrow> int \<Rightarrow> prefix" where
  "PrefixFrom ip bits =
     \<lparr>prefix_Addr = addr_WithoutZone ip,
      prefix_bits = (if addr_IsValid ip \<and> 0 \<le> bits \<and> bits \<le> int (addr_BitLen ip)
                     then Some (nat bits) else None)\<rparr>"

definition prefix_IsValid :: "prefix \<Rightarrow> bool" where
  "prefix_IsValid p = (prefix_bits p \<noteq> None)"

definition prefix_Bits :: "prefix \<Rightarrow> int" where
  "prefix_Bits p = (case prefix_bits p of None \<Rightarrow> -1 | Some b \<Rightarrow> int b)"

text \<open>The top \<open>b\<close> bits of two addresses of the same family agree.\<close>

fun same_prefix :: "nat \<Rightarrow> addr \<Rightarrow> addr \<Rightarrow> bool" where
  "same_prefix b (Addr4 v) (Addr4 w) = (drop_bit (32 - b) (v XOR w) = 0)"
| "same_prefix b (Addr6 v _) (Addr6 w _) = (drop_bit (128 - b) (v XOR w) = 0)"
| "same_prefix b _ _ = False"

definition prefix_Contains :: "prefix \<Rightarrow> addr \<Rightarrow> bool" where
  "prefix_Contains p ip =
     (case prefix_bits p of
        None \<Rightarrow> False
      | Some b \<Rightarrow> \<not> addr_hasZone ip \<and> same_prefix b (prefix_Addr p) ip)"

definition prefix_Overlaps :: "prefix \<Rightarrow> prefix \<Rightarrow> bool" where
  "prefix_Overlaps p q =
     (case (prefix_bits p, prefix_bits q) of
        (Some b, Some c) \<Rightarrow> p = q \<or> same_prefix (min b c) (prefix_Addr p) (prefix_Addr q)
      | _ \<Rightarrow> False)"

subsection \<open>Socket addresses\<close>

text \<open>
  \<^verbatim>\<open>M.Socksaddr\<close> of the sing library is a plain struct in the source's own literals
  (\<^verbatim>\<open>M.Socksaddr{Addr: ..., Port: ..., Fqdn: ...}\<close>); its methods belong to the library and
  are parameters of the model.
\<close>

record Socksaddr =
  sa_Addr :: addr
  sa_Port :: "16 word"
  sa_Fqdn :: string

definition Socksaddr_zero :: Socksaddr where
  "Socksaddr_zero = \<lparr>sa_Addr = AddrZero, sa_Port = 0, sa_Fqdn = []\<rparr>"

subsection \<open>Laws\<close>

lemma addr_IsValid_iff: "addr_IsValid a \<longleftrightarrow> addr_Is4 a \<or> addr_Is6 a"
  by (cases a) simp_all

lemma addr_Is4_not_Is6: "addr_Is4 a \<Longrightarrow> \<not> addr_Is6 a"
  by (cases a) simp_all

lemma addr_Next_family:
  "addr_IsValid (addr_Next a) \<Longrightarrow> addr_Is4 (addr_Next a) = addr_Is4 a \<and> addr_IsValid a"
  by (cases a) (auto split: if_splits)

lemma same_prefix_sym: "same_prefix b x y = same_prefix b y x"
  by (cases x; cases y) (simp_all add: xor.commute)

lemma same_prefix_refl: "addr_IsValid x \<Longrightarrow> same_prefix b x x"
  by (cases x) simp_all

lemma same_prefix_family: "same_prefix b x y \<Longrightarrow> addr_Is4 x = addr_Is4 y \<and> addr_Is6 x = addr_Is6 y"
  by (cases x; cases y) simp_all

lemma drop_bit_xor_zero_iff:
  fixes v w :: "'a::len word"
  shows "drop_bit n (v XOR w) = 0 \<longleftrightarrow> drop_bit n v = drop_bit n w"
  by (auto simp: bit_eq_iff bit_simps)

lemma same_prefix_trans: "same_prefix b x y \<Longrightarrow> same_prefix b y z \<Longrightarrow> same_prefix b x z"
  by (cases x; cases y; cases z) (simp_all add: drop_bit_xor_zero_iff del: drop_bit_xor)

lemma prefix_zero_invalid [simp]: "\<not> prefix_IsValid prefix_zero"
  by (simp add: prefix_zero_def prefix_IsValid_def)

lemma prefix_Contains_family:
  "prefix_Contains p a \<Longrightarrow> addr_Is4 a = addr_Is4 (prefix_Addr p) \<and> addr_IsValid a"
  by (cases a; cases "prefix_Addr p") (auto simp: prefix_Contains_def split: option.splits)

end
