(* ===== verification/Inbound_Context.thy ===== *)
theory Inbound_Context
  imports Netip
begin

text \<open>
  The routing metadata (\<^verbatim>\<open>adapter.InboundContext\<close>, adapter/inbound.go), the DNS messages it can
  carry, the process that owns a connection (adapter/platform.go), and the environment of the
  matching code: the library functions that are not part of the repository and the state of the
  network manager at the moment of a match.
\<close>

subsection \<open>DNS messages\<close>

text \<open>
  The part of \<^verbatim>\<open>dns.Msg\<close> (miekg/dns) the program reads. An address record holds a raw \<^verbatim>\<open>net.IP\<close>
  (a byte slice of any length); an HTTPS record holds SVCB parameters, of which only the two kinds
  of address hints are read; an SOA record its minimum TTL and the rest; an OPT record its EDNS0 options,
  of which the client subnet (family, source netmask, scope, address) is read; any other record or option
  is opaque.
\<close>

datatype svcb_value =
    SVCBIPv4Hint "bytes list"
  | SVCBIPv6Hint "bytes list"
  | SVCBOther nat

datatype edns0 =
    EDNS0_SUBNET "16 word" "8 word" "8 word" bytes
  | EDNS0_Other "16 word" bytes

datatype RR =
    RR_A bytes
  | RR_AAAA bytes
  | RR_HTTPS "svcb_value list"
  | RR_SOA "32 word" bytes
  | RR_OPT "edns0 list"
  | RR_Other "16 word" bytes

record dns_Msg =
  msg_Rcode :: int
  msg_Answer :: "RR list"
  msg_Ns :: "RR list"
  msg_Extra :: "RR list"

definition RcodeSuccess :: int where "RcodeSuccess = 0"

subsection \<open>Connection owner and interfaces\<close>

record ConnectionOwner =
  co_ProcessID :: "32 word"
  co_UserId :: int
  co_UserName :: string
  co_ProcessPath :: string
  co_AndroidPackageNames :: "string list"

type_synonym InterfaceType = "8 word"

record NetworkInterface =
  ni_Name :: string
  ni_Addresses :: "prefix list"
  ni_Type :: InterfaceType
  ni_Expensive :: bool
  ni_Constrained :: bool

subsection \<open>Opaque library values\<close>

text \<open>
  Compiled domain matchers and IP sets are values of library types. They are represented by what
  they were made from: the arguments of their constructor, or the bytes a decoder read.
  \<^verbatim>\<open>netipx.IPSet\<close> is a list of address ranges, the layout the program itself relies on
  (common/srs/ip_set.go).
\<close>

datatype domain_Matcher =
    NewMatcher "string list" "string list" bool
  | RawMatcher bytes

datatype domain_AdGuardMatcher =
    NewAdGuardMatcher "string list"
  | RawAdGuardMatcher bytes

type_synonym IPSet = "(addr \<times> addr) list"

datatype sniff_error = ErrNeedMoreData | ErrOther string

subsection \<open>Routing metadata\<close>

record InboundContext =
  m_Inbound :: string
  m_InboundType :: string
  m_IPVersion :: "8 word"
  m_Network :: string
  m_Source :: Socksaddr
  m_Destination :: Socksaddr
  m_User :: string
  m_Outbound :: string
  m_RouteRule :: string
  m_RouteOutbound :: string
  m_Protocol :: string
  m_Domain :: string
  m_Client :: string
  m_SnifferNames :: "string list"
  m_SniffError :: "sniff_error option"
  m_InboundDetour :: string
  m_LastInbound :: string
  m_OriginDestination :: Socksaddr
  m_RouteOriginalDestination :: Socksaddr
  m_UDPDisableDomainUnmapping :: bool
  m_UDPConnect :: bool
  m_UDPTimeout :: int
  m_TLSFragment :: bool
  m_TLSFragmentFallbackDelay :: int
  m_TLSRecordFragment :: bool
  m_TLSSpoof :: string
  m_TLSSpoofMethod :: int
  m_NetworkStrategy :: "8 word option"
  m_NetworkType :: "InterfaceType list"
  m_FallbackNetworkType :: "InterfaceType list"
  m_FallbackDelay :: int
  m_DestinationAddresses :: "addr list"
  m_DNSResponse :: "dns_Msg option"
  m_NamedDNSResponses :: "string \<Rightarrow> dns_Msg option"
  m_DestinationAddressMatchFromResponse :: bool
  m_ProcessInfo :: "ConnectionOwner option"
  m_SourceMACAddress :: "bytes option"
  m_SourceHostname :: string
  m_QueryType :: "16 word"
  m_QueryClientSubnet :: prefix
  m_QueryDNSSEC :: bool
  m_FakeIP :: bool
  m_PreMatch :: bool
  m_IPCIDRMatchSource :: bool
  m_IPCIDRAcceptEmpty :: bool
  m_SourceAddressMatch :: bool
  m_SourcePortMatch :: bool
  m_DestinationAddressMatch :: bool
  m_DestinationPortMatch :: bool
  m_DeferredIPCIDRMatchGroups :: "8 word"
  m_IgnoreDestinationIPCIDRMatch :: bool

text \<open>The zero value \<^verbatim>\<open>adapter.InboundContext{}\<close>.\<close>

definition InboundContext_zero :: InboundContext where
  "InboundContext_zero = \<lparr>
     m_Inbound = [],
     m_InboundType = [],
     m_IPVersion = 0,
     m_Network = [],
     m_Source = Socksaddr_zero,
     m_Destination = Socksaddr_zero,
     m_User = [],
     m_Outbound = [],
     m_RouteRule = [],
     m_RouteOutbound = [],
     m_Protocol = [],
     m_Domain = [],
     m_Client = [],
     m_SnifferNames = [],
     m_SniffError = None,
     m_InboundDetour = [],
     m_LastInbound = [],
     m_OriginDestination = Socksaddr_zero,
     m_RouteOriginalDestination = Socksaddr_zero,
     m_UDPDisableDomainUnmapping = False,
     m_UDPConnect = False,
     m_UDPTimeout = 0,
     m_TLSFragment = False,
     m_TLSFragmentFallbackDelay = 0,
     m_TLSRecordFragment = False,
     m_TLSSpoof = [],
     m_TLSSpoofMethod = 0,
     m_NetworkStrategy = None,
     m_NetworkType = [],
     m_FallbackNetworkType = [],
     m_FallbackDelay = 0,
     m_DestinationAddresses = [],
     m_DNSResponse = None,
     m_NamedDNSResponses = (\<lambda>_. None),
     m_DestinationAddressMatchFromResponse = False,
     m_ProcessInfo = None,
     m_SourceMACAddress = None,
     m_SourceHostname = [],
     m_QueryType = 0,
     m_QueryClientSubnet = prefix_zero,
     m_QueryDNSSEC = False,
     m_FakeIP = False,
     m_PreMatch = False,
     m_IPCIDRMatchSource = False,
     m_IPCIDRAcceptEmpty = False,
     m_SourceAddressMatch = False,
     m_SourcePortMatch = False,
     m_DestinationAddressMatch = False,
     m_DestinationPortMatch = False,
     m_DeferredIPCIDRMatchGroups = 0,
     m_IgnoreDestinationIPCIDRMatch = False\<rparr>"

definition ResetRuleMatchCache :: "InboundContext \<Rightarrow> InboundContext" where
  "ResetRuleMatchCache c = c\<lparr>
     m_SourceAddressMatch := False,
     m_SourcePortMatch := False,
     m_DestinationAddressMatch := False,
     m_DestinationPortMatch := False,
     m_DeferredIPCIDRMatchGroups := 0\<rparr>"

definition ResetRuleCache :: "InboundContext \<Rightarrow> InboundContext" where
  "ResetRuleCache c =
     ResetRuleMatchCache (c\<lparr>m_IPCIDRMatchSource := False, m_IPCIDRAcceptEmpty := False\<rparr>)"

end
