(* ===== verification/Go_Std.thy ===== *)
theory Go_Std
  imports QM_Prelude
begin

text \<open>
  The functions of Go's standard library that the modelled code calls and whose behaviour its
  properties depend on: parts of \<^verbatim>\<open>strings\<close>, \<^verbatim>\<open>strconv.ParseUint\<close>, \<^verbatim>\<open>filepath.Base\<close> (on a system
  whose separator is a slash) and hardware addresses of package \<^verbatim>\<open>net\<close>.
\<close>

subsection \<open>Strings\<close>

definition HasPrefix :: "string \<Rightarrow> string \<Rightarrow> bool" where
  "HasPrefix s p = (take (length p) s = p)"

definition TrimPrefix :: "string \<Rightarrow> string \<Rightarrow> string" where
  "TrimPrefix s p = (if HasPrefix s p then drop (length p) s else s)"

fun strings_Contains :: "string \<Rightarrow> string \<Rightarrow> bool" where
  "strings_Contains [] sub = (sub = [])"
| "strings_Contains (c # s) sub = (HasPrefix (c # s) sub \<or> strings_Contains s sub)"

text \<open>\<^verbatim>\<open>strings.Index(s, ":")\<close>; \<open>None\<close> is Go's \<open>-1\<close>.\<close>

fun strings_IndexByte :: "string \<Rightarrow> char \<Rightarrow> nat option" where
  "strings_IndexByte [] c = None"
| "strings_IndexByte (x # xs) c = (if x = c then Some 0 else map_option Suc (strings_IndexByte xs c))"

subsection \<open>Numbers\<close>

definition digit_val :: "char \<Rightarrow> nat option" where
  "digit_val c = (let n = of_char c :: nat in if 48 \<le> n \<and> n \<le> 57 then Some (n - 48) else None)"

fun digits_val :: "nat \<Rightarrow> string \<Rightarrow> nat option" where
  "digits_val acc [] = Some acc"
| "digits_val acc (c # cs) =
     (case digit_val c of None \<Rightarrow> None | Some d \<Rightarrow> digits_val (acc * 10 + d) cs)"

text \<open>
  \<^verbatim>\<open>strconv.ParseUint(s, 10, bits)\<close>: the empty string and a string with a byte that is not a digit
  are syntax errors, a value of more than \<open>bits\<close> bits is a range error; \<open>None\<close> is either error.
\<close>

definition ParseUint10 :: "string \<Rightarrow> nat \<Rightarrow> nat option" where
  "ParseUint10 s bits =
     (if s = [] then None
      else case digits_val 0 s of None \<Rightarrow> None | Some n \<Rightarrow> if n < 2 ^ bits then Some n else None)"

subsection \<open>Paths\<close>

text \<open>\<^verbatim>\<open>filepath.Base\<close>: the last path element, with trailing slashes removed first.\<close>

definition filepath_Base :: "string \<Rightarrow> string" where
  "filepath_Base path =
     (if path = [] then ''.''
      else let stripped = rev (dropWhile (\<lambda>c. c = CHR ''/'') (rev path));
               base = rev (takeWhile (\<lambda>c. c \<noteq> CHR ''/'') (rev stripped))
           in if base = [] then ''/'' else base)"

subsection \<open>Hardware addresses\<close>

definition hex_digit :: "nat \<Rightarrow> char" where
  "hex_digit n = (''0123456789abcdef'' ! (n mod 16))"

definition hex_val :: "char \<Rightarrow> nat option" where
  "hex_val c = (let n = of_char c :: nat in
     if 48 \<le> n \<and> n \<le> 57 then Some (n - 48)
     else if 97 \<le> n \<and> n \<le> 102 then Some (n - 97 + 10)
     else if 65 \<le> n \<and> n \<le> 70 then Some (n - 65 + 10)
     else None)"

definition hex_byte :: "byte \<Rightarrow> string" where
  "hex_byte b = [hex_digit (unat b div 16), hex_digit (unat b)]"

text \<open>\<^verbatim>\<open>HardwareAddr.String\<close>: lower-case hexadecimal bytes separated by colons.\<close>

fun HardwareAddr_String :: "bytes \<Rightarrow> string" where
  "HardwareAddr_String [] = []"
| "HardwareAddr_String [b] = hex_byte b"
| "HardwareAddr_String (b # bs) = hex_byte b @ CHR '':'' # HardwareAddr_String bs"

text \<open>
  \<^verbatim>\<open>xtoi2(s, e)\<close>: the byte in the first two hexadecimal digits of \<open>s\<close>, where a third byte, if there
  is one, must be \<open>e\<close>.
\<close>

fun xtoi2 :: "string \<Rightarrow> char \<Rightarrow> byte option" where
  "xtoi2 [a, b] e =
     (case (hex_val a, hex_val b) of (Some x, Some y) \<Rightarrow> Some (of_nat (16 * x + y)) | _ \<Rightarrow> None)"
| "xtoi2 (a # b # c # _) e =
     (if c \<noteq> e then None
      else case (hex_val a, hex_val b) of (Some x, Some y) \<Rightarrow> Some (of_nat (16 * x + y)) | _ \<Rightarrow> None)"
| "xtoi2 _ e = None"

text \<open>The loops of \<^verbatim>\<open>net.ParseMAC\<close> for the two-digit and the four-digit notation.\<close>

fun parse_mac2 :: "nat \<Rightarrow> string \<Rightarrow> char \<Rightarrow> bytes option" where
  "parse_mac2 0 s e = Some []"
| "parse_mac2 (Suc n) s e =
     (case xtoi2 s e of None \<Rightarrow> None
      | Some b \<Rightarrow> map_option (\<lambda>bs. b # bs) (parse_mac2 n (drop 3 s) e))"

fun parse_mac4 :: "nat \<Rightarrow> string \<Rightarrow> char \<Rightarrow> bytes option" where
  "parse_mac4 0 s e = Some []"
| "parse_mac4 (Suc n) s e =
     (case (xtoi2 (take 2 s) (CHR 0x00), xtoi2 (drop 2 s) e) of
        (Some b, Some c) \<Rightarrow> map_option (\<lambda>bs. b # c # bs) (parse_mac4 n (drop 5 s) e)
      | _ \<Rightarrow> None)"

definition ParseMAC :: "string \<Rightarrow> bytes option" where
  "ParseMAC s =
     (if length s < 14 then None
      else if s ! 2 = CHR '':'' \<or> s ! 2 = CHR ''-'' then
        (if (length s + 1) mod 3 \<noteq> 0 then None
         else let n = (length s + 1) div 3 in
           if n \<noteq> 6 \<and> n \<noteq> 8 \<and> n \<noteq> 20 then None else parse_mac2 n s (s ! 2))
      else if s ! 4 = CHR ''.'' then
        (if (length s + 1) mod 5 \<noteq> 0 then None
         else let n = 2 * (length s + 1) div 5 in
           if n \<noteq> 6 \<and> n \<noteq> 8 \<and> n \<noteq> 20 then None else parse_mac4 (n div 2) s (s ! 4))
      else None)"

text \<open>\<^verbatim>\<open>hex.DecodeString\<close>; \<open>None\<close> is an error.\<close>

fun hex_DecodeString :: "string \<Rightarrow> bytes option" where
  "hex_DecodeString [] = Some []"
| "hex_DecodeString [_] = None"
| "hex_DecodeString (a # b # s) =
     (case (hex_val a, hex_val b) of
        (Some x, Some y) \<Rightarrow> map_option (\<lambda>bs. of_nat (16 * x + y) # bs) (hex_DecodeString s)
      | _ \<Rightarrow> None)"

subsection \<open>Laws\<close>

lemma HasPrefix_iff: "HasPrefix s p \<longleftrightarrow> (\<exists>t. s = p @ t)"
  by (auto simp: HasPrefix_def) (metis append_take_drop_id)

lemma strings_Contains_iff: "strings_Contains s sub \<longleftrightarrow> (\<exists>u v. s = u @ sub @ v)"
proof (induction s)
  case Nil
  then show ?case by auto
next
  case (Cons c s)
  have "(\<exists>u v. c # s = u @ sub @ v) \<longleftrightarrow> HasPrefix (c # s) sub \<or> (\<exists>u v. s = u @ sub @ v)"
    (is "?L \<longleftrightarrow> ?R")
  proof
    assume ?L
    then obtain u v where uv: "c # s = u @ sub @ v" by blast
    then show ?R by (cases u) (auto simp: HasPrefix_iff)
  next
    assume ?R
    then show ?L
    proof
      assume "HasPrefix (c # s) sub"
      then obtain t where "c # s = sub @ t" by (auto simp: HasPrefix_iff)
      then have "c # s = [] @ sub @ t" by simp
      then show ?L by blast
    next
      assume "\<exists>u v. s = u @ sub @ v"
      then obtain u v where "s = u @ sub @ v" by blast
      then have "c # s = (c # u) @ sub @ v" by simp
      then show ?L by blast
    qed
  qed
  with Cons show ?case by simp
qed

lemma strings_IndexByte_Some:
  "strings_IndexByte s c = Some i \<Longrightarrow> i < length s \<and> s ! i = c \<and> c \<notin> set (take i s)"
  by (induction s arbitrary: i) (auto split: if_splits)

lemma strings_IndexByte_None: "strings_IndexByte s c = None \<longleftrightarrow> c \<notin> set s"
  by (induction s) auto

lemma strings_IndexByte_append:
  "c \<notin> set u \<Longrightarrow> strings_IndexByte (u @ c # v) c = Some (length u)"
  by (induction u) auto

lemma ParseUint10_bound: "ParseUint10 s bits = Some n \<Longrightarrow> n < 2 ^ bits"
  by (auto simp: ParseUint10_def split: if_splits option.splits)

lemma hex_val_hex_digit: "hex_val (hex_digit n) = Some (n mod 16)"
proof -
  have "list_all (\<lambda>k. hex_val (''0123456789abcdef'' ! k) = Some k) [0..<16]" by code_simp
  moreover have "n mod 16 \<in> set [0..<16]" by simp
  ultimately show ?thesis unfolding list_all_iff hex_digit_def by blast
qed

lemma xtoi2_hex_byte: "xtoi2 (hex_byte b) e = Some b" "xtoi2 (hex_byte b @ e # s) e = Some b"
proof -
  have "unat b < 2 ^ LENGTH(8)" by (rule unsigned_less)
  then have "unat b div 16 < 16" by simp
  then have "16 * (unat b div 16 mod 16) + unat b mod 16 = unat b" by simp
  then show "xtoi2 (hex_byte b) e = Some b" "xtoi2 (hex_byte b @ e # s) e = Some b"
    by (simp_all add: hex_byte_def hex_val_hex_digit flip: of_nat_add of_nat_mult)
qed

lemma HardwareAddr_String_Cons:
  "bs \<noteq> [] \<Longrightarrow> HardwareAddr_String (b # bs) = hex_byte b @ CHR '':'' # HardwareAddr_String bs"
  by (cases bs) simp_all

lemma length_HardwareAddr_String:
  "bs \<noteq> [] \<Longrightarrow> length (HardwareAddr_String bs) + 1 = 3 * length bs"
proof (induction bs)
  case Nil
  then show ?case by simp
next
  case (Cons b bs)
  then show ?case by (cases "bs = []") (simp_all add: hex_byte_def HardwareAddr_String_Cons)
qed

lemma parse_mac2_String:
  "parse_mac2 (length bs) (HardwareAddr_String bs) (CHR '':'') = Some bs"
proof (induction bs)
  case Nil
  then show ?case by simp
next
  case (Cons b bs)
  show ?case
  proof (cases "bs = []")
    case True
    then show ?thesis by (simp add: xtoi2_hex_byte)
  next
    case False
    then have "drop 3 (HardwareAddr_String (b # bs)) = HardwareAddr_String bs"
      by (simp add: HardwareAddr_String_Cons hex_byte_def)
    with False Cons show ?thesis
      by (simp add: HardwareAddr_String_Cons xtoi2_hex_byte)
  qed
qed

text \<open>Printing a hardware address and parsing it again gives the address back.\<close>

lemma ParseMAC_String:
  assumes "length bs \<in> {6, 8, 20}"
  shows "ParseMAC (HardwareAddr_String bs) = Some bs"
proof -
  from assms have ne: "bs \<noteq> []" by auto
  then obtain b c cs where bs: "bs = b # c # cs" using assms by (cases bs; cases "tl bs") auto
  let ?s = "HardwareAddr_String bs"
  have len: "length ?s + 1 = 3 * length bs" using length_HardwareAddr_String [OF ne] .
  have "?s ! 2 = CHR '':''" by (simp add: bs hex_byte_def)
  moreover have "\<not> length ?s < 14" using len assms by auto
  moreover have "(length ?s + 1) mod 3 = 0" "(length ?s + 1) div 3 = length bs"
    using len by simp_all
  ultimately show ?thesis
    using parse_mac2_String [of bs] assms by (auto simp: ParseMAC_def Let_def)
qed

end
