(* ===== verification/Rule_Items.thy ===== *)
theory Rule_Items
  imports Inbound_Context Go_Std "HOL-Library.AList"
begin

text \<open>
  The conditions a rule is made of (route/rule/rule\_item\_*.go and the interface-address items):
  for every item type of the source its constructor and its \<^verbatim>\<open>Match\<close> method. The source reaches an
  item through the interface \<^verbatim>\<open>RuleItem\<close>; here the items are one datatype and the dynamic dispatch
  is \<open>RuleItem_Match\<close>.
\<close>

subsection \<open>The environment of a match\<close>

text \<open>
  Library functions the repository does not contain (the sing and miekg/dns libraries, the regular
  expression engine, Unicode case mapping) and the components an item holds a pointer to, as they
  are at the moment of the match: the network manager, the Clash server, preferred outbounds and
  DNS transports. A regular expression is represented by its source text. A preferred outbound is
  given the metadata; the implementations (bridge, openconnect, openvpn, tailscale, wireguard) read
  at most its \<^verbatim>\<open>PreMatch\<close> flag, which is what is passed here.
\<close>

record env =
  x_IsIP :: "Socksaddr \<Rightarrow> bool"
  x_IsIPv4 :: "Socksaddr \<Rightarrow> bool"
  x_IsIPv6 :: "Socksaddr \<Rightarrow> bool"
  x_IsDomain :: "Socksaddr \<Rightarrow> bool"
  x_sa_IsValid :: "Socksaddr \<Rightarrow> bool"
  x_IsDomainName :: "string \<Rightarrow> bool"
  x_IsPublicAddr :: "addr \<Rightarrow> bool"
  x_AddrFromIP :: "bytes \<Rightarrow> addr"
  x_Matcher_Match :: "domain_Matcher \<Rightarrow> string \<Rightarrow> bool"
  x_AdGuardMatcher_Match :: "domain_AdGuardMatcher \<Rightarrow> string \<Rightarrow> bool"
  x_IPSet_Contains :: "IPSet \<Rightarrow> addr \<Rightarrow> bool"
  x_IsDuplicate :: "RR \<Rightarrow> RR \<Rightarrow> bool"
  x_CanonicalName :: "string \<Rightarrow> string"
  x_MatchString :: "string \<Rightarrow> string \<Rightarrow> bool"
  x_ToLower :: "string \<Rightarrow> string"
  x_EqualFold :: "string \<Rightarrow> string \<Rightarrow> bool"
  x_IsAndroid :: bool
  x_ClashMode :: "string option"
  x_PreferredDomain :: "string \<Rightarrow> bool \<Rightarrow> string \<Rightarrow> bool"
  x_PreferredAddress :: "string \<Rightarrow> bool \<Rightarrow> addr \<Rightarrow> bool"
  x_TransportPreferredDomain :: "string \<Rightarrow> string \<Rightarrow> bool"
  x_DefaultNetworkInterface :: "NetworkInterface option"
  x_NetworkInterfaces :: "NetworkInterface list"
  x_MyInterfaces :: "string list"
  x_FinderInterfaces :: "(string \<times> prefix list) list"
  x_DefaultInterfaceAddresses :: "prefix list option"
  x_WIFI_SSID :: string
  x_WIFI_BSSID :: string

subsection \<open>Addresses of a DNS response\<close>

definition valid_addrs :: "addr list \<Rightarrow> addr list" where
  "valid_addrs as = filter addr_IsValid as"

fun svcb_addresses :: "env \<Rightarrow> svcb_value \<Rightarrow> addr list" where
  "svcb_addresses E (SVCBIPv4Hint ips) = valid_addrs (map (\<lambda>ip. addr_Unmap (x_AddrFromIP E ip)) ips)"
| "svcb_addresses E (SVCBIPv6Hint ips) = valid_addrs (map (x_AddrFromIP E) ips)"
| "svcb_addresses E (SVCBOther _) = []"

fun rr_addresses :: "env \<Rightarrow> RR \<Rightarrow> addr list" where
  "rr_addresses E (RR_A ip) = valid_addrs [x_AddrFromIP E ip]"
| "rr_addresses E (RR_AAAA ip) = valid_addrs [x_AddrFromIP E ip]"
| "rr_addresses E (RR_HTTPS vs) = concat (map (svcb_addresses E) vs)"
| "rr_addresses E (RR_SOA _ _) = []"
| "rr_addresses E (RR_OPT _) = []"
| "rr_addresses E (RR_Other _ _) = []"

definition DNSResponseAddresses :: "env \<Rightarrow> dns_Msg option \<Rightarrow> addr list" where
  "DNSResponseAddresses E response =
     (case response of
        None \<Rightarrow> []
      | Some r \<Rightarrow> if msg_Rcode r \<noteq> RcodeSuccess then [] else concat (map (rr_addresses E) (msg_Answer r)))"

definition DNSResponseAddressesForMatch :: "env \<Rightarrow> InboundContext \<Rightarrow> addr list" where
  "DNSResponseAddressesForMatch E c = DNSResponseAddresses E (m_DNSResponse c)"

subsection \<open>Domain conditions\<close>

text \<open>The host every domain condition looks at: the sniffed or mapped domain, else the
  destination's name. The empty string is "no host".\<close>

definition domainHost :: "InboundContext \<Rightarrow> string" where
  "domainHost m = (if m_Domain m \<noteq> [] then m_Domain m else sa_Fqdn (m_Destination m))"

datatype item_error =
    EmptyDomainItem
  | EmptyDomainSuffixItem
  | BadExpression nat
  | BadPrefix nat
  | BadPortRange string
  | BadIPSet

definition NewDomainItem :: "string list \<Rightarrow> string list \<Rightarrow> (item_error, domain_Matcher) res" where
  "NewDomainItem domains domainSuffixes =
     (if [] \<in> set domains then Inl EmptyDomainItem
      else if [] \<in> set domainSuffixes then Inl EmptyDomainSuffixItem
      else Inr (NewMatcher domains domainSuffixes False))"

definition DomainItem_Match :: "env \<Rightarrow> domain_Matcher \<Rightarrow> InboundContext \<Rightarrow> bool" where
  "DomainItem_Match E matcher m =
     (if domainHost m = [] then False else x_Matcher_Match E matcher (x_ToLower E (domainHost m)))"

definition DomainKeywordItem_Match :: "env \<Rightarrow> string list \<Rightarrow> InboundContext \<Rightarrow> bool" where
  "DomainKeywordItem_Match E keywords m =
     (if domainHost m = [] then False
      else list_ex (\<lambda>keyword. strings_Contains (x_ToLower E (domainHost m)) keyword) keywords)"

text \<open>
  \<^verbatim>\<open>regexp.Compile\<close> may fail; \<open>ok\<close> says which expressions compile. The constructor stops at the
  first bad expression and reports its index.
\<close>

fun compile_all :: "(string \<Rightarrow> bool) \<Rightarrow> nat \<Rightarrow> string list \<Rightarrow> (item_error, string list) res" where
  "compile_all ok i [] = Inr []"
| "compile_all ok i (e # es) =
     (if ok e then bindE (compile_all ok (Suc i) es) (\<lambda>ms. Inr (e # ms)) else Inl (BadExpression i))"

definition NewDomainRegexItem :: "(string \<Rightarrow> bool) \<Rightarrow> string list \<Rightarrow> (item_error, string list) res" where
  "NewDomainRegexItem ok expressions = compile_all ok 0 expressions"

definition DomainRegexItem_Match :: "env \<Rightarrow> string list \<Rightarrow> InboundContext \<Rightarrow> bool" where
  "DomainRegexItem_Match E matchers m =
     (if domainHost m = [] then False
      else list_ex (\<lambda>r. x_MatchString E r (x_ToLower E (domainHost m))) matchers)"

definition AdGuardDomainItem_Match :: "env \<Rightarrow> domain_AdGuardMatcher \<Rightarrow> InboundContext \<Rightarrow> bool" where
  "AdGuardDomainItem_Match E matcher m =
     (if domainHost m = [] then False
      else x_AdGuardMatcher_Match E matcher (x_ToLower E (domainHost m)))"

subsection \<open>Address conditions\<close>

text \<open>
  \<^verbatim>\<open>NewIPCIDRItem\<close>: every string is a prefix or else a single address (the two standard library
  parsers are parameters), collected by the library's set builder.
\<close>

datatype cidr_entry = CPrefix prefix | CAddr addr

fun parse_cidrs ::
  "(string \<Rightarrow> prefix option) \<Rightarrow> (string \<Rightarrow> addr option) \<Rightarrow> nat \<Rightarrow> string list \<Rightarrow> (item_error, cidr_entry list) res"
where
  "parse_cidrs pp pa i [] = Inr []"
| "parse_cidrs pp pa i (s # ss) =
     (case pp s of
        Some p \<Rightarrow> bindE (parse_cidrs pp pa (Suc i) ss) (\<lambda>cs. Inr (CPrefix p # cs))
      | None \<Rightarrow>
          (case pa s of
             Some a \<Rightarrow> bindE (parse_cidrs pp pa (Suc i) ss) (\<lambda>cs. Inr (CAddr a # cs))
           | None \<Rightarrow> Inl (BadPrefix i)))"

definition NewIPCIDRItem ::
  "(string \<Rightarrow> prefix option) \<Rightarrow> (string \<Rightarrow> addr option) \<Rightarrow> (cidr_entry list \<Rightarrow> IPSet option) \<Rightarrow>
   string list \<Rightarrow> (item_error, IPSet) res"
where
  "NewIPCIDRItem pp pa build prefixStrings =
     bindE (parse_cidrs pp pa 0 prefixStrings)
       (\<lambda>cs. case build cs of None \<Rightarrow> Inl BadIPSet | Some s \<Rightarrow> Inr s)"

definition IPCIDRItem_Match :: "env \<Rightarrow> bool \<Rightarrow> IPSet \<Rightarrow> InboundContext \<Rightarrow> bool" where
  "IPCIDRItem_Match E isSource ipSet m =
     (if isSource \<or> m_IPCIDRMatchSource m then x_IPSet_Contains E ipSet (sa_Addr (m_Source m))
      else if m_DestinationAddressMatchFromResponse m then
        (let addresses = DNSResponseAddressesForMatch E m in
           if addresses = [] then m_IPCIDRAcceptEmpty m
           else list_ex (x_IPSet_Contains E ipSet) addresses)
      else if x_IsIP E (m_Destination m) then x_IPSet_Contains E ipSet (sa_Addr (m_Destination m))
      else if m_DestinationAddresses m \<noteq> [] then
        list_ex (x_IPSet_Contains E ipSet) (m_DestinationAddresses m)
      else m_IPCIDRAcceptEmpty m)"

definition IPIsPrivateItem_Match :: "env \<Rightarrow> bool \<Rightarrow> InboundContext \<Rightarrow> bool" where
  "IPIsPrivateItem_Match E isSource m =
     (if isSource then \<not> x_IsPublicAddr E (sa_Addr (m_Source m))
      else if m_DestinationAddressMatchFromResponse m then
        list_ex (\<lambda>a. \<not> x_IsPublicAddr E a) (DNSResponseAddressesForMatch E m)
      else if addr_IsValid (sa_Addr (m_Destination m)) then
        \<not> x_IsPublicAddr E (sa_Addr (m_Destination m))
      else list_ex (\<lambda>a. \<not> x_IsPublicAddr E a) (m_DestinationAddresses m))"

definition IPAcceptAnyItem_Match :: "env \<Rightarrow> InboundContext \<Rightarrow> bool" where
  "IPAcceptAnyItem_Match E m =
     (if m_DestinationAddressMatchFromResponse m then DNSResponseAddressesForMatch E m \<noteq> []
      else m_DestinationAddresses m \<noteq> [])"

definition IPVersionItem_Match :: "env \<Rightarrow> bool \<Rightarrow> InboundContext \<Rightarrow> bool" where
  "IPVersionItem_Match E isIPv6 m =
     ((m_IPVersion m \<noteq> 0 \<and> ((m_IPVersion m = 6) = isIPv6)) \<or>
      (x_IsIP E (m_Destination m) \<and> (x_IsIPv6 E (m_Destination m) = isIPv6)))"

subsection \<open>Ports\<close>

definition NewPortItem :: "16 word list \<Rightarrow> 16 word set" where
  "NewPortItem ports = go_set ports"

definition PortItem_Match :: "bool \<Rightarrow> 16 word set \<Rightarrow> InboundContext \<Rightarrow> bool" where
  "PortItem_Match isSource portMap m =
     (if isSource then sa_Port (m_Source m) \<in> portMap else sa_Port (m_Destination m) \<in> portMap)"

text \<open>One range \<^verbatim>\<open>start:end\<close>; a missing start is 0, a missing end is 65535.\<close>

definition parse_range :: "string \<Rightarrow> (item_error, 16 word \<times> 16 word) res" where
  "parse_range portRange =
     (case strings_IndexByte portRange (CHR '':'') of
        None \<Rightarrow> Inl (BadPortRange portRange)
      | Some subIndex \<Rightarrow>
          bindE (if subIndex > 0 then
                   (case ParseUint10 (take subIndex portRange) 16 of
                      None \<Rightarrow> Inl (BadPortRange portRange) | Some n \<Rightarrow> Inr n)
                 else Inr 0)
            (\<lambda>start. bindE
               (if subIndex = length portRange - 1 then Inr 0xFFFF
                else (case ParseUint10 (drop (subIndex + 1) portRange) 16 of
                        None \<Rightarrow> Inl (BadPortRange portRange) | Some n \<Rightarrow> Inr n))
               (\<lambda>end. Inr (of_nat start, of_nat end))))"

definition NewPortRangeItem :: "string list \<Rightarrow> (item_error, (16 word \<times> 16 word) list) res" where
  "NewPortRangeItem rangeList = mapE parse_range rangeList"

definition PortRangeItem_Match :: "bool \<Rightarrow> (16 word \<times> 16 word) list \<Rightarrow> InboundContext \<Rightarrow> bool" where
  "PortRangeItem_Match isSource portRangeList m =
     (let port = (if isSource then sa_Port (m_Source m) else sa_Port (m_Destination m))
      in list_ex (\<lambda>(start, end). start \<le> port \<and> port \<le> end) portRangeList)"

subsection \<open>Conditions on one field\<close>

definition NewInboundRule :: "string list \<Rightarrow> string set" where
  "NewInboundRule inbounds = go_set inbounds"

definition InboundItem_Match :: "string set \<Rightarrow> InboundContext \<Rightarrow> bool" where
  "InboundItem_Match inboundMap m = (m_Inbound m \<in> inboundMap)"

definition NewNetworkItem :: "string list \<Rightarrow> string set" where
  "NewNetworkItem networks = go_set networks"

definition NetworkItem_Match :: "string set \<Rightarrow> InboundContext \<Rightarrow> bool" where
  "NetworkItem_Match networkMap m = (m_Network m \<in> networkMap)"

definition NewAuthUserItem :: "string list \<Rightarrow> string set" where
  "NewAuthUserItem users = go_set users"

definition AuthUserItem_Match :: "string set \<Rightarrow> InboundContext \<Rightarrow> bool" where
  "AuthUserItem_Match userMap m = (m_User m \<in> userMap)"

definition NewProtocolItem :: "string list \<Rightarrow> string set" where
  "NewProtocolItem protocols = go_set protocols"

definition ProtocolItem_Match :: "string set \<Rightarrow> InboundContext \<Rightarrow> bool" where
  "ProtocolItem_Match protocolMap m = (m_Protocol m \<in> protocolMap)"

definition NewClientItem :: "string list \<Rightarrow> string set" where
  "NewClientItem clients = go_set clients"

definition ClientItem_Match :: "string set \<Rightarrow> InboundContext \<Rightarrow> bool" where
  "ClientItem_Match clientMap m = (m_Client m \<in> clientMap)"

text \<open>\<^verbatim>\<open>NewOutboundRule\<close>: the name "any" is not an entry of the map but turns on \<open>matchAny\<close>.\<close>

definition NewOutboundRule :: "string list \<Rightarrow> string set \<times> bool" where
  "NewOutboundRule outbounds =
     foldl (\<lambda>(outboundMap, matchAny) outbound.
              if outbound = ''any'' then (outboundMap, True) else (insert outbound outboundMap, matchAny))
           ({}, False) outbounds"

definition OutboundItem_Match :: "string set \<Rightarrow> bool \<Rightarrow> InboundContext \<Rightarrow> bool" where
  "OutboundItem_Match outboundMap matchAny m =
     (if matchAny then m_Outbound m \<noteq> [] else m_Outbound m \<in> outboundMap)"

definition ClashModeItem_Match :: "env \<Rightarrow> string \<Rightarrow> InboundContext \<Rightarrow> bool" where
  "ClashModeItem_Match E mode m =
     (case x_ClashMode E of None \<Rightarrow> False | Some current \<Rightarrow> x_EqualFold E current mode)"

definition NewSourceHostnameItem :: "string list \<Rightarrow> string set" where
  "NewSourceHostnameItem hostnameList = go_set hostnameList"

definition SourceHostnameItem_Match :: "string set \<Rightarrow> InboundContext \<Rightarrow> bool" where
  "SourceHostnameItem_Match hostnameMap m =
     (if m_SourceHostname m = [] then False else m_SourceHostname m \<in> hostnameMap)"

definition NewSourceMACAddressItem :: "string list \<Rightarrow> string set" where
  "NewSourceMACAddressItem addressList =
     foldl (\<lambda>addressMap address.
              case ParseMAC address of
                Some parsed \<Rightarrow> insert (HardwareAddr_String parsed) addressMap
              | None \<Rightarrow> insert address addressMap) {} addressList"

definition SourceMACAddressItem_Match :: "string set \<Rightarrow> InboundContext \<Rightarrow> bool" where
  "SourceMACAddressItem_Match addressMap m =
     (case m_SourceMACAddress m of None \<Rightarrow> False | Some hw \<Rightarrow> HardwareAddr_String hw \<in> addressMap)"

subsection \<open>Conditions on the process that owns the connection\<close>

definition NewProcessItem :: "string list \<Rightarrow> string set" where
  "NewProcessItem processNameList = go_set processNameList"

definition ProcessItem_Match :: "string set \<Rightarrow> InboundContext \<Rightarrow> bool" where
  "ProcessItem_Match processMap m =
     (case m_ProcessInfo m of
        None \<Rightarrow> False
      | Some i \<Rightarrow> if co_ProcessPath i = [] then False
                  else filepath_Base (co_ProcessPath i) \<in> processMap)"

definition NewProcessPathItem :: "string list \<Rightarrow> string set" where
  "NewProcessPathItem processNameList = go_set processNameList"

definition ProcessPathItem_Match :: "env \<Rightarrow> string set \<Rightarrow> InboundContext \<Rightarrow> bool" where
  "ProcessPathItem_Match E processMap m =
     (case m_ProcessInfo m of
        None \<Rightarrow> False
      | Some i \<Rightarrow>
          if co_ProcessPath i \<noteq> [] \<and> co_ProcessPath i \<in> processMap then True
          else if x_IsAndroid E then list_ex (\<lambda>p. p \<in> processMap) (co_AndroidPackageNames i)
          else False)"

definition NewProcessPathRegexItem :: "(string \<Rightarrow> bool) \<Rightarrow> string list \<Rightarrow> (item_error, string list) res" where
  "NewProcessPathRegexItem ok expressions = compile_all ok 0 expressions"

definition ProcessPathRegexItem_Match :: "env \<Rightarrow> string list \<Rightarrow> InboundContext \<Rightarrow> bool" where
  "ProcessPathRegexItem_Match E matchers m =
     (case m_ProcessInfo m of
        None \<Rightarrow> False
      | Some i \<Rightarrow> if co_ProcessPath i = [] then False
                  else list_ex (\<lambda>r. x_MatchString E r (co_ProcessPath i)) matchers)"

definition NewPackageNameItem :: "string list \<Rightarrow> string set" where
  "NewPackageNameItem packageNameList = go_set packageNameList"

definition PackageNameItem_Match :: "string set \<Rightarrow> InboundContext \<Rightarrow> bool" where
  "PackageNameItem_Match packageMap m =
     (case m_ProcessInfo m of
        None \<Rightarrow> False
      | Some i \<Rightarrow> if co_AndroidPackageNames i = [] then False
                  else list_ex (\<lambda>p. p \<in> packageMap) (co_AndroidPackageNames i))"

definition NewPackageNameRegexItem :: "(string \<Rightarrow> bool) \<Rightarrow> string list \<Rightarrow> (item_error, string list) res" where
  "NewPackageNameRegexItem ok expressions = compile_all ok 0 expressions"

definition PackageNameRegexItem_Match :: "env \<Rightarrow> string list \<Rightarrow> InboundContext \<Rightarrow> bool" where
  "PackageNameRegexItem_Match E matchers m =
     (case m_ProcessInfo m of
        None \<Rightarrow> False
      | Some i \<Rightarrow> if co_AndroidPackageNames i = [] then False
                  else list_ex (\<lambda>r. list_ex (x_MatchString E r) (co_AndroidPackageNames i)) matchers)"

definition NewUserItem :: "string list \<Rightarrow> string set" where
  "NewUserItem users = go_set users"

definition UserItem_Match :: "string set \<Rightarrow> InboundContext \<Rightarrow> bool" where
  "UserItem_Match userMap m =
     (case m_ProcessInfo m of
        None \<Rightarrow> False
      | Some i \<Rightarrow> if co_UserName i = [] then False else co_UserName i \<in> userMap)"

definition NewUserIDItem :: "int list \<Rightarrow> int set" where
  "NewUserIDItem userIdList = go_set userIdList"

definition UserIdItem_Match :: "int set \<Rightarrow> InboundContext \<Rightarrow> bool" where
  "UserIdItem_Match userIdMap m =
     (case m_ProcessInfo m of
        None \<Rightarrow> False
      | Some i \<Rightarrow> if co_UserId i = -1 then False else co_UserId i \<in> userIdMap)"

subsection \<open>Conditions on the device's network\<close>

definition NetworkTypeItem_Match :: "env \<Rightarrow> InterfaceType list \<Rightarrow> InboundContext \<Rightarrow> bool" where
  "NetworkTypeItem_Match E networkType m =
     (case x_DefaultNetworkInterface E of None \<Rightarrow> False | Some i \<Rightarrow> ni_Type i \<in> set networkType)"

definition NetworkIsExpensiveItem_Match :: "env \<Rightarrow> InboundContext \<Rightarrow> bool" where
  "NetworkIsExpensiveItem_Match E m =
     (case x_DefaultNetworkInterface E of None \<Rightarrow> False | Some i \<Rightarrow> ni_Expensive i)"

definition NetworkIsConstrainedItem_Match :: "env \<Rightarrow> InboundContext \<Rightarrow> bool" where
  "NetworkIsConstrainedItem_Match E m =
     (case x_DefaultNetworkInterface E of None \<Rightarrow> False | Some i \<Rightarrow> ni_Constrained i)"

definition NewWIFISSIDItem :: "string list \<Rightarrow> string set" where
  "NewWIFISSIDItem ssidList = go_set ssidList"

definition WIFISSIDItem_Match :: "env \<Rightarrow> string set \<Rightarrow> InboundContext \<Rightarrow> bool" where
  "WIFISSIDItem_Match E ssidMap m = (x_WIFI_SSID E \<in> ssidMap)"

text \<open>\<^verbatim>\<open>adapter.NormalizeWIFIBSSID\<close>; \<open>trim\<close> is \<^verbatim>\<open>strings.TrimSpace\<close>, which knows Unicode space.\<close>

definition NormalizeWIFIBSSID :: "(string \<Rightarrow> string) \<Rightarrow> string \<Rightarrow> string" where
  "NormalizeWIFIBSSID trim bssid0 =
     (let bssid = trim bssid0 in
        if bssid = [] then []
        else case ParseMAC bssid of
               Some parsed \<Rightarrow>
                 if length parsed = 6 then HardwareAddr_String parsed
                 else if length bssid = 12 then
                   (case hex_DecodeString bssid of Some d \<Rightarrow> HardwareAddr_String d | None \<Rightarrow> bssid)
                 else bssid
             | None \<Rightarrow>
                 if length bssid = 12 then
                   (case hex_DecodeString bssid of Some d \<Rightarrow> HardwareAddr_String d | None \<Rightarrow> bssid)
                 else bssid)"

definition NewWIFIBSSIDItem :: "(string \<Rightarrow> string) \<Rightarrow> string list \<Rightarrow> string set" where
  "NewWIFIBSSIDItem trim bssidList = go_set (map (NormalizeWIFIBSSID trim) bssidList)"

definition WIFIBSSIDItem_Match :: "env \<Rightarrow> string set \<Rightarrow> InboundContext \<Rightarrow> bool" where
  "WIFIBSSIDItem_Match E bssidMap m = (x_WIFI_BSSID E \<in> bssidMap)"

text \<open>A Go map filled by assignments: a later assignment to a key replaces the earlier one.\<close>

definition go_map :: "('k \<times> 'v) list \<Rightarrow> ('k \<times> 'v) list" where
  "go_map entries = foldl (\<lambda>al (k, v). AList.update k v al) [] entries"

definition NewInterfaceAddressItem :: "(string \<times> prefix list) list \<Rightarrow> (string \<times> prefix list) list" where
  "NewInterfaceAddressItem entries = go_map entries"

definition InterfaceAddressItem_Match :: "env \<Rightarrow> (string \<times> prefix list) list \<Rightarrow> InboundContext \<Rightarrow> bool" where
  "InterfaceAddressItem_Match E interfaceAddresses m =
     list_all (\<lambda>(ifName, addresses).
       case find (\<lambda>(name, _). name = ifName) (x_FinderInterfaces E) of
         None \<Rightarrow> False
       | Some (name, ifaceAddresses) \<Rightarrow>
           if name = [] then False
           else \<not> list_all (\<lambda>address. list_all (\<lambda>it. \<not> prefix_Overlaps address it) ifaceAddresses) addresses)
     interfaceAddresses"

definition NewNetworkInterfaceAddressItem ::
  "(InterfaceType \<times> prefix list) list \<Rightarrow> (InterfaceType \<times> prefix list) list"
where
  "NewNetworkInterfaceAddressItem entries = go_map entries"

definition NetworkInterfaceAddressItem_Match ::
  "env \<Rightarrow> (InterfaceType \<times> prefix list) list \<Rightarrow> InboundContext \<Rightarrow> bool"
where
  "NetworkInterfaceAddressItem_Match E interfaceAddresses m =
     list_all (\<lambda>(ifType, addresses).
       list_ex (\<lambda>i. ni_Name i \<notin> set (x_MyInterfaces E) \<and> ni_Type i = ifType \<and>
                    list_ex (\<lambda>it. list_ex (\<lambda>p. prefix_Overlaps p it) addresses) (ni_Addresses i))
         (x_NetworkInterfaces E))
     interfaceAddresses"

definition DefaultInterfaceAddressItem_Match :: "env \<Rightarrow> prefix list \<Rightarrow> InboundContext \<Rightarrow> bool" where
  "DefaultInterfaceAddressItem_Match E interfaceAddresses m =
     (case x_DefaultInterfaceAddresses E of
        None \<Rightarrow> False
      | Some addrs \<Rightarrow>
          list_all (\<lambda>address. \<not> list_all (\<lambda>it. \<not> prefix_Overlaps address it) addrs) interfaceAddresses)"

subsection \<open>Preferred outbounds and DNS servers\<close>

definition PreferredByItem_Match :: "env \<Rightarrow> string list \<Rightarrow> InboundContext \<Rightarrow> bool" where
  "PreferredByItem_Match E outbounds m =
     (if domainHost m \<noteq> [] \<and> list_ex (\<lambda>ob. x_PreferredDomain E ob (m_PreMatch m) (domainHost m)) outbounds then True
      else if x_IsIP E (m_Destination m) \<and>
              list_ex (\<lambda>ob. x_PreferredAddress E ob (m_PreMatch m) (sa_Addr (m_Destination m))) outbounds then True
      else list_ex (\<lambda>a. list_ex (\<lambda>ob. x_PreferredAddress E ob (m_PreMatch m) a) outbounds) (m_DestinationAddresses m))"

definition PreferredByDNSItem_Match :: "env \<Rightarrow> string list \<Rightarrow> InboundContext \<Rightarrow> bool" where
  "PreferredByDNSItem_Match E transports m =
     (if domainHost m = [] then False
      else list_ex (\<lambda>t. x_TransportPreferredDomain E t (x_CanonicalName E (domainHost m))) transports)"

subsection \<open>DNS query and response conditions\<close>

definition NewQueryTypeItem :: "16 word list \<Rightarrow> 16 word set" where
  "NewQueryTypeItem typeList = go_set typeList"

definition QueryTypeItem_Match :: "16 word set \<Rightarrow> InboundContext \<Rightarrow> bool" where
  "QueryTypeItem_Match typeMap m = (if m_QueryType m = 0 then False else m_QueryType m \<in> typeMap)"

definition QueryClientSubnetItem_Match :: "prefix list \<Rightarrow> InboundContext \<Rightarrow> bool" where
  "QueryClientSubnetItem_Match prefixes m =
     (let clientSubnet = m_QueryClientSubnet m in
        if \<not> prefix_IsValid clientSubnet then False
        else list_ex (\<lambda>p. prefix_Bits clientSubnet \<ge> prefix_Bits p \<and>
                          prefix_Contains p (prefix_Addr clientSubnet)) prefixes)"

definition QueryDNSSECItem_Match :: "InboundContext \<Rightarrow> bool" where
  "QueryDNSSECItem_Match m = m_QueryDNSSEC m"

definition DNSResponseRCodeItem_Match :: "int \<Rightarrow> InboundContext \<Rightarrow> bool" where
  "DNSResponseRCodeItem_Match rcode m =
     (case m_DNSResponse m of None \<Rightarrow> False | Some r \<Rightarrow> msg_Rcode r = rcode)"

text \<open>\<^verbatim>\<open>DNSRecordOptions.Match\<close> and the three selectors of a response section.\<close>

definition DNSRecordOptions_Match :: "env \<Rightarrow> RR option \<Rightarrow> RR \<Rightarrow> bool" where
  "DNSRecordOptions_Match E expected record =
     (case expected of None \<Rightarrow> False | Some rr \<Rightarrow> x_IsDuplicate E rr record)"

datatype response_section = SectionAnswer | SectionNs | SectionExtra

fun response_selector :: "response_section \<Rightarrow> dns_Msg \<Rightarrow> RR list" where
  "response_selector SectionAnswer message = msg_Answer message"
| "response_selector SectionNs message = msg_Ns message"
| "response_selector SectionExtra message = msg_Extra message"

definition DNSResponseRecordItem_Match ::
  "env \<Rightarrow> RR option list \<Rightarrow> response_section \<Rightarrow> InboundContext \<Rightarrow> bool"
where
  "DNSResponseRecordItem_Match E records selector m =
     (case m_DNSResponse m of
        None \<Rightarrow> False
      | Some r \<Rightarrow>
          list_ex (\<lambda>expected. list_ex (DNSRecordOptions_Match E expected) (response_selector selector r))
            records)"

subsection \<open>The item interface\<close>

datatype RuleItem =
    InboundItem "string set"
  | IPVersionItem bool
  | NetworkItem "string set"
  | AuthUserItem "string set"
  | ProtocolItem "string set"
  | ClientItem "string set"
  | DomainItem domain_Matcher
  | DomainKeywordItem "string list"
  | DomainRegexItem "string list"
  | AdGuardDomainItem domain_AdGuardMatcher
  | IPCIDRItem bool IPSet
  | IPIsPrivateItem bool
  | IPAcceptAnyItem
  | PortItem bool "16 word set"
  | PortRangeItem bool "(16 word \<times> 16 word) list"
  | ProcessItem "string set"
  | ProcessPathItem "string set"
  | ProcessPathRegexItem "string list"
  | PackageNameItem "string set"
  | PackageNameRegexItem "string list"
  | UserItem "string set"
  | UserIdItem "int set"
  | OutboundItem "string set" bool
  | ClashModeItem string
  | NetworkTypeItem "InterfaceType list"
  | NetworkIsExpensiveItem
  | NetworkIsConstrainedItem
  | WIFISSIDItem "string set"
  | WIFIBSSIDItem "string set"
  | InterfaceAddressItem "(string \<times> prefix list) list"
  | NetworkInterfaceAddressItem "(InterfaceType \<times> prefix list) list"
  | DefaultInterfaceAddressItem "prefix list"
  | SourceMACAddressItem "string set"
  | SourceHostnameItem "string set"
  | PreferredByItem "string list"
  | PreferredByDNSItem "string list"
  | QueryTypeItem "16 word set"
  | QueryClientSubnetItem "prefix list"
  | QueryDNSSECItem
  | DNSResponseRCodeItem int
  | DNSResponseRecordItem "RR option list" response_section

fun RuleItem_Match :: "env \<Rightarrow> RuleItem \<Rightarrow> InboundContext \<Rightarrow> bool" where
  "RuleItem_Match E (InboundItem s) = InboundItem_Match s"
| "RuleItem_Match E (IPVersionItem b) = IPVersionItem_Match E b"
| "RuleItem_Match E (NetworkItem s) = NetworkItem_Match s"
| "RuleItem_Match E (AuthUserItem s) = AuthUserItem_Match s"
| "RuleItem_Match E (ProtocolItem s) = ProtocolItem_Match s"
| "RuleItem_Match E (ClientItem s) = ClientItem_Match s"
| "RuleItem_Match E (DomainItem d) = DomainItem_Match E d"
| "RuleItem_Match E (DomainKeywordItem ks) = DomainKeywordItem_Match E ks"
| "RuleItem_Match E (DomainRegexItem rs) = DomainRegexItem_Match E rs"
| "RuleItem_Match E (AdGuardDomainItem d) = AdGuardDomainItem_Match E d"
| "RuleItem_Match E (IPCIDRItem b s) = IPCIDRItem_Match E b s"
| "RuleItem_Match E (IPIsPrivateItem b) = IPIsPrivateItem_Match E b"
| "RuleItem_Match E IPAcceptAnyItem = IPAcceptAnyItem_Match E"
| "RuleItem_Match E (PortItem b s) = PortItem_Match b s"
| "RuleItem_Match E (PortRangeItem b rs) = PortRangeItem_Match b rs"
| "RuleItem_Match E (ProcessItem s) = ProcessItem_Match s"
| "RuleItem_Match E (ProcessPathItem s) = ProcessPathItem_Match E s"
| "RuleItem_Match E (ProcessPathRegexItem rs) = ProcessPathRegexItem_Match E rs"
| "RuleItem_Match E (PackageNameItem s) = PackageNameItem_Match s"
| "RuleItem_Match E (PackageNameRegexItem rs) = PackageNameRegexItem_Match E rs"
| "RuleItem_Match E (UserItem s) = UserItem_Match s"
| "RuleItem_Match E (UserIdItem s) = UserIdItem_Match s"
| "RuleItem_Match E (OutboundItem s a) = OutboundItem_Match s a"
| "RuleItem_Match E (ClashModeItem c) = ClashModeItem_Match E c"
| "RuleItem_Match E (NetworkTypeItem ts) = NetworkTypeItem_Match E ts"
| "RuleItem_Match E NetworkIsExpensiveItem = NetworkIsExpensiveItem_Match E"
| "RuleItem_Match E NetworkIsConstrainedItem = NetworkIsConstrainedItem_Match E"
| "RuleItem_Match E (WIFISSIDItem s) = WIFISSIDItem_Match E s"
| "RuleItem_Match E (WIFIBSSIDItem s) = WIFIBSSIDItem_Match E s"
| "RuleItem_Match E (InterfaceAddressItem es) = InterfaceAddressItem_Match E es"
| "RuleItem_Match E (NetworkInterfaceAddressItem es) = NetworkInterfaceAddressItem_Match E es"
| "RuleItem_Match E (DefaultInterfaceAddressItem ps) = DefaultInterfaceAddressItem_Match E ps"
| "RuleItem_Match E (SourceMACAddressItem s) = SourceMACAddressItem_Match s"
| "RuleItem_Match E (SourceHostnameItem s) = SourceHostnameItem_Match s"
| "RuleItem_Match E (PreferredByItem obs) = PreferredByItem_Match E obs"
| "RuleItem_Match E (PreferredByDNSItem ts) = PreferredByDNSItem_Match E ts"
| "RuleItem_Match E (QueryTypeItem s) = QueryTypeItem_Match s"
| "RuleItem_Match E (QueryClientSubnetItem ps) = QueryClientSubnetItem_Match ps"
| "RuleItem_Match E QueryDNSSECItem = QueryDNSSECItem_Match"
| "RuleItem_Match E (DNSResponseRCodeItem c) = DNSResponseRCodeItem_Match c"
| "RuleItem_Match E (DNSResponseRecordItem rs sel) = DNSResponseRecordItem_Match E rs sel"

text \<open>\<^verbatim>\<open>matchAnyItem\<close> (rule\_abstract.go).\<close>

definition matchAnyItem :: "env \<Rightarrow> RuleItem list \<Rightarrow> InboundContext \<Rightarrow> bool" where
  "matchAnyItem E items m = list_ex (\<lambda>it. RuleItem_Match E it m) items"

subsection \<open>What a condition reads\<close>

text \<open>
  No condition reads the rule match cache, so a match can be repeated on a copy of the metadata
  whose cache was reset or changed.
\<close>

lemmas item_Match_defs =
  InboundItem_Match_def IPVersionItem_Match_def NetworkItem_Match_def AuthUserItem_Match_def
  ProtocolItem_Match_def ClientItem_Match_def DomainItem_Match_def DomainKeywordItem_Match_def
  DomainRegexItem_Match_def AdGuardDomainItem_Match_def IPCIDRItem_Match_def
  IPIsPrivateItem_Match_def IPAcceptAnyItem_Match_def PortItem_Match_def PortRangeItem_Match_def
  ProcessItem_Match_def ProcessPathItem_Match_def ProcessPathRegexItem_Match_def
  PackageNameItem_Match_def PackageNameRegexItem_Match_def UserItem_Match_def UserIdItem_Match_def
  OutboundItem_Match_def ClashModeItem_Match_def NetworkTypeItem_Match_def
  NetworkIsExpensiveItem_Match_def NetworkIsConstrainedItem_Match_def WIFISSIDItem_Match_def
  WIFIBSSIDItem_Match_def InterfaceAddressItem_Match_def NetworkInterfaceAddressItem_Match_def
  DefaultInterfaceAddressItem_Match_def SourceMACAddressItem_Match_def SourceHostnameItem_Match_def
  PreferredByItem_Match_def PreferredByDNSItem_Match_def QueryTypeItem_Match_def
  QueryClientSubnetItem_Match_def QueryDNSSECItem_Match_def DNSResponseRCodeItem_Match_def
  DNSResponseRecordItem_Match_def

lemmas item_reads = item_Match_defs domainHost_def DNSResponseAddressesForMatch_def

lemma RuleItem_Match_deferred [simp, frame_simps]:
  "RuleItem_Match E it (m\<lparr>m_DeferredIPCIDRMatchGroups := d\<rparr>) = RuleItem_Match E it m"
  by (cases it) (simp_all add: item_reads)

lemma RuleItem_Match_ignore [simp, frame_simps]:
  "RuleItem_Match E it (m\<lparr>m_IgnoreDestinationIPCIDRMatch := b\<rparr>) = RuleItem_Match E it m"
  by (cases it) (simp_all add: item_reads)

lemma RuleItem_Match_reset [simp, frame_simps]:
  "RuleItem_Match E it (ResetRuleMatchCache m) = RuleItem_Match E it m"
  by (cases it) (simp_all add: item_reads ResetRuleMatchCache_def)

lemma matchAnyItem_deferred [simp, frame_simps]:
  "matchAnyItem E items (m\<lparr>m_DeferredIPCIDRMatchGroups := d\<rparr>) = matchAnyItem E items m"
  "matchAnyItem E items (m\<lparr>m_IgnoreDestinationIPCIDRMatch := b\<rparr>) = matchAnyItem E items m"
  "matchAnyItem E items (ResetRuleMatchCache m) = matchAnyItem E items m"
  by (simp_all add: matchAnyItem_def)

lemma matchAnyItem_Nil [simp]: "\<not> matchAnyItem E [] m"
  by (simp add: matchAnyItem_def)

text \<open>The conditions whose verdict can depend on a DNS response.\<close>

fun response_item :: "RuleItem \<Rightarrow> bool" where
  "response_item (IPCIDRItem isSource s) = (\<not> isSource)"
| "response_item (IPIsPrivateItem isSource) = (\<not> isSource)"
| "response_item IPAcceptAnyItem = True"
| "response_item (DNSResponseRCodeItem c) = True"
| "response_item (DNSResponseRecordItem rs sel) = True"
| "response_item _ = False"

lemma RuleItem_Match_response:
  assumes "\<not> response_item it"
  shows "RuleItem_Match E it (m\<lparr>m_DNSResponse := r, m_DestinationAddressMatchFromResponse := b\<rparr>) =
         RuleItem_Match E it m"
  using assms by (cases it) (simp_all add: item_reads)

lemma matchAnyItem_response:
  assumes "list_all (\<lambda>it. \<not> response_item it) items"
  shows "matchAnyItem E items (m\<lparr>m_DNSResponse := r, m_DestinationAddressMatchFromResponse := b\<rparr>) =
         matchAnyItem E items m"
  using assms unfolding matchAnyItem_def
  by (induction items) (auto simp: RuleItem_Match_response)

end
