(* ===== verification/Rule_Match.thy ===== *)
theory Rule_Match
  imports Rule_Items
begin

unbundle bit_operations_syntax

text \<open>
  Matching of rules: the group bits (route/rule/match\_state.go), the shared bodies of default and
  logical rules (rule\_abstract.go), headless rules (rule\_headless.go), and the rule-set condition
  with its merging of a single-rule set into the outer rule (rule\_item\_rule\_set.go).

  The source passes the metadata by pointer. Matching writes one field of it,
  \<^verbatim>\<open>DeferredIPCIDRMatchGroups\<close>, so every matching function returns the verdict and the metadata
  after the call.
\<close>

subsection \<open>Group bits\<close>

type_synonym ruleMatchState = "8 word"

definition ruleMatchSourceAddress :: ruleMatchState where "ruleMatchSourceAddress = 1"
definition ruleMatchSourcePort :: ruleMatchState where "ruleMatchSourcePort = 2"
definition ruleMatchDestinationAddress :: ruleMatchState where "ruleMatchDestinationAddress = 4"
definition ruleMatchDestinationPort :: ruleMatchState where "ruleMatchDestinationPort = 8"

definition ruleMatchState_has :: "ruleMatchState \<Rightarrow> ruleMatchState \<Rightarrow> bool" where
  "ruleMatchState_has s target = (s AND target \<noteq> 0)"

record ruleGroupMatch =
  gm_required :: ruleMatchState
  gm_satisfied :: ruleMatchState

definition gm_done :: "ruleGroupMatch \<Rightarrow> bool" where
  "gm_done g = (gm_required g AND NOT (gm_satisfied g) = 0)"

definition gm_mergeWith :: "ruleGroupMatch \<Rightarrow> ruleGroupMatch \<Rightarrow> ruleGroupMatch" where
  "gm_mergeWith g other =
     \<lparr>gm_required = gm_required g OR gm_required other,
      gm_satisfied = gm_satisfied g OR gm_satisfied other\<rparr>"

subsection \<open>Default rules\<close>

text \<open>
  A rule-set condition. \<open>rs_setList\<close> holds the referenced rule-sets; a reference is the set's tag,
  the sets themselves live in a store.
\<close>

record RuleSetItem =
  rs_tagList :: "string list"
  rs_setList :: "string list"
  rs_ipCidrMatchSource :: bool
  rs_ipCidrAcceptEmpty :: bool

text \<open>
  \<open>allItems\<close> repeats every condition of the rule in order; the rule-set condition occurs in it as
  the same object that \<open>ruleSetItem\<close> points to, here a marker.
\<close>

datatype item_ref = PlainItem RuleItem | TheRuleSetItem

record abstractDefaultRule =
  r_items :: "RuleItem list"
  r_sourceAddressItems :: "RuleItem list"
  r_sourcePortItems :: "RuleItem list"
  r_destinationAddressItems :: "RuleItem list"
  r_destinationIPCIDRItems :: "RuleItem list"
  r_destinationPortItems :: "RuleItem list"
  r_allItems :: "item_ref list"
  r_ruleSetItem :: "RuleSetItem option"
  r_invert :: bool

definition destinationIPCIDRMatchesSource :: "abstractDefaultRule \<Rightarrow> InboundContext \<Rightarrow> bool" where
  "destinationIPCIDRMatchesSource r m = (m_IPCIDRMatchSource m \<and> r_destinationIPCIDRItems r \<noteq> [])"

definition destinationIPCIDRMatchesDestination :: "abstractDefaultRule \<Rightarrow> InboundContext \<Rightarrow> bool" where
  "destinationIPCIDRMatchesDestination r m =
     (\<not> m_IgnoreDestinationIPCIDRMatch m \<and> \<not> m_IPCIDRMatchSource m \<and> r_destinationIPCIDRItems r \<noteq> [])"

text \<open>One block of \<^verbatim>\<open>evaluateGroups\<close>: when the group is present its bit is required, and it is
  satisfied when a condition of it matches.\<close>

definition group_step :: "bool \<Rightarrow> ruleMatchState \<Rightarrow> bool \<Rightarrow> ruleGroupMatch \<Rightarrow> ruleGroupMatch" where
  "group_step present b hit g =
     (if present then
        \<lparr>gm_required = gm_required g OR b,
         gm_satisfied = (if hit then gm_satisfied g OR b else gm_satisfied g)\<rparr>
      else g)"

definition evaluateGroups ::
  "env \<Rightarrow> abstractDefaultRule \<Rightarrow> InboundContext \<Rightarrow> ruleGroupMatch \<times> InboundContext"
where
  "evaluateGroups E r m =
     (let g0 = \<lparr>gm_required = 0, gm_satisfied = 0\<rparr>;
          g1 = group_step (r_sourceAddressItems r \<noteq> []) ruleMatchSourceAddress
                 (matchAnyItem E (r_sourceAddressItems r) m) g0;
          g2 = group_step (destinationIPCIDRMatchesSource r m) ruleMatchSourceAddress
                 (\<not> ruleMatchState_has (gm_satisfied g1) ruleMatchSourceAddress \<and>
                  matchAnyItem E (r_destinationIPCIDRItems r) m) g1;
          g3 = group_step (r_sourcePortItems r \<noteq> []) ruleMatchSourcePort
                 (matchAnyItem E (r_sourcePortItems r) m) g2;
          g4 = group_step (r_destinationAddressItems r \<noteq> []) ruleMatchDestinationAddress
                 (matchAnyItem E (r_destinationAddressItems r) m) g3;
          g5 = group_step (destinationIPCIDRMatchesDestination r m) ruleMatchDestinationAddress
                 (\<not> ruleMatchState_has (gm_satisfied g4) ruleMatchDestinationAddress \<and>
                  matchAnyItem E (r_destinationIPCIDRItems r) m) g4;
          g6 = group_step (r_destinationPortItems r \<noteq> []) ruleMatchDestinationPort
                 (matchAnyItem E (r_destinationPortItems r) m) g5
      in (g6,
          if m_IgnoreDestinationIPCIDRMatch m \<and> \<not> m_IPCIDRMatchSource m \<and>
             r_destinationIPCIDRItems r \<noteq> [] \<and> r_destinationAddressItems r = []
          then m\<lparr>m_DeferredIPCIDRMatchGroups :=
                   m_DeferredIPCIDRMatchGroups m OR ruleMatchDestinationAddress\<rparr>
          else m))"

text \<open>\<open>None\<close> is the source's \<^verbatim>\<open>(ruleGroupMatch{}, false)\<close>.\<close>

definition evaluateForMerge ::
  "env \<Rightarrow> abstractDefaultRule \<Rightarrow> InboundContext \<Rightarrow> ruleGroupMatch option \<times> InboundContext"
where
  "evaluateForMerge E r m =
     (case evaluateGroups E r m of
        (groups, m1) \<Rightarrow>
          (if list_all (\<lambda>item. RuleItem_Match E item m1) (r_items r) then Some groups else None, m1))"

text \<open>
  \<open>rsm\<close> is the call \<^verbatim>\<open>r.ruleSetItem.matchWithOuterGroups(metadata, groups)\<close>, which is defined below
  on top of headless rules.
\<close>

definition matchInner ::
  "env \<Rightarrow> (RuleSetItem \<Rightarrow> InboundContext \<Rightarrow> ruleGroupMatch \<Rightarrow> bool \<times> InboundContext) \<Rightarrow>
   abstractDefaultRule \<Rightarrow> InboundContext \<Rightarrow> bool \<times> InboundContext"
where
  "matchInner E rsm r m =
     (case evaluateGroups E r m of
        (groups, m1) \<Rightarrow>
          if \<not> list_all (\<lambda>item. RuleItem_Match E item m1) (r_items r) then (False, m1)
          else
            (case (case r_ruleSetItem r of
                     Some rsi \<Rightarrow> rsm rsi m1 groups
                   | None \<Rightarrow> (gm_done groups, m1)) of
               (matched, m2) \<Rightarrow>
                 if matched then
                   (True, m2\<lparr>m_DeferredIPCIDRMatchGroups :=
                               m_DeferredIPCIDRMatchGroups m2 AND NOT (gm_satisfied groups)\<rparr>)
                 else (False, m2)))"

definition abstractDefaultRule_Match ::
  "env \<Rightarrow> (RuleSetItem \<Rightarrow> InboundContext \<Rightarrow> ruleGroupMatch \<Rightarrow> bool \<times> InboundContext) \<Rightarrow>
   abstractDefaultRule \<Rightarrow> InboundContext \<Rightarrow> bool \<times> InboundContext"
where
  "abstractDefaultRule_Match E rsm r m =
     (if r_allItems r = [] then (True, m)
      else
        (case matchInner E rsm r m of
           (matched, m1) \<Rightarrow>
             if r_invert r then
               (if \<not> matched then (True, m1\<lparr>m_DeferredIPCIDRMatchGroups := 0\<rparr>)
                else (m_DeferredIPCIDRMatchGroups m1 \<noteq> 0, m1))
             else (matched, m1)))"

subsection \<open>Logical rules\<close>

text \<open>The sub-rules are reached through their \<^verbatim>\<open>Match\<close> method; the list holds these methods.\<close>

type_synonym match_method = "InboundContext \<Rightarrow> bool \<times> InboundContext"

fun logical_and_loop :: "match_method list \<Rightarrow> InboundContext \<Rightarrow> 8 word \<Rightarrow> bool \<times> 8 word" where
  "logical_and_loop [] m deferredGroups = (True, deferredGroups)"
| "logical_and_loop (rule # rules) m deferredGroups =
     (case rule (ResetRuleCache m) of
        (matched, nested) \<Rightarrow>
          if \<not> matched then (False, 0)
          else logical_and_loop rules m (deferredGroups OR m_DeferredIPCIDRMatchGroups nested))"

fun logical_or_loop :: "match_method list \<Rightarrow> InboundContext \<Rightarrow> bool \<Rightarrow> 8 word \<Rightarrow> bool \<times> 8 word" where
  "logical_or_loop [] m matched deferredGroups = (matched, deferredGroups)"
| "logical_or_loop (rule # rules) m matched deferredGroups =
     (case rule (ResetRuleCache m) of
        (hit, nested) \<Rightarrow>
          if hit then
            (if m_DeferredIPCIDRMatchGroups nested = 0 then (True, 0)
             else logical_or_loop rules m True (deferredGroups OR m_DeferredIPCIDRMatchGroups nested))
          else logical_or_loop rules m matched deferredGroups)"

definition LogicalTypeAnd :: string where "LogicalTypeAnd = ''and''"
definition LogicalTypeOr :: string where "LogicalTypeOr = ''or''"

definition abstractLogicalRule_Match :: "string \<Rightarrow> bool \<Rightarrow> match_method list \<Rightarrow> match_method" where
  "abstractLogicalRule_Match mode invert rules m =
     (case (if mode = LogicalTypeAnd then logical_and_loop rules m 0
            else logical_or_loop rules m False 0) of
        (matched, deferredGroups) \<Rightarrow>
          (let m1 = (if matched then
                       m\<lparr>m_DeferredIPCIDRMatchGroups := m_DeferredIPCIDRMatchGroups m OR deferredGroups\<rparr>
                     else m)
           in if invert then (if \<not> matched then (True, m1) else (deferredGroups \<noteq> 0, m1))
              else (matched, m1)))"

subsection \<open>Headless rules\<close>

datatype HeadlessRule =
    DefaultHeadlessRule abstractDefaultRule
  | LogicalHeadlessRule string "HeadlessRule list" bool

text \<open>A headless rule is built without a rule-set condition, so the call never happens.\<close>

definition no_rule_set :: "RuleSetItem \<Rightarrow> InboundContext \<Rightarrow> ruleGroupMatch \<Rightarrow> bool \<times> InboundContext" where
  "no_rule_set rsi m groups = (False, m)"

fun HeadlessRule_Match :: "env \<Rightarrow> HeadlessRule \<Rightarrow> match_method" where
  "HeadlessRule_Match E (DefaultHeadlessRule r) = abstractDefaultRule_Match E no_rule_set r"
| "HeadlessRule_Match E (LogicalHeadlessRule mode rules invert) =
     abstractLogicalRule_Match mode invert (map (HeadlessRule_Match E) rules)"

fun matchAnyHeadlessRule_loop ::
  "match_method list \<Rightarrow> InboundContext \<Rightarrow> bool \<Rightarrow> 8 word \<Rightarrow> bool \<times> InboundContext"
where
  "matchAnyHeadlessRule_loop [] m matched deferredGroups =
     (matched,
      if matched then
        m\<lparr>m_DeferredIPCIDRMatchGroups := m_DeferredIPCIDRMatchGroups m OR deferredGroups\<rparr>
      else m)"
| "matchAnyHeadlessRule_loop (rule # rules) m matched deferredGroups =
     (case rule (ResetRuleMatchCache m) of
        (hit, nested) \<Rightarrow>
          if hit then
            (if m_DeferredIPCIDRMatchGroups nested = 0 then (True, m)
             else matchAnyHeadlessRule_loop rules m True
                    (deferredGroups OR m_DeferredIPCIDRMatchGroups nested))
          else matchAnyHeadlessRule_loop rules m matched deferredGroups)"

definition matchAnyHeadlessRule :: "env \<Rightarrow> HeadlessRule list \<Rightarrow> match_method" where
  "matchAnyHeadlessRule E rules m =
     matchAnyHeadlessRule_loop (map (HeadlessRule_Match E) rules) m False 0"

subsection \<open>Rule-set conditions\<close>

text \<open>The rules of the referenced sets at the moment of the match.\<close>

type_synonym rule_store = "string \<Rightarrow> HeadlessRule list"

definition mergeableRuleIn :: "HeadlessRule list \<Rightarrow> abstractDefaultRule option" where
  "mergeableRuleIn rules =
     (case rules of
        [DefaultHeadlessRule r] \<Rightarrow> if r_invert r \<or> r_ruleSetItem r \<noteq> None then None else Some r
      | _ \<Rightarrow> None)"

definition nestedMetadata :: "RuleSetItem \<Rightarrow> InboundContext \<Rightarrow> InboundContext" where
  "nestedMetadata rsi m =
     (ResetRuleMatchCache m)\<lparr>
        m_IPCIDRMatchSource := rs_ipCidrMatchSource rsi,
        m_IPCIDRAcceptEmpty := rs_ipCidrAcceptEmpty rsi\<rparr>"

fun RuleSetItem_Match_loop :: "env \<Rightarrow> rule_store \<Rightarrow> RuleSetItem \<Rightarrow> string list \<Rightarrow> InboundContext \<Rightarrow> bool" where
  "RuleSetItem_Match_loop E S rsi [] m = False"
| "RuleSetItem_Match_loop E S rsi (s # ss) m =
     (if fst (matchAnyHeadlessRule E (S s) (nestedMetadata rsi m)) then True
      else RuleSetItem_Match_loop E S rsi ss m)"

fun outer_groups_loop ::
  "env \<Rightarrow> rule_store \<Rightarrow> RuleSetItem \<Rightarrow> string list \<Rightarrow> InboundContext \<Rightarrow> ruleGroupMatch \<Rightarrow>
   bool \<Rightarrow> 8 word \<Rightarrow> bool \<times> InboundContext"
where
  "outer_groups_loop E S rsi [] m outerGroups matched deferredGroups =
     (matched,
      if matched then
        m\<lparr>m_DeferredIPCIDRMatchGroups := m_DeferredIPCIDRMatchGroups m OR deferredGroups\<rparr>
      else m)"
| "outer_groups_loop E S rsi (s # ss) m outerGroups matched deferredGroups =
     (case mergeableRuleIn (S s) of
        Some branch \<Rightarrow>
          (case evaluateForMerge E branch (nestedMetadata rsi m) of
             (Some branchGroups, nested) \<Rightarrow>
               (let merged = gm_mergeWith outerGroups branchGroups in
                  if gm_done merged then
                    (let branchDeferredGroups =
                           m_DeferredIPCIDRMatchGroups nested AND NOT (gm_satisfied merged)
                     in if branchDeferredGroups = 0 then
                          (True, m\<lparr>m_DeferredIPCIDRMatchGroups :=
                                     m_DeferredIPCIDRMatchGroups m AND NOT (gm_satisfied merged)\<rparr>)
                        else outer_groups_loop E S rsi ss m outerGroups True
                               (deferredGroups OR branchDeferredGroups))
                  else outer_groups_loop E S rsi ss m outerGroups matched deferredGroups)
           | (None, _) \<Rightarrow> outer_groups_loop E S rsi ss m outerGroups matched deferredGroups)
      | None \<Rightarrow>
          (if gm_done outerGroups then
             (case matchAnyHeadlessRule E (S s) (nestedMetadata rsi m) of
                (hit, nested) \<Rightarrow>
                  if hit then
                    (if m_DeferredIPCIDRMatchGroups nested = 0 then (True, m)
                     else outer_groups_loop E S rsi ss m outerGroups True
                            (deferredGroups OR m_DeferredIPCIDRMatchGroups nested))
                  else outer_groups_loop E S rsi ss m outerGroups matched deferredGroups)
           else outer_groups_loop E S rsi ss m outerGroups matched deferredGroups))"

definition matchWithOuterGroups ::
  "env \<Rightarrow> rule_store \<Rightarrow> RuleSetItem \<Rightarrow> InboundContext \<Rightarrow> ruleGroupMatch \<Rightarrow> bool \<times> InboundContext"
where
  "matchWithOuterGroups E S rsi m outerGroups =
     outer_groups_loop E S rsi (rs_setList rsi) m outerGroups False 0"

subsection \<open>Route rules\<close>

text \<open>A route rule with its action; the sub-rules of a logical rule carry no action of their own.\<close>

datatype 'a Rule =
    DefaultRule abstractDefaultRule 'a
  | LogicalRule string "'a Rule list" bool 'a

fun Rule_Match :: "env \<Rightarrow> rule_store \<Rightarrow> 'a Rule \<Rightarrow> match_method" where
  "Rule_Match E S (DefaultRule r a) = abstractDefaultRule_Match E (matchWithOuterGroups E S) r"
| "Rule_Match E S (LogicalRule mode rules invert a) =
     abstractLogicalRule_Match mode invert (map (Rule_Match E S) rules)"

fun Rule_Action :: "'a Rule \<Rightarrow> 'a" where
  "Rule_Action (DefaultRule r a) = a"
| "Rule_Action (LogicalRule mode rules invert a) = a"

end
