(* ===== verification/Rule_Semantics.thy ===== *)
theory Rule_Semantics
  imports Rule_Match
begin

unbundle bit_operations_syntax

text \<open>
  The meaning of rules as plain boolean formulas over their conditions, and the proofs that the
  matching code computes it. Three layers: the four condition groups behind the bit sets of
  match\_state.go, the formula of a default rule with its rule-sets merged in, and a three-valued
  reading of a match that leaves destination IP conditions undecided.
\<close>

subsection \<open>Condition groups\<close>

datatype cond_group = SrcAddr | SrcPort | DstAddr | DstPort

text \<open>The verdicts of the conditions of a group; a group without conditions has no verdict.\<close>

type_synonym verdicts = "cond_group \<Rightarrow> bool list"

definition item_verdicts :: "env \<Rightarrow> RuleItem list \<Rightarrow> InboundContext \<Rightarrow> bool list" where
  "item_verdicts E items m = map (\<lambda>it. RuleItem_Match E it m) items"

text \<open>
  Destination IP conditions count as source conditions in a rule-set used with
  \<^verbatim>\<open>rule_set_ip_cidr_match_source\<close>; they are left out while the addresses are not known yet.
\<close>

fun group_verdicts :: "env \<Rightarrow> abstractDefaultRule \<Rightarrow> InboundContext \<Rightarrow> verdicts" where
  "group_verdicts E r m SrcAddr =
     item_verdicts E (r_sourceAddressItems r) m @
     (if m_IPCIDRMatchSource m then item_verdicts E (r_destinationIPCIDRItems r) m else [])"
| "group_verdicts E r m SrcPort = item_verdicts E (r_sourcePortItems r) m"
| "group_verdicts E r m DstAddr =
     item_verdicts E (r_destinationAddressItems r) m @
     (if m_IgnoreDestinationIPCIDRMatch m \<or> m_IPCIDRMatchSource m then []
      else item_verdicts E (r_destinationIPCIDRItems r) m)"
| "group_verdicts E r m DstPort = item_verdicts E (r_destinationPortItems r) m"

definition group_ok :: "bool list \<Rightarrow> bool" where
  "group_ok vs = (vs = [] \<or> True \<in> set vs)"

definition groups_ok :: "verdicts \<Rightarrow> bool" where
  "groups_ok V = list_all (\<lambda>g. group_ok (V g)) [SrcAddr, SrcPort, DstAddr, DstPort]"

lemma all_groups: "(\<forall>g. P g) = (P SrcAddr \<and> P SrcPort \<and> P DstAddr \<and> P DstPort)"
  by (metis cond_group.exhaust)

lemma groups_ok_iff: "groups_ok V = (\<forall>g. group_ok (V g))"
  by (simp add: groups_ok_def all_groups)

text \<open>The bit sets are the characteristic words of the groups.\<close>

definition enc :: "(cond_group \<Rightarrow> bool) \<Rightarrow> 8 word" where
  "enc P = (if P SrcAddr then ruleMatchSourceAddress else 0) OR
           (if P SrcPort then ruleMatchSourcePort else 0) OR
           (if P DstAddr then ruleMatchDestinationAddress else 0) OR
           (if P DstPort then ruleMatchDestinationPort else 0)"

definition gm_of :: "verdicts \<Rightarrow> ruleGroupMatch" where
  "gm_of V = \<lparr>gm_required = enc (\<lambda>g. V g \<noteq> []), gm_satisfied = enc (\<lambda>g. True \<in> set (V g))\<rparr>"

lemmas group_bits = ruleMatchSourceAddress_def ruleMatchSourcePort_def
  ruleMatchDestinationAddress_def ruleMatchDestinationPort_def

lemma enc_or: "enc P OR enc Q = enc (\<lambda>g. P g \<or> Q g)"
  unfolding enc_def by (auto simp: ac_simps bit_eq_iff bit_simps)

lemma enc_diff_zero: "(enc P AND NOT (enc Q) = 0) = (\<forall>g. P g \<longrightarrow> Q g)"
  unfolding enc_def all_groups group_bits by auto

lemma dst_diff_zero: "(ruleMatchDestinationAddress AND NOT (enc Q) = 0) = Q DstAddr"
  unfolding enc_def group_bits by auto

lemma dst_diff: "ruleMatchDestinationAddress AND NOT (enc Q) = (if Q DstAddr then 0 else ruleMatchDestinationAddress)"
  unfolding enc_def group_bits by auto

lemma gm_mergeWith_of: "gm_mergeWith (gm_of V) (gm_of W) = gm_of (\<lambda>g. V g @ W g)"
  by (simp add: gm_mergeWith_def gm_of_def enc_or)

lemma gm_done_of: "gm_done (gm_of V) = groups_ok V"
  by (auto simp: gm_done_def gm_of_def enc_diff_zero groups_ok_iff group_ok_def)

lemma matchAnyItem_verdicts: "matchAnyItem E items m = (True \<in> set (item_verdicts E items m))"
  by (auto simp: matchAnyItem_def item_verdicts_def list_ex_iff)

lemma item_verdicts_Nil_iff [simp]: "item_verdicts E items m = [] \<longleftrightarrow> items = []"
  by (simp add: item_verdicts_def)

lemma item_verdicts_Nil [simp]: "item_verdicts E [] m = []"
  by (simp add: item_verdicts_def)

lemma ruleGroupMatch_eqI:
  "gm_required (g :: ruleGroupMatch) = gm_required h \<Longrightarrow> gm_satisfied g = gm_satisfied h \<Longrightarrow> g = h"
  by simp

lemma group_step_sel [simp]:
  "gm_required (group_step p b h g) = gm_required g OR (if p then b else 0)"
  "gm_satisfied (group_step p b h g) = gm_satisfied g OR (if p \<and> h then b else 0)"
  by (simp_all add: group_step_def)

lemma matchAnyItem_nonempty [simp]: "items \<noteq> [] \<and> matchAnyItem E items m \<longleftrightarrow> matchAnyItem E items m"
  by (cases items) simp_all

text \<open>When the destination IP conditions of a rule are left open by \<^verbatim>\<open>evaluateGroups\<close>.\<close>

definition defers :: "abstractDefaultRule \<Rightarrow> InboundContext \<Rightarrow> bool" where
  "defers r m = (m_IgnoreDestinationIPCIDRMatch m \<and> \<not> m_IPCIDRMatchSource m \<and>
                 r_destinationIPCIDRItems r \<noteq> [] \<and> r_destinationAddressItems r = [])"

definition dst_if :: "bool \<Rightarrow> 8 word" where
  "dst_if b = (if b then ruleMatchDestinationAddress else 0)"

lemma evaluateGroups_required:
  "gm_required (fst (evaluateGroups E r m)) = gm_required (gm_of (group_verdicts E r m))"
  unfolding evaluateGroups_def Let_def gm_of_def enc_def group_bits
    destinationIPCIDRMatchesSource_def destinationIPCIDRMatchesDestination_def
  by (auto simp: ac_simps)

lemma evaluateGroups_satisfied:
  "gm_satisfied (fst (evaluateGroups E r m)) = gm_satisfied (gm_of (group_verdicts E r m))"
  unfolding evaluateGroups_def Let_def gm_of_def enc_def group_bits ruleMatchState_has_def
    destinationIPCIDRMatchesSource_def destinationIPCIDRMatchesDestination_def
  by (auto simp: matchAnyItem_verdicts [symmetric] ac_simps)

lemma evaluateGroups_of:
  "evaluateGroups E r m =
     (gm_of (group_verdicts E r m),
      m\<lparr>m_DeferredIPCIDRMatchGroups := m_DeferredIPCIDRMatchGroups m OR dst_if (defers r m)\<rparr>)"
proof (rule prod_eqI)
  show "fst (evaluateGroups E r m) = fst (gm_of (group_verdicts E r m),
      m\<lparr>m_DeferredIPCIDRMatchGroups := m_DeferredIPCIDRMatchGroups m OR dst_if (defers r m)\<rparr>)"
    using evaluateGroups_required evaluateGroups_satisfied by (simp add: ruleGroupMatch_eqI)
  show "snd (evaluateGroups E r m) = snd (gm_of (group_verdicts E r m),
      m\<lparr>m_DeferredIPCIDRMatchGroups := m_DeferredIPCIDRMatchGroups m OR dst_if (defers r m)\<rparr>)"
    by (simp add: evaluateGroups_def Let_def dst_if_def defers_def)
qed

subsection \<open>The formula of a rule\<close>

definition items_ok :: "env \<Rightarrow> abstractDefaultRule \<Rightarrow> InboundContext \<Rightarrow> bool" where
  "items_ok E r m = list_all (\<lambda>item. RuleItem_Match E item m) (r_items r)"

definition default_formula ::
  "env \<Rightarrow> (RuleSetItem \<Rightarrow> verdicts \<Rightarrow> InboundContext \<Rightarrow> bool) \<Rightarrow>
   abstractDefaultRule \<Rightarrow> InboundContext \<Rightarrow> bool"
where
  "default_formula E rsf r m =
     (r_allItems r = [] \<or>
      ((items_ok E r m \<and>
        (case r_ruleSetItem r of
           None \<Rightarrow> groups_ok (group_verdicts E r m)
         | Some rsi \<Rightarrow> rsf rsi (group_verdicts E r m) m)) \<noteq> r_invert r))"

definition logical_formula :: "string \<Rightarrow> bool \<Rightarrow> bool list \<Rightarrow> bool" where
  "logical_formula mode invert vs =
     ((if mode = LogicalTypeAnd then list_all (\<lambda>v. v) vs else list_ex (\<lambda>v. v) vs) \<noteq> invert)"

fun headless_formula :: "env \<Rightarrow> HeadlessRule \<Rightarrow> InboundContext \<Rightarrow> bool" where
  "headless_formula E (DefaultHeadlessRule r) m = default_formula E (\<lambda>_ _ _. False) r m"
| "headless_formula E (LogicalHeadlessRule mode rules invert) m =
     logical_formula mode invert (map (\<lambda>r. headless_formula E r (ResetRuleCache m)) rules)"

text \<open>
  One rule-set of a rule whose own groups have the verdicts \<open>V\<close>: a set of one plain default rule
  contributes its conditions to the groups of the outer rule, any other set is a further condition.
\<close>

definition set_formula ::
  "env \<Rightarrow> HeadlessRule list \<Rightarrow> verdicts \<Rightarrow> InboundContext \<Rightarrow> bool"
where
  "set_formula E rules V nm =
     (case mergeableRuleIn rules of
        Some b \<Rightarrow> items_ok E b nm \<and> groups_ok (\<lambda>g. V g @ group_verdicts E b nm g)
      | None \<Rightarrow> groups_ok V \<and> list_ex (\<lambda>r. headless_formula E r nm) rules)"

definition rule_set_formula :: "env \<Rightarrow> rule_store \<Rightarrow> RuleSetItem \<Rightarrow> verdicts \<Rightarrow> InboundContext \<Rightarrow> bool" where
  "rule_set_formula E S rsi V m =
     list_ex (\<lambda>s. set_formula E (S s) V (nestedMetadata rsi m)) (rs_setList rsi)"

fun rule_formula :: "env \<Rightarrow> rule_store \<Rightarrow> 'a Rule \<Rightarrow> InboundContext \<Rightarrow> bool" where
  "rule_formula E S (DefaultRule r a) m = default_formula E (rule_set_formula E S) r m"
| "rule_formula E S (LogicalRule mode rules invert a) m =
     logical_formula mode invert (map (\<lambda>r. rule_formula E S r (ResetRuleCache m)) rules)"

subsection \<open>Matching with known addresses\<close>

text \<open>The metadata of a top-level match: nothing is left open.\<close>

definition decided :: "InboundContext \<Rightarrow> bool" where
  "decided m = (\<not> m_IgnoreDestinationIPCIDRMatch m \<and> m_DeferredIPCIDRMatchGroups m = 0)"

lemma deferred_same [simp]:
  "m_DeferredIPCIDRMatchGroups m = d \<Longrightarrow> m\<lparr>m_DeferredIPCIDRMatchGroups := d\<rparr> = m"
  by (cases m) simp

lemma decided_reset [simp]:
  "decided m \<Longrightarrow> decided (ResetRuleCache m)"
  "decided m \<Longrightarrow> decided (ResetRuleMatchCache m)"
  "decided m \<Longrightarrow> decided (nestedMetadata rsi m)"
  by (simp_all add: decided_def ResetRuleCache_def ResetRuleMatchCache_def nestedMetadata_def)

lemma ResetRuleMatchCache_nested [simp]:
  "ResetRuleMatchCache (nestedMetadata rsi m) = nestedMetadata rsi m"
  by (simp add: ResetRuleMatchCache_def nestedMetadata_def)

lemma evaluateGroups_decided:
  assumes "decided m"
  shows "evaluateGroups E r m = (gm_of (group_verdicts E r m), m)"
  using assms by (simp add: evaluateGroups_of decided_def defers_def dst_if_def)

text \<open>A matching method computes a formula on decided metadata and leaves the metadata alone.\<close>

definition computes :: "match_method \<Rightarrow> (InboundContext \<Rightarrow> bool) \<Rightarrow> bool" where
  "computes f P = (\<forall>m. decided m \<longrightarrow> f m = (P m, m))"

lemma computesD: "computes f P \<Longrightarrow> decided m \<Longrightarrow> f m = (P m, m)"
  by (simp add: computes_def)

lemma computesI: "(\<And>m. decided m \<Longrightarrow> f m = (P m, m)) \<Longrightarrow> computes f P"
  by (simp add: computes_def)

lemma abstractDefaultRule_computes:
  assumes rs: "\<And>rsi V m. r_ruleSetItem r = Some rsi \<Longrightarrow> decided m \<Longrightarrow> rsm rsi m (gm_of V) = (rsf rsi V m, m)"
  shows "computes (abstractDefaultRule_Match E rsm r) (default_formula E rsf r)"
proof (rule computesI)
  fix m assume d: "decided m"
  have z: "m_DeferredIPCIDRMatchGroups m = 0" using d by (simp add: decided_def)
  show "abstractDefaultRule_Match E rsm r m = (default_formula E rsf r m, m)"
    using z
    by (auto simp: abstractDefaultRule_Match_def matchInner_def evaluateGroups_decided [OF d]
        default_formula_def items_ok_def gm_done_of rs d split: option.split)
qed

lemma logical_and_computes:
  assumes "list_all2 computes fs Ps" "decided m"
  shows "logical_and_loop fs m 0 = (list_all (\<lambda>P. P (ResetRuleCache m)) Ps, 0)"
  using assms
proof (induction fs Ps rule: list_all2_induct)
  case (Cons f fs P Ps)
  then have "m_DeferredIPCIDRMatchGroups (ResetRuleCache m) = 0"
    using decided_reset by (simp add: ResetRuleCache_def ResetRuleMatchCache_def)
  with Cons show ?case by (simp add: computesD)
qed simp

lemma logical_or_computes:
  assumes "list_all2 computes fs Ps" "decided m"
  shows "logical_or_loop fs m False 0 = (list_ex (\<lambda>P. P (ResetRuleCache m)) Ps, 0)"
  using assms
proof (induction fs Ps rule: list_all2_induct)
  case (Cons f fs P Ps)
  then have "m_DeferredIPCIDRMatchGroups (ResetRuleCache m) = 0"
    using decided_reset by (simp add: ResetRuleCache_def ResetRuleMatchCache_def)
  with Cons show ?case by (simp add: computesD)
qed simp

lemma abstractLogicalRule_computes:
  assumes "list_all2 computes fs Ps"
  shows "computes (abstractLogicalRule_Match mode invert fs)
           (\<lambda>m. logical_formula mode invert (map (\<lambda>P. P (ResetRuleCache m)) Ps))"
proof (rule computesI)
  fix m assume d: "decided m"
  then have "m_DeferredIPCIDRMatchGroups m = 0" by (simp add: decided_def)
  then show "abstractLogicalRule_Match mode invert fs m =
      (logical_formula mode invert (map (\<lambda>P. P (ResetRuleCache m)) Ps), m)"
    by (auto simp: abstractLogicalRule_Match_def logical_formula_def logical_and_computes [OF assms d]
        logical_or_computes [OF assms d] list.pred_map list_all_iff list_ex_iff)
qed

lemma HeadlessRule_computes: "computes (HeadlessRule_Match E r) (headless_formula E r)"
proof (induction r)
  case (DefaultHeadlessRule r)
  show ?case
    by (auto intro!: abstractDefaultRule_computes simp: no_rule_set_def
        abstractDefaultRule_computes [unfolded computes_def] computes_def)
next
  case (LogicalHeadlessRule mode rules invert)
  then have "list_all2 computes (map (HeadlessRule_Match E) rules) (map (headless_formula E) rules)"
    by (simp add: list_all2_conv_all_nth)
  from abstractLogicalRule_computes [OF this] show ?case
    by (simp add: computes_def comp_def)
qed

text \<open>
  The interface \<^verbatim>\<open>adapter.HeadlessRule\<close> as its clients use it: a \<^verbatim>\<open>Match\<close> method that computes a
  formula of the metadata. The clients are the search for a matching rule in a rule-set and the
  search for the first matching rule in a rule list.
\<close>

locale headless_rule_interface =
  fixes match :: "'r \<Rightarrow> match_method"
    and meaning :: "'r \<Rightarrow> InboundContext \<Rightarrow> bool"
  assumes match_computes: "computes (match r) (meaning r)"
begin

lemma match_decided: "decided m \<Longrightarrow> match r m = (meaning r m, m)"
  using match_computes by (rule computesD)

lemma any_rule_loop:
  assumes "decided m" "ResetRuleMatchCache m = m"
  shows "matchAnyHeadlessRule_loop (map match rules) m False 0 = (list_ex (\<lambda>r. meaning r m) rules, m)"
proof -
  have z: "m_DeferredIPCIDRMatchGroups m = 0" using assms by (simp add: decided_def)
  show ?thesis by (induction rules) (simp_all add: assms match_decided z)
qed

text \<open>Matching a rule twice, or after other rules, gives the same verdict.\<close>

lemma match_again: "decided m \<Longrightarrow> match r' (snd (match r m)) = match r' m"
  by (simp add: match_decided)

lemma find_first:
  assumes "decided m"
  shows "find (\<lambda>r. fst (match r m)) rules = find (\<lambda>r. meaning r m) rules"
  using assms by (induction rules) (simp_all add: match_decided)

end

interpretation headless: headless_rule_interface "HeadlessRule_Match E" "headless_formula E" for E
  by unfold_locales (rule HeadlessRule_computes)

lemma matchAnyHeadlessRule_decided:
  assumes "decided m"
  shows "matchAnyHeadlessRule E rules (nestedMetadata rsi m) =
         (list_ex (\<lambda>r. headless_formula E r (nestedMetadata rsi m)) rules, nestedMetadata rsi m)"
  unfolding matchAnyHeadlessRule_def by (rule headless.any_rule_loop) (simp_all add: assms)

lemma evaluateForMerge_decided:
  assumes "decided m"
  shows "evaluateForMerge E r m =
         (if items_ok E r m then Some (gm_of (group_verdicts E r m)) else None, m)"
  by (simp add: evaluateForMerge_def evaluateGroups_decided [OF assms] items_ok_def)

lemma outer_groups_decided:
  assumes "decided m"
  shows "outer_groups_loop E S rsi ss m (gm_of V) False 0 =
         (list_ex (\<lambda>s. set_formula E (S s) V (nestedMetadata rsi m)) ss, m)"
proof -
  have z: "m_DeferredIPCIDRMatchGroups m = 0" "m_DeferredIPCIDRMatchGroups (nestedMetadata rsi m) = 0"
    using assms decided_reset(3) [OF assms, of rsi] by (simp_all add: decided_def)
  show ?thesis
  proof (induction ss)
    case (Cons s ss)
    then show ?case
      by (auto simp: set_formula_def z gm_mergeWith_of gm_done_of evaluateForMerge_decided
          matchAnyHeadlessRule_decided assms Let_def split: option.split)
  qed simp
qed

lemma Rule_computes: "computes (Rule_Match E S rule) (rule_formula E S rule)"
proof (induction rule)
  case (DefaultRule r a)
  have "computes (abstractDefaultRule_Match E (matchWithOuterGroups E S) r)
          (default_formula E (rule_set_formula E S) r)"
    by (rule abstractDefaultRule_computes)
      (simp add: matchWithOuterGroups_def outer_groups_decided rule_set_formula_def)
  then show ?case by (simp add: computes_def)
next
  case (LogicalRule mode rules invert a)
  then have "list_all2 computes (map (Rule_Match E S) rules) (map (rule_formula E S) rules)"
    by (simp add: list_all2_conv_all_nth)
  from abstractLogicalRule_computes [OF this] show ?case
    by (simp add: computes_def comp_def)
qed

interpretation route_rule: headless_rule_interface "Rule_Match E S" "rule_formula E S" for E S
  by unfold_locales (rule Rule_computes)

end
