(* ===== verification/Rule_Deferred.thy ===== *)
theory Rule_Deferred
  imports Rule_Semantics
begin

unbundle bit_operations_syntax

text \<open>
  Matching before the destination addresses are known. A DNS rule is first matched with
  \<^verbatim>\<open>IgnoreDestinationIPCIDRMatch\<close> set: conditions on the destination IP are skipped and recorded in
  \<^verbatim>\<open>DeferredIPCIDRMatchGroups\<close>. The verdict and the recorded groups together are a value of Kleene's
  three-valued logic; logical rules and inversion compute with it, and the value approximates the
  two-valued verdict a later match on any response gives.
\<close>

subsection \<open>Three-valued verdicts\<close>

datatype tri = TNo | TMaybe | TYes

instantiation tri :: linorder
begin

fun tri_rank :: "tri \<Rightarrow> nat" where
  "tri_rank TNo = 0"
| "tri_rank TMaybe = 1"
| "tri_rank TYes = 2"

definition less_eq_tri :: "tri \<Rightarrow> tri \<Rightarrow> bool" where
  "less_eq_tri s t = (tri_rank s \<le> tri_rank t)"

definition less_tri :: "tri \<Rightarrow> tri \<Rightarrow> bool" where
  "less_tri s t = (tri_rank s < tri_rank t)"

instance
proof
  fix x y z :: tri
  show "(x < y) = (x \<le> y \<and> \<not> y \<le> x)" by (auto simp: less_tri_def less_eq_tri_def)
  show "x \<le> x" by (simp add: less_eq_tri_def)
  show "x \<le> y \<Longrightarrow> y \<le> z \<Longrightarrow> x \<le> z" by (simp add: less_eq_tri_def)
  show "x \<le> y \<Longrightarrow> y \<le> x \<Longrightarrow> x = y" by (cases x; cases y) (simp_all add: less_eq_tri_def)
  show "x \<le> y \<or> y \<le> x" by (auto simp: less_eq_tri_def)
qed

end

fun tri_not :: "tri \<Rightarrow> tri" where
  "tri_not TNo = TYes"
| "tri_not TMaybe = TMaybe"
| "tri_not TYes = TNo"

definition tri_and :: "tri list \<Rightarrow> tri" where "tri_and ts = foldr min ts TYes"
definition tri_or :: "tri list \<Rightarrow> tri" where "tri_or ts = foldr max ts TNo"

definition tri_val :: "bool \<Rightarrow> 8 word \<Rightarrow> tri" where
  "tri_val matched d = (if \<not> matched then TNo else if d = 0 then TYes else TMaybe)"

definition tri_of :: "bool \<times> InboundContext \<Rightarrow> tri" where
  "tri_of res = tri_val (fst res) (m_DeferredIPCIDRMatchGroups (snd res))"

lemma tri_min_max [simp]:
  "min TNo t = TNo" "min t TNo = TNo" "min TYes t = t" "min t TYes = t"
  "max TNo t = t" "max t TNo = t" "max TYes t = TYes" "max t TYes = TYes"
  by (cases t; simp add: min_def max_def less_eq_tri_def)+

lemma tri_simps [simp]:
  "tri_and [] = TYes" "tri_and (t # ts) = min t (tri_and ts)"
  "tri_or [] = TNo" "tri_or (t # ts) = max t (tri_or ts)"
  by (simp_all add: tri_and_def tri_or_def)

lemma word_or_zero_iff [simp]: "(a OR b = 0) \<longleftrightarrow> a = 0 \<and> (b :: 'a::len word) = 0"
  by (auto simp: bit_eq_iff bit_simps)

subsection \<open>Logical rules compute with three values\<close>

definition tri_pair :: "bool \<times> 8 word \<Rightarrow> tri" where
  "tri_pair p = tri_val (fst p) (snd p)"

abbreviation sub_tris :: "match_method list \<Rightarrow> InboundContext \<Rightarrow> tri list" where
  "sub_tris fs m \<equiv> map (\<lambda>f. tri_of (f (ResetRuleCache m))) fs"

lemma tri_val_or: "tri_val True (d OR e) = min (tri_val True d) (tri_val True e)"
  by (simp add: tri_val_def)

lemma tri_val_simps [simp]:
  "tri_val False d = TNo" "tri_val True 0 = TYes" "d \<noteq> 0 \<Longrightarrow> tri_val True d = TMaybe"
  by (simp_all add: tri_val_def)

lemma tri_pair_simps [simp]: "tri_pair (b, d) = tri_val b d"
  by (simp add: tri_pair_def)

lemma logical_and_tri_acc:
  "tri_pair (logical_and_loop fs m d) = min (tri_val True d) (tri_and (sub_tris fs m))"
proof (induction fs arbitrary: d)
  case (Cons f fs)
  obtain b m' where f: "f (ResetRuleCache m) = (b, m')" by fastforce
  show ?case by (cases b) (simp_all add: f Cons.IH tri_of_def tri_val_or min.assoc)
qed simp

lemma logical_or_tri_acc:
  assumes "b \<longleftrightarrow> d \<noteq> 0"
  shows "tri_pair (logical_or_loop fs m b d) = max (tri_val b d) (tri_or (sub_tris fs m))"
  using assms
proof (induction fs arbitrary: b d)
  case (Cons f fs)
  obtain h m' where f: "f (ResetRuleCache m) = (h, m')" by fastforce
  show ?case
    using Cons.prems
    by (cases h; cases b; cases "m_DeferredIPCIDRMatchGroups m' = 0")
      (simp_all add: f Cons.IH tri_of_def max.assoc [symmetric])
qed simp

definition tri_logical :: "string \<Rightarrow> bool \<Rightarrow> tri list \<Rightarrow> tri" where
  "tri_logical mode invert ts =
     (let t = (if mode = LogicalTypeAnd then tri_and ts else tri_or ts)
      in if invert then tri_not t else t)"

lemma abstractLogicalRule_tri:
  assumes "m_DeferredIPCIDRMatchGroups m = 0"
  shows "tri_of (abstractLogicalRule_Match mode invert fs m) = tri_logical mode invert (sub_tris fs m)"
proof -
  define p where "p = (if mode = LogicalTypeAnd then logical_and_loop fs m 0 else logical_or_loop fs m False 0)"
  have "tri_pair p = (if mode = LogicalTypeAnd then tri_and (sub_tris fs m) else tri_or (sub_tris fs m))"
    by (simp add: p_def logical_and_tri_acc logical_or_tri_acc tri_val_def)
  moreover have "tri_of (abstractLogicalRule_Match mode invert fs m) =
      (if invert then tri_not (tri_pair p) else tri_pair p)"
    using assms unfolding abstractLogicalRule_Match_def p_def [symmetric]
    by (cases p) (auto simp: tri_of_def tri_pair_def tri_val_def)
  ultimately show ?thesis by (simp add: tri_logical_def Let_def)
qed

subsection \<open>Approximation\<close>

text \<open>\<open>TNo\<close> promises a later mismatch, \<open>TYes\<close> a later match, \<open>TMaybe\<close> nothing.\<close>

definition approximates :: "tri \<Rightarrow> bool \<Rightarrow> bool" where
  "approximates t v = ((t = TNo \<longrightarrow> \<not> v) \<and> (t = TYes \<longrightarrow> v))"

lemma approximates_simps [simp]:
  "approximates TNo v = (\<not> v)" "approximates TMaybe v" "approximates TYes v = v"
  by (simp_all add: approximates_def)

lemma approximates_not: "approximates (tri_not t) (\<not> v) = approximates t v"
  by (cases t) simp_all

lemma approximates_and: "list_all2 approximates ts vs \<Longrightarrow> approximates (tri_and ts) (list_all (\<lambda>v. v) vs)"
proof (induction ts vs rule: list_all2_induct)
  case (Cons t ts v vs)
  then show ?case by (cases t; cases "tri_and ts") auto
qed simp

lemma approximates_or: "list_all2 approximates ts vs \<Longrightarrow> approximates (tri_or ts) (list_ex (\<lambda>v. v) vs)"
proof (induction ts vs rule: list_all2_induct)
  case (Cons t ts v vs)
  then show ?case by (cases t; cases "tri_or ts") auto
qed simp

lemma approximates_logical:
  assumes "list_all2 approximates ts vs"
  shows "approximates (tri_logical mode invert ts) (logical_formula mode invert vs)"
  using approximates_and [OF assms] approximates_or [OF assms]
  by (auto simp: tri_logical_def logical_formula_def Let_def approximates_not)

subsection \<open>Rules before and after the response\<close>

definition after_response :: "dns_Msg option \<Rightarrow> InboundContext \<Rightarrow> InboundContext" where
  "after_response resp m = m\<lparr>m_IgnoreDestinationIPCIDRMatch := False, m_DNSResponse := resp,
                             m_DestinationAddressMatchFromResponse := True\<rparr>"

text \<open>The metadata of a first match: addresses unknown, nothing recorded yet.\<close>

definition undecided :: "InboundContext \<Rightarrow> bool" where
  "undecided m = (m_IgnoreDestinationIPCIDRMatch m \<and> m_DeferredIPCIDRMatchGroups m = 0)"

lemma after_response_commutes [simp]:
  "ResetRuleCache (after_response resp m) = after_response resp (ResetRuleCache m)"
  "ResetRuleMatchCache (after_response resp m) = after_response resp (ResetRuleMatchCache m)"
  "nestedMetadata rsi (after_response resp m) = after_response resp (nestedMetadata rsi m)"
  by (simp_all add: after_response_def ResetRuleCache_def ResetRuleMatchCache_def nestedMetadata_def)

lemma after_response_sel [simp]:
  "m_IPCIDRMatchSource (after_response resp m) = m_IPCIDRMatchSource m"
  "m_IgnoreDestinationIPCIDRMatch (after_response resp m) = False"
  "m_DeferredIPCIDRMatchGroups (after_response resp m) = m_DeferredIPCIDRMatchGroups m"
  by (simp_all add: after_response_def)

lemma undecided_reset [simp]:
  "undecided m \<Longrightarrow> undecided (ResetRuleCache m)"
  "undecided m \<Longrightarrow> undecided (ResetRuleMatchCache m)"
  "undecided m \<Longrightarrow> undecided (nestedMetadata rsi m)"
  "undecided m \<Longrightarrow> decided (after_response resp m)"
  by (simp_all add: undecided_def decided_def ResetRuleCache_def ResetRuleMatchCache_def nestedMetadata_def)

lemma RuleItem_Match_after_response:
  "\<not> response_item it \<Longrightarrow> RuleItem_Match E it (after_response resp m) = RuleItem_Match E it m"
  using RuleItem_Match_response [where m = "m\<lparr>m_IgnoreDestinationIPCIDRMatch := False\<rparr>" and r = resp and b = True]
  by (simp add: after_response_def)

lemma item_verdicts_after_response:
  "list_all (\<lambda>it. \<not> response_item it) items \<Longrightarrow>
   item_verdicts E items (after_response resp m) = item_verdicts E items m"
  by (simp add: item_verdicts_def list_all_iff RuleItem_Match_after_response)

fun is_IPCIDRItem :: "RuleItem \<Rightarrow> bool" where
  "is_IPCIDRItem (IPCIDRItem b s) = True"
| "is_IPCIDRItem _ = False"

lemma IPCIDRItem_source_after_response:
  "is_IPCIDRItem it \<Longrightarrow> m_IPCIDRMatchSource m \<Longrightarrow>
   RuleItem_Match E it (after_response resp m) = RuleItem_Match E it m"
  by (cases it) (simp_all add: IPCIDRItem_Match_def after_response_def)

text \<open>
  A rule that keeps destination names and destination addresses apart: it has conditions on one of
  the two only, and the other groups do not look at a response.
\<close>

definition plain_rule :: "abstractDefaultRule \<Rightarrow> bool" where
  "plain_rule r =
     ((r_destinationAddressItems r = [] \<or> r_destinationIPCIDRItems r = []) \<and>
      list_all (\<lambda>it. \<not> response_item it)
        (r_items r @ r_sourceAddressItems r @ r_sourcePortItems r @
         r_destinationAddressItems r @ r_destinationPortItems r))"

text \<open>
  The shape of a default rule of a rule-set: no rule-set of its own, destination IP conditions of the \<^verbatim>\<open>ip_cidr\<close> kind, and no
  other condition that looks at a DNS response.
\<close>

definition headless_shape :: "abstractDefaultRule \<Rightarrow> bool" where
  "headless_shape r =
     (r_ruleSetItem r = None \<and> list_all is_IPCIDRItem (r_destinationIPCIDRItems r) \<and>
      list_all (\<lambda>it. \<not> response_item it)
        (r_items r @ r_sourceAddressItems r @ r_sourcePortItems r @
         r_destinationAddressItems r @ r_destinationPortItems r))"

definition source_safe :: "abstractDefaultRule \<Rightarrow> InboundContext \<Rightarrow> bool" where
  "source_safe r m = (\<not> m_IPCIDRMatchSource m \<or> list_all is_IPCIDRItem (r_destinationIPCIDRItems r))"

lemma items_ok_after_response:
  "plain_rule r \<Longrightarrow> items_ok E r (after_response resp m) = items_ok E r m"
  unfolding items_ok_def plain_rule_def
  by (rule list_all_cong) (auto simp: list_all_iff RuleItem_Match_after_response)

text \<open>How the verdicts of the groups before (\<open>V\<close>) and after (\<open>W\<close>) the response compare, when the
  destination group is open (\<open>D\<close>) or not.\<close>

definition opened :: "bool \<Rightarrow> verdicts \<Rightarrow> verdicts \<Rightarrow> bool" where
  "opened D V W = ((\<forall>g. g \<noteq> DstAddr \<longrightarrow> V g = W g) \<and>
                   (if D then V DstAddr = [] else V DstAddr = W DstAddr))"

lemma opened_groups:
  assumes "opened D V W"
  shows "approximates (if groups_ok V then (if D then TMaybe else TYes) else TNo) (groups_ok W)"
proof -
  have same: "V g = W g" if "g \<noteq> DstAddr \<or> \<not> D" for g
    using assms that by (cases "g = DstAddr") (auto simp: opened_def)
  have "groups_ok W \<Longrightarrow> groups_ok V"
    unfolding groups_ok_iff using same assms by (metis group_ok_def opened_def)
  moreover have "\<not> D \<Longrightarrow> groups_ok V = groups_ok W"
    using same by (simp add: groups_ok_iff)
  ultimately show ?thesis by (auto simp: approximates_def)
qed

lemma group_verdicts_opened:
  assumes "plain_rule r" "source_safe r m" "undecided m"
  shows "opened (defers r m) (group_verdicts E r m) (group_verdicts E r (after_response resp m))"
proof -
  have src: "m_IPCIDRMatchSource m \<Longrightarrow>
      item_verdicts E (r_destinationIPCIDRItems r) (after_response resp m) =
      item_verdicts E (r_destinationIPCIDRItems r) m"
    using assms(2) by (auto simp: source_safe_def item_verdicts_def list_all_iff
        IPCIDRItem_source_after_response)
  have "group_verdicts E r m g = group_verdicts E r (after_response resp m) g" if "g \<noteq> DstAddr" for g
    using assms(1) that src by (cases g) (auto simp: plain_rule_def item_verdicts_after_response)
  moreover have "item_verdicts E (r_destinationAddressItems r) (after_response resp m) =
      item_verdicts E (r_destinationAddressItems r) m"
    using assms(1) by (simp add: plain_rule_def item_verdicts_after_response)
  ultimately show ?thesis
    using assms by (auto simp: opened_def defers_def undecided_def plain_rule_def item_verdicts_def)
qed

subsection \<open>Default rules compute with three values\<close>

lemma abstractDefaultRule_tri:
  assumes "m_DeferredIPCIDRMatchGroups m = 0"
  shows "tri_of (abstractDefaultRule_Match E rsm r m) =
         (if r_allItems r = [] then TYes
          else if r_invert r then tri_not (tri_of (matchInner E rsm r m))
          else tri_of (matchInner E rsm r m))"
  using assms
  by (cases "matchInner E rsm r m") (auto simp: abstractDefaultRule_Match_def tri_of_def tri_val_def)

definition open_tri :: "bool \<Rightarrow> tri" where
  "open_tri D = (if D then TMaybe else TYes)"

lemma dst_if_diff:
  "dst_if D AND NOT (gm_satisfied (gm_of V)) = dst_if (D \<and> True \<notin> set (V DstAddr))"
  by (simp add: dst_if_def gm_of_def dst_diff)

lemma dst_if_zero [simp]: "(dst_if D = 0) = (\<not> D)"
  by (simp add: dst_if_def ruleMatchDestinationAddress_def)

lemma tri_val_dst_if: "tri_val True (dst_if D) = open_tri D"
  by (simp add: tri_val_def open_tri_def)

lemma matchInner_tri:
  assumes "undecided m" "r_ruleSetItem r = None"
  shows "tri_of (matchInner E rsm r m) =
         (if items_ok E r m \<and> groups_ok (group_verdicts E r m) then open_tri (defers r m) else TNo)"
proof -
  have "(defers r m \<and> True \<notin> set (group_verdicts E r m DstAddr)) = defers r m"
    by (auto simp: defers_def)
  then show ?thesis using assms
    by (simp add: matchInner_def evaluateGroups_of items_ok_def gm_done_of tri_of_def
        undecided_def dst_if_diff tri_val_dst_if)
qed

lemma default_rule_approximates:
  assumes "plain_rule r" "source_safe r m" "undecided m" "r_ruleSetItem r = None"
  shows "approximates (tri_of (abstractDefaultRule_Match E rsm r m))
           (default_formula E rsf r (after_response resp m))"
proof -
  have z: "m_DeferredIPCIDRMatchGroups m = 0" using assms(3) by (simp add: undecided_def)
  let ?v = "items_ok E r m \<and> groups_ok (group_verdicts E r (after_response resp m))"
  have "approximates (tri_of (matchInner E rsm r m)) ?v"
    using opened_groups [OF group_verdicts_opened [OF assms(1,2,3)], of E resp]
    by (auto simp: matchInner_tri [OF assms(3,4)] open_tri_def approximates_def split: if_splits)
  then show ?thesis
    using approximates_not [of "tri_of (matchInner E rsm r m)" ?v] assms(4)
    by (auto simp: abstractDefaultRule_tri [OF z] default_formula_def
        items_ok_after_response [OF assms(1)] approximates_not)
qed

subsection \<open>Headless rules\<close>

text \<open>Rules of a rule-set whose destination IP conditions are all of the kind a rule-set can hold.\<close>

fun headless_plain :: "HeadlessRule \<Rightarrow> bool" where
  "headless_plain (DefaultHeadlessRule r) =
     (plain_rule r \<and> list_all is_IPCIDRItem (r_destinationIPCIDRItems r) \<and> r_ruleSetItem r = None)"
| "headless_plain (LogicalHeadlessRule mode rules invert) = list_all headless_plain rules"

fun headless_has_cidr :: "HeadlessRule \<Rightarrow> bool" where
  "headless_has_cidr (DefaultHeadlessRule r) = (r_destinationIPCIDRItems r \<noteq> [])"
| "headless_has_cidr (LogicalHeadlessRule mode rules invert) = list_ex headless_has_cidr rules"

lemma headless_approximates:
  assumes "headless_plain r" "undecided m"
  shows "approximates (tri_of (HeadlessRule_Match E r m)) (headless_formula E r (after_response resp m))"
  using assms
proof (induction r arbitrary: m)
  case (DefaultHeadlessRule r)
  then show ?case by (simp add: default_rule_approximates source_safe_def)
next
  case (LogicalHeadlessRule mode rules invert)
  have "list_all2 approximates (map (\<lambda>r. tri_of (HeadlessRule_Match E r (ResetRuleCache m))) rules)
          (map (\<lambda>r. headless_formula E r (after_response resp (ResetRuleCache m))) rules)"
    using LogicalHeadlessRule by (auto simp: list_all2_conv_all_nth list_all_iff)
  from approximates_logical [OF this] show ?case
    using LogicalHeadlessRule.prems by (simp add: abstractLogicalRule_tri undecided_def comp_def)
qed

text \<open>Only the destination address group is ever recorded, and only by rules with IP conditions.\<close>

definition dst_word :: "8 word \<Rightarrow> bool" where
  "dst_word d = (d = 0 \<or> d = ruleMatchDestinationAddress)"

lemma dst_word_simps [simp]:
  "dst_word 0" "dst_word (dst_if b)" "dst_word d \<Longrightarrow> dst_word e \<Longrightarrow> dst_word (d OR e)"
  by (auto simp: dst_word_def dst_if_def)

lemma dst_word_diff: "dst_word d \<Longrightarrow> dst_word (d AND NOT (gm_satisfied (gm_of V)))"
  using dst_if_diff [of True V] by (auto simp: dst_word_def dst_if_def split: if_splits)

lemma dst_word_eq: "dst_word d \<Longrightarrow> d = dst_if (d \<noteq> 0)"
  by (auto simp: dst_word_def dst_if_def)

definition dst_method :: "InboundContext \<Rightarrow> match_method \<Rightarrow> bool" where
  "dst_method m f = dst_word (m_DeferredIPCIDRMatchGroups (snd (f m)))"

lemma logical_loops_dst_word:
  assumes "list_all (dst_method (ResetRuleCache m)) fs" "dst_word d"
  shows "dst_word (snd (logical_and_loop fs m d)) \<and> dst_word (snd (logical_or_loop fs m b d))"
  using assms
proof (induction fs arbitrary: b d)
  case (Cons f fs)
  obtain h m' where f: "f (ResetRuleCache m) = (h, m')" by fastforce
  then have "dst_word (m_DeferredIPCIDRMatchGroups m')" using Cons.prems(1) by (simp add: dst_method_def)
  then show ?case using Cons by (simp add: f)
qed simp

lemma headless_dst_word:
  assumes "undecided m"
  shows "dst_word (m_DeferredIPCIDRMatchGroups (snd (HeadlessRule_Match E r m)))"
  using assms
proof (induction r arbitrary: m)
  case (DefaultHeadlessRule r)
  then have z: "m_DeferredIPCIDRMatchGroups m = 0" by (simp add: undecided_def)
  show ?case
    by (auto simp: abstractDefaultRule_Match_def matchInner_def evaluateGroups_of z no_rule_set_def
        dst_word_diff split: option.split prod.split)
next
  case (LogicalHeadlessRule mode rules invert)
  then have z: "m_DeferredIPCIDRMatchGroups m = 0" by (simp add: undecided_def)
  let ?fs = "map (HeadlessRule_Match E) rules"
  have "list_all (dst_method (ResetRuleCache m)) ?fs"
    using LogicalHeadlessRule by (auto simp: list_all_iff dst_method_def)
  from logical_loops_dst_word [OF this dst_word_simps(1), of False] show ?case
    by (auto simp: abstractLogicalRule_Match_def z Let_def split: prod.split)
qed

lemma tri_and_or_open:
  "TMaybe \<notin> set ts \<Longrightarrow> tri_and ts \<noteq> TMaybe" "TMaybe \<notin> set ts \<Longrightarrow> tri_or ts \<noteq> TMaybe"
  by (induction ts) (auto simp: min_def max_def)

lemma headless_no_cidr:
  assumes "\<not> headless_has_cidr r" "headless_plain r" "undecided m"
  shows "tri_of (HeadlessRule_Match E r m) \<noteq> TMaybe"
  using assms
proof (induction r arbitrary: m)
  case (DefaultHeadlessRule r)
  then show ?case
    by (auto simp: abstractDefaultRule_tri undecided_def matchInner_tri defers_def open_tri_def
        split: if_splits)
next
  case (LogicalHeadlessRule mode rules invert)
  then have "TMaybe \<notin> set (map (\<lambda>r. tri_of (HeadlessRule_Match E r (ResetRuleCache m))) rules)"
    by (simp add: list_ex_iff list_all_iff image_iff) (metis undecided_reset(1))
  note t = tri_and_or_open [OF this]
  show ?case using LogicalHeadlessRule.prems t
    by (auto simp: abstractLogicalRule_tri undecided_def tri_logical_def Let_def comp_def
        elim: tri_not.elims)
qed

end
