(* ===== verification/Rule_Set_Deferred.thy ===== *)
theory Rule_Set_Deferred
  imports Rule_Deferred
begin

unbundle bit_operations_syntax

text \<open>
  Rule-sets in a match before the destination addresses are known: the search through the sets of
  \<^verbatim>\<open>matchWithOuterGroups\<close> computes a three-valued disjunction, and the verdict of a whole rule
  approximates its verdict on any later response.
\<close>

subsection \<open>Rule-sets\<close>

lemma tri_of_pair [simp]: "tri_of (b, m) = tri_val b (m_DeferredIPCIDRMatchGroups m)"
  by (simp add: tri_of_def)

lemma any_rule_tri:
  assumes "ResetRuleMatchCache m = m" "m_DeferredIPCIDRMatchGroups m = 0" "b \<longleftrightarrow> d \<noteq> 0"
  shows "tri_of (matchAnyHeadlessRule_loop fs m b d) = max (tri_val b d) (tri_or (map (\<lambda>f. tri_of (f m)) fs))"
  using assms(3)
proof (induction fs arbitrary: b d)
  case (Cons f fs)
  obtain h m' where f: "f m = (h, m')" by fastforce
  show ?case
    using Cons.prems
    by (cases h; cases b; cases "m_DeferredIPCIDRMatchGroups m' = 0")
      (simp_all add: f Cons.IH assms max.assoc [symmetric])
qed (cases b; simp add: assms)

lemma any_rule_dst_word:
  assumes "ResetRuleMatchCache m = m" "m_DeferredIPCIDRMatchGroups m = 0"
    and "list_all (dst_method m) fs" "dst_word d"
  shows "dst_word (m_DeferredIPCIDRMatchGroups (snd (matchAnyHeadlessRule_loop fs m b d)))"
  using assms(3,4)
proof (induction fs arbitrary: b d)
  case (Cons f fs)
  obtain h m' where f: "f m = (h, m')" by fastforce
  then have "dst_word (m_DeferredIPCIDRMatchGroups m')" using Cons.prems(1) by (simp add: dst_method_def)
  then show ?case using Cons by (simp add: f assms)
qed (simp add: assms)

lemma any_rule_miss:
  "\<not> fst (matchAnyHeadlessRule_loop fs m b d) \<Longrightarrow> snd (matchAnyHeadlessRule_loop fs m b d) = m"
  by (induction fs arbitrary: b d) (auto split: prod.splits if_splits)

definition rules_tri :: "env \<Rightarrow> HeadlessRule list \<Rightarrow> InboundContext \<Rightarrow> tri" where
  "rules_tri E rules m = tri_or (map (\<lambda>r. tri_of (HeadlessRule_Match E r m)) rules)"

lemma matchAnyHeadlessRule_tri:
  assumes u: "undecided nm" and r: "ResetRuleMatchCache nm = nm"
  shows "fst (matchAnyHeadlessRule E rules nm) = (rules_tri E rules nm \<noteq> TNo)"
    and "m_DeferredIPCIDRMatchGroups (snd (matchAnyHeadlessRule E rules nm)) =
         dst_if (rules_tri E rules nm = TMaybe)"
proof -
  have z: "m_DeferredIPCIDRMatchGroups nm = 0" using u by (simp add: undecided_def)
  let ?res = "matchAnyHeadlessRule E rules nm"
  have t: "tri_of ?res = rules_tri E rules nm"
    by (simp add: matchAnyHeadlessRule_def any_rule_tri [OF r z] rules_tri_def comp_def)
  then show "fst ?res = (rules_tri E rules nm \<noteq> TNo)"
    by (auto simp: tri_of_def tri_val_def split: if_splits)
  have "list_all (dst_method nm) (map (HeadlessRule_Match E) rules)"
    using u by (auto simp: list_all_iff dst_method_def headless_dst_word)
  then have "dst_word (m_DeferredIPCIDRMatchGroups (snd ?res))"
    unfolding matchAnyHeadlessRule_def by (rule any_rule_dst_word [OF r z]) simp
  moreover have "snd ?res = nm" if "\<not> fst ?res"
    using that unfolding matchAnyHeadlessRule_def by (rule any_rule_miss)
  ultimately show "m_DeferredIPCIDRMatchGroups (snd ?res) = dst_if (rules_tri E rules nm = TMaybe)"
    using t z by (auto simp: tri_of_def tri_val_def dst_word_def dst_if_def split: if_splits)
qed

definition set_tri :: "env \<Rightarrow> HeadlessRule list \<Rightarrow> verdicts \<Rightarrow> InboundContext \<Rightarrow> tri" where
  "set_tri E rules V nm =
     (case mergeableRuleIn rules of
        Some b \<Rightarrow>
          if items_ok E b nm \<and> groups_ok (\<lambda>g. V g @ group_verdicts E b nm g)
          then open_tri (defers b nm \<and> True \<notin> set (V DstAddr @ group_verdicts E b nm DstAddr))
          else TNo
      | None \<Rightarrow> if groups_ok V then rules_tri E rules nm else TNo)"

text \<open>A rule whose own destination IP conditions are open is not merged with destination names.\<close>

definition open_compatible :: "env \<Rightarrow> HeadlessRule list \<Rightarrow> verdicts \<Rightarrow> InboundContext \<Rightarrow> bool" where
  "open_compatible E rules V nm =
     (case mergeableRuleIn rules of
        Some b \<Rightarrow> True \<notin> set (V DstAddr @ group_verdicts E b nm DstAddr)
      | None \<Rightarrow> True)"

lemma evaluateForMerge_of:
  assumes "undecided nm"
  shows "evaluateForMerge E b nm =
     (if items_ok E b nm then Some (gm_of (group_verdicts E b nm)) else None,
      nm\<lparr>m_DeferredIPCIDRMatchGroups := dst_if (defers b nm)\<rparr>)"
  using assms by (simp add: evaluateForMerge_def evaluateGroups_of items_ok_def undecided_def)

lemma outer_groups_step:
  assumes m: "m_DeferredIPCIDRMatchGroups m = dst_if D"
    and nm: "undecided (nestedMetadata rsi m)"
    and compat: "D \<Longrightarrow> open_compatible E (S s) V (nestedMetadata rsi m)"
  shows "outer_groups_loop E S rsi (s # ss) m (gm_of V) b d =
     (case set_tri E (S s) V (nestedMetadata rsi m) of
        TNo \<Rightarrow> outer_groups_loop E S rsi ss m (gm_of V) b d
      | TYes \<Rightarrow> (True, m)
      | TMaybe \<Rightarrow> outer_groups_loop E S rsi ss m (gm_of V) True (d OR ruleMatchDestinationAddress))"
proof (cases "mergeableRuleIn (S s)")
  case None
  have d: "dst_if True = ruleMatchDestinationAddress" by (simp add: dst_if_def)
  obtain h n where hn: "matchAnyHeadlessRule E (S s) (nestedMetadata rsi m) = (h, n)" by fastforce
  have "h = (rules_tri E (S s) (nestedMetadata rsi m) \<noteq> TNo)"
    "m_DeferredIPCIDRMatchGroups n = dst_if (rules_tri E (S s) (nestedMetadata rsi m) = TMaybe)"
    using matchAnyHeadlessRule_tri [OF nm, of E "S s"] hn by simp_all
  then show ?thesis
    by (cases "rules_tri E (S s) (nestedMetadata rsi m)")
      (simp_all add: None hn gm_done_of set_tri_def d ruleMatchDestinationAddress_def)
next
  case (Some b')
  define W where "W = (\<lambda>g. V g @ group_verdicts E b' (nestedMetadata rsi m) g)"
  have "dst_if (D \<and> True \<notin> set (W DstAddr)) = dst_if D"
    using compat Some by (cases D) (simp_all add: open_compatible_def W_def del: group_verdicts.simps)
  then have keep: "m\<lparr>m_DeferredIPCIDRMatchGroups := dst_if (D \<and> True \<notin> set (W DstAddr))\<rparr> = m"
    using deferred_same [OF m] by simp
  have st: "set_tri E (S s) V (nestedMetadata rsi m) =
      (if items_ok E b' (nestedMetadata rsi m) \<and> groups_ok W
       then open_tri (defers b' (nestedMetadata rsi m) \<and> True \<notin> set (W DstAddr)) else TNo)"
    by (simp add: set_tri_def Some W_def del: group_verdicts.simps)
  have mg: "gm_mergeWith (gm_of V) (gm_of (group_verdicts E b' (nestedMetadata rsi m))) = gm_of W"
    by (simp add: W_def gm_mergeWith_of)
  have d: "dst_if True = ruleMatchDestinationAddress" by (simp add: dst_if_def)
  show ?thesis
    by (cases "items_ok E b' (nestedMetadata rsi m) \<and> groups_ok W";
        cases "defers b' (nestedMetadata rsi m)"; cases "True \<in> set (W DstAddr)")
      (use keep in \<open>simp_all add: Some evaluateForMerge_of [OF nm] mg st gm_done_of Let_def
        dst_if_diff m open_tri_def d [symmetric]\<close>)
qed

definition sets_tri :: "env \<Rightarrow> rule_store \<Rightarrow> string list \<Rightarrow> verdicts \<Rightarrow> InboundContext \<Rightarrow> tri" where
  "sets_tri E S ss V nm = tri_or (map (\<lambda>s. set_tri E (S s) V nm) ss)"

lemma sets_tri_simps [simp]:
  "sets_tri E S [] V nm = TNo"
  "sets_tri E S (s # ss) V nm = max (set_tri E (S s) V nm) (sets_tri E S ss V nm)"
  by (simp_all add: sets_tri_def)

lemma outer_groups_tri:
  assumes m: "m_DeferredIPCIDRMatchGroups m = dst_if D"
    and nm: "undecided (nestedMetadata rsi m)"
    and compat: "list_all (\<lambda>s. D \<longrightarrow> open_compatible E (S s) V (nestedMetadata rsi m)) ss"
  shows "outer_groups_loop E S rsi ss m (gm_of V) b (dst_if b) =
     (max (tri_val b (dst_if b)) (sets_tri E S ss V (nestedMetadata rsi m)) \<noteq> TNo,
      m\<lparr>m_DeferredIPCIDRMatchGroups := dst_if (D \<or>
         max (tri_val b (dst_if b)) (sets_tri E S ss V (nestedMetadata rsi m)) = TMaybe)\<rparr>)"
  using compat
proof (induction ss arbitrary: b)
  case Nil
  then show ?case by (cases b; cases D) (simp_all add: m dst_if_def ruleMatchDestinationAddress_def)
next
  case (Cons s ss)
  have or: "dst_if b OR ruleMatchDestinationAddress = dst_if True" by (simp add: dst_if_def)
  have step: "outer_groups_loop E S rsi (s # ss) m (gm_of V) b (dst_if b) =
     (case set_tri E (S s) V (nestedMetadata rsi m) of
        TNo \<Rightarrow> outer_groups_loop E S rsi ss m (gm_of V) b (dst_if b)
      | TYes \<Rightarrow> (True, m)
      | TMaybe \<Rightarrow> outer_groups_loop E S rsi ss m (gm_of V) True (dst_if True))"
    using Cons.prems unfolding or [symmetric] by (intro outer_groups_step [OF m nm]) simp
  show ?case
    using Cons.IH Cons.prems m unfolding step
    by (cases "set_tri E (S s) V (nestedMetadata rsi m)"; cases b)
      (simp_all add: max.assoc [symmetric] tri_val_def)
qed

lemma nestedMetadata_deferred [simp]:
  "nestedMetadata rsi (m\<lparr>m_DeferredIPCIDRMatchGroups := d\<rparr>) = nestedMetadata rsi m"
  by (simp add: nestedMetadata_def ResetRuleMatchCache_def)

text \<open>
  A rule and one of its sets keep destination names and destination addresses apart: a rule with
  destination names refers to no set with IP conditions, and a set that is merged into a rule with
  destination IP conditions has no destination names.
\<close>

definition compatible_set :: "abstractDefaultRule \<Rightarrow> HeadlessRule list \<Rightarrow> bool" where
  "compatible_set r rules =
     (list_all headless_plain rules \<and>
      (r_destinationAddressItems r = [] \<or> \<not> list_ex headless_has_cidr rules) \<and>
      (r_destinationIPCIDRItems r = [] \<or>
       (case mergeableRuleIn rules of Some b \<Rightarrow> r_destinationAddressItems b = [] | None \<Rightarrow> True)))"

lemma mergeableRuleIn_Some:
  "mergeableRuleIn rules = Some b \<Longrightarrow>
   rules = [DefaultHeadlessRule b] \<and> \<not> r_invert b \<and> r_ruleSetItem b = None"
  by (auto simp: mergeableRuleIn_def split: list.splits HeadlessRule.splits if_splits)

lemma defers_open_compatible:
  assumes "undecided m" "compatible_set r rules" "defers r m"
  shows "open_compatible E rules (group_verdicts E r m) (nestedMetadata rsi m)"
  using assms undecided_reset(3) [OF assms(1), of rsi]
  by (auto simp: open_compatible_def compatible_set_def defers_def undecided_def split: option.splits)

lemma set_tri_maybe:
  assumes "undecided m" "compatible_set r rules" "set_tri E rules V (nestedMetadata rsi m) = TMaybe"
  shows "r_destinationAddressItems r = []"
proof (rule ccontr)
  assume d: "r_destinationAddressItems r \<noteq> []"
  then have no: "\<not> list_ex headless_has_cidr rules" using assms by (simp add: compatible_set_def)
  have nm: "undecided (nestedMetadata rsi m)" using assms by simp
  have "rules_tri E rules (nestedMetadata rsi m) \<noteq> TMaybe"
    unfolding rules_tri_def
    using no assms(2) headless_no_cidr [OF _ _ nm, of _ E]
    by (intro tri_and_or_open) (auto simp: list_ex_iff compatible_set_def list_all_iff image_iff dest: sym)
  moreover have "\<not> defers b (nestedMetadata rsi m)" if "mergeableRuleIn rules = Some b" for b
    using no mergeableRuleIn_Some [OF that] by (simp add: defers_def)
  ultimately show False
    using assms(3) by (auto simp: set_tri_def open_tri_def split: option.splits if_splits)
qed

lemma tri_or_maybe: "tri_or ts = TMaybe \<Longrightarrow> TMaybe \<in> set ts"
  using tri_and_or_open(2) by blast

lemma matchInner_sets_tri:
  assumes und: "undecided m" and rsi: "r_ruleSetItem r = Some rsi"
    and compat: "list_all (\<lambda>s. compatible_set r (S s)) (rs_setList rsi)"
  shows "tri_of (matchInner E (matchWithOuterGroups E S) r m) =
     (if items_ok E r m
      then min (open_tri (defers r m))
             (sets_tri E S (rs_setList rsi) (group_verdicts E r m) (nestedMetadata rsi m))
      else TNo)"
proof -
  define V where "V = group_verdicts E r m"
  define T where "T = sets_tri E S (rs_setList rsi) V (nestedMetadata rsi m)"
  have z: "m_DeferredIPCIDRMatchGroups m = 0" using und by (simp add: undecided_def)
  let ?m1 = "m\<lparr>m_DeferredIPCIDRMatchGroups := dst_if (defers r m)\<rparr>"
  have "list_all (\<lambda>s. defers r m \<longrightarrow> open_compatible E (S s) V (nestedMetadata rsi ?m1)) (rs_setList rsi)"
    using compat und by (auto simp: list_all_iff V_def intro: defers_open_compatible)
  then have loop: "matchWithOuterGroups E S rsi ?m1 (gm_of V) =
      (T \<noteq> TNo, m\<lparr>m_DeferredIPCIDRMatchGroups := dst_if (defers r m \<or> T = TMaybe)\<rparr>)"
    using outer_groups_tri [of ?m1 "defers r m" rsi E S V "rs_setList rsi" False] und
    by (simp add: matchWithOuterGroups_def T_def dst_if_def [of False])
  have "V DstAddr = []" if "defers r m \<or> T = TMaybe"
  proof -
    have "r_destinationAddressItems r = []"
    proof (cases "defers r m")
      case False
      then have "TMaybe \<in> set (map (\<lambda>s. set_tri E (S s) V (nestedMetadata rsi m)) (rs_setList rsi))"
        using that tri_or_maybe unfolding T_def sets_tri_def by blast
      then obtain s where "s \<in> set (rs_setList rsi)" "set_tri E (S s) V (nestedMetadata rsi m) = TMaybe"
        by auto
      then show ?thesis using compat set_tri_maybe [OF und] by (auto simp: list_all_iff)
    qed (simp add: defers_def)
    then show ?thesis using und by (simp add: V_def undecided_def)
  qed
  then have keep: "((defers r m \<or> T = TMaybe) \<and> True \<notin> set (V DstAddr)) = (defers r m \<or> T = TMaybe)"
    by auto
  have "tri_of (matchInner E (matchWithOuterGroups E S) r m) =
      (if items_ok E r m \<and> T \<noteq> TNo
       then tri_val True (dst_if ((defers r m \<or> T = TMaybe) \<and> True \<notin> set (V DstAddr))) else TNo)"
    by (simp add: matchInner_def evaluateGroups_of z rsi V_def [symmetric] loop items_ok_def dst_if_diff)
  then have "tri_of (matchInner E (matchWithOuterGroups E S) r m) =
      (if items_ok E r m \<and> T \<noteq> TNo then open_tri (defers r m \<or> T = TMaybe) else TNo)"
    unfolding keep tri_val_dst_if .
  then show ?thesis
    unfolding T_def [symmetric] V_def [symmetric]
    by (cases T; cases "defers r m") (simp_all add: open_tri_def)
qed

lemma min_tri_or: "min t (tri_or ts) = tri_or (map (min t) ts)"
  by (induction ts) (simp_all add: min_max_distrib2)

lemma opened_append:
  assumes "opened D V W" "opened D' V' W'" "D \<Longrightarrow> V' DstAddr = []" "D' \<Longrightarrow> V DstAddr = []"
  shows "opened (D \<or> D') (\<lambda>g. V g @ V' g) (\<lambda>g. W g @ W' g)"
  using assms by (auto simp: opened_def split: if_splits)

lemma approximates_min: "approximates s a \<Longrightarrow> approximates t b \<Longrightarrow> approximates (min s t) (a \<and> b)"
  by (cases s; cases t) simp_all

lemma set_approximates:
  assumes und: "undecided m" and plain: "plain_rule r" and src: "\<not> m_IPCIDRMatchSource m"
    and compat: "compatible_set r rules"
  shows "approximates
           (min (open_tri (defers r m)) (set_tri E rules (group_verdicts E r m) (nestedMetadata rsi m)))
           (set_formula E rules (group_verdicts E r (after_response resp m))
              (after_response resp (nestedMetadata rsi m)))"
proof -
  define nm where "nm = nestedMetadata rsi m"
  have nm: "undecided nm" using und by (simp add: nm_def)
  have op: "opened (defers r m) (group_verdicts E r m) (group_verdicts E r (after_response resp m))"
    using plain src und by (intro group_verdicts_opened) (simp_all add: source_safe_def)
  show ?thesis
  proof (cases "mergeableRuleIn rules")
    case None
    have "list_all2 approximates (map (\<lambda>r. tri_of (HeadlessRule_Match E r nm)) rules)
            (map (\<lambda>r. headless_formula E r (after_response resp nm)) rules)"
      using compat nm
      by (auto simp: compatible_set_def list_all2_conv_all_nth list_all_length headless_approximates)
    from approximates_or [OF this]
    have "approximates (rules_tri E rules nm) (list_ex (\<lambda>r. headless_formula E r (after_response resp nm)) rules)"
      by (simp add: rules_tri_def list_ex_iff)
    from approximates_min [OF opened_groups [OF op] this] show ?thesis
      by (simp add: None set_tri_def set_formula_def nm_def [symmetric] open_tri_def split: if_splits)
  next
    case (Some b)
    note b = mergeableRuleIn_Some [OF Some]
    have pb: "plain_rule b" "list_all is_IPCIDRItem (r_destinationIPCIDRItems b)"
      using compat b by (simp_all add: compatible_set_def)
    have "opened (defers b nm) (group_verdicts E b nm) (group_verdicts E b (after_response resp nm))"
      using pb nm by (intro group_verdicts_opened) (simp_all add: source_safe_def)
    moreover have "group_verdicts E b nm DstAddr = []" if "defers r m"
      using that compat Some nm by (simp add: compatible_set_def defers_def undecided_def)
    moreover have n: "group_verdicts E r m DstAddr = []" if "defers b nm"
      using that compat b und by (simp add: compatible_set_def defers_def undecided_def)
    ultimately have "opened (defers r m \<or> defers b nm)
        (\<lambda>g. group_verdicts E r m g @ group_verdicts E b nm g)
        (\<lambda>g. group_verdicts E r (after_response resp m) g @ group_verdicts E b (after_response resp nm) g)"
      by (intro opened_append [OF op])
    note op2 = opened_groups [OF this]
    have "defers b nm \<Longrightarrow> True \<notin> set (group_verdicts E r m DstAddr @ group_verdicts E b nm DstAddr)"
      using n by (simp add: defers_def)
    then have "min (open_tri (defers r m)) (set_tri E rules (group_verdicts E r m) nm) =
        (if items_ok E b nm \<and> groups_ok (\<lambda>g. group_verdicts E r m g @ group_verdicts E b nm g)
         then open_tri (defers r m \<or> defers b nm) else TNo)"
      by (cases "defers r m"; cases "defers b nm") (simp_all add: Some set_tri_def open_tri_def
          del: group_verdicts.simps)
    then show ?thesis
      using op2 items_ok_after_response [OF pb(1), of E resp nm]
      by (simp add: Some set_formula_def nm_def [symmetric] open_tri_def split: if_splits
          del: group_verdicts.simps)
  qed
qed

end
