(* ===== verification/Rule_DNS.thy ===== *)
theory Rule_DNS
  imports Rule_Set_Deferred
begin

text \<open>
  DNS rules (route/rule/rule\_dns.go): matching on the query, matching on a response
  (\<^verbatim>\<open>match_response\<close>), and the two-step match of the legacy address filter, a first match without
  the destination addresses and a second one on the response.
\<close>

subsection \<open>Rules\<close>

text \<open>What a rule-set says about its rules (adapter/router.go).\<close>

record RuleSetMetadata =
  md_ContainsProcessRule :: bool
  md_ContainsWIFIRule :: bool
  md_ContainsIPCIDRRule :: bool
  md_ContainsDNSQueryTypeRule :: bool
  md_ContainsNonIPCIDRRule :: bool

definition ContainsDestinationIPCIDRRule :: "(string \<Rightarrow> RuleSetMetadata) \<Rightarrow> RuleSetItem \<Rightarrow> bool" where
  "ContainsDestinationIPCIDRRule M rsi =
     (if rs_ipCidrMatchSource rsi then False
      else list_ex (\<lambda>s. md_ContainsIPCIDRRule (M s)) (rs_setList rsi))"

text \<open>
  \<open>DefaultDNSRule r matchResponse matchResponseTag race action\<close> and
  \<open>LogicalDNSRule mode rules invert matchResponseTags matchResponseAnonymous race action\<close>.
\<close>

datatype 'a DNSRule =
    DefaultDNSRule abstractDefaultRule bool string bool 'a
  | LogicalDNSRule string "'a DNSRule list" bool "string list" bool bool 'a

fun DNSRule_WithAddressLimit :: "(string \<Rightarrow> RuleSetMetadata) \<Rightarrow> 'a DNSRule \<Rightarrow> bool" where
  "DNSRule_WithAddressLimit M (DefaultDNSRule r mr tag race a) =
     (if r_destinationIPCIDRItems r \<noteq> [] then True
      else case r_ruleSetItem r of None \<Rightarrow> False | Some rsi \<Rightarrow> ContainsDestinationIPCIDRRule M rsi)"
| "DNSRule_WithAddressLimit M (LogicalDNSRule mode rules invert tags anon race a) =
     list_ex (DNSRule_WithAddressLimit M) rules"

definition matchForMatch ::
  "env \<Rightarrow> rule_store \<Rightarrow> abstractDefaultRule \<Rightarrow> bool \<Rightarrow> string \<Rightarrow> match_method"
where
  "matchForMatch E S r matchResponse matchResponseTag m =
     (if matchResponse then
        (let response = (if matchResponseTag \<noteq> [] then m_NamedDNSResponses m matchResponseTag
                         else m_DNSResponse m)
         in case response of
              None \<Rightarrow> (r_invert r, m)
            | Some resp \<Rightarrow>
                (fst (abstractDefaultRule_Match E (matchWithOuterGroups E S) r
                        (m\<lparr>m_DNSResponse := Some resp, m_DestinationAddressMatchFromResponse := True\<rparr>)), m))
      else abstractDefaultRule_Match E (matchWithOuterGroups E S) r m)"

fun DNSRule_Match :: "env \<Rightarrow> rule_store \<Rightarrow> 'a DNSRule \<Rightarrow> match_method" where
  "DNSRule_Match E S (DefaultDNSRule r mr tag race a) = matchForMatch E S r mr tag"
| "DNSRule_Match E S (LogicalDNSRule mode rules invert tags anon race a) =
     abstractLogicalRule_Match mode invert (map (DNSRule_Match E S) rules)"

text \<open>The embedded \<^verbatim>\<open>Match\<close> of the two abstract rules, which the methods below call.\<close>

fun abstract_Match :: "env \<Rightarrow> rule_store \<Rightarrow> 'a DNSRule \<Rightarrow> match_method" where
  "abstract_Match E S (DefaultDNSRule r mr tag race a) =
     abstractDefaultRule_Match E (matchWithOuterGroups E S) r"
| "abstract_Match E S (LogicalDNSRule mode rules invert tags anon race a) =
     abstractLogicalRule_Match mode invert (map (DNSRule_Match E S) rules)"

definition with_ignore :: "match_method \<Rightarrow> match_method" where
  "with_ignore f m =
     (case f (m\<lparr>m_IgnoreDestinationIPCIDRMatch := True\<rparr>) of
        (matched, m1) \<Rightarrow> (matched, m1\<lparr>m_IgnoreDestinationIPCIDRMatch := False\<rparr>))"

fun LegacyPreMatch :: "env \<Rightarrow> rule_store \<Rightarrow> 'a DNSRule \<Rightarrow> match_method" where
  "LegacyPreMatch E S (DefaultDNSRule r mr tag race a) m =
     (if mr then (False, m) else with_ignore (abstract_Match E S (DefaultDNSRule r mr tag race a)) m)"
| "LegacyPreMatch E S (LogicalDNSRule mode rules invert tags anon race a) m =
     with_ignore (abstract_Match E S (LogicalDNSRule mode rules invert tags anon race a)) m"

definition MatchAddressLimit ::
  "env \<Rightarrow> rule_store \<Rightarrow> 'a DNSRule \<Rightarrow> InboundContext \<Rightarrow> dns_Msg option \<Rightarrow> bool"
where
  "MatchAddressLimit E S rule m response =
     fst (abstract_Match E S rule
            ((ResetRuleCache m)\<lparr>m_DNSResponse := response, m_DestinationAddressMatchFromResponse := True\<rparr>))"

fun MatchResponseTags :: "'a DNSRule \<Rightarrow> string list" where
  "MatchResponseTags (DefaultDNSRule r mr tag race a) = (if tag = [] then [] else [tag])"
| "MatchResponseTags (LogicalDNSRule mode rules invert tags anon race a) = tags"

fun MatchResponseAnonymous :: "'a DNSRule \<Rightarrow> bool" where
  "MatchResponseAnonymous (DefaultDNSRule r mr tag race a) = (mr \<and> tag = [])"
| "MatchResponseAnonymous (LogicalDNSRule mode rules invert tags anon race a) = anon"

fun DNSRule_Race :: "'a DNSRule \<Rightarrow> bool" where
  "DNSRule_Race (DefaultDNSRule r mr tag race a) = race"
| "DNSRule_Race (LogicalDNSRule mode rules invert tags anon race a) = race"

fun DNSRule_Action :: "'a DNSRule \<Rightarrow> 'a" where
  "DNSRule_Action (DefaultDNSRule r mr tag race a) = a"
| "DNSRule_Action (LogicalDNSRule mode rules invert tags anon race a) = a"

subsection \<open>The formula of a DNS rule\<close>

fun dns_formula :: "env \<Rightarrow> rule_store \<Rightarrow> 'a DNSRule \<Rightarrow> InboundContext \<Rightarrow> bool" where
  "dns_formula E S (DefaultDNSRule r mr tag race a) m =
     (if mr then
        (case (if tag \<noteq> [] then m_NamedDNSResponses m tag else m_DNSResponse m) of
           None \<Rightarrow> r_invert r
         | Some resp \<Rightarrow> default_formula E (rule_set_formula E S) r (after_response (Some resp) m))
      else default_formula E (rule_set_formula E S) r m)"
| "dns_formula E S (LogicalDNSRule mode rules invert tags anon race a) m =
     logical_formula mode invert (map (\<lambda>r. dns_formula E S r (ResetRuleCache m)) rules)"

lemma default_with_sets_computes:
  "computes (abstractDefaultRule_Match E (matchWithOuterGroups E S) r)
     (default_formula E (rule_set_formula E S) r)"
  by (rule abstractDefaultRule_computes)
    (simp add: matchWithOuterGroups_def outer_groups_decided rule_set_formula_def)

lemma DNSRule_computes: "computes (DNSRule_Match E S rule) (dns_formula E S rule)"
proof (induction rule)
  case (DefaultDNSRule r mr tag race a)
  show ?case
  proof (rule computesI)
    fix m assume d: "decided m"
    have upd: "m\<lparr>m_DNSResponse := Some resp, m_DestinationAddressMatchFromResponse := True\<rparr> =
        after_response (Some resp) m" for resp
      using d by (cases m) (simp add: after_response_def decided_def)
    have "decided (after_response (Some resp) m)" for resp
      using d by (simp add: after_response_def decided_def)
    with d show "DNSRule_Match E S (DefaultDNSRule r mr tag race a) m =
        (dns_formula E S (DefaultDNSRule r mr tag race a) m, m)"
      by (auto simp: matchForMatch_def upd computesD [OF default_with_sets_computes] Let_def
          split: option.split)
  qed
next
  case (LogicalDNSRule mode rules invert tags anon race a)
  then have "list_all2 computes (map (DNSRule_Match E S) rules) (map (dns_formula E S) rules)"
    by (simp add: list_all2_conv_all_nth)
  from abstractLogicalRule_computes [OF this] show ?case
    by (simp add: computes_def comp_def)
qed

interpretation dns_rule: headless_rule_interface "DNSRule_Match E S" "dns_formula E S" for E S
  by unfold_locales (rule DNSRule_computes)

subsection \<open>The first match of the legacy address filter\<close>

text \<open>
  A rule of the legacy mode whose default rules keep destination names and destination addresses
  apart, their rule-sets included, and do not look at responses.
\<close>

fun legacy_rule :: "rule_store \<Rightarrow> 'a DNSRule \<Rightarrow> bool" where
  "legacy_rule S (DefaultDNSRule r mr tag race a) =
     (\<not> mr \<and> plain_rule r \<and>
      (case r_ruleSetItem r of
         None \<Rightarrow> True
       | Some rsi \<Rightarrow> list_all (\<lambda>s. compatible_set r (S s)) (rs_setList rsi)))"
| "legacy_rule S (LogicalDNSRule mode rules invert tags anon race a) = list_all (legacy_rule S) rules"

lemma sets_default_approximates:
  assumes und: "undecided m" and plain: "plain_rule r" and src: "\<not> m_IPCIDRMatchSource m"
    and sets: "case r_ruleSetItem r of None \<Rightarrow> True
               | Some rsi \<Rightarrow> list_all (\<lambda>s. compatible_set r (S s)) (rs_setList rsi)"
  shows "approximates (tri_of (abstractDefaultRule_Match E (matchWithOuterGroups E S) r m))
           (default_formula E (rule_set_formula E S) r (after_response resp m))"
proof (cases "r_ruleSetItem r")
  case None
  then show ?thesis
    using plain und src by (intro default_rule_approximates) (simp_all add: source_safe_def)
next
  case (Some rsi)
  let ?V = "group_verdicts E r m" and ?W = "group_verdicts E r (after_response resp m)"
  let ?nm = "nestedMetadata rsi m"
  have z: "m_DeferredIPCIDRMatchGroups m = 0" using und by (simp add: undecided_def)
  have c: "list_all (\<lambda>s. compatible_set r (S s)) (rs_setList rsi)" using sets Some by simp
  have "list_all2 approximates
      (map (\<lambda>s. min (open_tri (defers r m)) (set_tri E (S s) ?V ?nm)) (rs_setList rsi))
      (map (\<lambda>s. set_formula E (S s) ?W (after_response resp ?nm)) (rs_setList rsi))"
    using c set_approximates [OF und plain src]
    by (auto simp: list_all2_conv_all_nth list_all_length)
  from approximates_or [OF this]
  have "approximates (min (open_tri (defers r m)) (sets_tri E S (rs_setList rsi) ?V ?nm))
      (rule_set_formula E S rsi ?W (after_response resp m))"
    by (simp add: sets_tri_def min_tri_or comp_def rule_set_formula_def list_ex_iff
        del: group_verdicts.simps)
  then have "approximates (tri_of (matchInner E (matchWithOuterGroups E S) r m))
      (items_ok E r m \<and> rule_set_formula E S rsi ?W (after_response resp m))"
    by (simp add: matchInner_sets_tri [OF und Some c])
  then show ?thesis
    by (auto simp: abstractDefaultRule_tri [OF z] default_formula_def Some
        items_ok_after_response [OF plain] approximates_def tri_not.simps
        elim: tri_not.elims)
qed

lemma dns_rule_approximates:
  assumes "legacy_rule S rule" "undecided m" "\<not> m_IPCIDRMatchSource m"
  shows "approximates (tri_of (DNSRule_Match E S rule m)) (dns_formula E S rule (after_response resp m))"
  using assms
proof (induction rule arbitrary: m)
  case (DefaultDNSRule r mr tag race a)
  then have "matchForMatch E S r mr tag m = abstractDefaultRule_Match E (matchWithOuterGroups E S) r m"
    by (simp add: matchForMatch_def)
  with DefaultDNSRule show ?case
    using sets_default_approximates [of m r S E resp] by simp
next
  case (LogicalDNSRule mode rules invert tags anon race a)
  have src: "\<not> m_IPCIDRMatchSource (ResetRuleCache m)"
    by (simp add: ResetRuleCache_def ResetRuleMatchCache_def)
  have "list_all2 approximates (map (\<lambda>r. tri_of (DNSRule_Match E S r (ResetRuleCache m))) rules)
          (map (\<lambda>r. dns_formula E S r (after_response resp (ResetRuleCache m))) rules)"
    using LogicalDNSRule src by (auto simp: list_all2_conv_all_nth list_all_iff)
  from approximates_logical [OF this] show ?case
    using LogicalDNSRule.prems by (simp add: abstractLogicalRule_tri undecided_def comp_def)
qed

lemma abstract_Match_legacy: "legacy_rule S rule \<Longrightarrow> abstract_Match E S rule = DNSRule_Match E S rule"
  by (cases rule) (simp_all add: matchForMatch_def fun_eq_iff)

lemma LegacyPreMatch_legacy:
  assumes "legacy_rule S rule"
  shows "fst (LegacyPreMatch E S rule m) =
         fst (DNSRule_Match E S rule (m\<lparr>m_IgnoreDestinationIPCIDRMatch := True\<rparr>))"
proof -
  have "LegacyPreMatch E S rule m = with_ignore (abstract_Match E S rule) m"
    using assms by (cases rule) simp_all
  then show ?thesis
    by (simp add: abstract_Match_legacy [OF assms] with_ignore_def split: prod.split)
qed

lemma MatchAddressLimit_legacy:
  assumes "legacy_rule S rule" "\<not> m_IgnoreDestinationIPCIDRMatch m"
  shows "MatchAddressLimit E S rule m resp =
         dns_formula E S rule (after_response resp (ResetRuleCache m))"
proof -
  have "(ResetRuleCache m)\<lparr>m_DNSResponse := resp, m_DestinationAddressMatchFromResponse := True\<rparr> =
      after_response resp (ResetRuleCache m)"
    using assms(2) by (cases m) (simp add: after_response_def ResetRuleCache_def ResetRuleMatchCache_def)
  moreover have "decided (after_response resp (ResetRuleCache m))"
    by (simp add: decided_def ResetRuleCache_def ResetRuleMatchCache_def)
  ultimately show ?thesis
    by (simp add: MatchAddressLimit_def abstract_Match_legacy [OF assms(1)] dns_rule.match_decided)
qed

text \<open>Where the first match stands: the reset metadata with the addresses ignored.\<close>

lemma first_match_undecided:
  "undecided ((ResetRuleCache m)\<lparr>m_IgnoreDestinationIPCIDRMatch := True\<rparr>)"
  "\<not> m_IPCIDRMatchSource ((ResetRuleCache m)\<lparr>m_IgnoreDestinationIPCIDRMatch := True\<rparr>)"
  "\<not> m_IgnoreDestinationIPCIDRMatch m \<Longrightarrow>
   after_response resp ((ResetRuleCache m)\<lparr>m_IgnoreDestinationIPCIDRMatch := True\<rparr>) =
   after_response resp (ResetRuleCache m)"
  by (simp_all add: undecided_def ResetRuleCache_def ResetRuleMatchCache_def after_response_def)

lemma first_match_approximates:
  assumes "legacy_rule S rule" "\<not> m_IgnoreDestinationIPCIDRMatch m"
  shows "approximates
           (tri_of (DNSRule_Match E S rule ((ResetRuleCache m)\<lparr>m_IgnoreDestinationIPCIDRMatch := True\<rparr>)))
           (MatchAddressLimit E S rule m resp)"
  using dns_rule_approximates [OF assms(1) first_match_undecided(1,2), of E m resp]
  by (simp only: first_match_undecided(3) [OF assms(2)] MatchAddressLimit_legacy [OF assms])

end
