(* ===== verification/Rule_Frame.thy ===== *)
theory Rule_Frame
  imports Rule_Semantics
begin

text \<open>
  What matching a rule may write: nothing but the deferred groups of the metadata.
\<close>

definition framed :: "bool \<times> InboundContext \<Rightarrow> InboundContext \<Rightarrow> bool" where
  "framed res m = (\<exists>d. snd res = m\<lparr>m_DeferredIPCIDRMatchGroups := d\<rparr>)"

lemma framed_pair [simp]:
  "framed (b, m) m" "framed (b, m\<lparr>m_DeferredIPCIDRMatchGroups := d\<rparr>) m"
  unfolding framed_def by (auto intro: exI [of _ "m_DeferredIPCIDRMatchGroups m"])

lemma framed_upd:
  "framed (b, m') m \<Longrightarrow> framed (b', m'\<lparr>m_DeferredIPCIDRMatchGroups := d\<rparr>) m"
  by (auto simp: framed_def)

lemma framed_bool: "framed (b, m') m \<Longrightarrow> framed (b', m') m"
  by (simp add: framed_def)

lemma outer_groups_framed: "framed (outer_groups_loop E S rsi ss m g b d) m"
  by (induction ss arbitrary: b d) (auto split: option.split prod.split simp: Let_def)

lemma matchInner_framed:
  assumes "\<And>rsi m g. framed (rsm rsi m g) m"
  shows "framed (matchInner E rsm r m) m"
proof -
  obtain g m1 where g: "evaluateGroups E r m = (g, m1)" by fastforce
  have m1: "framed (b, m1) m" for b
    using g by (auto simp: evaluateGroups_of framed_def)
  obtain b m2 where res: "(case r_ruleSetItem r of None \<Rightarrow> (gm_done g, m1) | Some rsi \<Rightarrow> rsm rsi m1 g) = (b, m2)"
    by fastforce
  have "framed (b, m2) m1"
    using res assms [of _ m1 g] by (auto split: option.splits) (metis)
  then have "framed (b, m2) m"
    using m1 by (auto simp: framed_def)
  then show ?thesis
    using m1 by (auto simp: matchInner_def g res framed_upd intro: framed_bool)
qed

lemma abstractDefaultRule_framed:
  assumes "\<And>rsi m g. framed (rsm rsi m g) m"
  shows "framed (abstractDefaultRule_Match E rsm r m) m"
proof -
  obtain b m1 where r: "matchInner E rsm r m = (b, m1)" by fastforce
  have "framed (b, m1) m" using matchInner_framed [where rsm = rsm and E = E and r = r and m = m, OF assms] r by simp
  then show ?thesis by (auto simp: abstractDefaultRule_Match_def r framed_upd intro: framed_bool)
qed

lemma abstractLogicalRule_framed: "framed (abstractLogicalRule_Match mode invert fs m) m"
  by (auto simp: abstractLogicalRule_Match_def Let_def split: prod.split)

lemma Rule_Match_framed: "framed (Rule_Match E S rule m) m"
  by (cases rule) (simp_all add: abstractDefaultRule_framed matchWithOuterGroups_def outer_groups_framed
      abstractLogicalRule_framed)

end
