(* ===== verification/Sample_Env.thy ===== *)
theory Sample_Env
  imports Rule_Items
begin

text \<open>
  A concrete environment for evaluating the definitions: every library function that a match takes
  from outside is instantiated by a small function with the documented behaviour on the inputs used
  (exact and suffix domain matching, membership in a range of IPv4 addresses, ASCII lower case).
\<close>

definition ascii_lower :: "char \<Rightarrow> char" where
  "ascii_lower c = (if of_char c \<ge> (65 :: nat) \<and> of_char c \<le> (90 :: nat)
                    then char_of (of_char c + 32 :: nat) else c)"

fun sample_range :: "addr \<Rightarrow> addr \<times> addr \<Rightarrow> bool" where
  "sample_range (Addr4 x) (Addr4 lo, Addr4 hi) = (lo \<le> x \<and> x \<le> hi)"
| "sample_range _ _ = False"

fun sample_public :: "addr \<Rightarrow> bool" where
  "sample_public (Addr4 x) = (x div 2 ^ 24 \<noteq> 10)"
| "sample_public _ = True"

fun sample_from_ip :: "bytes \<Rightarrow> addr" where
  "sample_from_ip [a, b, c, d] =
     Addr4 (((ucast a * 256 + ucast b) * 256 + ucast c) * 256 + ucast d)"
| "sample_from_ip _ = AddrZero"

fun sample_matcher :: "domain_Matcher \<Rightarrow> string \<Rightarrow> bool" where
  "sample_matcher (NewMatcher domains suffixes b) s =
     (s \<in> set domains \<or> list_ex (\<lambda>x. drop (length s - length x) s = x) suffixes)"
| "sample_matcher (RawMatcher bs) s = False"

definition sample_env :: env where
  "sample_env = \<lparr>
     x_IsIP = (\<lambda>a. addr_IsValid (sa_Addr a)),
     x_IsIPv4 = (\<lambda>a. addr_Is4 (sa_Addr a)),
     x_IsIPv6 = (\<lambda>a. addr_Is6 (sa_Addr a)),
     x_IsDomain = (\<lambda>a. sa_Fqdn a \<noteq> []),
     x_sa_IsValid = (\<lambda>a. addr_IsValid (sa_Addr a) \<or> sa_Fqdn a \<noteq> []),
     x_IsDomainName = (\<lambda>s. s \<noteq> []),
     x_IsPublicAddr = sample_public,
     x_AddrFromIP = sample_from_ip,
     x_Matcher_Match = sample_matcher,
     x_AdGuardMatcher_Match = (\<lambda>m s. False),
     x_IPSet_Contains = (\<lambda>rs a. list_ex (sample_range a) rs),
     x_IsDuplicate = (=),
     x_CanonicalName = (\<lambda>s. s @ ''.''),
     x_MatchString = (\<lambda>r s. strings_Contains s r),
     x_ToLower = map ascii_lower,
     x_EqualFold = (\<lambda>a b. map ascii_lower a = map ascii_lower b),
     x_IsAndroid = True,
     x_ClashMode = None,
     x_PreferredDomain = (\<lambda>ob pm d. False),
     x_PreferredAddress = (\<lambda>ob pm a. False),
     x_TransportPreferredDomain = (\<lambda>t d. False),
     x_DefaultNetworkInterface = None,
     x_NetworkInterfaces = [],
     x_MyInterfaces = [],
     x_FinderInterfaces = [],
     x_DefaultInterfaceAddresses = None,
     x_WIFI_SSID = [],
     x_WIFI_BSSID = []\<rparr>"

end
