(* ===== verification/Rule_Properties.thy ===== *)
theory Rule_Properties
  imports Rule_DNS Rule_Frame Sample_Env
begin

unbundle bit_operations_syntax

text \<open>
  What the matching of rules guarantees: the verdict of a rule is a boolean formula over its
  conditions, rule-sets of a single plain rule are merged into the rule that refers to them, logical
  rules compute with three values while destination addresses are unknown, and the first match of
  the DNS address filter is a safe approximation of the second.
\<close>

subsection \<open>Sample rules\<close>

definition empty_rule :: abstractDefaultRule where
  "empty_rule = \<lparr>r_items = [], r_sourceAddressItems = [], r_sourcePortItems = [],
     r_destinationAddressItems = [], r_destinationIPCIDRItems = [], r_destinationPortItems = [],
     r_allItems = [], r_ruleSetItem = None, r_invert = False\<rparr>"

text \<open>\<^verbatim>\<open>{"port": [443]}\<close>, \<^verbatim>\<open>{"domain": ["a.example"]}\<close> and \<^verbatim>\<open>{"ip_cidr": ["10.0.0.0/8"]}\<close>.\<close>

definition sample_port :: abstractDefaultRule where
  "sample_port = empty_rule\<lparr>r_destinationPortItems := [PortItem False {443}],
                            r_allItems := [PlainItem (PortItem False {443})]\<rparr>"

definition sample_domain :: abstractDefaultRule where
  "sample_domain = empty_rule\<lparr>r_destinationAddressItems := [DomainItem (NewMatcher [''a.example''] [] False)],
                              r_allItems := [PlainItem (DomainItem (NewMatcher [''a.example''] [] False))]\<rparr>"

definition sample_cidr :: abstractDefaultRule where
  "sample_cidr = empty_rule\<lparr>r_destinationIPCIDRItems := [IPCIDRItem False [(Addr4 0x0A000000, Addr4 0x0AFFFFFF)]],
                            r_allItems := [PlainItem (IPCIDRItem False [(Addr4 0x0A000000, Addr4 0x0AFFFFFF)])]\<rparr>"

definition sample_metadata :: InboundContext where
  "sample_metadata = InboundContext_zero\<lparr>
     m_Destination := \<lparr>sa_Addr = AddrZero, sa_Port = 443, sa_Fqdn = ''a.example''\<rparr>\<rparr>"

text \<open>
  Two rule-sets, \<^verbatim>\<open>names\<close> with one plain rule and \<^verbatim>\<open>mixed\<close> with two rules, and the rule
  \<^verbatim>\<open>{"port": [443], "rule_set": [...]}\<close>.
\<close>

definition sample_sets :: rule_store where
  "sample_sets s = (if s = ''names'' then [DefaultHeadlessRule sample_domain]
                    else if s = ''mixed'' then [DefaultHeadlessRule sample_domain, DefaultHeadlessRule sample_cidr]
                    else [])"

definition sample_set_item :: "string list \<Rightarrow> RuleSetItem" where
  "sample_set_item tags = \<lparr>rs_tagList = tags, rs_setList = tags,
     rs_ipCidrMatchSource = False, rs_ipCidrAcceptEmpty = False\<rparr>"

definition sample_outer :: "string list \<Rightarrow> abstractDefaultRule" where
  "sample_outer tags = sample_port\<lparr>r_ruleSetItem := Some (sample_set_item tags),
     r_allItems := r_allItems sample_port @ [TheRuleSetItem]\<rparr>"

lemma sample_metadata_decided: "decided sample_metadata"
  by (simp add: decided_def sample_metadata_def InboundContext_zero_def)

subsection \<open>The formula of a rule\<close>

text \<open>
  (C1) Matching a route rule with known destination addresses, default or logical, with rule-sets or
  without, computes the boolean formula of the rule and leaves the metadata as it was.
\<close>

theorem route_rule_matches_formula:
  assumes "decided m"
  shows "Rule_Match E S rule m = (rule_formula E S rule m, m)"
  using assms by (rule route_rule.match_decided)

theorem route_rule_matches_formula_witness:
  "decided sample_metadata \<and>
   Rule_Match sample_env (\<lambda>_. []) (DefaultRule sample_port ()) sample_metadata = (True, sample_metadata)"
proof
  show d: "decided sample_metadata"
    by (simp add: decided_def sample_metadata_def InboundContext_zero_def)
  have "rule_formula sample_env (\<lambda>_. []) (DefaultRule sample_port ()) sample_metadata"
    by code_simp
  then show "Rule_Match sample_env (\<lambda>_. []) (DefaultRule sample_port ()) sample_metadata = (True, sample_metadata)"
    using route_rule_matches_formula [OF d, of sample_env "\<lambda>_. []" "DefaultRule sample_port ()"] by simp
qed

subsection \<open>Default rules\<close>

text \<open>A group of conditions is met when it is empty or one of its conditions matches.\<close>

definition group_met :: "env \<Rightarrow> RuleItem list \<Rightarrow> InboundContext \<Rightarrow> bool" where
  "group_met E items m = (items = [] \<or> list_ex (\<lambda>it. RuleItem_Match E it m) items)"

lemma group_ok_item_verdicts: "group_ok (item_verdicts E items m) = group_met E items m"
  by (auto simp: group_ok_def group_met_def item_verdicts_def list_ex_iff)

lemma item_verdicts_append: "item_verdicts E xs m @ item_verdicts E ys m = item_verdicts E (xs @ ys) m"
  by (simp add: item_verdicts_def)

text \<open>
  (C18) The documented formula of a default rule: (destination names or destination IP conditions)
  and (destination ports) and (source addresses) and (source ports) and every other condition, an
  empty group being true, the whole inverted on demand.
\<close>

theorem default_rule_documented_formula:
  assumes "decided m" "\<not> m_IPCIDRMatchSource m" "r_ruleSetItem r = None" "r_allItems r \<noteq> []"
  shows "fst (Rule_Match E S (DefaultRule r a) m) =
     ((group_met E (r_destinationAddressItems r @ r_destinationIPCIDRItems r) m \<and>
       group_met E (r_destinationPortItems r) m \<and>
       group_met E (r_sourceAddressItems r) m \<and>
       group_met E (r_sourcePortItems r) m \<and>
       list_all (\<lambda>it. RuleItem_Match E it m) (r_items r)) \<noteq> r_invert r)"
proof -
  have "groups_ok (group_verdicts E r m) =
      (group_met E (r_destinationAddressItems r @ r_destinationIPCIDRItems r) m \<and>
       group_met E (r_destinationPortItems r) m \<and> group_met E (r_sourceAddressItems r) m \<and>
       group_met E (r_sourcePortItems r) m)"
    using assms(1,2) by (auto simp: groups_ok_def decided_def item_verdicts_append group_ok_item_verdicts)
  then show ?thesis
    using assms(3,4)
    by (subst route_rule.match_decided [OF assms(1)]) (auto simp: default_formula_def items_ok_def)
qed

theorem default_rule_documented_formula_witness:
  "\<not> fst (Rule_Match sample_env (\<lambda>_. []) (DefaultRule (sample_port\<lparr>r_invert := True\<rparr>) ()) sample_metadata)"
proof -
  have "decided sample_metadata" "\<not> m_IPCIDRMatchSource sample_metadata"
    by (simp_all add: decided_def sample_metadata_def InboundContext_zero_def)
  note rule = default_rule_documented_formula [OF this, of "sample_port\<lparr>r_invert := True\<rparr>" sample_env "\<lambda>_. []" "()"]
  show ?thesis
    by (subst rule) (simp_all add: sample_port_def empty_rule_def group_met_def sample_metadata_def
        PortItem_Match_def)
qed

subsection \<open>Rule-sets\<close>

text \<open>The rule in which the fields of \<open>b\<close> are merged.\<close>

fun as_source :: "RuleItem \<Rightarrow> RuleItem" where
  "as_source (IPCIDRItem isSource s) = IPCIDRItem True s"
| "as_source it = it"

definition merge_rule :: "bool \<Rightarrow> abstractDefaultRule \<Rightarrow> abstractDefaultRule \<Rightarrow> abstractDefaultRule" where
  "merge_rule matchSource r b = r\<lparr>
     r_items := r_items r @ r_items b,
     r_sourceAddressItems := r_sourceAddressItems r @ r_sourceAddressItems b @
       (if matchSource then map as_source (r_destinationIPCIDRItems b) else []),
     r_sourcePortItems := r_sourcePortItems r @ r_sourcePortItems b,
     r_destinationAddressItems := r_destinationAddressItems r @ r_destinationAddressItems b,
     r_destinationIPCIDRItems := r_destinationIPCIDRItems r @ (if matchSource then [] else r_destinationIPCIDRItems b),
     r_destinationPortItems := r_destinationPortItems r @ r_destinationPortItems b,
     r_ruleSetItem := None\<rparr>"

lemma group_ok_append: "group_ok (xs @ ys @ zs @ ws) = group_ok (xs @ zs @ ys @ ws)"
  by (auto simp: group_ok_def)

text \<open>What the conditions of a rule-set see of the metadata of a rule.\<close>

lemma nested_item:
  assumes "\<not> response_item it \<or> \<not> rs_ipCidrMatchSource rsi" "\<not> m_IPCIDRMatchSource m" "\<not> m_IPCIDRAcceptEmpty m"
    "\<not> rs_ipCidrAcceptEmpty rsi"
  shows "RuleItem_Match E it (nestedMetadata rsi m) = RuleItem_Match E it m"
  using assms(1)
proof
  assume "\<not> response_item it"
  then show ?thesis using assms(2-) by (cases it) (simp_all add: item_reads nestedMetadata_def ResetRuleMatchCache_def)
next
  assume "\<not> rs_ipCidrMatchSource rsi"
  then have "nestedMetadata rsi m = ResetRuleMatchCache m"
    using assms(2-) by (cases m) (simp add: nestedMetadata_def ResetRuleMatchCache_def)
  then show ?thesis by simp
qed

lemma nested_source_item:
  assumes "is_IPCIDRItem it" "rs_ipCidrMatchSource rsi"
  shows "RuleItem_Match E it (nestedMetadata rsi m) = RuleItem_Match E (as_source it) m"
  using assms by (cases it) (simp_all add: item_reads nestedMetadata_def ResetRuleMatchCache_def)

lemma nested_verdicts:
  assumes "list_all (\<lambda>it. \<not> response_item it) items \<or> \<not> rs_ipCidrMatchSource rsi" "\<not> m_IPCIDRMatchSource m"
    "\<not> m_IPCIDRAcceptEmpty m" "\<not> rs_ipCidrAcceptEmpty rsi"
  shows "item_verdicts E items (nestedMetadata rsi m) = item_verdicts E items m"
  using assms nested_item [OF _ assms(2-4)] by (auto simp: item_verdicts_def list_all_iff)

lemma nestedMetadata_sel [simp]:
  "m_IPCIDRMatchSource (nestedMetadata rsi m) = rs_ipCidrMatchSource rsi"
  "m_IgnoreDestinationIPCIDRMatch (nestedMetadata rsi m) = m_IgnoreDestinationIPCIDRMatch m"
  by (simp_all add: nestedMetadata_def ResetRuleMatchCache_def)

lemma merge_rule_groups:
  assumes "decided m" "headless_shape b" "\<not> m_IPCIDRMatchSource m" "\<not> m_IPCIDRAcceptEmpty m" "\<not> rs_ipCidrAcceptEmpty rsi"
  shows "groups_ok (\<lambda>g. group_verdicts E r m g @ group_verdicts E b (nestedMetadata rsi m) g) =
         groups_ok (group_verdicts E (merge_rule (rs_ipCidrMatchSource rsi) r b) m)"
proof -
  let ?nm = "nestedMetadata rsi m"
  have other: "item_verdicts E items ?nm = item_verdicts E items m"
    if "list_all (\<lambda>it. \<not> response_item it) items" for items
    using nested_verdicts [OF _ assms(3-5)] that by blast
  have same: "item_verdicts E (r_sourceAddressItems b) ?nm = item_verdicts E (r_sourceAddressItems b) m"
    "item_verdicts E (r_sourcePortItems b) ?nm = item_verdicts E (r_sourcePortItems b) m"
    "item_verdicts E (r_destinationAddressItems b) ?nm = item_verdicts E (r_destinationAddressItems b) m"
    "item_verdicts E (r_destinationPortItems b) ?nm = item_verdicts E (r_destinationPortItems b) m"
    using assms(2) by (auto simp: headless_shape_def intro!: other)
  have cidr: "item_verdicts E (r_destinationIPCIDRItems b) ?nm =
      item_verdicts E (if rs_ipCidrMatchSource rsi then map as_source (r_destinationIPCIDRItems b) else r_destinationIPCIDRItems b) m"
    using assms(2) nested_source_item nested_verdicts [OF _ assms(3-5), where E = E]
    by (auto simp: headless_shape_def item_verdicts_def list_all_iff)
  have "group_ok (group_verdicts E r m g @ group_verdicts E b ?nm g) =
        group_ok (group_verdicts E (merge_rule (rs_ipCidrMatchSource rsi) r b) m g)" for g
    using assms(1,3) same cidr
    by (cases g) (auto simp: merge_rule_def decided_def item_verdicts_append [symmetric] group_ok_def)
  then show ?thesis by (simp add: groups_ok_iff)
qed

text \<open>
  (C6) A rule-set that consists of a single default rule without \<^verbatim>\<open>invert\<close> is merged into the route rule that refers to it:
  the outer rule matches exactly when the rule matches that has the conditions of both in each group. With
  \<^verbatim>\<open>rule_set_ip_cidr_match_source\<close> the \<^verbatim>\<open>ip_cidr\<close> conditions of the set join the source addresses as conditions on the source. The
  metadata are those of a top-level match, where the two flags of rule-sets are off, the rule of the set has the shape
  that the builder gives it, and the set does not accept empty addresses, which route rules have no option for.
\<close>

theorem single_rule_set_is_merged:
  assumes "decided m" "r_allItems r \<noteq> []"
    and "r_ruleSetItem r = Some rsi" "rs_setList rsi = [s]" "mergeableRuleIn (S s) = Some b" "headless_shape b"
    and "\<not> m_IPCIDRMatchSource m" "\<not> m_IPCIDRAcceptEmpty m" "\<not> rs_ipCidrAcceptEmpty rsi"
  shows "Rule_Match E S (DefaultRule r a) m =
         Rule_Match E S (DefaultRule (merge_rule (rs_ipCidrMatchSource rsi) r b) a) m"
proof -
  let ?merged = "merge_rule (rs_ipCidrMatchSource rsi) r b"
  have sel: "r_allItems ?merged = r_allItems r" "r_ruleSetItem ?merged = None"
    "r_invert ?merged = r_invert r" "r_items ?merged = r_items r @ r_items b"
    by (simp_all add: merge_rule_def)
  have "items_ok E b (nestedMetadata rsi m) = items_ok E b m"
    using assms(6) nested_item [OF _ assms(7-9), where E = E]
    by (auto simp: items_ok_def headless_shape_def list_all_iff)
  then have "rule_formula E S (DefaultRule r a) m = rule_formula E S (DefaultRule ?merged a) m"
    using assms(2,3,4,5) merge_rule_groups [OF assms(1,6-9), where E = E and r = r]
    by (simp add: default_formula_def sel rule_set_formula_def set_formula_def items_ok_def conj_assoc
        del: group_verdicts.simps)
  then show ?thesis
    by (simp only: route_rule.match_decided [OF assms(1)])
qed

theorem single_rule_set_is_merged_witness:
  "Rule_Match sample_env sample_sets (DefaultRule (sample_outer [''names'']) ()) sample_metadata =
   Rule_Match sample_env sample_sets (DefaultRule (merge_rule False (sample_outer [''names'']) sample_domain) ()) sample_metadata"
proof -
  have "\<not> rs_ipCidrMatchSource (sample_set_item [''names''])" by (simp add: sample_set_item_def)
  moreover have "Rule_Match sample_env sample_sets (DefaultRule (sample_outer [''names'']) ()) sample_metadata =
   Rule_Match sample_env sample_sets
     (DefaultRule (merge_rule (rs_ipCidrMatchSource (sample_set_item [''names''])) (sample_outer [''names'']) sample_domain) ())
     sample_metadata"
    by (rule single_rule_set_is_merged [OF sample_metadata_decided, where s = "''names''"])
      (simp_all add: sample_outer_def sample_set_item_def sample_sets_def sample_port_def sample_domain_def empty_rule_def
        mergeableRuleIn_def sample_metadata_def InboundContext_zero_def headless_shape_def)
  ultimately show ?thesis by simp
qed

lemma group_verdicts_rule_set: "group_verdicts E (r\<lparr>r_ruleSetItem := x\<rparr>) m = group_verdicts E r m"
proof
  fix g show "group_verdicts E (r\<lparr>r_ruleSetItem := x\<rparr>) m g = group_verdicts E r m g"
    by (cases g) simp_all
qed

text \<open>The verdict of a rule with one rule-set in place of all of them.\<close>

definition matches_alone ::
  "env \<Rightarrow> rule_store \<Rightarrow> abstractDefaultRule \<Rightarrow> RuleSetItem \<Rightarrow> 'a \<Rightarrow> InboundContext \<Rightarrow> string \<Rightarrow> bool"
where
  "matches_alone E S r rsi a m s =
     fst (Rule_Match E S (DefaultRule (r\<lparr>r_ruleSetItem := Some (rsi\<lparr>rs_setList := [s]\<rparr>)\<rparr>) a) m)"

text \<open>
  (C26) Several rule-sets in one condition are alternatives: the rule matches exactly when it matches
  with one of its rule-sets alone. An inverted rule, whose condition is negated, matches exactly when it matches with each of
  its rule-sets alone.
\<close>

theorem rule_sets_are_alternatives:
  assumes "decided m" "r_allItems r \<noteq> []" "r_ruleSetItem r = Some rsi"
  shows "fst (Rule_Match E S (DefaultRule r a) m) =
         (if r_invert r then list_all (matches_alone E S r rsi a m) (rs_setList rsi)
          else list_ex (matches_alone E S r rsi a m) (rs_setList rsi))"
proof -
  have n: "nestedMetadata (rsi\<lparr>rs_setList := x\<rparr>) m = nestedMetadata rsi m" for x
    by (simp add: nestedMetadata_def)
  show ?thesis
    unfolding matches_alone_def route_rule.match_decided [OF assms(1)] using assms(2,3)
    by (auto simp: default_formula_def group_verdicts_rule_set n rule_set_formula_def items_ok_def list_ex_iff list_all_iff
        simp del: group_verdicts.simps)
qed

theorem rule_sets_are_alternatives_witness:
  "fst (Rule_Match sample_env sample_sets (DefaultRule ((sample_outer [''mixed'', ''names''])\<lparr>r_invert := True\<rparr>) ()) sample_metadata) =
   list_all (matches_alone sample_env sample_sets ((sample_outer [''mixed'', ''names''])\<lparr>r_invert := True\<rparr>)
     (sample_set_item [''mixed'', ''names'']) () sample_metadata) [''mixed'', ''names'']"
  using rule_sets_are_alternatives [OF sample_metadata_decided,
      of "(sample_outer [''mixed'', ''names''])\<lparr>r_invert := True\<rparr>" "sample_set_item [''mixed'', ''names'']" sample_env sample_sets "()"]
  by (simp add: sample_outer_def sample_port_def sample_set_item_def empty_rule_def)

text \<open>
  Any other rule-set is a further condition of the rule: the rule matches when its own groups
  and conditions do and a rule of the set matches.
\<close>

theorem other_rule_set_is_a_condition:
  assumes "decided m" "r_allItems r \<noteq> []" "\<not> r_invert r"
    and "r_ruleSetItem r = Some rsi" "rs_setList rsi = [s]" "mergeableRuleIn (S s) = None"
  shows "fst (Rule_Match E S (DefaultRule r a) m) =
         (fst (Rule_Match E S (DefaultRule (r\<lparr>r_ruleSetItem := None\<rparr>) a) m) \<and>
          list_ex (\<lambda>h. fst (HeadlessRule_Match E h (nestedMetadata rsi m))) (S s))"
proof -
  have "decided (nestedMetadata rsi m)" using assms(1) by simp
  then show ?thesis
    unfolding route_rule.match_decided [OF assms(1)] using assms(2-6)
    by (auto simp: default_formula_def group_verdicts_rule_set rule_set_formula_def set_formula_def items_ok_def
        headless.match_decided simp del: group_verdicts.simps)
qed

theorem other_rule_set_is_a_condition_witness:
  "fst (Rule_Match sample_env sample_sets (DefaultRule (sample_outer [''mixed'']) ()) sample_metadata) =
   (fst (Rule_Match sample_env sample_sets
      (DefaultRule ((sample_outer [''mixed''])\<lparr>r_ruleSetItem := None\<rparr>) ()) sample_metadata) \<and>
    list_ex (\<lambda>h. fst (HeadlessRule_Match sample_env h (nestedMetadata (sample_set_item [''mixed'']) sample_metadata)))
      (sample_sets ''mixed''))"
  by (rule other_rule_set_is_a_condition [OF sample_metadata_decided, where s = "''mixed''"])
    (simp_all add: sample_outer_def sample_set_item_def sample_sets_def sample_port_def empty_rule_def
      mergeableRuleIn_def)

subsection \<open>What matching may write\<close>

text \<open>
  Matching a rule writes nothing but the deferred groups, also when the destination addresses
  are ignored, so that rules tried one after the other see the same connection.
\<close>

theorem matching_frame:
  "\<exists>d. snd (Rule_Match E S rule m) = m\<lparr>m_DeferredIPCIDRMatchGroups := d\<rparr>"
  using Rule_Match_framed by (simp add: framed_def)

subsection \<open>Undecided matches\<close>

text \<open>
  (C25) A logical rule matched while destination IP conditions are left open computes Kleene's
  conjunction or disjunction of its sub-rules' verdicts, negated when inverted: no, yes, or "matches,
  pending the recorded groups".
\<close>

theorem logical_rule_is_kleene:
  assumes "m_DeferredIPCIDRMatchGroups m = 0"
  shows "tri_of (Rule_Match E S (LogicalRule mode rules invert a) m) =
    (let ts = map (\<lambda>r. tri_of (Rule_Match E S r (ResetRuleCache m))) rules;
         t = (if mode = LogicalTypeAnd then foldr min ts TYes else foldr max ts TNo)
     in if invert then tri_not t else t)"
  using abstractLogicalRule_tri [OF assms, of mode invert "map (Rule_Match E S) rules"]
  by (simp add: tri_logical_def tri_and_def tri_or_def comp_def)

theorem logical_rule_is_kleene_witness:
  "tri_of (Rule_Match sample_env sample_sets
     (LogicalRule ''and'' [DefaultRule sample_port (), DefaultRule sample_cidr ()] True ())
     (sample_metadata\<lparr>m_IgnoreDestinationIPCIDRMatch := True\<rparr>)) = TMaybe"
proof -
  let ?m = "sample_metadata\<lparr>m_IgnoreDestinationIPCIDRMatch := True\<rparr>"
  have z: "m_DeferredIPCIDRMatchGroups ?m = 0" by (simp add: sample_metadata_def InboundContext_zero_def)
  have "tri_of (Rule_Match sample_env sample_sets (DefaultRule sample_port ()) (ResetRuleCache ?m)) = TYes"
    "tri_of (Rule_Match sample_env sample_sets (DefaultRule sample_cidr ()) (ResetRuleCache ?m)) = TMaybe"
    by code_simp+
  then show ?thesis
    using logical_rule_is_kleene [OF z, of sample_env sample_sets "''and''"
        "[DefaultRule sample_port (), DefaultRule sample_cidr ()]" True "()"]
    by (simp add: LogicalTypeAnd_def)
qed

text \<open>A rule with a query type and a destination IP condition, of the legacy mode.\<close>

definition sample_dns :: "unit DNSRule" where
  "sample_dns = DefaultDNSRule (sample_cidr\<lparr>r_items := [QueryTypeItem {28}],
     r_allItems := PlainItem (QueryTypeItem {28}) # r_allItems sample_cidr\<rparr>) False [] False ()"

definition sample_response :: dns_Msg where
  "sample_response = \<lparr>msg_Rcode = 0, msg_Answer = [RR_A [10, 1, 2, 3]], msg_Ns = [], msg_Extra = []\<rparr>"

text \<open>
  (C3) The first match of the legacy DNS address filter never drops a rule that would accept the
  response: when \<^verbatim>\<open>LegacyPreMatch\<close> rejects a rule, \<^verbatim>\<open>MatchAddressLimit\<close> rejects it on every response.
  The rule keeps destination names and destination IP conditions apart, also across the rule-sets it
  refers to.
\<close>

theorem legacy_pre_match_sound:
  assumes "legacy_rule S rule" "\<not> m_IgnoreDestinationIPCIDRMatch m"
    and "\<not> fst (LegacyPreMatch E S rule (ResetRuleCache m))"
  shows "\<not> MatchAddressLimit E S rule m resp"
proof -
  have "tri_of (DNSRule_Match E S rule ((ResetRuleCache m)\<lparr>m_IgnoreDestinationIPCIDRMatch := True\<rparr>)) = TNo"
    using assms(3) by (simp add: LegacyPreMatch_legacy [OF assms(1)] tri_of_def tri_val_def)
  then show ?thesis
    using first_match_approximates [OF assms(1,2), of E resp] by simp
qed

theorem legacy_pre_match_sound_witness:
  "\<not> MatchAddressLimit sample_env sample_sets sample_dns (sample_metadata\<lparr>m_QueryType := 1\<rparr>) (Some sample_response)"
proof -
  let ?m = "sample_metadata\<lparr>m_QueryType := 1\<rparr>"
  have "legacy_rule sample_sets sample_dns" by code_simp
  moreover have "\<not> m_IgnoreDestinationIPCIDRMatch ?m"
    by (simp add: sample_metadata_def InboundContext_zero_def)
  moreover have "\<not> fst (LegacyPreMatch sample_env sample_sets sample_dns (ResetRuleCache ?m))"
    by code_simp
  ultimately show ?thesis by (rule legacy_pre_match_sound)
qed

text \<open>Every rule-set condition of the rule looks at the destination.\<close>

fun destination_sets :: "'a DNSRule \<Rightarrow> bool" where
  "destination_sets (DefaultDNSRule r mr tag race a) =
     (case r_ruleSetItem r of None \<Rightarrow> True | Some rsi \<Rightarrow> \<not> rs_ipCidrMatchSource rsi)"
| "destination_sets (LogicalDNSRule mode rules invert tags anon race a) = list_all destination_sets rules"

lemma set_tri_no_cidr:
  assumes "undecided nm" "ResetRuleMatchCache nm = nm" "list_all headless_plain rules"
    and "\<not> list_ex headless_has_cidr rules"
  shows "set_tri E rules V nm \<noteq> TMaybe"
proof -
  have "rules_tri E rules nm \<noteq> TMaybe"
    unfolding rules_tri_def using assms headless_no_cidr [OF _ _ assms(1), of _ E]
    by (intro tri_and_or_open) (auto simp: list_ex_iff list_all_iff image_iff dest: sym)
  moreover have "\<not> defers b nm" if "mergeableRuleIn rules = Some b" for b
    using assms(4) mergeableRuleIn_Some [OF that] by (simp add: defers_def)
  ultimately show ?thesis
    by (auto simp: set_tri_def open_tri_def split: option.split)
qed

lemma no_limit_decides:
  assumes M: "\<And>s. md_ContainsIPCIDRRule (M s) = list_ex headless_has_cidr (S s)"
    and "legacy_rule S rule" "destination_sets rule" "\<not> DNSRule_WithAddressLimit M rule" "undecided m"
  shows "tri_of (DNSRule_Match E S rule m) \<noteq> TMaybe"
  using assms(2-)
proof (induction rule arbitrary: m)
  case (DefaultDNSRule r mr tag race a)
  have z: "m_DeferredIPCIDRMatchGroups m = 0" using DefaultDNSRule by (simp add: undecided_def)
  have d: "\<not> defers r m" using DefaultDNSRule by (simp add: defers_def split: if_splits)
  have "tri_of (matchInner E (matchWithOuterGroups E S) r m) \<noteq> TMaybe"
  proof (cases "r_ruleSetItem r")
    case None
    then show ?thesis using DefaultDNSRule d by (simp add: matchInner_tri open_tri_def)
  next
    case (Some rsi)
    have "set_tri E (S s) V (nestedMetadata rsi m) \<noteq> TMaybe" if "s \<in> set (rs_setList rsi)" for s V
      using that DefaultDNSRule Some M
      by (intro set_tri_no_cidr)
        (auto simp: ContainsDestinationIPCIDRRule_def compatible_set_def list_all_iff list_ex_iff split: if_splits)
    then have "sets_tri E S (rs_setList rsi) V (nestedMetadata rsi m) \<noteq> TMaybe" for V
      unfolding sets_tri_def by (intro tri_and_or_open) (auto simp: image_iff dest: sym)
    then show ?thesis
      using DefaultDNSRule Some d by (simp add: matchInner_sets_tri open_tri_def)
  qed
  then show ?case
    using DefaultDNSRule.prems(1)
    by (auto simp: matchForMatch_def abstractDefaultRule_tri [OF z] elim: tri_not.elims)
next
  case (LogicalDNSRule mode rules invert tags anon race a)
  have "TMaybe \<notin> set (map (\<lambda>r. tri_of (DNSRule_Match E S r (ResetRuleCache m))) rules)"
    using LogicalDNSRule by (simp add: list_ex_iff list_all_iff image_iff) (metis undecided_reset(1))
  note t = tri_and_or_open [OF this]
  show ?case using LogicalDNSRule.prems(4) t
    by (auto simp: abstractLogicalRule_tri undecided_def tri_logical_def Let_def comp_def
        elim: tri_not.elims)
qed

text \<open>
  (C24) For a rule without an address limit the first match is final: when \<^verbatim>\<open>WithAddressLimit\<close> is false,
  the verdict of \<^verbatim>\<open>LegacyPreMatch\<close> is the verdict on every response. The metadata of the rule-sets
  must tell truthfully which sets contain IP conditions, the rule keeps destination names and destination IP conditions apart, also
  across its rule-sets, and none of its rule-sets is used with \<^verbatim>\<open>rule_set_ip_cidr_match_source\<close>: a logical rule in such a set
  tests destination addresses although it does not count as an address limit.
\<close>

theorem no_address_limit_is_final:
  assumes "\<And>s. md_ContainsIPCIDRRule (M s) = list_ex headless_has_cidr (S s)"
    and "legacy_rule S rule" "destination_sets rule" "\<not> DNSRule_WithAddressLimit M rule"
    and "\<not> m_IgnoreDestinationIPCIDRMatch m"
  shows "fst (LegacyPreMatch E S rule (ResetRuleCache m)) = MatchAddressLimit E S rule m resp"
proof -
  let ?t = "tri_of (DNSRule_Match E S rule ((ResetRuleCache m)\<lparr>m_IgnoreDestinationIPCIDRMatch := True\<rparr>))"
  have "?t \<noteq> TMaybe"
    using no_limit_decides [OF assms(1-4) first_match_undecided(1)] .
  then show ?thesis
    using first_match_approximates [OF assms(2,5), of E resp]
    by (auto simp: LegacyPreMatch_legacy [OF assms(2)] tri_of_def tri_val_def split: if_splits)
qed

definition sample_set_metadata :: "string \<Rightarrow> RuleSetMetadata" where
  "sample_set_metadata s = \<lparr>md_ContainsProcessRule = False, md_ContainsWIFIRule = False,
     md_ContainsIPCIDRRule = list_ex headless_has_cidr (sample_sets s),
     md_ContainsDNSQueryTypeRule = False, md_ContainsNonIPCIDRRule = True\<rparr>"

theorem no_address_limit_is_final_witness:
  "fst (LegacyPreMatch sample_env sample_sets
          (DefaultDNSRule (sample_outer [''names'']) False [] False ()) (ResetRuleCache sample_metadata)) =
   MatchAddressLimit sample_env sample_sets
     (DefaultDNSRule (sample_outer [''names'']) False [] False ()) sample_metadata (Some sample_response)"
proof (rule no_address_limit_is_final [of sample_set_metadata])
  show "md_ContainsIPCIDRRule (sample_set_metadata s) = list_ex headless_has_cidr (sample_sets s)" for s
    by (simp add: sample_set_metadata_def)
  show "legacy_rule sample_sets (DefaultDNSRule (sample_outer [''names'']) False [] False ())"
    by code_simp
  show "destination_sets (DefaultDNSRule (sample_outer [''names'']) False [] False ())"
    by code_simp
  show "\<not> DNSRule_WithAddressLimit sample_set_metadata (DefaultDNSRule (sample_outer [''names'']) False [] False ())"
    by code_simp
  show "\<not> m_IgnoreDestinationIPCIDRMatch sample_metadata"
    by (simp add: sample_metadata_def InboundContext_zero_def)
qed

text \<open>
  Three rules outside the scope of the soundness theorem, and a response that is not in 10.0.0.0/8:
  names and IP conditions in one rule, and an inverted rule with names and a rule-set of two IP rules.
\<close>

definition mixed_rule :: "unit DNSRule" where
  "mixed_rule = DefaultDNSRule (sample_domain\<lparr>
     r_destinationIPCIDRItems := r_destinationIPCIDRItems sample_cidr,
     r_allItems := r_allItems sample_domain @ r_allItems sample_cidr\<rparr>) False [] False ()"

definition inverted_set_rule :: "unit DNSRule" where
  "inverted_set_rule = DefaultDNSRule (sample_domain\<lparr>
     r_ruleSetItem := Some (sample_set_item [''ips'']),
     r_allItems := r_allItems sample_domain @ [TheRuleSetItem], r_invert := True\<rparr>) False [] False ()"

definition ip_sets :: rule_store where
  "ip_sets s = [DefaultHeadlessRule sample_cidr, DefaultHeadlessRule sample_cidr]"

definition public_response :: dns_Msg where
  "public_response = sample_response\<lparr>msg_Answer := [RR_A [8, 8, 8, 8]]\<rparr>"

text \<open>
  A DNS rule with a domain and an IP condition in one rule is dropped by the first match when the
  domain differs, although the documented formula (domain or ip\_cidr) accepts the response.
\<close>

theorem mixed_rule_is_dropped:
  "\<not> fst (LegacyPreMatch sample_env ip_sets mixed_rule (sample_metadata\<lparr>m_Domain := ''b.example''\<rparr>)) \<and>
   MatchAddressLimit sample_env ip_sets mixed_rule (sample_metadata\<lparr>m_Domain := ''b.example''\<rparr>) (Some sample_response)"
  by code_simp

text \<open>
  An inverted DNS rule with a matching domain and a rule-set of several IP rules is dropped by the
  first match although it accepts a response outside the set: the pending group of the rule-set is
  cleared by the satisfied domain group.
\<close>

theorem inverted_rule_set_is_dropped:
  "\<not> fst (LegacyPreMatch sample_env ip_sets inverted_set_rule sample_metadata) \<and>
   MatchAddressLimit sample_env ip_sets inverted_set_rule sample_metadata (Some public_response)"
  by code_simp

subsection \<open>Sub-rules and responses\<close>

text \<open>
  The sub-rules of a logical rule in a rule-set do not see \<^verbatim>\<open>rule_set_ip_cidr_match_source\<close>: the
  verdict of a logical headless rule is the same with and without the flag.
\<close>

theorem logical_rule_ignores_match_source:
  "fst (HeadlessRule_Match E (LogicalHeadlessRule mode rules invert) (m\<lparr>m_IPCIDRMatchSource := b\<rparr>)) =
   fst (HeadlessRule_Match E (LogicalHeadlessRule mode rules invert) m)"
proof -
  have "ResetRuleCache (m\<lparr>m_IPCIDRMatchSource := b\<rparr>) = ResetRuleCache m"
    by (simp add: ResetRuleCache_def)
  then have "logical_and_loop fs (m\<lparr>m_IPCIDRMatchSource := b\<rparr>) d = logical_and_loop fs m d"
    "logical_or_loop fs (m\<lparr>m_IPCIDRMatchSource := b\<rparr>) c d = logical_or_loop fs m c d" for fs c d
    by (induction fs arbitrary: c d) (simp_all split: prod.split)
  then show ?thesis
    by (simp add: abstractLogicalRule_Match_def Let_def split: prod.split)
qed

definition cidr_rule :: "IPSet \<Rightarrow> bool \<Rightarrow> abstractDefaultRule" where
  "cidr_rule ipSet invert = empty_rule\<lparr>r_destinationIPCIDRItems := [IPCIDRItem False ipSet],
     r_allItems := [PlainItem (IPCIDRItem False ipSet)], r_invert := invert\<rparr>"

text \<open>
  (C27) A DNS rule \<^verbatim>\<open>{"match_response": ..., "ip_cidr": ...}\<close> is decided by the response it names: without
  that response its verdict is its \<^verbatim>\<open>invert\<close> flag, with it the addresses of the response are tested,
  a response without addresses counting as \<^verbatim>\<open>rule_set_ip_cidr_accept_empty\<close> says. The destination
  of the query plays no role.
\<close>

theorem match_response_tests_response_addresses:
  assumes "decided m" "\<not> m_IPCIDRMatchSource m"
  shows "fst (DNSRule_Match E S (DefaultDNSRule (cidr_rule ipSet invert) True tag race a) m) =
    (case (if tag = [] then m_DNSResponse m else m_NamedDNSResponses m tag) of
       None \<Rightarrow> invert
     | Some resp \<Rightarrow>
         (let addresses = DNSResponseAddresses E (Some resp)
          in (if addresses = [] then m_IPCIDRAcceptEmpty m
              else list_ex (x_IPSet_Contains E ipSet) addresses) \<noteq> invert))"
proof -
  have *: "default_formula E (rule_set_formula E S) (cidr_rule ipSet invert) (after_response (Some resp) m) =
      ((if DNSResponseAddresses E (Some resp) = [] then m_IPCIDRAcceptEmpty m
        else list_ex (x_IPSet_Contains E ipSet) (DNSResponseAddresses E (Some resp))) \<noteq> invert)" for resp
    using assms(2)
    by (auto simp: default_formula_def cidr_rule_def empty_rule_def items_ok_def groups_ok_def group_ok_def
        item_verdicts_def IPCIDRItem_Match_def after_response_def DNSResponseAddressesForMatch_def Let_def)
  have inv: "r_invert (cidr_rule ipSet invert) = invert" by (simp add: cidr_rule_def)
  show ?thesis
    by (subst dns_rule.match_decided [OF assms(1)]) (simp add: * inv Let_def split: option.split)
qed

theorem match_response_tests_response_addresses_witness:
  "fst (DNSRule_Match sample_env sample_sets (DefaultDNSRule
      (cidr_rule [(Addr4 0x0A000000, Addr4 0x0AFFFFFF)] False) True [] False ())
     (sample_metadata\<lparr>m_DNSResponse := Some sample_response\<rparr>))"
proof -
  have "decided (sample_metadata\<lparr>m_DNSResponse := Some sample_response\<rparr>)"
    "\<not> m_IPCIDRMatchSource (sample_metadata\<lparr>m_DNSResponse := Some sample_response\<rparr>)"
    by (simp_all add: decided_def sample_metadata_def InboundContext_zero_def)
  note rule = match_response_tests_response_addresses [OF this]
  have "DNSResponseAddresses sample_env (Some sample_response) = [Addr4 0x0A010203]"
    "x_IPSet_Contains sample_env [(Addr4 0x0A000000, Addr4 0x0AFFFFFF)] (Addr4 0x0A010203)"
    by code_simp+
  then show ?thesis
    unfolding rule by simp
qed

end
