(* ===== verification/Codec.thy ===== *)
theory Codec
  imports QM_Prelude
begin

text \<open>
  Reading and writing bytes with Go's packages \<^verbatim>\<open>io\<close> and \<^verbatim>\<open>encoding/binary\<close>: fixed-width big-endian
  numbers and variable-length integers. A reader takes the bytes that are left and returns a value
  with the bytes left after it; a writer returns the bytes it writes.
\<close>

unbundle bit_operations_syntax

datatype read_error = EOF | UnexpectedEOF | VarintOverflow

type_synonym ('e, 'a) reader = "bytes \<Rightarrow> ('e, 'a \<times> bytes) res"

subsection \<open>Bytes\<close>

definition ReadByte :: "(read_error, byte) reader" where
  "ReadByte bs = (case bs of [] \<Rightarrow> Inl EOF | b # rest \<Rightarrow> Inr (b, rest))"

text \<open>\<^verbatim>\<open>io.ReadFull\<close> into a buffer of \<open>n\<close> bytes.\<close>

definition ReadFull :: "nat \<Rightarrow> (read_error, bytes) reader" where
  "ReadFull n bs =
     (if n = 0 then Inr ([], bs)
      else if bs = [] then Inl EOF
      else if length bs < n then Inl UnexpectedEOF
      else Inr (take n bs, drop n bs))"

definition string_bytes :: "string \<Rightarrow> bytes" where
  "string_bytes s = map (\<lambda>c. of_nat (of_char c)) s"

definition bytes_string :: "bytes \<Rightarrow> string" where
  "bytes_string bs = map (\<lambda>b. char_of (unat b)) bs"

subsection \<open>Big-endian numbers\<close>

text \<open>The \<open>n\<close> low bytes of a number, the most significant one first.\<close>

fun be_bytes :: "nat \<Rightarrow> 'a::len word \<Rightarrow> bytes" where
  "be_bytes 0 w = []"
| "be_bytes (Suc n) w = be_bytes n (drop_bit 8 w) @ [ucast w]"

abbreviation be16 :: "16 word \<Rightarrow> bytes" where "be16 \<equiv> be_bytes 2"
abbreviation be32 :: "32 word \<Rightarrow> bytes" where "be32 \<equiv> be_bytes 4"
abbreviation be64 :: "64 word \<Rightarrow> bytes" where "be64 \<equiv> be_bytes 8"

text \<open>The value of big-endian bytes; the type fixes the width.\<close>

definition be_value :: "bytes \<Rightarrow> 'a::len word" where
  "be_value bs = foldl (\<lambda>v b. push_bit 8 v OR ucast b) 0 bs"

text \<open>\<^verbatim>\<open>binary.Read\<close> of one number of \<open>n\<close> bytes, and of a boolean.\<close>

definition read_be :: "nat \<Rightarrow> (read_error, 'a::len word) reader" where
  "read_be n bs = bindE (ReadFull n bs) (\<lambda>(raw, rest). Inr (be_value raw, rest))"

definition read_bool :: "(read_error, bool) reader" where
  "read_bool bs = bindE (ReadByte bs) (\<lambda>(b, rest). Inr (b \<noteq> 0, rest))"

definition write_bool :: "bool \<Rightarrow> bytes" where
  "write_bool b = [if b then 1 else 0]"

subsection \<open>Variable-length integers\<close>

function AppendUvarint :: "64 word \<Rightarrow> bytes" where
  "AppendUvarint x =
     (if x \<ge> 0x80 then (ucast x OR 0x80) # AppendUvarint (drop_bit 7 x) else [ucast x])"
  by pat_completeness auto
termination
proof (relation "measure unat")
  fix x :: "64 word"
  assume "x \<ge> 0x80"
  then have "unat x \<ge> 128" by (simp add: word_le_nat_alt)
  then have "unat x div 2 ^ 7 < unat x" by (intro div_less_dividend) simp_all
  then show "(drop_bit 7 x, x) \<in> measure unat"
    by (simp add: unat_drop_bit_eq drop_bit_eq_div [of 7 "unat x"])
qed simp

declare AppendUvarint.simps [simp del]

text \<open>The loop of \<^verbatim>\<open>binary.ReadUvarint\<close> with at most \<open>left\<close> more bytes, \<open>i\<close> bytes read.\<close>

fun ReadUvarint_loop :: "nat \<Rightarrow> nat \<Rightarrow> 64 word \<Rightarrow> (read_error, 64 word) reader" where
  "ReadUvarint_loop 0 i x bs = Inl VarintOverflow"
| "ReadUvarint_loop (Suc left) i x [] = Inl (if i > 0 then UnexpectedEOF else EOF)"
| "ReadUvarint_loop (Suc left) i x (b # bs) =
     (if b < 0x80 then
        (if left = 0 \<and> b > 1 then Inl VarintOverflow
         else Inr (x OR push_bit (7 * i) (ucast b), bs))
      else ReadUvarint_loop left (Suc i) (x OR push_bit (7 * i) (ucast (b AND 0x7f))) bs)"

definition ReadUvarint :: "(read_error, 64 word) reader" where
  "ReadUvarint bs = ReadUvarint_loop 10 0 0 bs"

subsection \<open>Counted elements\<close>

text \<open>The loop \<^verbatim>\<open>for range n { x, err := read(reader); ...; xs = append(xs, x) }\<close>.\<close>

fun read_n :: "nat \<Rightarrow> ('e, 'a) reader \<Rightarrow> ('e, 'a list) reader" where
  "read_n 0 read bs = Inr ([], bs)"
| "read_n (Suc n) read bs =
     bindE (read bs) (\<lambda>(x, bs1). bindE (read_n n read bs1) (\<lambda>(xs, bs2). Inr (x # xs, bs2)))"

text \<open>An error of the layer below as an error of this layer.\<close>

definition lift_err :: "('e \<Rightarrow> 'f) \<Rightarrow> ('e, 'a) res \<Rightarrow> ('f, 'a) res" where
  "lift_err w x = (case x of Inl e \<Rightarrow> Inl (w e) | Inr a \<Rightarrow> Inr a)"

subsection \<open>Round trips\<close>

lemma lift_err_simps [simp]: "lift_err w (Inr a) = Inr a" "lift_err w (Inl e) = Inl (w e)"
  by (simp_all add: lift_err_def)

lemma lift_err_Inr_iff [simp]: "lift_err w x = Inr a \<longleftrightarrow> x = Inr a"
  by (cases x) simp_all

lemma read_n_concat:
  assumes "\<And>x bs. x \<in> set xs \<Longrightarrow> read (write x @ bs) = Inr (f x, bs)" "n = length xs"
  shows "read_n n read (concat (map write xs) @ bs) = Inr (map f xs, bs)"
  using assms by (induction xs arbitrary: n) simp_all

lemma string_bytes_inverse [simp]: "bytes_string (string_bytes s) = s"
proof (induction s)
  case (Cons c s)
  have "of_char c < (256 :: nat)" by simp
  then show ?case using Cons by (simp add: bytes_string_def string_bytes_def unat_of_nat)
qed (simp add: bytes_string_def string_bytes_def)

lemma length_string_bytes [simp]: "length (string_bytes s) = length s"
  by (simp add: string_bytes_def)

lemma ReadByte_Cons [simp]: "ReadByte (b # bs) = Inr (b, bs)"
  by (simp add: ReadByte_def)

lemma ReadFull_append [simp]: "n = length xs \<Longrightarrow> ReadFull n (xs @ bs) = Inr (xs, bs)"
  by (cases xs) (simp_all add: ReadFull_def)

lemma be_value_snoc: "be_value (bs @ [b]) = push_bit 8 (be_value bs) OR ucast b"
  by (simp add: be_value_def)

lemma be_value_byte [simp]: "be_value [b] = ucast b"
  by (simp add: be_value_def)

lemma be_value_be_bytes: "be_value (be_bytes n w) = take_bit (8 * n) (w :: 'a::len word)"
proof (induction n arbitrary: w)
  case (Suc n)
  have "push_bit 8 (take_bit (8 * n) (drop_bit 8 w)) OR ucast (ucast w :: byte) = take_bit (8 * Suc n) w"
    by (rule bit_word_eqI) (auto simp: bit_simps)
  then show ?case by (simp add: be_value_snoc Suc.IH)
qed (simp add: be_value_def)

lemma length_be_bytes [simp]: "length (be_bytes n w) = n"
  by (induction n arbitrary: w) simp_all

lemma be_value_whole [simp]: "LENGTH('a) = 8 * n \<Longrightarrow> be_value (be_bytes n w) = (w :: 'a::len word)"
  by (simp add: be_value_be_bytes take_bit_word_eq_self)

lemma read_be_append:
  "length xs = n \<Longrightarrow> read_be n (xs @ bs) = Inr (be_value xs, bs)"
  by (simp add: read_be_def)

lemma read_be_byte [simp]: "read_be (Suc 0) (b # bs) = Inr (ucast b, bs)"
  using read_be_append [of "[b]" 1 bs] by simp

lemma read_be_bytes [simp]:
  "LENGTH('a) = 8 * n \<Longrightarrow> read_be n (be_bytes n w @ bs) = Inr (w :: 'a::len word, bs)"
  by (simp add: read_be_append)

lemma read_write_bool [simp]: "read_bool (write_bool b @ bs) = Inr (b, bs)"
  by (simp add: read_bool_def write_bool_def)

lemma septets:
  fixes y :: "64 word"
  shows "push_bit s (y AND 0x7f) OR push_bit (s + 7) (drop_bit 7 y) = push_bit s y"
proof -
  have m: "(0x7f :: 64 word) = mask 7" by (simp add: mask_eq_exp_minus_1)
  show ?thesis
  proof (rule bit_word_eqI)
    fix n assume "n < LENGTH(64)"
    then show "bit (push_bit s (y AND 0x7f) OR push_bit (s + 7) (drop_bit 7 y)) n = bit (push_bit s y) n"
      unfolding m by (cases "n - s < 7") (auto simp: bit_simps)
  qed
qed

lemma bit_128: "bit (0x80 :: 'a::semiring_bits) n \<longleftrightarrow> possible_bit TYPE('a) 7 \<and> n = 7"
proof -
  have "(0x80 :: 'a) = 2 ^ 7" by simp
  then show ?thesis by (simp only: bit_exp_iff) auto
qed

lemma low_septet:
  fixes y :: "64 word"
  shows "ucast ((ucast y OR 0x80 :: byte) AND 0x7f) = y AND 0x7f"
proof -
  have m: "(0x7f :: 64 word) = mask 7" "(0x7f :: byte) = mask 7"
    by (simp_all add: mask_eq_exp_minus_1)
  show ?thesis
    unfolding m by (rule bit_word_eqI) (auto simp: bit_simps bit_128)
qed

lemma high_bit_set: "\<not> (w OR 0x80 :: byte) < 0x80"
  using le_word_or1 [of "0x80 :: byte" w] by simp

text \<open>Reading what was written, with the bits of \<open>i\<close> septets in \<open>x\<close> already.\<close>

lemma ReadUvarint_loop_append:
  assumes "unat y < 2 ^ (64 - 7 * i)" "i \<le> 9"
  shows "ReadUvarint_loop (10 - i) i x (AppendUvarint y @ rest) = Inr (x OR push_bit (7 * i) y, rest)"
  using assms
proof (induction y arbitrary: i x rule: AppendUvarint.induct)
  case (1 y)
  obtain k where k: "10 - i = Suc k" using "1.prems"(2) by (cases "10 - i") simp_all
  show ?case
  proof (cases "y \<ge> 0x80")
    case True
    then have y: "unat y \<ge> 128" by (simp add: word_le_nat_alt)
    have i: "i < 9"
    proof (rule ccontr)
      assume "\<not> i < 9"
      with "1.prems" have "i = 9" by simp
      with "1.prems"(1) y show False by simp
    qed
    have d: "unat (drop_bit 7 y) < 2 ^ (64 - 7 * Suc i)"
    proof -
      have "(2 :: nat) ^ (64 - 7 * i) = 2 ^ (64 - 7 * Suc i) * 2 ^ 7"
      proof -
        have "64 - 7 * i = (64 - 7 * Suc i) + 7" using i by simp
        then show ?thesis by (simp only: power_add)
      qed
      then show ?thesis using "1.prems"(1)
        by (simp add: unat_drop_bit_eq drop_bit_eq_div [of 7 "unat y"] less_mult_imp_div_less)
    qed
    have "7 * Suc i = 7 * i + 7" by simp
    then have join: "(x OR push_bit (7 * i) (y AND 0x7f)) OR push_bit (7 * Suc i) (drop_bit 7 y) = x OR push_bit (7 * i) y"
      by (simp only: or.assoc septets)
    have "ReadUvarint_loop (10 - i) i x (AppendUvarint y @ rest) =
        ReadUvarint_loop (10 - Suc i) (Suc i) (x OR push_bit (7 * i) (y AND 0x7f)) (AppendUvarint (drop_bit 7 y) @ rest)"
    proof -
      have "10 - Suc i = k" using k by simp
      then show ?thesis
        unfolding k using True by (simp add: AppendUvarint.simps [of y] high_bit_set low_septet del: push_bit_and)
    qed
    also have "\<dots> = Inr (x OR push_bit (7 * i) y, rest)"
      using "1.IH" [OF True d] i by (simp only: join)
    finally show ?thesis .
  next
    case False
    then have s: "unat y < 128" by (simp add: word_le_nat_alt)
    then have "take_bit 8 y = y" by (simp add: word_unat_eq_iff unsigned_take_bit_eq take_bit_nat_eq_self)
    then have b2: "ucast (ucast y :: byte) = y" by (simp add: unsigned_ucast_eq)
    have b: "(ucast y :: byte) < 0x80"
      using s by (simp add: word_less_nat_alt unsigned_ucast_eq take_bit_eq_mod)
    have "\<not> (k = 0 \<and> (ucast y :: byte) > 1)"
    proof
      assume "k = 0 \<and> (ucast y :: byte) > 1"
      moreover from this have "i = 9" using k "1.prems"(2) by simp
      ultimately show False using "1.prems"(1) by (simp add: word_less_nat_alt unsigned_ucast_eq take_bit_eq_mod)
    qed
    with False b b2 k show ?thesis by (simp add: AppendUvarint.simps [of y])
  qed
qed

lemma ReadUvarint_append [simp]: "ReadUvarint (AppendUvarint x @ rest) = Inr (x, rest)"
  using ReadUvarint_loop_append [of x 0 0 rest] unsigned_less [of x] by (simp add: ReadUvarint_def)

subsection \<open>Readers consume\<close>

text \<open>A reader that never returns more bytes than it was given, and one that returns fewer.\<close>

definition consumes :: "nat \<Rightarrow> ('e, 'a) reader \<Rightarrow> bool" where
  "consumes k read = (\<forall>bs x rest. read bs = Inr (x, rest) \<longrightarrow> length rest + k \<le> length bs)"

lemma consumesD: "consumes k read \<Longrightarrow> read bs = Inr (x, rest) \<Longrightarrow> length rest + k \<le> length bs"
  unfolding consumes_def by blast

lemma consumes_ReadByte: "consumes 1 ReadByte"
  by (auto simp: consumes_def ReadByte_def split: list.splits)

lemma consumes_ReadFull: "consumes n (ReadFull n)"
  by (auto simp: consumes_def ReadFull_def split: if_splits)

lemma consumes_read_be: "consumes n (read_be n)"
  using consumesD [OF consumes_ReadFull] by (fastforce simp: consumes_def read_be_def)

lemma consumes_read_bool: "consumes 1 read_bool"
  using consumesD [OF consumes_ReadByte] by (fastforce simp: consumes_def read_bool_def)

lemma ReadUvarint_loop_consumes:
  "ReadUvarint_loop n i x bs = Inr (y, rest) \<Longrightarrow> length rest + 1 \<le> length bs"
  by (induction n i x bs rule: ReadUvarint_loop.induct) (auto split: if_splits)

lemma consumes_ReadUvarint: "consumes 1 ReadUvarint"
  using ReadUvarint_loop_consumes by (auto simp: consumes_def ReadUvarint_def)

lemma consumes_read_n:
  assumes "consumes 0 read"
  shows "consumes 0 (read_n n read)"
proof -
  have "read_n n read bs = Inr (x, rest) \<Longrightarrow> length rest \<le> length bs" for bs x rest
    using consumesD [OF assms] by (induction n arbitrary: bs x) fastforce+
  then show ?thesis by (simp add: consumes_def)
qed

lemma consumes_weaken: "consumes k read \<Longrightarrow> j \<le> k \<Longrightarrow> consumes j read"
  by (fastforce simp: consumes_def)

end
