(* ===== verification/Netip_Codec.thy ===== *)
theory Netip_Codec
  imports Netip Codec
begin

text \<open>
  The byte representations of addresses and prefixes in Go's package \<^verbatim>\<open>net/netip\<close>:
  \<^verbatim>\<open>AsSlice\<close>, \<^verbatim>\<open>AddrFromSlice\<close> and the binary marshalling of \<^verbatim>\<open>Addr\<close> and \<^verbatim>\<open>Prefix\<close>.
\<close>

fun addr_AsSlice :: "addr \<Rightarrow> bytes" where
  "addr_AsSlice AddrZero = []"
| "addr_AsSlice (Addr4 w) = be_bytes 4 w"
| "addr_AsSlice (Addr6 w z) = be_bytes 16 w"

definition AddrFromSlice :: "bytes \<Rightarrow> addr option" where
  "AddrFromSlice b =
     (if length b = 4 then Some (Addr4 (be_value b))
      else if length b = 16 then Some (Addr6 (be_value b) [])
      else None)"

fun addr_MarshalBinary :: "addr \<Rightarrow> bytes" where
  "addr_MarshalBinary (Addr6 w z) = be_bytes 16 w @ string_bytes z"
| "addr_MarshalBinary a = addr_AsSlice a"

text \<open>\<open>None\<close> is the error \<^verbatim>\<open>unexpected slice size\<close>.\<close>

definition addr_UnmarshalBinary :: "bytes \<Rightarrow> addr option" where
  "addr_UnmarshalBinary b =
     (let n = length b in
      if n = 0 then Some AddrZero
      else if n = 4 then Some (Addr4 (be_value b))
      else if n = 16 then Some (Addr6 (be_value b) [])
      else if n > 16 then Some (Addr6 (be_value (take 16 b)) (bytes_string (drop 16 b)))
      else None)"

text \<open>The last byte holds the number of bits, 255 for an invalid prefix.\<close>

definition prefix_MarshalBinary :: "prefix \<Rightarrow> bytes" where
  "prefix_MarshalBinary p =
     addr_MarshalBinary (addr_WithoutZone (prefix_Addr p)) @ [word_of_int (prefix_Bits p)]"

definition prefix_UnmarshalBinary :: "bytes \<Rightarrow> prefix option" where
  "prefix_UnmarshalBinary b =
     (if b = [] then None
      else map_option (\<lambda>addr. PrefixFrom addr (uint (last b))) (addr_UnmarshalBinary (butlast b)))"

subsection \<open>Well-formed prefixes\<close>

text \<open>What every value of type \<^verbatim>\<open>netip.Prefix\<close> made by the package satisfies.\<close>

definition prefix_wf :: "prefix \<Rightarrow> bool" where
  "prefix_wf p =
     (\<not> addr_hasZone (prefix_Addr p) \<and>
      (case prefix_bits p of
         None \<Rightarrow> True
       | Some b \<Rightarrow> addr_IsValid (prefix_Addr p) \<and> b \<le> addr_BitLen (prefix_Addr p)))"

lemma prefix_wf_PrefixFrom: "prefix_wf (PrefixFrom ip bits)"
  by (cases ip) (auto simp: prefix_wf_def PrefixFrom_def)

lemma prefix_wf_zero [simp]: "prefix_wf prefix_zero"
  by (simp add: prefix_wf_def prefix_zero_def)

subsection \<open>Round trips\<close>

lemma string_bytes_Nil [simp]: "string_bytes s = [] \<longleftrightarrow> s = []" "string_bytes [] = []"
  by (simp_all add: string_bytes_def)

lemma addr_AsSlice_inverse:
  "addr_IsValid a \<Longrightarrow> \<not> addr_hasZone a \<Longrightarrow> AddrFromSlice (addr_AsSlice a) = Some a"
  by (cases a) (simp_all add: AddrFromSlice_def)

lemma addr_UnmarshalBinary_inverse [simp]: "addr_UnmarshalBinary (addr_MarshalBinary a) = Some a"
  by (cases a) (auto simp: addr_UnmarshalBinary_def Let_def)

lemma addr_WithoutZone_id [simp]: "\<not> addr_hasZone a \<Longrightarrow> addr_WithoutZone a = a"
  by (cases a) simp_all

lemma PrefixFrom_Bits:
  assumes "prefix_wf p" "prefix_IsValid p"
  shows "PrefixFrom (prefix_Addr p) (prefix_Bits p) = p"
  using assms by (auto simp: PrefixFrom_def prefix_wf_def prefix_IsValid_def prefix_Bits_def)

lemma addr_BitLen_le: "addr_BitLen a \<le> 128"
  by (cases a) simp_all

lemma prefix_UnmarshalBinary_inverse:
  assumes "prefix_wf p"
  shows "prefix_UnmarshalBinary (prefix_MarshalBinary p) = Some p"
proof (cases "prefix_bits p")
  case None
  have "PrefixFrom (prefix_Addr p) 255 = p"
    using assms None addr_BitLen_le [of "prefix_Addr p"]
    by (auto simp: PrefixFrom_def prefix_wf_def)
  moreover have "uint (- 1 :: byte) = 255" by (simp add: unsigned_minus_1_eq_mask mask_eq_exp_minus_1)
  ultimately show ?thesis using assms None
    by (simp add: prefix_UnmarshalBinary_def prefix_MarshalBinary_def prefix_Bits_def prefix_wf_def)
next
  case (Some b)
  then have "b \<le> 128" using assms addr_BitLen_le [of "prefix_Addr p"] by (simp add: prefix_wf_def)
  then have "uint (word_of_int (int b) :: byte) = int b"
    by (simp add: unsigned_of_nat take_bit_nat_eq_self)
  then show ?thesis
    using assms Some PrefixFrom_Bits [OF assms]
    by (simp add: prefix_UnmarshalBinary_def prefix_MarshalBinary_def prefix_Bits_def prefix_wf_def
        prefix_IsValid_def)
qed

end
