(* ===== verification/DNS_Message.thy ===== *)
theory DNS_Message
  imports Inbound_Context Go_Std Netip_Codec
begin

text \<open>
  DNS messages with their header fields, questions and resource records, as far as the program reads
  or writes them (miekg/dns \<^verbatim>\<open>Msg\<close>, \<^verbatim>\<open>Question\<close> and \<^verbatim>\<open>RR_Header\<close>). The data of a record is the type \<open>RR\<close>
  of the routing metadata.
\<close>

record dns_Question =
  q_Name :: string
  q_Qtype :: "16 word"
  q_Qclass :: "16 word"

record dns_Record =
  rr_Name :: string
  rr_Class :: "16 word"
  rr_Ttl :: "32 word"
  rr_Data :: RR

record dns_Message =
  h_Id :: "16 word"
  h_Response :: bool
  h_Authoritative :: bool
  h_RecursionDesired :: bool
  h_RecursionAvailable :: bool
  h_Rcode :: int
  h_Question :: "dns_Question list"
  h_Answer :: "dns_Record list"
  h_Ns :: "dns_Record list"
  h_Extra :: "dns_Record list"

definition TypeA :: "16 word" where "TypeA = 1"
definition TypeAAAA :: "16 word" where "TypeAAAA = 28"
definition TypeHTTPS :: "16 word" where "TypeHTTPS = 65"
definition ClassINET :: "16 word" where "ClassINET = 1"

definition HasSuffix :: "string \<Rightarrow> string \<Rightarrow> bool" where
  "HasSuffix s t = (length t \<le> length s \<and> drop (length s - length t) s = t)"

lemma HasSuffix_append [simp]: "HasSuffix (a @ t) t"
  by (simp add: HasSuffix_def)

lemma HasSuffixE: "HasSuffix s t \<Longrightarrow> (\<And>a. s = a @ t \<Longrightarrow> P) \<Longrightarrow> P"
  by (metis HasSuffix_def append_take_drop_id)

subsection \<open>Fixed responses\<close>

definition FixedResponseStatus :: "dns_Message \<Rightarrow> int \<Rightarrow> dns_Message" where
  "FixedResponseStatus message rcode =
     \<lparr>h_Id = h_Id message, h_Response = True, h_Authoritative = True, h_RecursionDesired = True,
      h_RecursionAvailable = True, h_Rcode = rcode, h_Question = h_Question message,
      h_Answer = [], h_Ns = [], h_Extra = []\<rparr>"

text \<open>The record for one address, if it has the type that was asked for.\<close>

definition fixed_record :: "dns_Question \<Rightarrow> 32 word \<Rightarrow> addr \<Rightarrow> dns_Record list" where
  "fixed_record question timeToLive address =
     (if addr_Is4 address \<and> q_Qtype question = TypeA then
        [\<lparr>rr_Name = q_Name question, rr_Class = ClassINET, rr_Ttl = timeToLive,
          rr_Data = RR_A (addr_AsSlice address)\<rparr>]
      else if addr_Is6 address \<and> q_Qtype question = TypeAAAA then
        [\<lparr>rr_Name = q_Name question, rr_Class = ClassINET, rr_Ttl = timeToLive,
          rr_Data = RR_AAAA (addr_AsSlice address)\<rparr>]
      else [])"

definition FixedResponse :: "16 word \<Rightarrow> dns_Question \<Rightarrow> addr list \<Rightarrow> 32 word \<Rightarrow> dns_Message" where
  "FixedResponse msg_id question addresses timeToLive =
     \<lparr>h_Id = msg_id, h_Response = True, h_Authoritative = True, h_RecursionDesired = True,
      h_RecursionAvailable = True, h_Rcode = RcodeSuccess, h_Question = [question],
      h_Answer = concat (map (fixed_record question timeToLive) addresses), h_Ns = [], h_Extra = []\<rparr>"

text \<open>\<open>isFqdn\<close> is \<^verbatim>\<open>dns.IsFqdn\<close>, which is false on the empty string.\<close>

definition FqdnToDomain :: "(string \<Rightarrow> bool) \<Rightarrow> string \<Rightarrow> string" where
  "FqdnToDomain isFqdn fqdn = (if isFqdn fqdn then butlast fqdn else fqdn)"

end
