(* ===== verification/Rule_Action.thy ===== *)
theory Rule_Action
  imports DNS_Message
begin

text \<open>
  The actions of rules (route/rule/rule\_action.go) and how they are made from their options
  (option/rule\_action.go, common/tlsspoof/spoof.go): route and DNS actions, the reject action with its
  flood counter, the list of sniffers of a sniff action, and predefined DNS responses.

  A duration or a time is an integer number of nanoseconds.
\<close>

subsection \<open>Route options\<close>

record RawRouteOptionsActionOptions =
  raw_OverrideAddress :: string
  raw_OverridePort :: "16 word"
  raw_NetworkStrategy :: "8 word option"
  raw_FallbackDelay :: "32 word"
  raw_UDPDisableDomainUnmapping :: bool
  raw_UDPConnect :: bool
  raw_UDPTimeout :: int
  raw_TLSFragment :: bool
  raw_TLSFragmentFallbackDelay :: int
  raw_TLSRecordFragment :: bool
  raw_TLSSpoof :: string
  raw_TLSSpoofMethod :: string

definition RawRouteOptions_zero :: RawRouteOptionsActionOptions where
  "RawRouteOptions_zero = \<lparr>raw_OverrideAddress = [], raw_OverridePort = 0, raw_NetworkStrategy = None,
     raw_FallbackDelay = 0, raw_UDPDisableDomainUnmapping = False, raw_UDPConnect = False,
     raw_UDPTimeout = 0, raw_TLSFragment = False, raw_TLSFragmentFallbackDelay = 0,
     raw_TLSRecordFragment = False, raw_TLSSpoof = [], raw_TLSSpoofMethod = []\<rparr>"

record RuleActionRouteOptions =
  ro_OverrideAddress :: Socksaddr
  ro_OverridePort :: "16 word"
  ro_NetworkStrategy :: "8 word option"
  ro_NetworkType :: "InterfaceType list"
  ro_FallbackNetworkType :: "InterfaceType list"
  ro_FallbackDelay :: int
  ro_UDPDisableDomainUnmapping :: bool
  ro_UDPConnect :: bool
  ro_UDPTimeout :: int
  ro_TLSFragment :: bool
  ro_TLSFragmentFallbackDelay :: int
  ro_TLSRecordFragment :: bool
  ro_TLSSpoof :: string
  ro_TLSSpoofMethod :: int

datatype action_error =
    SpoofMethodRequiresSpoof
  | SpoofUnsupported
  | UnknownSpoofMethod string
  | UnknownSniffer string
  | DialerError
  | UnknownActionPanic string

definition ParseMethod :: "string \<Rightarrow> (action_error, int) res" where
  "ParseMethod s =
     (if s = [] \<or> s = ''wrong-sequence'' then Inr 0
      else if s = ''wrong-checksum'' then Inr 1
      else if s = ''wrong-ack'' then Inr 2
      else if s = ''wrong-md5'' then Inr 3
      else if s = ''wrong-timestamp'' then Inr 4
      else Inl (UnknownSpoofMethod s))"

text \<open>\<open>supported\<close> is the build constant \<^verbatim>\<open>PlatformSupported\<close>.\<close>

definition ParseOptions :: "bool \<Rightarrow> string \<Rightarrow> string \<Rightarrow> (action_error, string \<times> int) res" where
  "ParseOptions supported spoof spoof_method =
     (if spoof = [] then
        (if spoof_method \<noteq> [] then Inl SpoofMethodRequiresSpoof else Inr ([], 0))
      else if \<not> supported then Inl SpoofUnsupported
      else bindE (ParseMethod spoof_method) (\<lambda>parsed. Inr (spoof, parsed)))"

text \<open>\<open>host_port\<close> is the library function \<^verbatim>\<open>M.ParseSocksaddrHostPort\<close>.\<close>

definition newRuleActionRouteOptions ::
  "bool \<Rightarrow> (string \<Rightarrow> 16 word \<Rightarrow> Socksaddr) \<Rightarrow> RawRouteOptionsActionOptions \<Rightarrow>
   (action_error, RuleActionRouteOptions) res"
where
  "newRuleActionRouteOptions supported host_port options =
     bindE (ParseOptions supported (raw_TLSSpoof options) (raw_TLSSpoofMethod options))
       (\<lambda>(spoof, spoofMethod). Inr
          \<lparr>ro_OverrideAddress = host_port (raw_OverrideAddress options) 0,
           ro_OverridePort = raw_OverridePort options,
           ro_NetworkStrategy = raw_NetworkStrategy options,
           ro_NetworkType = [],
           ro_FallbackNetworkType = [],
           ro_FallbackDelay = uint (raw_FallbackDelay options),
           ro_UDPDisableDomainUnmapping = raw_UDPDisableDomainUnmapping options,
           ro_UDPConnect = raw_UDPConnect options,
           ro_UDPTimeout = raw_UDPTimeout options,
           ro_TLSFragment = raw_TLSFragment options,
           ro_TLSFragmentFallbackDelay = raw_TLSFragmentFallbackDelay options,
           ro_TLSRecordFragment = raw_TLSRecordFragment options,
           ro_TLSSpoof = spoof,
           ro_TLSSpoofMethod = spoofMethod\<rparr>)"

subsection \<open>Sniffers\<close>

datatype StreamSniffer = TLSClientHello | HTTPHost | StreamDomainNameQuery | BitTorrent | SSH | RDP

datatype PacketSniffer = QUICClientHello | DomainNameQuery | STUNMessage | UTP | UDPTracker | DTLSRecord | NTP

record RuleActionSniff =
  sn_SnifferNames :: "string list"
  sn_StreamSniffers :: "StreamSniffer list"
  sn_PacketSniffers :: "PacketSniffer list"
  sn_Timeout :: int
  sn_OverrideDestination :: bool

definition sniffers_of :: "string \<Rightarrow> (StreamSniffer list \<times> PacketSniffer list) option" where
  "sniffers_of name =
     (if name = ''tls'' then Some ([TLSClientHello], [])
      else if name = ''http'' then Some ([HTTPHost], [])
      else if name = ''quic'' then Some ([], [QUICClientHello])
      else if name = ''dns'' then Some ([StreamDomainNameQuery], [DomainNameQuery])
      else if name = ''stun'' then Some ([], [STUNMessage])
      else if name = ''bittorrent'' then Some ([BitTorrent], [UTP, UDPTracker])
      else if name = ''dtls'' then Some ([], [DTLSRecord])
      else if name = ''ssh'' then Some ([SSH], [])
      else if name = ''rdp'' then Some ([RDP], [])
      else if name = ''ntp'' then Some ([], [NTP])
      else None)"

text \<open>The loop of \<^verbatim>\<open>RuleActionSniff.build\<close>: it appends to the two lists and stops at the first unknown
  name.\<close>

fun sniff_build_loop :: "string list \<Rightarrow> RuleActionSniff \<Rightarrow> (action_error, RuleActionSniff) res" where
  "sniff_build_loop [] r = Inr r"
| "sniff_build_loop (name # names) r =
     (case sniffers_of name of
        None \<Rightarrow> Inl (UnknownSniffer name)
      | Some (ss, ps) \<Rightarrow>
          sniff_build_loop names (r\<lparr>sn_StreamSniffers := sn_StreamSniffers r @ ss,
                                    sn_PacketSniffers := sn_PacketSniffers r @ ps\<rparr>))"

definition sniff_build :: "RuleActionSniff \<Rightarrow> (action_error, RuleActionSniff) res" where
  "sniff_build r = sniff_build_loop (sn_SnifferNames r) r"

subsection \<open>Route actions\<close>

record RuleActionResolve =
  rs_Server :: string
  rs_Timeout :: int
  rs_Strategy :: "8 word"
  rs_DisableCache :: bool
  rs_DisableOptimisticCache :: bool
  rs_RewriteTTL :: "32 word option"
  rs_ClientSubnet :: prefix

record RouteActionResolve =
  rv_Server :: string
  rv_Timeout :: int
  rv_Strategy :: "8 word"
  rv_DisableCache :: bool
  rv_DisableOptimisticCache :: bool
  rv_RewriteTTL :: "32 word option"
  rv_ClientSubnet :: "prefix option"

definition resolve_action :: "RouteActionResolve \<Rightarrow> RuleActionResolve" where
  "resolve_action options =
     \<lparr>rs_Server = rv_Server options,
      rs_Timeout = rv_Timeout options,
      rs_Strategy = rv_Strategy options,
      rs_DisableCache = rv_DisableCache options,
      rs_DisableOptimisticCache = rv_DisableOptimisticCache options,
      rs_RewriteTTL = rv_RewriteTTL options,
      rs_ClientSubnet = (case rv_ClientSubnet options of None \<Rightarrow> prefix_zero | Some p \<Rightarrow> p)\<rparr>"

text \<open>
  A direct action holds a dialer made by \<^verbatim>\<open>dialer.New\<close>, an opaque value, and a reject action its
  method and \<^verbatim>\<open>no_drop\<close> flag; the flood counter of a reject action is separate state below.
\<close>

datatype 'd RuleAction =
    RuleActionRoute string RuleActionRouteOptions
  | ActionRouteOptions RuleActionRouteOptions
  | RuleActionBypass string RuleActionRouteOptions
  | RuleActionDirect 'd
  | RuleActionReject string bool
  | RuleActionHijackDNS
  | ActionSniff RuleActionSniff
  | ActionResolve RuleActionResolve

record RejectActionOptions =
  ro_Method :: string
  ro_NoDrop :: bool

record 'o action_options =
  ao_Action :: string
  ao_RouteOptions :: "string \<times> RawRouteOptionsActionOptions"
  ao_RouteOptionsOptions :: RawRouteOptionsActionOptions
  ao_DirectOptions :: 'o
  ao_BypassOptions :: "string \<times> RawRouteOptionsActionOptions"
  ao_RejectOptions :: RejectActionOptions
  ao_SniffOptions :: "string slice \<times> int"
  ao_ResolveOptions :: RouteActionResolve

definition action_options_zero :: "'o \<Rightarrow> 'o action_options" where
  "action_options_zero direct_zero =
     \<lparr>ao_Action = [], ao_RouteOptions = ([], RawRouteOptions_zero),
      ao_RouteOptionsOptions = RawRouteOptions_zero, ao_DirectOptions = direct_zero,
      ao_BypassOptions = ([], RawRouteOptions_zero),
      ao_RejectOptions = \<lparr>ro_Method = [], ro_NoDrop = False\<rparr>, ao_SniffOptions = (None, 0),
      ao_ResolveOptions = \<lparr>rv_Server = [], rv_Timeout = 0, rv_Strategy = 0, rv_DisableCache = False,
        rv_DisableOptimisticCache = False, rv_RewriteTTL = None, rv_ClientSubnet = None\<rparr>\<rparr>"

text \<open>
  The action of a rule; \<open>None\<close> is the nil action of a rule without one. \<open>new_dialer\<close> is
  \<^verbatim>\<open>dialer.New\<close>. The last error is the panic of an action name the decoder does not let through.
\<close>

definition NewRuleAction ::
  "bool \<Rightarrow> (string \<Rightarrow> 16 word \<Rightarrow> Socksaddr) \<Rightarrow> ('o \<Rightarrow> 'd option) \<Rightarrow> 'o action_options \<Rightarrow>
   (action_error, 'd RuleAction option) res"
where
  "NewRuleAction supported host_port new_dialer action =
     (if ao_Action action = [] then Inr None
      else if ao_Action action = ''route'' then
        bindE (newRuleActionRouteOptions supported host_port (snd (ao_RouteOptions action)))
          (\<lambda>opt. Inr (Some (RuleActionRoute (fst (ao_RouteOptions action)) opt)))
      else if ao_Action action = ''route-options'' then
        bindE (newRuleActionRouteOptions supported host_port (ao_RouteOptionsOptions action))
          (\<lambda>opt. Inr (Some (ActionRouteOptions opt)))
      else if ao_Action action = ''bypass'' then
        bindE (newRuleActionRouteOptions supported host_port (snd (ao_BypassOptions action)))
          (\<lambda>opt. Inr (Some (RuleActionBypass (fst (ao_BypassOptions action)) opt)))
      else if ao_Action action = ''direct'' then
        (case new_dialer (ao_DirectOptions action) of
           None \<Rightarrow> Inl DialerError
         | Some d \<Rightarrow> Inr (Some (RuleActionDirect d)))
      else if ao_Action action = ''reject'' then
        Inr (Some (RuleActionReject (ro_Method (ao_RejectOptions action)) (ro_NoDrop (ao_RejectOptions action))))
      else if ao_Action action = ''hijack-dns'' then Inr (Some RuleActionHijackDNS)
      else if ao_Action action = ''sniff'' then
        bindE (sniff_build \<lparr>sn_SnifferNames = elems (fst (ao_SniffOptions action)), sn_StreamSniffers = [],
                            sn_PacketSniffers = [], sn_Timeout = snd (ao_SniffOptions action),
                            sn_OverrideDestination = False\<rparr>)
          (\<lambda>s. Inr (Some (ActionSniff s)))
      else if ao_Action action = ''resolve'' then Inr (Some (ActionResolve (resolve_action (ao_ResolveOptions action))))
      else Inl (UnknownActionPanic (ao_Action action)))"

subsection \<open>Rejecting\<close>

datatype reject_outcome =
    RejectReset
  | RejectDrop
  | RejectReply
  | RejectPanic string

definition flood_window :: int where "flood_window = 30 * 1000000000"
definition flood_limit :: nat where "flood_limit = 50"

text \<open>
  \<^verbatim>\<open>RuleActionReject.Error\<close> at the time \<open>now\<close>, with the list of the times of earlier calls. \<open>RejectReset\<close>
  and \<open>RejectDrop\<close> are the two \<^verbatim>\<open>RejectedError\<close> values, \<open>RejectReply\<close> is the nil error.
\<close>

definition RuleActionReject_Error ::
  "string \<Rightarrow> bool \<Rightarrow> int \<Rightarrow> int list \<Rightarrow> reject_outcome \<times> int list"
where
  "RuleActionReject_Error reject_method noDrop now dropCounter =
     (if reject_method = ''default'' then
        (if noDrop then (RejectReset, dropCounter)
         else
           (let counter = filter (\<lambda>t. now - t \<le> flood_window) dropCounter @ [now]
            in if length counter > flood_limit then (RejectDrop, counter) else (RejectReset, counter)))
      else if reject_method = ''drop'' then (RejectDrop, dropCounter)
      else if reject_method = ''reply'' then (RejectReply, dropCounter)
      else (RejectPanic reject_method, dropCounter))"

text \<open>The outcomes of a sequence of calls at the given times.\<close>

fun reject_calls :: "string \<Rightarrow> bool \<Rightarrow> int list \<Rightarrow> int list \<Rightarrow> reject_outcome list" where
  "reject_calls reject_method noDrop counter [] = []"
| "reject_calls reject_method noDrop counter (t # ts) =
     (case RuleActionReject_Error reject_method noDrop t counter of
        (outcome, counter') \<Rightarrow> outcome # reject_calls reject_method noDrop counter' ts)"

text \<open>The counter holds exactly the calls of the last window.\<close>

lemma reject_calls_step:
  "RuleActionReject_Error ''default'' False t counter =
     (let c = filter (\<lambda>x. t - x \<le> flood_window) counter @ [t]
      in (if length c > flood_limit then RejectDrop else RejectReset, c))"
  by (simp add: RuleActionReject_Error_def Let_def)

text \<open>The calls among \<open>past\<close> that lie in the window that ends at \<open>t\<close>.\<close>

definition in_window :: "int \<Rightarrow> int list \<Rightarrow> int list" where
  "in_window t past = filter (\<lambda>x. t - x \<le> flood_window) past"

lemma in_window_later: "t \<le> t' \<Longrightarrow> in_window t' (in_window t past) = in_window t' past"
  by (auto simp: in_window_def intro: filter_cong)

definition reject_outcome_at :: "int list \<Rightarrow> int \<Rightarrow> reject_outcome" where
  "reject_outcome_at past t = (if length (in_window t (past @ [t])) > flood_limit then RejectDrop else RejectReset)"

lemma reject_calls_history:
  assumes "sorted (t0 # ts)"
  shows "reject_calls ''default'' False (in_window t0 past) ts =
         map (\<lambda>i. reject_outcome_at (past @ take i ts) (ts ! i)) [0..<length ts]"
  using assms
proof (induction ts arbitrary: t0 past)
  case (Cons t ts)
  have le: "t0 \<le> t" and srt: "sorted (t # ts)" using Cons.prems by simp_all
  have c: "filter (\<lambda>x. t - x \<le> flood_window) (in_window t0 past) @ [t] = in_window t (past @ [t])"
    using in_window_later [OF le, of past] by (simp add: in_window_def flood_window_def)
  have "reject_calls ''default'' False (in_window t0 past) (t # ts) =
      reject_outcome_at past t # reject_calls ''default'' False (in_window t (past @ [t])) ts"
    by (simp add: reject_calls_step Let_def c reject_outcome_at_def)
  also have "\<dots> = reject_outcome_at past t #
      map (\<lambda>i. reject_outcome_at (past @ take (Suc i) (t # ts)) ((t # ts) ! Suc i)) [0..<length ts]"
    by (simp add: Cons.IH [OF srt])
  also have "\<dots> = map (\<lambda>i. reject_outcome_at (past @ take i (t # ts)) ((t # ts) ! i)) [0..<length (t # ts)]"
    by (simp add: upt_conv_Cons map_Suc_upt [symmetric] comp_def del: upt_Suc map_Suc_upt)
  finally show ?case .
qed simp

lemma reject_calls_nth:
  assumes "sorted ts" "i < length ts"
  shows "reject_calls ''default'' False [] ts ! i = reject_outcome_at (take i ts) (ts ! i)"
proof -
  obtain t ts' where ts: "ts = t # ts'" using assms(2) by (cases ts) auto
  have "sorted (t # ts)" using assms(1) ts by simp
  from reject_calls_history [OF this, of "[]"] show ?thesis
    using assms(2) by (simp add: in_window_def)
qed

lemma in_window_card:
  assumes "i < length ts"
  shows "length (in_window (ts ! i) (take i ts @ [ts ! i])) = card {j. j \<le> i \<and> ts ! i - ts ! j \<le> flood_window}"
proof -
  have "take i ts @ [ts ! i] = take (Suc i) ts" using assms by (simp add: take_Suc_conv_app_nth)
  then have "length (in_window (ts ! i) (take i ts @ [ts ! i])) =
      card {j. j < length (take (Suc i) ts) \<and> ts ! i - take (Suc i) ts ! j \<le> flood_window}"
    by (simp add: in_window_def length_filter_conv_card)
  also have "{j. j < length (take (Suc i) ts) \<and> ts ! i - take (Suc i) ts ! j \<le> flood_window} =
      {j. j \<le> i \<and> ts ! i - ts ! j \<le> flood_window}"
    using assms by auto
  finally show ?thesis .
qed

lemma reject_outcome_count:
  assumes "i < length ts"
  shows "reject_outcome_at (take i ts) (ts ! i) =
    (if card {j. j < i \<and> ts ! i - ts ! j \<le> flood_window} < flood_limit then RejectReset else RejectDrop)"
proof -
  have "{j. j \<le> i \<and> ts ! i - ts ! j \<le> flood_window} = insert i {j. j < i \<and> ts ! i - ts ! j \<le> flood_window}"
    by (auto simp: flood_window_def)
  moreover have "finite {j. j < i \<and> ts ! i - ts ! j \<le> flood_window}"
    by (rule finite_subset [of _ "{..<i}"]) auto
  ultimately show ?thesis
    by (simp add: reject_outcome_at_def in_window_card [OF assms])
qed

text \<open>The methods without flood control do not look at the counter.\<close>

lemma reject_calls_fixed:
  assumes "\<not> (reject_method = ''default'' \<and> \<not> noDrop)"
  shows "reject_calls reject_method noDrop counter ts =
         replicate (length ts) (fst (RuleActionReject_Error reject_method noDrop 0 []))"
  using assms by (induction ts arbitrary: counter) (auto simp: RuleActionReject_Error_def)

lemma reject_calls_length [simp]: "length (reject_calls reject_method noDrop counter ts) = length ts"
  by (induction ts arbitrary: counter) (simp_all split: prod.split)

text \<open>
  (C32) Flood control of the reject action with the method \<^verbatim>\<open>default\<close> and without \<^verbatim>\<open>no_drop\<close>: of any sequence of rejected
  connections at most fifty are answered with a reset in any period of thirty seconds, and all the others are dropped.
\<close>

theorem reject_flood_bound:
  assumes "sorted ts"
  shows "card {i. i < length ts \<and> reject_calls ''default'' False [] ts ! i = RejectReset \<and>
                  a \<le> ts ! i \<and> ts ! i \<le> a + 30 * 1000000000} \<le> 50 \<and>
         set (reject_calls ''default'' False [] ts) \<subseteq> {RejectReset, RejectDrop}"
    (is "card ?R \<le> 50 \<and> _")
proof
  show "card ?R \<le> 50"
  proof (cases "?R = {}")
    case False
    have fin: "finite ?R" by (rule finite_subset [of _ "{..<length ts}"]) auto
    define i where "i = Max ?R"
    have i: "i \<in> ?R" using Max_in [OF fin False] by (simp add: i_def)
    have le: "j \<le> i" if "j \<in> ?R" for j
      unfolding i_def using that by (rule Max_ge [OF fin])
    have "?R \<subseteq> {j. j \<le> i \<and> ts ! i - ts ! j \<le> flood_window}"
    proof
      fix j assume j: "j \<in> ?R"
      with i le [OF j] show "j \<in> {j. j \<le> i \<and> ts ! i - ts ! j \<le> flood_window}"
        by (simp add: flood_window_def)
    qed
    then have "card ?R \<le> card {j. j \<le> i \<and> ts ! i - ts ! j \<le> flood_window}"
      by (rule card_mono [rotated]) (rule finite_subset [of _ "{..i}"], auto)
    also have "\<dots> = length (in_window (ts ! i) (take i ts @ [ts ! i]))"
      using i by (intro in_window_card [symmetric]) simp
    also have "\<dots> \<le> 50"
      using i reject_calls_nth [OF assms, of i]
      by (auto simp: reject_outcome_at_def flood_limit_def split: if_splits)
    finally show ?thesis .
  qed (simp only: card.empty)
  show "set (reject_calls ''default'' False [] ts) \<subseteq> {RejectReset, RejectDrop}"
    using reject_calls_nth [OF assms] by (auto simp: in_set_conv_nth reject_outcome_at_def split: if_splits)
qed

theorem reject_flood_bound_witness:
  "sorted [0, 1, 2 :: int] \<and>
   card {i. i < length [0, 1, 2 :: int] \<and> reject_calls ''default'' False [] [0, 1, 2] ! i = RejectReset \<and>
            0 \<le> [0, 1, 2 :: int] ! i \<and> [0, 1, 2 :: int] ! i \<le> 0 + 30 * 1000000000} \<le> 50 \<and>
   set (reject_calls ''default'' False [] [0, 1, 2]) \<subseteq> {RejectReset, RejectDrop}"
proof
  show "sorted [0, 1, 2 :: int]" by simp
  then show "card {i. i < length [0, 1, 2 :: int] \<and> reject_calls ''default'' False [] [0, 1, 2] ! i = RejectReset \<and>
      0 \<le> [0, 1, 2 :: int] ! i \<and> [0, 1, 2 :: int] ! i \<le> 0 + 30 * 1000000000} \<le> 50 \<and>
      set (reject_calls ''default'' False [] [0, 1, 2]) \<subseteq> {RejectReset, RejectDrop}"
    by (rule reject_flood_bound)
qed

text \<open>
  What a rejected connection gets, for every method: with the method \<^verbatim>\<open>default\<close> a reset, unless \<^verbatim>\<open>no_drop\<close> is off and
  fifty or more others came in the thirty seconds before it, when it is dropped; with \<^verbatim>\<open>drop\<close> it is always dropped, and with
  \<^verbatim>\<open>reply\<close> it always gets the nil error that stands for a reply.
\<close>

theorem reject_outcome_of_call:
  assumes "sorted ts" "i < length ts"
  shows "reject_calls reject_method noDrop [] ts ! i =
    (if reject_method = ''default'' then
       (if noDrop \<or> card {j. j < i \<and> ts ! i - ts ! j \<le> 30 * 1000000000} < 50 then RejectReset else RejectDrop)
     else if reject_method = ''drop'' then RejectDrop
     else if reject_method = ''reply'' then RejectReply
     else RejectPanic reject_method)"
proof (cases "reject_method = ''default'' \<and> \<not> noDrop")
  case True
  then show ?thesis
    using reject_calls_nth [OF assms] reject_outcome_count [OF assms(2)] by (simp add: flood_window_def flood_limit_def)
next
  case False
  show ?thesis unfolding reject_calls_fixed [OF False] using assms(2) False by (auto simp: RuleActionReject_Error_def)
qed

theorem reject_outcome_of_call_witness:
  "reject_calls ''default'' False [] [0, 5] ! 1 = RejectReset"
proof -
  have "card {j. j < (1 :: nat) \<and> [0, 5 :: int] ! 1 - [0, 5] ! j \<le> 30 * 1000000000} \<le> card {..<(1 :: nat)}"
    by (rule card_mono) auto
  then have "card {j. j < (1 :: nat) \<and> [0, 5 :: int] ! 1 - [0, 5] ! j \<le> 30 * 1000000000} < 50" by simp
  then show ?thesis using reject_outcome_of_call [of "[0, 5]" 1 "''default''" False] by simp
qed

subsection \<open>DNS actions\<close>

record AbstractDNSRouteActionOptions =
  dr_Timeout :: int
  dr_Strategy :: "8 word"
  dr_DisableCache :: bool
  dr_DisableOptimisticCache :: bool
  dr_RewriteTTL :: "32 word option"
  dr_ClientSubnet :: "prefix option"
  dr_RemoveClientSubnet :: bool

record RuleActionDNSRouteOptions =
  do_Strategy :: "8 word"
  do_Timeout :: int
  do_DisableCache :: bool
  do_DisableOptimisticCache :: bool
  do_RewriteTTL :: "32 word option"
  do_ClientSubnet :: prefix
  do_RemoveClientSubnet :: bool

text \<open>\<^verbatim>\<open>PtrValueOrDefault\<close> turns a missing subnet into the invalid zero prefix.\<close>

definition dns_route_options :: "AbstractDNSRouteActionOptions \<Rightarrow> RuleActionDNSRouteOptions" where
  "dns_route_options options =
     \<lparr>do_Strategy = dr_Strategy options,
      do_Timeout = dr_Timeout options,
      do_DisableCache = dr_DisableCache options,
      do_DisableOptimisticCache = dr_DisableOptimisticCache options,
      do_RewriteTTL = dr_RewriteTTL options,
      do_ClientSubnet = (case dr_ClientSubnet options of None \<Rightarrow> prefix_zero | Some p \<Rightarrow> p),
      do_RemoveClientSubnet = dr_RemoveClientSubnet options\<rparr>"

text \<open>
  \<open>RuleActionDNSRoute server speculative fallback options\<close>,
  \<open>RuleActionEvaluate server tag speculative options\<close>, \<open>DNSReject method no_drop\<close> and
  \<open>RuleActionPredefined rcode answer ns extra\<close>.
\<close>

datatype DNSRuleAction =
    RuleActionDNSRoute string bool bool RuleActionDNSRouteOptions
  | RuleActionEvaluate string string bool RuleActionDNSRouteOptions
  | RuleActionRespond
  | ActionDNSRouteOptions RuleActionDNSRouteOptions
  | DNSReject string bool
  | RuleActionPredefined int "dns_Record list" "dns_Record list" "dns_Record list"

record dns_action_options =
  da_Action :: string
  da_Race :: bool
  da_Server :: string
  da_Speculative :: bool
  da_Fallback :: bool
  da_RouteOptions :: AbstractDNSRouteActionOptions
  da_EvaluateServer :: string
  da_EvaluateTag :: string
  da_EvaluateSpeculative :: bool
  da_EvaluateOptions :: AbstractDNSRouteActionOptions
  da_RouteOptionsOptions :: AbstractDNSRouteActionOptions
  da_RejectOptions :: RejectActionOptions
  da_Predefined :: "int option \<times> dns_Record slice \<times> dns_Record slice \<times> dns_Record slice"

text \<open>A missing response code is success.\<close>

definition DNSRCode_Build :: "int option \<Rightarrow> int" where
  "DNSRCode_Build r = (case r of None \<Rightarrow> 0 | Some code \<Rightarrow> code)"

text \<open>\<open>Inl\<close> is the panic of an unknown action, \<open>Inr None\<close> the nil action.\<close>

definition NewDNSRuleAction :: "dns_action_options \<Rightarrow> (string, DNSRuleAction option) res" where
  "NewDNSRuleAction action =
     (if da_Action action = [] then Inr None
      else if da_Action action = ''route'' then
        Inr (Some (RuleActionDNSRoute (da_Server action) (da_Speculative action) (da_Fallback action)
                     (dns_route_options (da_RouteOptions action))))
      else if da_Action action = ''evaluate'' then
        Inr (Some (RuleActionEvaluate (da_EvaluateServer action) (da_EvaluateTag action)
                     (da_EvaluateSpeculative action) (dns_route_options (da_EvaluateOptions action))))
      else if da_Action action = ''respond'' then Inr (Some RuleActionRespond)
      else if da_Action action = ''route-options'' then
        Inr (Some (ActionDNSRouteOptions (dns_route_options (da_RouteOptionsOptions action))))
      else if da_Action action = ''reject'' then
        Inr (Some (DNSReject (ro_Method (da_RejectOptions action)) (ro_NoDrop (da_RejectOptions action))))
      else if da_Action action = ''predefined'' then
        (case da_Predefined action of
           (rcode, answer, ns, extra) \<Rightarrow>
             Inr (Some (RuleActionPredefined (DNSRCode_Build rcode) (elems answer) (elems ns) (elems extra))))
      else Inl (da_Action action))"

datatype dns_action_error =
    RejectReplyUnsupported
  | ClientSubnetConflict
  | RaceRequiresFinalAction
  | RaceAndSpeculative

definition AbstractDNSRouteActionOptions_zero :: AbstractDNSRouteActionOptions where
  "AbstractDNSRouteActionOptions_zero = \<lparr>dr_Timeout = 0, dr_Strategy = 0, dr_DisableCache = False,
     dr_DisableOptimisticCache = False, dr_RewriteTTL = None, dr_ClientSubnet = None,
     dr_RemoveClientSubnet = False\<rparr>"

definition dns_action_options_zero :: dns_action_options where
  "dns_action_options_zero =
     \<lparr>da_Action = [], da_Race = False, da_Server = [], da_Speculative = False, da_Fallback = False,
      da_RouteOptions = AbstractDNSRouteActionOptions_zero, da_EvaluateServer = [], da_EvaluateTag = [],
      da_EvaluateSpeculative = False, da_EvaluateOptions = AbstractDNSRouteActionOptions_zero,
      da_RouteOptionsOptions = AbstractDNSRouteActionOptions_zero,
      da_RejectOptions = \<lparr>ro_Method = [], ro_NoDrop = False\<rparr>,
      da_Predefined = (None, None, None, None)\<rparr>"

text \<open>\<^verbatim>\<open>validateDNSRuleAction\<close> (rule\_dns.go).\<close>

definition validateDNSRuleAction :: "dns_action_options \<Rightarrow> (dns_action_error, unit) res" where
  "validateDNSRuleAction action =
     (if da_Action action = ''reject'' \<and> ro_Method (da_RejectOptions action) = ''reply''
      then Inl RejectReplyUnsupported
      else
        (let routeOptions =
           (if da_Action action = [] \<or> da_Action action = ''route'' then da_RouteOptions action
            else if da_Action action = ''evaluate'' then da_EvaluateOptions action
            else if da_Action action = ''route-options'' then da_RouteOptionsOptions action
            else AbstractDNSRouteActionOptions_zero)
         in if dr_RemoveClientSubnet routeOptions \<and> dr_ClientSubnet routeOptions \<noteq> None
            then Inl ClientSubnetConflict
            else if da_Race action then
              (if da_Action action \<notin> set [[], ''route'', ''respond'', ''reject'', ''predefined'']
               then Inl RaceRequiresFinalAction
               else if da_Speculative action then Inl RaceAndSpeculative
               else Inr ())
            else Inr ()))"

subsection \<open>Predefined responses\<close>

text \<open>A record with a wildcard owner name takes the name of the question when the question ends with
  what follows the star.\<close>

definition rewriteRecords :: "dns_Record list \<Rightarrow> dns_Question \<Rightarrow> dns_Record list" where
  "rewriteRecords records question =
     map (\<lambda>it. if HasPrefix (rr_Name it) ''*'' \<and> HasSuffix (q_Name question) (drop 1 (rr_Name it))
               then it\<lparr>rr_Name := q_Name question\<rparr> else it) records"

text \<open>\<open>None\<close> is the index panic on a request without question.\<close>

definition RuleActionPredefined_Response ::
  "int \<Rightarrow> dns_Record list \<Rightarrow> dns_Record list \<Rightarrow> dns_Record list \<Rightarrow> dns_Message \<Rightarrow> dns_Message option"
where
  "RuleActionPredefined_Response rcode answer ns extra request =
     (case h_Question request of
        [] \<Rightarrow> None
      | question # _ \<Rightarrow> Some
          \<lparr>h_Id = h_Id request, h_Response = True, h_Authoritative = True, h_RecursionDesired = True,
           h_RecursionAvailable = True, h_Rcode = rcode, h_Question = h_Question request,
           h_Answer = rewriteRecords answer question, h_Ns = rewriteRecords ns question,
           h_Extra = rewriteRecords extra question\<rparr>)"

end
