(* ===== verification/Rule_Options.thy ===== *)
theory Rule_Options
  imports Rule_Action
begin

text \<open>
  The options a rule is built from, as the decoder leaves them (option/rule.go, option/rule\_dns.go,
  option/rule\_set.go). A list of the configuration is a Go slice, which may be nil or empty; the test
  whether a rule has any condition tells the two apart, the constructors do not.
\<close>

subsection \<open>Headless rules\<close>

record headless_options =
  hl_QueryType :: "16 word slice"
  hl_Network :: "string slice"
  hl_Domain :: "string slice"
  hl_DomainSuffix :: "string slice"
  hl_DomainKeyword :: "string slice"
  hl_DomainRegex :: "string slice"
  hl_SourceIPCIDR :: "string slice"
  hl_IPCIDR :: "string slice"
  hl_SourcePort :: "16 word slice"
  hl_SourcePortRange :: "string slice"
  hl_Port :: "16 word slice"
  hl_PortRange :: "string slice"
  hl_ProcessName :: "string slice"
  hl_ProcessPath :: "string slice"
  hl_ProcessPathRegex :: "string slice"
  hl_PackageName :: "string slice"
  hl_PackageNameRegex :: "string slice"
  hl_NetworkType :: "InterfaceType slice"
  hl_NetworkIsExpensive :: bool
  hl_NetworkIsConstrained :: bool
  hl_WIFISSID :: "string slice"
  hl_WIFIBSSID :: "string slice"
  hl_NetworkInterfaceAddress :: "(InterfaceType \<times> prefix list) slice"
  hl_DefaultInterfaceAddress :: "prefix slice"
  hl_Invert :: bool
  hl_DomainMatcher :: "domain_Matcher option"
  hl_SourceIPSet :: "IPSet option"
  hl_IPSet :: "IPSet option"
  hl_AdGuardDomain :: "string slice"
  hl_AdGuardDomainMatcher :: "domain_AdGuardMatcher option"

definition headless_options_zero :: headless_options where
  "headless_options_zero = \<lparr>
     hl_QueryType = None, hl_Network = None, hl_Domain = None, hl_DomainSuffix = None,
     hl_DomainKeyword = None, hl_DomainRegex = None, hl_SourceIPCIDR = None,
     hl_IPCIDR = None, hl_SourcePort = None, hl_SourcePortRange = None, hl_Port = None,
     hl_PortRange = None, hl_ProcessName = None, hl_ProcessPath = None,
     hl_ProcessPathRegex = None, hl_PackageName = None, hl_PackageNameRegex = None,
     hl_NetworkType = None, hl_NetworkIsExpensive = False, hl_NetworkIsConstrained = False,
     hl_WIFISSID = None, hl_WIFIBSSID = None, hl_NetworkInterfaceAddress = None,
     hl_DefaultInterfaceAddress = None, hl_Invert = False, hl_DomainMatcher = None,
     hl_SourceIPSet = None, hl_IPSet = None, hl_AdGuardDomain = None,
     hl_AdGuardDomainMatcher = None\<rparr>"

datatype HeadlessRuleOptions =
  HeadlessRuleOptions
    (ho_Type: string)
    (ho_DefaultOptions: headless_options)
    (ho_Mode: string)
    (ho_Rules: "HeadlessRuleOptions list")
    (ho_Invert: bool)

text \<open>The comparison with the zero value but for \<^verbatim>\<open>Invert\<close>.\<close>

definition DefaultHeadlessRule_IsValid :: "headless_options \<Rightarrow> bool" where
  "DefaultHeadlessRule_IsValid r = (r \<noteq> headless_options_zero\<lparr>hl_Invert := hl_Invert r\<rparr>)"

subsection \<open>Route rules\<close>

record RawDefaultRule =
  rd_Inbound :: "string slice"
  rd_IPVersion :: int
  rd_Network :: "string slice"
  rd_AuthUser :: "string slice"
  rd_Protocol :: "string slice"
  rd_Client :: "string slice"
  rd_Domain :: "string slice"
  rd_DomainSuffix :: "string slice"
  rd_DomainKeyword :: "string slice"
  rd_DomainRegex :: "string slice"
  rd_Geosite :: "string slice"
  rd_SourceGeoIP :: "string slice"
  rd_GeoIP :: "string slice"
  rd_SourceIPCIDR :: "string slice"
  rd_SourceIPIsPrivate :: bool
  rd_IPCIDR :: "string slice"
  rd_IPIsPrivate :: bool
  rd_SourcePort :: "16 word slice"
  rd_SourcePortRange :: "string slice"
  rd_Port :: "16 word slice"
  rd_PortRange :: "string slice"
  rd_ProcessName :: "string slice"
  rd_ProcessPath :: "string slice"
  rd_ProcessPathRegex :: "string slice"
  rd_PackageName :: "string slice"
  rd_PackageNameRegex :: "string slice"
  rd_User :: "string slice"
  rd_UserID :: "int slice"
  rd_ClashMode :: string
  rd_NetworkType :: "InterfaceType slice"
  rd_NetworkIsExpensive :: bool
  rd_NetworkIsConstrained :: bool
  rd_WIFISSID :: "string slice"
  rd_WIFIBSSID :: "string slice"
  rd_InterfaceAddress :: "(string \<times> prefix list) slice"
  rd_NetworkInterfaceAddress :: "(InterfaceType \<times> prefix list) slice"
  rd_DefaultInterfaceAddress :: "prefix slice"
  rd_SourceMACAddress :: "string slice"
  rd_SourceHostname :: "string slice"
  rd_PreferredBy :: "string slice"
  rd_RuleSet :: "string slice"
  rd_RuleSetIPCIDRMatchSource :: bool
  rd_Invert :: bool
  rd_Deprecated_RulesetIPCIDRMatchSource :: bool

definition RawDefaultRule_zero :: RawDefaultRule where
  "RawDefaultRule_zero = \<lparr>
     rd_Inbound = None, rd_IPVersion = 0, rd_Network = None, rd_AuthUser = None,
     rd_Protocol = None, rd_Client = None, rd_Domain = None, rd_DomainSuffix = None,
     rd_DomainKeyword = None, rd_DomainRegex = None, rd_Geosite = None,
     rd_SourceGeoIP = None, rd_GeoIP = None, rd_SourceIPCIDR = None,
     rd_SourceIPIsPrivate = False, rd_IPCIDR = None, rd_IPIsPrivate = False,
     rd_SourcePort = None, rd_SourcePortRange = None, rd_Port = None, rd_PortRange = None,
     rd_ProcessName = None, rd_ProcessPath = None, rd_ProcessPathRegex = None,
     rd_PackageName = None, rd_PackageNameRegex = None, rd_User = None, rd_UserID = None,
     rd_ClashMode = [], rd_NetworkType = None, rd_NetworkIsExpensive = False,
     rd_NetworkIsConstrained = False, rd_WIFISSID = None, rd_WIFIBSSID = None,
     rd_InterfaceAddress = None, rd_NetworkInterfaceAddress = None,
     rd_DefaultInterfaceAddress = None, rd_SourceMACAddress = None,
     rd_SourceHostname = None, rd_PreferredBy = None, rd_RuleSet = None,
     rd_RuleSetIPCIDRMatchSource = False, rd_Invert = False,
     rd_Deprecated_RulesetIPCIDRMatchSource = False\<rparr>"

subsection \<open>DNS rules\<close>

record RawDefaultDNSRule =
  dd_Inbound :: "string slice"
  dd_IPVersion :: int
  dd_QueryType :: "16 word slice"
  dd_QueryClientSubnet :: "prefix slice"
  dd_QueryDNSSEC :: bool
  dd_Network :: "string slice"
  dd_AuthUser :: "string slice"
  dd_Protocol :: "string slice"
  dd_Domain :: "string slice"
  dd_DomainSuffix :: "string slice"
  dd_DomainKeyword :: "string slice"
  dd_DomainRegex :: "string slice"
  dd_SourceIPCIDR :: "string slice"
  dd_SourceIPIsPrivate :: bool
  dd_SourcePort :: "16 word slice"
  dd_SourcePortRange :: "string slice"
  dd_Port :: "16 word slice"
  dd_PortRange :: "string slice"
  dd_ProcessName :: "string slice"
  dd_ProcessPath :: "string slice"
  dd_ProcessPathRegex :: "string slice"
  dd_PackageName :: "string slice"
  dd_PackageNameRegex :: "string slice"
  dd_User :: "string slice"
  dd_UserID :: "int slice"
  dd_Outbound :: "string slice"
  dd_ClashMode :: string
  dd_NetworkType :: "InterfaceType slice"
  dd_NetworkIsExpensive :: bool
  dd_NetworkIsConstrained :: bool
  dd_WIFISSID :: "string slice"
  dd_WIFIBSSID :: "string slice"
  dd_InterfaceAddress :: "(string \<times> prefix list) slice"
  dd_NetworkInterfaceAddress :: "(InterfaceType \<times> prefix list) slice"
  dd_DefaultInterfaceAddress :: "prefix slice"
  dd_SourceMACAddress :: "string slice"
  dd_SourceHostname :: "string slice"
  dd_PreferredBy :: "string slice"
  dd_RuleSet :: "string slice"
  dd_RuleSetIPCIDRMatchSource :: bool
  dd_MatchResponse :: "(bool \<times> string) option"
  dd_IPCIDR :: "string slice"
  dd_IPIsPrivate :: bool
  dd_IPAcceptAny :: bool
  dd_ResponseRcode :: "int option"
  dd_ResponseAnswer :: "RR option slice"
  dd_ResponseNs :: "RR option slice"
  dd_ResponseExtra :: "RR option slice"
  dd_Invert :: bool
  dd_Geosite :: "string slice"
  dd_SourceGeoIP :: "string slice"
  dd_GeoIP :: "string slice"
  dd_RuleSetIPCIDRAcceptEmpty :: bool
  dd_Deprecated_RulesetIPCIDRMatchSource :: bool

definition RawDefaultDNSRule_zero :: RawDefaultDNSRule where
  "RawDefaultDNSRule_zero = \<lparr>
     dd_Inbound = None, dd_IPVersion = 0, dd_QueryType = None, dd_QueryClientSubnet = None,
     dd_QueryDNSSEC = False, dd_Network = None, dd_AuthUser = None, dd_Protocol = None,
     dd_Domain = None, dd_DomainSuffix = None, dd_DomainKeyword = None,
     dd_DomainRegex = None, dd_SourceIPCIDR = None, dd_SourceIPIsPrivate = False,
     dd_SourcePort = None, dd_SourcePortRange = None, dd_Port = None, dd_PortRange = None,
     dd_ProcessName = None, dd_ProcessPath = None, dd_ProcessPathRegex = None,
     dd_PackageName = None, dd_PackageNameRegex = None, dd_User = None, dd_UserID = None,
     dd_Outbound = None, dd_ClashMode = [], dd_NetworkType = None,
     dd_NetworkIsExpensive = False, dd_NetworkIsConstrained = False, dd_WIFISSID = None,
     dd_WIFIBSSID = None, dd_InterfaceAddress = None, dd_NetworkInterfaceAddress = None,
     dd_DefaultInterfaceAddress = None, dd_SourceMACAddress = None,
     dd_SourceHostname = None, dd_PreferredBy = None, dd_RuleSet = None,
     dd_RuleSetIPCIDRMatchSource = False, dd_MatchResponse = None, dd_IPCIDR = None,
     dd_IPIsPrivate = False, dd_IPAcceptAny = False, dd_ResponseRcode = None,
     dd_ResponseAnswer = None, dd_ResponseNs = None, dd_ResponseExtra = None,
     dd_Invert = False, dd_Geosite = None, dd_SourceGeoIP = None, dd_GeoIP = None,
     dd_RuleSetIPCIDRAcceptEmpty = False, dd_Deprecated_RulesetIPCIDRMatchSource = False\<rparr>"

end
