(* ===== verification/Rule_Build.thy ===== *)
theory Rule_Build
  imports Rule_Options Rule_DNS
begin

text \<open>
  Building rules from their options: \<^verbatim>\<open>NewHeadlessRule\<close> (rule\_headless.go), \<^verbatim>\<open>NewRule\<close>
  (rule\_default.go) and \<^verbatim>\<open>NewDNSRule\<close> (rule\_dns.go) with the default and logical constructors, the
  check that sub-rules carry no action (rule\_nested\_action.go), and the metadata of a rule-set
  (rule\_set.go).

  A constructor is a sequence of steps on the rule under construction, in the order of the source;
  each step appends a condition to the group it belongs to and to the list of all conditions, or
  stops with an error.
\<close>

subsection \<open>Steps\<close>

text \<open>Library functions the constructors use.\<close>

record build_env =
  b_Compiles :: "string \<Rightarrow> bool"
  b_ParsePrefix :: "string \<Rightarrow> prefix option"
  b_ParseAddr :: "string \<Rightarrow> addr option"
  b_BuildIPSet :: "cidr_entry list \<Rightarrow> IPSet option"
  b_TrimSpace :: "string \<Rightarrow> string"
  b_NetworkManager :: bool

datatype build_error =
    MissingConditions
  | UnknownRuleType string
  | UnknownLogicalMode string
  | FieldError string item_error
  | InvalidIPVersion int
  | GeositeRemoved
  | GeoIPRemoved
  | RulesetMatchSourceRemoved
  | AcceptEmptyRemoved string
  | ActionError action_error
  | DNSActionError dns_action_error
  | UnknownDNSActionPanic string
  | NestedAction
  | EvaluateNotTopLevel
  | MissingOutbound
  | MissingServer
  | RaceRequiresMatchResponse
  | SubRule nat build_error
  | UnknownTypePanic string

type_synonym build_step = "abstractDefaultRule \<Rightarrow> (build_error, abstractDefaultRule) res"

definition to_all :: "RuleItem \<Rightarrow> abstractDefaultRule \<Rightarrow> abstractDefaultRule" where
  "to_all it r = r\<lparr>r_allItems := r_allItems r @ [PlainItem it]\<rparr>"

definition to_items :: "RuleItem \<Rightarrow> abstractDefaultRule \<Rightarrow> abstractDefaultRule" where
  "to_items it r = to_all it (r\<lparr>r_items := r_items r @ [it]\<rparr>)"

definition to_srcAddr :: "RuleItem \<Rightarrow> abstractDefaultRule \<Rightarrow> abstractDefaultRule" where
  "to_srcAddr it r = to_all it (r\<lparr>r_sourceAddressItems := r_sourceAddressItems r @ [it]\<rparr>)"

definition to_srcPort :: "RuleItem \<Rightarrow> abstractDefaultRule \<Rightarrow> abstractDefaultRule" where
  "to_srcPort it r = to_all it (r\<lparr>r_sourcePortItems := r_sourcePortItems r @ [it]\<rparr>)"

definition to_dstAddr :: "RuleItem \<Rightarrow> abstractDefaultRule \<Rightarrow> abstractDefaultRule" where
  "to_dstAddr it r = to_all it (r\<lparr>r_destinationAddressItems := r_destinationAddressItems r @ [it]\<rparr>)"

definition to_dstCIDR :: "RuleItem \<Rightarrow> abstractDefaultRule \<Rightarrow> abstractDefaultRule" where
  "to_dstCIDR it r = to_all it (r\<lparr>r_destinationIPCIDRItems := r_destinationIPCIDRItems r @ [it]\<rparr>)"

definition to_dstPort :: "RuleItem \<Rightarrow> abstractDefaultRule \<Rightarrow> abstractDefaultRule" where
  "to_dstPort it r = to_all it (r\<lparr>r_destinationPortItems := r_destinationPortItems r @ [it]\<rparr>)"

text \<open>A condition that cannot fail, and one whose construction may fail.\<close>

definition plain :: "bool \<Rightarrow> RuleItem \<Rightarrow> (RuleItem \<Rightarrow> abstractDefaultRule \<Rightarrow> abstractDefaultRule) \<Rightarrow> build_step" where
  "plain present it place r = Inr (if present then place it r else r)"

definition checked ::
  "bool \<Rightarrow> string \<Rightarrow> (item_error, RuleItem) res \<Rightarrow> (RuleItem \<Rightarrow> abstractDefaultRule \<Rightarrow> abstractDefaultRule) \<Rightarrow> build_step"
where
  "checked present field result place r =
     (if present then
        (case result of Inl e \<Rightarrow> Inl (FieldError field e) | Inr it \<Rightarrow> Inr (place it r))
      else Inr r)"

definition refuse :: "bool \<Rightarrow> build_error \<Rightarrow> build_step" where
  "refuse present e r = (if present then Inl e else Inr r)"

fun run_steps :: "build_step list \<Rightarrow> build_step" where
  "run_steps [] r = Inr r"
| "run_steps (s # ss) r = bindE (s r) (run_steps ss)"

definition item_of :: "('a \<Rightarrow> RuleItem) \<Rightarrow> (item_error, 'a) res \<Rightarrow> (item_error, RuleItem) res" where
  "item_of mk result = bindE result (\<lambda>x. Inr (mk x))"

definition new_rule :: "bool \<Rightarrow> abstractDefaultRule" where
  "new_rule invert = \<lparr>r_items = [], r_sourceAddressItems = [], r_sourcePortItems = [],
     r_destinationAddressItems = [], r_destinationIPCIDRItems = [], r_destinationPortItems = [],
     r_allItems = [], r_ruleSetItem = None, r_invert = invert\<rparr>"

definition cidr_item :: "build_env \<Rightarrow> bool \<Rightarrow> string slice \<Rightarrow> (item_error, RuleItem) res" where
  "cidr_item B isSource s =
     item_of (IPCIDRItem isSource)
       (NewIPCIDRItem (b_ParsePrefix B) (b_ParseAddr B) (b_BuildIPSet B) (elems s))"

definition range_item :: "bool \<Rightarrow> string slice \<Rightarrow> (item_error, RuleItem) res" where
  "range_item isSource s = item_of (PortRangeItem isSource) (NewPortRangeItem (elems s))"

subsection \<open>Headless rules\<close>

definition headless_address_steps :: "build_env \<Rightarrow> headless_options \<Rightarrow> build_step list" where
  "headless_address_steps B opts =
     [plain (nonempty (hl_QueryType opts)) (QueryTypeItem (NewQueryTypeItem (elems (hl_QueryType opts)))) to_items,
      plain (nonempty (hl_Network opts)) (NetworkItem (NewNetworkItem (elems (hl_Network opts)))) to_items,
      (if nonempty (hl_Domain opts) \<or> nonempty (hl_DomainSuffix opts) then
         checked True '''' (item_of DomainItem (NewDomainItem (elems (hl_Domain opts)) (elems (hl_DomainSuffix opts))))
           to_dstAddr
       else case hl_DomainMatcher opts of
              Some matcher \<Rightarrow> plain True (DomainItem matcher) to_dstAddr | None \<Rightarrow> Inr),
      plain (nonempty (hl_DomainKeyword opts)) (DomainKeywordItem (elems (hl_DomainKeyword opts))) to_dstAddr,
      checked (nonempty (hl_DomainRegex opts)) ''domain_regex''
        (item_of DomainRegexItem (NewDomainRegexItem (b_Compiles B) (elems (hl_DomainRegex opts)))) to_dstAddr,
      (if nonempty (hl_SourceIPCIDR opts) then
         checked True ''source_ip_cidr'' (cidr_item B True (hl_SourceIPCIDR opts)) to_srcAddr
       else case hl_SourceIPSet opts of
              Some ipSet \<Rightarrow> plain True (IPCIDRItem True ipSet) to_srcAddr | None \<Rightarrow> Inr),
      (if nonempty (hl_IPCIDR opts) then
         checked True ''ipcidr'' (cidr_item B False (hl_IPCIDR opts)) to_dstCIDR
       else case hl_IPSet opts of
              Some ipSet \<Rightarrow> plain True (IPCIDRItem False ipSet) to_dstCIDR | None \<Rightarrow> Inr)]"

definition headless_port_steps :: "headless_options \<Rightarrow> build_step list" where
  "headless_port_steps opts =
     [plain (nonempty (hl_SourcePort opts)) (PortItem True (NewPortItem (elems (hl_SourcePort opts)))) to_srcPort,
      checked (nonempty (hl_SourcePortRange opts)) ''source_port_range''
        (range_item True (hl_SourcePortRange opts)) to_srcPort,
      plain (nonempty (hl_Port opts)) (PortItem False (NewPortItem (elems (hl_Port opts)))) to_dstPort,
      checked (nonempty (hl_PortRange opts)) ''port_range'' (range_item False (hl_PortRange opts)) to_dstPort]"

definition headless_process_steps :: "build_env \<Rightarrow> headless_options \<Rightarrow> build_step list" where
  "headless_process_steps B opts =
     [plain (nonempty (hl_ProcessName opts)) (ProcessItem (NewProcessItem (elems (hl_ProcessName opts)))) to_items,
      plain (nonempty (hl_ProcessPath opts)) (ProcessPathItem (NewProcessPathItem (elems (hl_ProcessPath opts)))) to_items,
      checked (nonempty (hl_ProcessPathRegex opts)) ''process_path_regex''
        (item_of ProcessPathRegexItem (NewProcessPathRegexItem (b_Compiles B) (elems (hl_ProcessPathRegex opts)))) to_items,
      plain (nonempty (hl_PackageName opts)) (PackageNameItem (NewPackageNameItem (elems (hl_PackageName opts)))) to_items,
      checked (nonempty (hl_PackageNameRegex opts)) ''package_name_regex''
        (item_of PackageNameRegexItem (NewPackageNameRegexItem (b_Compiles B) (elems (hl_PackageNameRegex opts)))) to_items]"

definition headless_network_steps :: "build_env \<Rightarrow> headless_options \<Rightarrow> build_step list" where
  "headless_network_steps B opts =
     (if b_NetworkManager B then
       [plain (nonempty (hl_NetworkType opts)) (NetworkTypeItem (elems (hl_NetworkType opts))) to_items,
        plain (hl_NetworkIsExpensive opts) NetworkIsExpensiveItem to_items,
        plain (hl_NetworkIsConstrained opts) NetworkIsConstrainedItem to_items,
        plain (nonempty (hl_WIFISSID opts)) (WIFISSIDItem (NewWIFISSIDItem (elems (hl_WIFISSID opts)))) to_items,
        plain (nonempty (hl_WIFIBSSID opts))
          (WIFIBSSIDItem (NewWIFIBSSIDItem (b_TrimSpace B) (elems (hl_WIFIBSSID opts)))) to_items,
        plain (nonempty (hl_NetworkInterfaceAddress opts))
          (NetworkInterfaceAddressItem (NewNetworkInterfaceAddressItem (elems (hl_NetworkInterfaceAddress opts)))) to_items,
        plain (nonempty (hl_DefaultInterfaceAddress opts))
          (DefaultInterfaceAddressItem (elems (hl_DefaultInterfaceAddress opts))) to_items]
      else [])"

definition headless_adguard_step :: "headless_options \<Rightarrow> build_step" where
  "headless_adguard_step opts =
     (if nonempty (hl_AdGuardDomain opts) then
        plain True (AdGuardDomainItem (NewAdGuardMatcher (elems (hl_AdGuardDomain opts)))) to_dstAddr
      else case hl_AdGuardDomainMatcher opts of
             Some matcher \<Rightarrow> plain True (AdGuardDomainItem matcher) to_dstAddr | None \<Rightarrow> Inr)"

definition NewDefaultHeadlessRule :: "build_env \<Rightarrow> headless_options \<Rightarrow> (build_error, abstractDefaultRule) res" where
  "NewDefaultHeadlessRule B opts =
     run_steps (headless_address_steps B opts @ headless_port_steps opts @ headless_process_steps B opts @
                headless_network_steps B opts @ [headless_adguard_step opts])
       (new_rule (hl_Invert opts))"

definition RuleTypeDefault :: string where "RuleTypeDefault = ''default''"
definition RuleTypeLogical :: string where "RuleTypeLogical = ''logical''"

text \<open>\<^verbatim>\<open>HeadlessRule.IsValid\<close>; an unknown type panics.\<close>

fun HeadlessRule_IsValid :: "HeadlessRuleOptions \<Rightarrow> (build_error, bool) res" where
  "HeadlessRule_IsValid (HeadlessRuleOptions t d mode rules invert) =
     (if t = RuleTypeDefault \<or> t = [] then Inr (DefaultHeadlessRule_IsValid d)
      else if t = RuleTypeLogical then
        (if rules = [] then Inr False else everyE HeadlessRule_IsValid rules)
      else Inl (UnknownTypePanic t))"

definition LogicalHeadlessRule_IsValid :: "HeadlessRuleOptions list \<Rightarrow> (build_error, bool) res" where
  "LogicalHeadlessRule_IsValid rules = (if rules = [] then Inr False else everyE HeadlessRule_IsValid rules)"

fun NewHeadlessRule :: "build_env \<Rightarrow> HeadlessRuleOptions \<Rightarrow> (build_error, HeadlessRule) res" where
  "NewHeadlessRule B (HeadlessRuleOptions t d mode rules invert) =
     (if t = [] \<or> t = RuleTypeDefault then
        (if \<not> DefaultHeadlessRule_IsValid d then Inl MissingConditions
         else bindE (NewDefaultHeadlessRule B d) (\<lambda>r. Inr (DefaultHeadlessRule r)))
      else if t = RuleTypeLogical then
        bindE (LogicalHeadlessRule_IsValid rules)
          (\<lambda>valid. if \<not> valid then Inl MissingConditions
             else if mode \<noteq> LogicalTypeAnd \<and> mode \<noteq> LogicalTypeOr then Inl (UnknownLogicalMode mode)
             else bindE (mapE_at SubRule (NewHeadlessRule B) 0 rules)
                    (\<lambda>subRules. Inr (LogicalHeadlessRule mode subRules invert)))
      else Inl (UnknownRuleType t))"

subsection \<open>Metadata of a rule-set\<close>

fun HasHeadlessRule :: "(headless_options \<Rightarrow> bool) \<Rightarrow> HeadlessRuleOptions \<Rightarrow> bool" where
  "HasHeadlessRule cond (HeadlessRuleOptions t d mode rules invert) =
     (if t = RuleTypeDefault then cond d
      else if t = RuleTypeLogical then list_ex (HasHeadlessRule cond) rules
      else False)"

definition isProcessHeadlessRule :: "headless_options \<Rightarrow> bool" where
  "isProcessHeadlessRule r =
     (nonempty (hl_ProcessName r) \<or> nonempty (hl_ProcessPath r) \<or> nonempty (hl_ProcessPathRegex r) \<or>
      nonempty (hl_PackageName r) \<or> nonempty (hl_PackageNameRegex r))"

definition isWIFIHeadlessRule :: "headless_options \<Rightarrow> bool" where
  "isWIFIHeadlessRule r = (nonempty (hl_WIFISSID r) \<or> nonempty (hl_WIFIBSSID r))"

definition isIPCIDRHeadlessRule :: "headless_options \<Rightarrow> bool" where
  "isIPCIDRHeadlessRule r = (nonempty (hl_IPCIDR r) \<or> hl_IPSet r \<noteq> None)"

definition isDNSQueryTypeHeadlessRule :: "headless_options \<Rightarrow> bool" where
  "isDNSQueryTypeHeadlessRule r = nonempty (hl_QueryType r)"

definition isNonIPCIDRHeadlessRule :: "headless_options \<Rightarrow> bool" where
  "isNonIPCIDRHeadlessRule r =
     (r \<noteq> headless_options_zero\<lparr>hl_IPCIDR := hl_IPCIDR r, hl_IPSet := hl_IPSet r, hl_Invert := hl_Invert r\<rparr>)"

definition buildRuleSetMetadata :: "HeadlessRuleOptions list \<Rightarrow> RuleSetMetadata" where
  "buildRuleSetMetadata rules =
     \<lparr>md_ContainsProcessRule = list_ex (HasHeadlessRule isProcessHeadlessRule) rules,
      md_ContainsWIFIRule = list_ex (HasHeadlessRule isWIFIHeadlessRule) rules,
      md_ContainsIPCIDRRule = list_ex (HasHeadlessRule isIPCIDRHeadlessRule) rules,
      md_ContainsDNSQueryTypeRule = list_ex (HasHeadlessRule isDNSQueryTypeHeadlessRule) rules,
      md_ContainsNonIPCIDRRule = list_ex (HasHeadlessRule isNonIPCIDRHeadlessRule) rules\<rparr>"

text \<open>\<^verbatim>\<open>extractIPSetFromRule\<close>: the address sets of a rule.\<close>

fun item_ipset :: "RuleItem \<Rightarrow> IPSet list" where
  "item_ipset (IPCIDRItem isSource ipSet) = [ipSet]"
| "item_ipset _ = []"

fun extractIPSetFromRule :: "HeadlessRule \<Rightarrow> IPSet list" where
  "extractIPSetFromRule (DefaultHeadlessRule r) = concat (map item_ipset (r_destinationIPCIDRItems r))"
| "extractIPSetFromRule (LogicalHeadlessRule mode rules invert) = concat (map extractIPSetFromRule rules)"

subsection \<open>What steps do\<close>

lemma run_steps_append: "run_steps (xs @ ys) r = bindE (run_steps xs r) (run_steps ys)"
  by (induction xs arbitrary: r) (simp_all add: bindE_def split: sum.split)

text \<open>A step that keeps an invariant.\<close>

definition preserves :: "(abstractDefaultRule \<Rightarrow> bool) \<Rightarrow> build_step \<Rightarrow> bool" where
  "preserves P s = (\<forall>r r'. P r \<longrightarrow> s r = Inr r' \<longrightarrow> P r')"

lemma run_steps_preserves:
  assumes "list_all (preserves P) ss" "P r" "run_steps ss r = Inr r'"
  shows "P r'"
  using assms
proof (induction ss arbitrary: r)
  case (Cons s ss)
  from Cons.prems(3) obtain r1 where r1: "s r = Inr r1" "run_steps ss r1 = Inr r'" by auto
  have "preserves P s" using Cons.prems(1) by simp
  then have "P r1" using Cons.prems(2) r1(1) unfolding preserves_def by blast
  with Cons.prems(1) r1(2) show ?case by (intro Cons.IH) simp_all
qed simp

lemma preserves_plain: "(\<And>r. c \<Longrightarrow> P r \<Longrightarrow> P (place it r)) \<Longrightarrow> preserves P (plain c it place)"
  by (auto simp: preserves_def plain_def)

lemma preserves_checked:
  "(\<And>r it. c \<Longrightarrow> res = Inr it \<Longrightarrow> P r \<Longrightarrow> P (place it r)) \<Longrightarrow> preserves P (checked c lbl res place)"
  by (auto simp: preserves_def checked_def split: sum.splits if_splits)

lemma preserves_Inr [simp]: "preserves P Inr"
  by (simp add: preserves_def)

lemma preserves_refuse [simp]: "preserves P (refuse c e)"
  by (simp add: preserves_def refuse_def)

lemmas place_defs = to_items_def to_srcAddr_def to_srcPort_def to_dstAddr_def to_dstCIDR_def
  to_dstPort_def to_all_def

lemmas headless_step_defs = headless_address_steps_def headless_port_steps_def
  headless_process_steps_def headless_network_steps_def headless_adguard_step_def

text \<open>Every step keeps the shape of a headless rule.\<close>

lemma item_of_Inr: "item_of mk res = Inr it \<Longrightarrow> (\<And>x. P (mk x)) \<Longrightarrow> P it"
  by (auto simp: item_of_def)

lemma shape_plain:
  "\<not> response_item it \<Longrightarrow> preserves headless_shape (plain c it to_items)"
  "\<not> response_item it \<Longrightarrow> preserves headless_shape (plain c it to_srcAddr)"
  "\<not> response_item it \<Longrightarrow> preserves headless_shape (plain c it to_srcPort)"
  "\<not> response_item it \<Longrightarrow> preserves headless_shape (plain c it to_dstAddr)"
  "\<not> response_item it \<Longrightarrow> preserves headless_shape (plain c it to_dstPort)"
  "is_IPCIDRItem it \<Longrightarrow> preserves headless_shape (plain c it to_dstCIDR)"
  by (rule preserves_plain; simp add: headless_shape_def place_defs)+

lemma shape_checked:
  "(\<And>x. \<not> response_item (mk x)) \<Longrightarrow> preserves headless_shape (checked c l (item_of mk res) to_items)"
  "(\<And>x. \<not> response_item (mk x)) \<Longrightarrow> preserves headless_shape (checked c l (item_of mk res) to_srcAddr)"
  "(\<And>x. \<not> response_item (mk x)) \<Longrightarrow> preserves headless_shape (checked c l (item_of mk res) to_srcPort)"
  "(\<And>x. \<not> response_item (mk x)) \<Longrightarrow> preserves headless_shape (checked c l (item_of mk res) to_dstAddr)"
  "(\<And>x. \<not> response_item (mk x)) \<Longrightarrow> preserves headless_shape (checked c l (item_of mk res) to_dstPort)"
  "(\<And>x. is_IPCIDRItem (mk x)) \<Longrightarrow> preserves headless_shape (checked c l (item_of mk res) to_dstCIDR)"
  by (rule preserves_checked; erule item_of_Inr; simp add: headless_shape_def place_defs)+

lemma NewDefaultHeadlessRule_shape:
  assumes "NewDefaultHeadlessRule B opts = Inr r"
  shows "headless_shape r"
proof (rule run_steps_preserves [where P = headless_shape])
  show "run_steps (headless_address_steps B opts @ headless_port_steps opts @ headless_process_steps B opts @
      headless_network_steps B opts @ [headless_adguard_step opts]) (new_rule (hl_Invert opts)) = Inr r"
    using assms by (simp add: NewDefaultHeadlessRule_def)
  show "headless_shape (new_rule (hl_Invert opts))"
    by (simp add: headless_shape_def new_rule_def)
  show "list_all (preserves headless_shape) (headless_address_steps B opts @ headless_port_steps opts @
      headless_process_steps B opts @ headless_network_steps B opts @ [headless_adguard_step opts])"
    by (simp add: headless_step_defs shape_plain shape_checked cidr_item_def range_item_def
        split: option.split)
qed

subsection \<open>Counting conditions\<close>

text \<open>A step that makes a measure of the rule grow by \<open>n\<close>.\<close>

definition adds :: "(abstractDefaultRule \<Rightarrow> nat) \<Rightarrow> build_step \<Rightarrow> nat \<Rightarrow> bool" where
  "adds f s n = (\<forall>r r'. s r = Inr r' \<longrightarrow> f r' = f r + n)"

lemma run_steps_adds:
  assumes "list_all2 (adds f) ss ns" "run_steps ss r = Inr r'"
  shows "f r' = f r + sum_list ns"
  using assms
proof (induction ss ns arbitrary: r rule: list_all2_induct)
  case (Cons s ss n ns)
  from Cons.prems obtain r1 where r1: "s r = Inr r1" "run_steps ss r1 = Inr r'" by auto
  then show ?case using Cons.hyps(1) Cons.IH unfolding adds_def by fastforce
qed simp

lemma adds_plain:
  "\<forall>it r. c \<longrightarrow> f (place it r) = f r + n \<Longrightarrow> c \<or> n = 0 \<Longrightarrow> adds f (plain c it place) n"
  by (auto simp: adds_def plain_def)

lemma adds_checked:
  "\<forall>it r. c \<longrightarrow> f (place it r) = f r + n \<Longrightarrow> c \<or> n = 0 \<Longrightarrow> adds f (checked c l res place) n"
  by (auto simp: adds_def checked_def split: sum.splits if_splits)

lemma adds_Inr: "n = 0 \<Longrightarrow> adds f Inr n"
  by (simp add: adds_def)

lemmas adds_rules = adds_plain adds_checked adds_Inr place_defs

lemma NewDefaultHeadlessRule_cidr:
  assumes "NewDefaultHeadlessRule B opts = Inr r"
  shows "length (r_destinationIPCIDRItems r) = of_bool (isIPCIDRHeadlessRule opts)"
proof -
  let ?ss = "headless_address_steps B opts @ headless_port_steps opts @ headless_process_steps B opts @
      headless_network_steps B opts @ [headless_adguard_step opts]"
  let ?ns = "[0, 0, 0, 0, 0, 0, of_bool (isIPCIDRHeadlessRule opts)] @ replicate 9 0 @
      (if b_NetworkManager B then replicate 7 0 else []) @ [0]"
  have "list_all2 (adds (\<lambda>r. length (r_destinationIPCIDRItems r))) ?ss ?ns"
    unfolding headless_step_defs isIPCIDRHeadlessRule_def
    by (cases "b_NetworkManager B"; cases "hl_DomainMatcher opts"; cases "hl_SourceIPSet opts";
        cases "hl_IPSet opts"; cases "hl_AdGuardDomainMatcher opts")
       (simp_all add: adds_rules numeral_eq_Suc)
  from run_steps_adds [OF this] assms show ?thesis
    by (simp only: NewDefaultHeadlessRule_def) (simp add: new_rule_def sum_list_replicate)
qed

subsection \<open>Metadata tells the truth\<close>

text \<open>Unmarshalling a headless rule writes the type out (option/rule\_set.go).\<close>

fun typed_headless :: "HeadlessRuleOptions \<Rightarrow> bool" where
  "typed_headless (HeadlessRuleOptions t d mode rules invert) =
     (t = RuleTypeDefault \<or> t = RuleTypeLogical \<and> list_all typed_headless rules)"

lemma list_ex_all2: "list_all2 (\<lambda>x y. P x = Q y) xs ys \<Longrightarrow> list_ex P xs = list_ex Q ys"
  by (induction rule: list_all2_induct) simp_all

lemma NewHeadlessRule_has_cidr:
  assumes "NewHeadlessRule B opts = Inr r" "typed_headless opts"
  shows "headless_has_cidr r = HasHeadlessRule isIPCIDRHeadlessRule opts"
  using assms
proof (induction B opts arbitrary: r rule: NewHeadlessRule.induct)
  case (1 B t d mode rules invert)
  show ?case
  proof (cases "t = RuleTypeDefault")
    case True
    with "1.prems" show ?thesis
      by (auto simp: NewDefaultHeadlessRule_cidr simp flip: length_greater_0_conv split: if_splits)
  next
    case False
    then have t: "t = RuleTypeLogical" "list_all typed_headless rules" using "1.prems"(2) by simp_all
    then have ne: "t \<noteq> []" by (simp add: RuleTypeLogical_def)
    obtain rs where rs: "mapE_at SubRule (NewHeadlessRule B) 0 rules = Inr rs"
      and r: "r = LogicalHeadlessRule mode rs invert"
      and v: "LogicalHeadlessRule_IsValid rules = Inr True" and m: "\<not> (mode \<noteq> LogicalTypeAnd \<and> mode \<noteq> LogicalTypeOr)"
      using "1.prems"(1) t(1) False ne by (auto split: if_splits)
    have "list_all2 (\<lambda>o' r'. HasHeadlessRule isIPCIDRHeadlessRule o' = headless_has_cidr r') rules rs"
      using rs unfolding mapE_at_Inr_iff
    proof (rule list.rel_mono_strong)
      fix o' r'
      assume "o' \<in> set rules" "r' \<in> set rs" "NewHeadlessRule B o' = Inr r'"
      then show "HasHeadlessRule isIPCIDRHeadlessRule o' = headless_has_cidr r'"
        using "1.IH"[of True o' r'] ne False t v m by (simp add: list_all_iff)
    qed
    from list_ex_all2 [OF this] show ?thesis using False t(1) r by simp
  qed
qed

end
