(* ===== verification/Rule_New.thy ===== *)
theory Rule_New
  imports Rule_Build
begin

text \<open>
  Building route rules (\<^verbatim>\<open>NewRule\<close>, rule\_default.go) and DNS rules (\<^verbatim>\<open>NewDNSRule\<close>, rule\_dns.go) from
  their options: the action first, then the conditions in the order of the source; the sub-rules of a
  logical rule must not carry an action of their own (rule\_nested\_action.go).
\<close>

subsection \<open>More steps\<close>

definition version_step :: "int \<Rightarrow> build_step" where
  "version_step v r =
     (if v > 0 then
        (if v = 4 \<or> v = 6 then Inr (to_items (IPVersionItem (v = 6)) r) else Inl (InvalidIPVersion v))
      else Inr r)"

definition NewRuleSetItem :: "string list \<Rightarrow> bool \<Rightarrow> bool \<Rightarrow> RuleSetItem" where
  "NewRuleSetItem tagList ipCIDRMatchSource ipCidrAcceptEmpty =
     \<lparr>rs_tagList = tagList, rs_setList = [], rs_ipCidrMatchSource = ipCIDRMatchSource,
      rs_ipCidrAcceptEmpty = ipCidrAcceptEmpty\<rparr>"

definition to_ruleSet :: "RuleSetItem \<Rightarrow> abstractDefaultRule \<Rightarrow> abstractDefaultRule" where
  "to_ruleSet it r = r\<lparr>r_ruleSetItem := Some it, r_allItems := r_allItems r @ [TheRuleSetItem]\<rparr>"

definition rule_set_step :: "string slice \<Rightarrow> bool \<Rightarrow> bool \<Rightarrow> bool \<Rightarrow> build_step" where
  "rule_set_step ruleSet removed matchSource acceptEmpty r =
     (if nonempty ruleSet then
        (if removed then Inl RulesetMatchSourceRemoved
         else Inr (to_ruleSet (NewRuleSetItem (elems ruleSet) matchSource acceptEmpty) r))
      else Inr r)"

subsection \<open>Route rules\<close>

definition route_address_steps :: "build_env \<Rightarrow> RawDefaultRule \<Rightarrow> build_step list" where
  "route_address_steps B opts =
     [plain (nonempty (rd_Inbound opts)) (InboundItem (NewInboundRule (elems (rd_Inbound opts)))) to_items,
      version_step (rd_IPVersion opts),
      plain (nonempty (rd_Network opts)) (NetworkItem (NewNetworkItem (elems (rd_Network opts)))) to_items,
      plain (nonempty (rd_AuthUser opts)) (AuthUserItem (NewAuthUserItem (elems (rd_AuthUser opts)))) to_items,
      plain (nonempty (rd_Protocol opts)) (ProtocolItem (NewProtocolItem (elems (rd_Protocol opts)))) to_items,
      plain (nonempty (rd_Client opts)) (ClientItem (NewClientItem (elems (rd_Client opts)))) to_items,
      checked (nonempty (rd_Domain opts) \<or> nonempty (rd_DomainSuffix opts)) ''''
        (item_of DomainItem (NewDomainItem (elems (rd_Domain opts)) (elems (rd_DomainSuffix opts)))) to_dstAddr,
      plain (nonempty (rd_DomainKeyword opts)) (DomainKeywordItem (elems (rd_DomainKeyword opts))) to_dstAddr,
      checked (nonempty (rd_DomainRegex opts)) ''''
        (item_of DomainRegexItem (NewDomainRegexItem (b_Compiles B) (elems (rd_DomainRegex opts)))) to_dstAddr,
      refuse (nonempty (rd_Geosite opts)) GeositeRemoved,
      refuse (nonempty (rd_SourceGeoIP opts)) GeoIPRemoved,
      refuse (nonempty (rd_GeoIP opts)) GeoIPRemoved,
      checked (nonempty (rd_SourceIPCIDR opts)) ''source_ip_cidr'' (cidr_item B True (rd_SourceIPCIDR opts)) to_srcAddr,
      plain (rd_SourceIPIsPrivate opts) (IPIsPrivateItem True) to_srcAddr,
      checked (nonempty (rd_IPCIDR opts)) ''ipcidr'' (cidr_item B False (rd_IPCIDR opts)) to_dstCIDR,
      plain (rd_IPIsPrivate opts) (IPIsPrivateItem False) to_dstCIDR]"

definition route_port_steps :: "RawDefaultRule \<Rightarrow> build_step list" where
  "route_port_steps opts =
     [plain (nonempty (rd_SourcePort opts))
        (PortItem True (NewPortItem (elems (rd_SourcePort opts)))) to_srcPort,
      checked (nonempty (rd_SourcePortRange opts)) ''source_port_range'' (range_item True (rd_SourcePortRange opts)) to_srcPort,
      plain (nonempty (rd_Port opts)) (PortItem False (NewPortItem (elems (rd_Port opts)))) to_dstPort,
      checked (nonempty (rd_PortRange opts)) ''port_range'' (range_item False (rd_PortRange opts)) to_dstPort]"

definition route_process_steps :: "build_env \<Rightarrow> RawDefaultRule \<Rightarrow> build_step list" where
  "route_process_steps B opts =
     [plain (nonempty (rd_ProcessName opts))
        (ProcessItem (NewProcessItem (elems (rd_ProcessName opts)))) to_items,
      plain (nonempty (rd_ProcessPath opts))
        (ProcessPathItem (NewProcessPathItem (elems (rd_ProcessPath opts)))) to_items,
      checked (nonempty (rd_ProcessPathRegex opts)) ''process_path_regex''
        (item_of ProcessPathRegexItem (NewProcessPathRegexItem (b_Compiles B) (elems (rd_ProcessPathRegex opts)))) to_items,
      plain (nonempty (rd_PackageName opts))
        (PackageNameItem (NewPackageNameItem (elems (rd_PackageName opts)))) to_items,
      checked (nonempty (rd_PackageNameRegex opts)) ''package_name_regex''
        (item_of PackageNameRegexItem (NewPackageNameRegexItem (b_Compiles B) (elems (rd_PackageNameRegex opts)))) to_items,
      plain (nonempty (rd_User opts)) (UserItem (NewUserItem (elems (rd_User opts)))) to_items,
      plain (nonempty (rd_UserID opts)) (UserIdItem (NewUserIDItem (elems (rd_UserID opts)))) to_items,
      plain (rd_ClashMode opts \<noteq> []) (ClashModeItem (rd_ClashMode opts)) to_items]"

definition route_network_steps :: "build_env \<Rightarrow> RawDefaultRule \<Rightarrow> build_step list" where
  "route_network_steps B opts =
     [plain (nonempty (rd_NetworkType opts)) (NetworkTypeItem (elems (rd_NetworkType opts))) to_items,
      plain (rd_NetworkIsExpensive opts) NetworkIsExpensiveItem to_items,
      plain (rd_NetworkIsConstrained opts) NetworkIsConstrainedItem to_items,
      plain (nonempty (rd_WIFISSID opts)) (WIFISSIDItem (NewWIFISSIDItem (elems (rd_WIFISSID opts)))) to_items,
      plain (nonempty (rd_WIFIBSSID opts))
        (WIFIBSSIDItem (NewWIFIBSSIDItem (b_TrimSpace B) (elems (rd_WIFIBSSID opts)))) to_items,
      plain (nonempty (rd_InterfaceAddress opts))
        (InterfaceAddressItem (NewInterfaceAddressItem (elems (rd_InterfaceAddress opts)))) to_items,
      plain (nonempty (rd_NetworkInterfaceAddress opts))
        (NetworkInterfaceAddressItem (NewNetworkInterfaceAddressItem (elems (rd_NetworkInterfaceAddress opts)))) to_items,
      plain (nonempty (rd_DefaultInterfaceAddress opts))
        (DefaultInterfaceAddressItem (elems (rd_DefaultInterfaceAddress opts))) to_items,
      plain (nonempty (rd_SourceMACAddress opts))
        (SourceMACAddressItem (NewSourceMACAddressItem (elems (rd_SourceMACAddress opts)))) to_items,
      plain (nonempty (rd_SourceHostname opts))
        (SourceHostnameItem (NewSourceHostnameItem (elems (rd_SourceHostname opts)))) to_items,
      plain (nonempty (rd_PreferredBy opts)) (PreferredByItem (elems (rd_PreferredBy opts))) to_items,
      rule_set_step (rd_RuleSet opts) (rd_Deprecated_RulesetIPCIDRMatchSource opts)
        (rd_RuleSetIPCIDRMatchSource opts) False]"

text \<open>
  The options of a rule: its type, the default options with their action, and the logical options with
  theirs. \<open>direct_zero\<close> below is the zero value of the options of a direct action.
\<close>

datatype 'o RuleOptions =
  RuleOptions
    (opt_Type: string)
    (opt_Default: RawDefaultRule)
    (opt_DefaultAction: "'o action_options")
    (opt_Mode: string)
    (opt_Rules: "'o RuleOptions list")
    (opt_Invert: bool)
    (opt_LogicalAction: "'o action_options")

definition DefaultRule_IsValid :: "'o \<Rightarrow> RawDefaultRule \<Rightarrow> 'o action_options \<Rightarrow> bool" where
  "DefaultRule_IsValid direct_zero d action =
     (\<not> (d = RawDefaultRule_zero\<lparr>rd_Invert := rd_Invert d\<rparr> \<and> action = action_options_zero direct_zero))"

fun RuleOptions_IsValid :: "'o \<Rightarrow> 'o RuleOptions \<Rightarrow> (build_error, bool) res" where
  "RuleOptions_IsValid z (RuleOptions t d action mode rules invert logical_action) =
     (if t = RuleTypeDefault then Inr (DefaultRule_IsValid z d action)
      else if t = RuleTypeLogical then
        (if rules = [] then Inr False else everyE (RuleOptions_IsValid z) rules)
      else Inl (UnknownTypePanic t))"

definition LogicalRule_IsValid :: "'o \<Rightarrow> 'o RuleOptions list \<Rightarrow> (build_error, bool) res" where
  "LogicalRule_IsValid z rules = (if rules = [] then Inr False else everyE (RuleOptions_IsValid z) rules)"

definition ruleHasConfiguredAction :: "'o \<Rightarrow> 'o RuleOptions \<Rightarrow> bool" where
  "ruleHasConfiguredAction z rule =
     (if opt_Type rule = [] \<or> opt_Type rule = RuleTypeDefault then
        opt_DefaultAction rule \<noteq> action_options_zero z
      else if opt_Type rule = RuleTypeLogical then opt_LogicalAction rule \<noteq> action_options_zero z
      else False)"

fun validateNoNestedRuleActions :: "'o \<Rightarrow> 'o RuleOptions \<Rightarrow> bool \<Rightarrow> (build_error, unit) res" where
  "validateNoNestedRuleActions z (RuleOptions t d action mode rules invert logical_action) nested =
     (if nested \<and> ruleHasConfiguredAction z (RuleOptions t d action mode rules invert logical_action)
      then Inl NestedAction
      else if t \<noteq> RuleTypeLogical then Inr ()
      else bindE (mapE_at SubRule (\<lambda>sub. validateNoNestedRuleActions z sub True) 0 rules) (\<lambda>_. Inr ()))"

text \<open>The library functions of actions, and the zero value of the direct options.\<close>

record ('o, 'd) action_env =
  ae_PlatformSupported :: bool
  ae_ParseSocksaddrHostPort :: "string \<Rightarrow> 16 word \<Rightarrow> Socksaddr"
  ae_new_dialer :: "'o \<Rightarrow> 'd option"
  ae_direct_zero :: 'o

definition new_action :: "('o, 'd) action_env \<Rightarrow> 'o action_options \<Rightarrow> (build_error, 'd RuleAction option) res" where
  "new_action A action =
     (case NewRuleAction (ae_PlatformSupported A) (ae_ParseSocksaddrHostPort A) (ae_new_dialer A) action of
        Inl e \<Rightarrow> Inl (ActionError e) | Inr a \<Rightarrow> Inr a)"

definition NewDefaultRule ::
  "('o, 'd) action_env \<Rightarrow> build_env \<Rightarrow> RawDefaultRule \<Rightarrow> 'o action_options \<Rightarrow>
   (build_error, 'd RuleAction option Rule) res"
where
  "NewDefaultRule A B opts action_opts =
     bindE (new_action A action_opts)
       (\<lambda>action. bindE
          (run_steps (route_address_steps B opts @ route_port_steps opts @ route_process_steps B opts @
                      route_network_steps B opts) (new_rule (rd_Invert opts)))
          (\<lambda>r. Inr (DefaultRule r action)))"

definition missing_outbound :: "'o action_options \<Rightarrow> bool \<Rightarrow> bool" where
  "missing_outbound action checkOutbound =
     ((ao_Action action = [] \<or> ao_Action action = ''route'') \<and>
      fst (ao_RouteOptions action) = [] \<and> checkOutbound)"

text \<open>\<^verbatim>\<open>NewRule\<close> with the constructor \<^verbatim>\<open>NewLogicalRule\<close>, which calls it for the sub-rules.\<close>

fun NewRule ::
  "('o, 'd) action_env \<Rightarrow> build_env \<Rightarrow> 'o RuleOptions \<Rightarrow> bool \<Rightarrow> (build_error, 'd RuleAction option Rule) res"
where
  "NewRule A B (RuleOptions t d action_opts mode rules invert logical_opts) checkOutbound =
     (if t = [] \<or> t = RuleTypeDefault then
        (if \<not> DefaultRule_IsValid (ae_direct_zero A) d action_opts then Inl MissingConditions
         else if missing_outbound action_opts checkOutbound then Inl MissingOutbound
         else NewDefaultRule A B d action_opts)
      else if t = RuleTypeLogical then
        bindE (LogicalRule_IsValid (ae_direct_zero A) rules)
          (\<lambda>valid. if \<not> valid then Inl MissingConditions
             else if missing_outbound logical_opts checkOutbound then Inl MissingOutbound
             else bindE (new_action A logical_opts)
               (\<lambda>action. if mode \<noteq> LogicalTypeAnd \<and> mode \<noteq> LogicalTypeOr then Inl (UnknownLogicalMode mode)
                  else bindE
                    (mapE_at SubRule
                       (\<lambda>sub. bindE (validateNoNestedRuleActions (ae_direct_zero A) sub True)
                                (\<lambda>_. NewRule A B sub False)) 0 rules)
                    (\<lambda>subRules. Inr (LogicalRule mode subRules invert action))))
      else Inl (UnknownRuleType t))"

subsection \<open>DNS rules\<close>

definition dns_query_steps :: "RawDefaultDNSRule \<Rightarrow> build_step list" where
  "dns_query_steps opts =
     [plain (nonempty (dd_Inbound opts)) (InboundItem (NewInboundRule (elems (dd_Inbound opts)))) to_items,
      version_step (dd_IPVersion opts),
      plain (nonempty (dd_QueryType opts))
        (QueryTypeItem (NewQueryTypeItem (elems (dd_QueryType opts)))) to_items,
      plain (nonempty (dd_QueryClientSubnet opts))
        (QueryClientSubnetItem (elems (dd_QueryClientSubnet opts))) to_items,
      plain (dd_QueryDNSSEC opts) QueryDNSSECItem to_items,
      plain (nonempty (dd_Network opts)) (NetworkItem (NewNetworkItem (elems (dd_Network opts)))) to_items,
      plain (nonempty (dd_AuthUser opts)) (AuthUserItem (NewAuthUserItem (elems (dd_AuthUser opts)))) to_items,
      plain (nonempty (dd_Protocol opts)) (ProtocolItem (NewProtocolItem (elems (dd_Protocol opts)))) to_items]"

definition dns_address_steps :: "build_env \<Rightarrow> RawDefaultDNSRule \<Rightarrow> build_step list" where
  "dns_address_steps B opts =
     [checked (nonempty (dd_Domain opts) \<or> nonempty (dd_DomainSuffix opts)) ''''
        (item_of DomainItem (NewDomainItem (elems (dd_Domain opts)) (elems (dd_DomainSuffix opts)))) to_dstAddr,
      plain (nonempty (dd_DomainKeyword opts)) (DomainKeywordItem (elems (dd_DomainKeyword opts))) to_dstAddr,
      checked (nonempty (dd_DomainRegex opts)) ''domain_regex''
        (item_of DomainRegexItem (NewDomainRegexItem (b_Compiles B) (elems (dd_DomainRegex opts)))) to_dstAddr,
      refuse (nonempty (dd_Geosite opts)) GeositeRemoved,
      refuse (nonempty (dd_SourceGeoIP opts)) GeoIPRemoved,
      refuse (nonempty (dd_GeoIP opts)) GeoIPRemoved,
      checked (nonempty (dd_SourceIPCIDR opts)) ''source_ip_cidr'' (cidr_item B True (dd_SourceIPCIDR opts)) to_srcAddr,
      checked (nonempty (dd_IPCIDR opts)) ''ip_cidr'' (cidr_item B False (dd_IPCIDR opts)) to_dstCIDR,
      plain (dd_SourceIPIsPrivate opts) (IPIsPrivateItem True) to_srcAddr,
      plain (dd_IPIsPrivate opts) (IPIsPrivateItem False) to_dstCIDR,
      plain (dd_IPAcceptAny opts) IPAcceptAnyItem to_dstCIDR,
      (case dd_ResponseRcode opts of
         Some code \<Rightarrow> plain True (DNSResponseRCodeItem code) to_items | None \<Rightarrow> Inr),
      plain (nonempty (dd_ResponseAnswer opts))
        (DNSResponseRecordItem (elems (dd_ResponseAnswer opts)) SectionAnswer) to_items,
      plain (nonempty (dd_ResponseNs opts))
        (DNSResponseRecordItem (elems (dd_ResponseNs opts)) SectionNs) to_items,
      plain (nonempty (dd_ResponseExtra opts))
        (DNSResponseRecordItem (elems (dd_ResponseExtra opts)) SectionExtra) to_items]"

definition dns_port_steps :: "RawDefaultDNSRule \<Rightarrow> build_step list" where
  "dns_port_steps opts =
     [plain (nonempty (dd_SourcePort opts))
        (PortItem True (NewPortItem (elems (dd_SourcePort opts)))) to_srcPort,
      checked (nonempty (dd_SourcePortRange opts)) ''source_port_range'' (range_item True (dd_SourcePortRange opts)) to_srcPort,
      plain (nonempty (dd_Port opts)) (PortItem False (NewPortItem (elems (dd_Port opts)))) to_dstPort,
      checked (nonempty (dd_PortRange opts)) ''port_range'' (range_item False (dd_PortRange opts)) to_dstPort]"

definition dns_process_steps :: "build_env \<Rightarrow> RawDefaultDNSRule \<Rightarrow> build_step list" where
  "dns_process_steps B opts =
     [plain (nonempty (dd_ProcessName opts))
        (ProcessItem (NewProcessItem (elems (dd_ProcessName opts)))) to_items,
      plain (nonempty (dd_ProcessPath opts))
        (ProcessPathItem (NewProcessPathItem (elems (dd_ProcessPath opts)))) to_items,
      checked (nonempty (dd_ProcessPathRegex opts)) ''process_path_regex''
        (item_of ProcessPathRegexItem (NewProcessPathRegexItem (b_Compiles B) (elems (dd_ProcessPathRegex opts)))) to_items,
      plain (nonempty (dd_PackageName opts))
        (PackageNameItem (NewPackageNameItem (elems (dd_PackageName opts)))) to_items,
      checked (nonempty (dd_PackageNameRegex opts)) ''package_name_regex''
        (item_of PackageNameRegexItem (NewPackageNameRegexItem (b_Compiles B) (elems (dd_PackageNameRegex opts)))) to_items,
      plain (nonempty (dd_User opts)) (UserItem (NewUserItem (elems (dd_User opts)))) to_items,
      plain (nonempty (dd_UserID opts)) (UserIdItem (NewUserIDItem (elems (dd_UserID opts)))) to_items,
      plain (nonempty (dd_Outbound opts))
        (case NewOutboundRule (elems (dd_Outbound opts)) of (outboundMap, matchAny) \<Rightarrow> OutboundItem outboundMap matchAny)
        to_items,
      plain (dd_ClashMode opts \<noteq> []) (ClashModeItem (dd_ClashMode opts)) to_items]"

definition dns_network_steps :: "build_env \<Rightarrow> RawDefaultDNSRule \<Rightarrow> build_step list" where
  "dns_network_steps B opts =
     [plain (nonempty (dd_NetworkType opts)) (NetworkTypeItem (elems (dd_NetworkType opts))) to_items,
      plain (dd_NetworkIsExpensive opts) NetworkIsExpensiveItem to_items,
      plain (dd_NetworkIsConstrained opts) NetworkIsConstrainedItem to_items,
      plain (nonempty (dd_WIFISSID opts)) (WIFISSIDItem (NewWIFISSIDItem (elems (dd_WIFISSID opts)))) to_items,
      plain (nonempty (dd_WIFIBSSID opts))
        (WIFIBSSIDItem (NewWIFIBSSIDItem (b_TrimSpace B) (elems (dd_WIFIBSSID opts)))) to_items,
      plain (nonempty (dd_InterfaceAddress opts))
        (InterfaceAddressItem (NewInterfaceAddressItem (elems (dd_InterfaceAddress opts)))) to_items,
      plain (nonempty (dd_NetworkInterfaceAddress opts))
        (NetworkInterfaceAddressItem (NewNetworkInterfaceAddressItem (elems (dd_NetworkInterfaceAddress opts)))) to_items,
      plain (nonempty (dd_DefaultInterfaceAddress opts))
        (DefaultInterfaceAddressItem (elems (dd_DefaultInterfaceAddress opts))) to_items,
      plain (nonempty (dd_SourceMACAddress opts))
        (SourceMACAddressItem (NewSourceMACAddressItem (elems (dd_SourceMACAddress opts)))) to_items,
      plain (nonempty (dd_SourceHostname opts))
        (SourceHostnameItem (NewSourceHostnameItem (elems (dd_SourceHostname opts)))) to_items,
      plain (nonempty (dd_PreferredBy opts)) (PreferredByDNSItem (elems (dd_PreferredBy opts))) to_items]"

definition dns_rule_set_steps :: "bool \<Rightarrow> RawDefaultDNSRule \<Rightarrow> build_step list" where
  "dns_rule_set_steps legacyDNSMode opts =
     [refuse (dd_RuleSetIPCIDRAcceptEmpty opts \<and> \<not> legacyDNSMode) (AcceptEmptyRemoved ''rule_set_ip_cidr_accept_empty''),
      rule_set_step (dd_RuleSet opts) (dd_Deprecated_RulesetIPCIDRMatchSource opts)
        (dd_RuleSetIPCIDRMatchSource opts) (dd_RuleSetIPCIDRAcceptEmpty opts)]"

datatype DNSRuleOptions =
  DNSRuleOptions
    (dopt_Type: string)
    (dopt_Default: RawDefaultDNSRule)
    (dopt_DefaultAction: dns_action_options)
    (dopt_Mode: string)
    (dopt_Rules: "DNSRuleOptions list")
    (dopt_Invert: bool)
    (dopt_LogicalAction: dns_action_options)

definition DefaultDNSRule_IsValid :: "RawDefaultDNSRule \<Rightarrow> dns_action_options \<Rightarrow> bool" where
  "DefaultDNSRule_IsValid d action =
     (\<not> (d = RawDefaultDNSRule_zero\<lparr>dd_Invert := dd_Invert d\<rparr> \<and> action = dns_action_options_zero))"

fun DNSRuleOptions_IsValid :: "DNSRuleOptions \<Rightarrow> (build_error, bool) res" where
  "DNSRuleOptions_IsValid (DNSRuleOptions t d action mode rules invert logical_action) =
     (if t = RuleTypeDefault then Inr (DefaultDNSRule_IsValid d action)
      else if t = RuleTypeLogical then
        (if rules = [] then Inr False else everyE DNSRuleOptions_IsValid rules)
      else Inl (UnknownTypePanic t))"

definition LogicalDNSRule_IsValid :: "DNSRuleOptions list \<Rightarrow> (build_error, bool) res" where
  "LogicalDNSRule_IsValid rules = (if rules = [] then Inr False else everyE DNSRuleOptions_IsValid rules)"

definition dnsRuleHasConfiguredAction :: "DNSRuleOptions \<Rightarrow> bool" where
  "dnsRuleHasConfiguredAction rule =
     (if dopt_Type rule = [] \<or> dopt_Type rule = RuleTypeDefault then
        dopt_DefaultAction rule \<noteq> dns_action_options_zero
      else if dopt_Type rule = RuleTypeLogical then dopt_LogicalAction rule \<noteq> dns_action_options_zero
      else False)"

fun validateNoNestedDNSRuleActions :: "DNSRuleOptions \<Rightarrow> bool \<Rightarrow> (build_error, unit) res" where
  "validateNoNestedDNSRuleActions (DNSRuleOptions t d action mode rules invert logical_action) nested =
     (if nested \<and> dnsRuleHasConfiguredAction (DNSRuleOptions t d action mode rules invert logical_action)
      then Inl NestedAction
      else if t \<noteq> RuleTypeLogical then Inr ()
      else bindE (mapE_at SubRule (\<lambda>sub. validateNoNestedDNSRuleActions sub True) 0 rules) (\<lambda>_. Inr ()))"

definition MatchResponse_IsEnabled :: "(bool \<times> string) option \<Rightarrow> bool" where
  "MatchResponse_IsEnabled mr = (case mr of None \<Rightarrow> False | Some (enabled, tag) \<Rightarrow> enabled)"

definition MatchResponse_ResponseTag :: "(bool \<times> string) option \<Rightarrow> string" where
  "MatchResponse_ResponseTag mr = (case mr of None \<Rightarrow> [] | Some (enabled, tag) \<Rightarrow> tag)"

definition new_dns_action :: "dns_action_options \<Rightarrow> (build_error, DNSRuleAction option) res" where
  "new_dns_action action =
     (case NewDNSRuleAction action of Inl e \<Rightarrow> Inl (UnknownDNSActionPanic e) | Inr a \<Rightarrow> Inr a)"

definition NewDefaultDNSRule ::
  "build_env \<Rightarrow> RawDefaultDNSRule \<Rightarrow> dns_action_options \<Rightarrow> bool \<Rightarrow>
   (build_error, DNSRuleAction option DNSRule) res"
where
  "NewDefaultDNSRule B opts action_opts legacyDNSMode =
     bindE (new_dns_action action_opts)
       (\<lambda>action. bindE
          (run_steps (dns_query_steps opts @ dns_address_steps B opts @ dns_port_steps opts @
                      dns_process_steps B opts @ dns_network_steps B opts @
                      dns_rule_set_steps legacyDNSMode opts) (new_rule (dd_Invert opts)))
          (\<lambda>r. Inr (DefaultDNSRule r (MatchResponse_IsEnabled (dd_MatchResponse opts))
                     (MatchResponse_ResponseTag (dd_MatchResponse opts)) (da_Race action_opts) action)))"

definition missing_server :: "dns_action_options \<Rightarrow> bool \<Rightarrow> bool" where
  "missing_server action checkServer =
     (checkServer \<and>
      ((da_Action action = [] \<or> da_Action action = ''route'') \<and> da_Server action = [] \<or>
       da_Action action = ''evaluate'' \<and> da_EvaluateServer action = []))"

text \<open>
  The checks of \<^verbatim>\<open>NewDNSRule\<close> on an action; \<open>race_ok\<close> is the test on \<^verbatim>\<open>match_response\<close>, which only
  default rules make here.
\<close>

definition check_dns_action :: "dns_action_options \<Rightarrow> bool \<Rightarrow> bool \<Rightarrow> (build_error, unit) res" where
  "check_dns_action action race_ok checkServer =
     (if \<not> checkServer \<and> da_Action action = ''evaluate'' then Inl EvaluateNotTopLevel
      else case validateDNSRuleAction action of
             Inl e \<Rightarrow> Inl (DNSActionError e)
           | Inr _ \<Rightarrow>
               if \<not> race_ok then Inl RaceRequiresMatchResponse
               else if missing_server action checkServer then Inl MissingServer
               else Inr ())"

text \<open>
  \<^verbatim>\<open>NewDNSRule\<close> with the constructor \<^verbatim>\<open>NewLogicalDNSRule\<close>; \<open>uniq\<close> is \<^verbatim>\<open>common.Uniq\<close>.
\<close>

definition collect_tags :: "(string list \<Rightarrow> string list) \<Rightarrow> 'a DNSRule list \<Rightarrow> string list" where
  "collect_tags uniq rules = uniq (concat (map MatchResponseTags rules))"

fun NewDNSRule ::
  "(string list \<Rightarrow> string list) \<Rightarrow> build_env \<Rightarrow> DNSRuleOptions \<Rightarrow> bool \<Rightarrow> bool \<Rightarrow>
   (build_error, DNSRuleAction option DNSRule) res"
where
  "NewDNSRule uniq B (DNSRuleOptions t d action_opts mode rules invert logical_opts) checkServer legacyDNSMode =
     (if t = [] \<or> t = RuleTypeDefault then
        (if \<not> DefaultDNSRule_IsValid d action_opts then Inl MissingConditions
         else bindE
           (check_dns_action action_opts
              (\<not> (da_Race action_opts \<and> \<not> MatchResponse_IsEnabled (dd_MatchResponse d))) checkServer)
           (\<lambda>_. NewDefaultDNSRule B d action_opts legacyDNSMode))
      else if t = RuleTypeLogical then
        bindE (LogicalDNSRule_IsValid rules)
          (\<lambda>valid. if \<not> valid then Inl MissingConditions
             else bindE (check_dns_action logical_opts True checkServer)
               (\<lambda>_. bindE (new_dns_action logical_opts)
                 (\<lambda>action. if mode \<noteq> LogicalTypeAnd \<and> mode \<noteq> LogicalTypeOr then Inl (UnknownLogicalMode mode)
                    else bindE
                      (mapE_at SubRule
                         (\<lambda>sub. bindE (validateNoNestedDNSRuleActions sub True)
                                  (\<lambda>_. NewDNSRule uniq B sub False legacyDNSMode)) 0 rules)
                      (\<lambda>subRules.
                         let tags = collect_tags uniq subRules;
                             anonymous = list_ex MatchResponseAnonymous subRules
                         in if da_Race logical_opts \<and> tags = [] \<and> \<not> anonymous
                            then Inl RaceRequiresMatchResponse
                            else Inr (LogicalDNSRule mode subRules invert tags anonymous
                                        (da_Race logical_opts) action)))))
      else Inl (UnknownRuleType t))"

end
