(* ===== verification/Rule_Build_Properties.thy ===== *)
theory Rule_Build_Properties
  imports Rule_New Sample_Env
begin

text \<open>
  What the constructors of rules promise: the list of all conditions agrees with the groups, sub-rules
  carry no action, racing DNS rules look at a response, and the metadata of a rule-set tells which
  rules it has.
\<close>

subsection \<open>The list of all conditions agrees with the groups\<close>

definition grouped_items :: "abstractDefaultRule \<Rightarrow> RuleItem list" where
  "grouped_items r = r_items r @ r_sourceAddressItems r @ r_sourcePortItems r @
     r_destinationAddressItems r @ r_destinationIPCIDRItems r @ r_destinationPortItems r"

definition items_agree :: "abstractDefaultRule \<Rightarrow> bool" where
  "items_agree r =
     (set (r_allItems r) = PlainItem ` set (grouped_items r) \<union>
        (case r_ruleSetItem r of None \<Rightarrow> {} | Some _ \<Rightarrow> {TheRuleSetItem}))"

lemma items_agree_places:
  "items_agree r \<Longrightarrow> items_agree (to_items it r)" "items_agree r \<Longrightarrow> items_agree (to_srcAddr it r)"
  "items_agree r \<Longrightarrow> items_agree (to_srcPort it r)" "items_agree r \<Longrightarrow> items_agree (to_dstAddr it r)"
  "items_agree r \<Longrightarrow> items_agree (to_dstCIDR it r)" "items_agree r \<Longrightarrow> items_agree (to_dstPort it r)"
  "items_agree r \<Longrightarrow> items_agree (to_ruleSet rsi r)"
  by (auto simp: items_agree_def grouped_items_def place_defs to_ruleSet_def split: option.splits)

lemma items_agree_steps:
  assumes "\<And>r it. items_agree r \<Longrightarrow> items_agree (place it r)"
  shows "preserves items_agree (plain c it place)" "preserves items_agree (checked c l res place)"
  using assms by (simp_all add: preserves_plain preserves_checked)

lemma items_agree_version: "preserves items_agree (version_step v)"
  by (auto simp: preserves_def version_step_def items_agree_places split: if_splits)

lemma items_agree_rule_set: "preserves items_agree (rule_set_step s c b1 b2)"
  by (auto simp: preserves_def rule_set_step_def items_agree_places split: if_splits)

lemma items_agree_new [simp]: "items_agree (new_rule invert)"
  by (simp add: items_agree_def grouped_items_def new_rule_def)

lemmas items_agree_rules = items_agree_steps items_agree_places items_agree_version items_agree_rule_set

lemmas route_step_defs = route_address_steps_def route_port_steps_def route_process_steps_def
  route_network_steps_def

lemmas dns_step_defs = dns_query_steps_def dns_address_steps_def dns_port_steps_def
  dns_process_steps_def dns_network_steps_def dns_rule_set_steps_def

lemma NewDefaultHeadlessRule_agree: "NewDefaultHeadlessRule B opts = Inr r \<Longrightarrow> items_agree r"
  unfolding NewDefaultHeadlessRule_def
  by (erule run_steps_preserves [rotated 2])
     (simp_all add: headless_step_defs items_agree_rules split: option.split)

lemma route_steps_agree:
  "run_steps (route_address_steps B opts @ route_port_steps opts @ route_process_steps B opts @
     route_network_steps B opts) (new_rule b) = Inr r \<Longrightarrow> items_agree r"
  by (erule run_steps_preserves [rotated 2]) (simp_all add: route_step_defs items_agree_rules)

lemma dns_steps_agree:
  "run_steps (dns_query_steps opts @ dns_address_steps B opts @ dns_port_steps opts @
     dns_process_steps B opts @ dns_network_steps B opts @ dns_rule_set_steps l opts) (new_rule b) = Inr r
   \<Longrightarrow> items_agree r"
  by (erule run_steps_preserves [rotated 2])
     (simp_all add: dns_step_defs items_agree_rules split: option.split)

lemma items_agree_empty: "items_agree r \<Longrightarrow> r_allItems r = [] \<longleftrightarrow> grouped_items r = [] \<and> r_ruleSetItem r = None"
  by (auto simp: items_agree_def simp flip: set_empty split: option.splits)

fun rule_agrees :: "'a Rule \<Rightarrow> bool" where
  "rule_agrees (DefaultRule r a) = items_agree r"
| "rule_agrees (LogicalRule mode rules invert a) = list_all rule_agrees rules"

fun dns_rule_agrees :: "'a DNSRule \<Rightarrow> bool" where
  "dns_rule_agrees (DefaultDNSRule r mr tag race a) = items_agree r"
| "dns_rule_agrees (LogicalDNSRule mode rules invert tags anon race a) = list_all dns_rule_agrees rules"

subsection \<open>Logical rules\<close>

text \<open>What a successful construction of a logical rule went through.\<close>

lemma NewRule_defaultE:
  assumes "NewRule A B (RuleOptions t d ao mode rules invert lo) c = Inr rule" "t = [] \<or> t = RuleTypeDefault"
  obtains r a where "rule = DefaultRule r a" "new_action A ao = Inr a" "\<not> missing_outbound ao c"
    "run_steps (route_address_steps B d @ route_port_steps d @ route_process_steps B d @
       route_network_steps B d) (new_rule (rd_Invert d)) = Inr r"
  using assms by (auto simp: NewDefaultRule_def split: if_splits)

lemma NewRule_logicalE:
  assumes "NewRule A B (RuleOptions t d ao mode rules invert lo) c = Inr rule" "t \<noteq> []" "t \<noteq> RuleTypeDefault"
  obtains subs a where "rule = LogicalRule mode subs invert a" "t = RuleTypeLogical" "new_action A lo = Inr a"
    "\<not> missing_outbound lo c" "mode = LogicalTypeAnd \<or> mode = LogicalTypeOr"
    "list_all2 (\<lambda>sub r. bindE (validateNoNestedRuleActions (ae_direct_zero A) sub True)
                          (\<lambda>_. NewRule A B sub False) = Inr r) rules subs"
  using assms by (auto simp: mapE_at_Inr_iff split: if_splits)

lemma NewDNSRule_defaultE:
  assumes "NewDNSRule uniq B (DNSRuleOptions t d ao mode rules invert lo) c l = Inr rule"
    "t = [] \<or> t = RuleTypeDefault"
  obtains r a where "rule = DefaultDNSRule r (MatchResponse_IsEnabled (dd_MatchResponse d))
              (MatchResponse_ResponseTag (dd_MatchResponse d)) (da_Race ao) a"
    "new_dns_action ao = Inr a"
    "check_dns_action ao (\<not> (da_Race ao \<and> \<not> MatchResponse_IsEnabled (dd_MatchResponse d))) c = Inr ()"
    "run_steps (dns_query_steps d @ dns_address_steps B d @ dns_port_steps d @ dns_process_steps B d @
       dns_network_steps B d @ dns_rule_set_steps l d) (new_rule (dd_Invert d)) = Inr r"
  using assms by (auto simp: NewDefaultDNSRule_def split: if_splits)

lemma NewDNSRule_logicalE:
  assumes "NewDNSRule uniq B (DNSRuleOptions t d ao mode rules invert lo) c l = Inr rule"
    "t \<noteq> []" "t \<noteq> RuleTypeDefault"
  obtains subs a where "t = RuleTypeLogical"
    "rule = LogicalDNSRule mode subs invert (collect_tags uniq subs) (list_ex MatchResponseAnonymous subs)
              (da_Race lo) a"
    "new_dns_action lo = Inr a" "check_dns_action lo True c = Inr ()"
    "da_Race lo \<longrightarrow> collect_tags uniq subs \<noteq> [] \<or> list_ex MatchResponseAnonymous subs"
    "list_all2 (\<lambda>sub r. bindE (validateNoNestedDNSRuleActions sub True)
                          (\<lambda>_. NewDNSRule uniq B sub False l) = Inr r) rules subs"
  using assms by (auto simp: mapE_at_Inr_iff Let_def split: if_splits)

lemma list_all2_list_all:
  assumes "list_all2 R xs ys" "\<And>x y. x \<in> set xs \<Longrightarrow> R x y \<Longrightarrow> P y"
  shows "list_all P ys"
  using assms by (induction rule: list_all2_induct) auto

lemma NewRule_agrees: "NewRule A B opts c = Inr rule \<Longrightarrow> rule_agrees rule"
proof (induction opts arbitrary: c rule)
  case (RuleOptions t d ao mode rules invert lo)
  show ?case
  proof (cases "t = [] \<or> t = RuleTypeDefault")
    case True
    show ?thesis
      using NewRule_defaultE [OF RuleOptions.prems True] route_steps_agree rule_agrees.simps(1) by metis
  next
    case False
    then have f: "t \<noteq> []" "t \<noteq> RuleTypeDefault" by simp_all
    obtain subs a where r: "rule = LogicalRule mode subs invert a"
      and all: "list_all2 (\<lambda>sub r. bindE (validateNoNestedRuleActions (ae_direct_zero A) sub True)
             (\<lambda>_. NewRule A B sub False) = Inr r) rules subs"
      by (rule NewRule_logicalE [OF RuleOptions.prems f])
    from all have "list_all rule_agrees subs"
    proof (rule list_all2_list_all)
      fix sub r assume "sub \<in> set rules"
        "bindE (validateNoNestedRuleActions (ae_direct_zero A) sub True) (\<lambda>_. NewRule A B sub False) = Inr r"
      then show "rule_agrees r" by (elim bindE_InrE) (rule RuleOptions.IH)
    qed
    then show ?thesis using r by simp
  qed
qed

lemma NewDNSRule_agrees: "NewDNSRule uniq B opts c l = Inr rule \<Longrightarrow> dns_rule_agrees rule"
proof (induction opts arbitrary: c rule)
  case (DNSRuleOptions t d ao mode rules invert lo)
  show ?case
  proof (cases "t = [] \<or> t = RuleTypeDefault")
    case True
    show ?thesis
      by (rule NewDNSRule_defaultE [OF DNSRuleOptions.prems True]) (simp add: dns_steps_agree)
  next
    case False
    then have f: "t \<noteq> []" "t \<noteq> RuleTypeDefault" by simp_all
    show ?thesis
    proof (rule NewDNSRule_logicalE [OF DNSRuleOptions.prems f])
      fix subs a
      assume r: "rule = LogicalDNSRule mode subs invert (collect_tags uniq subs)
            (list_ex MatchResponseAnonymous subs) (da_Race lo) a"
      assume "list_all2 (\<lambda>sub r. bindE (validateNoNestedDNSRuleActions sub True)
             (\<lambda>_. NewDNSRule uniq B sub False l) = Inr r) rules subs"
      then have "list_all dns_rule_agrees subs"
      proof (rule list_all2_list_all)
        fix sub r assume "sub \<in> set rules" "bindE (validateNoNestedDNSRuleActions sub True)
             (\<lambda>_. NewDNSRule uniq B sub False l) = Inr r"
        then show "dns_rule_agrees r" by (elim bindE_InrE) (rule DNSRuleOptions.IH)
      qed
      then show ?thesis using r by simp
    qed
  qed
qed

subsection \<open>Sub-rules carry no action\<close>

fun actionless :: "'d option Rule \<Rightarrow> bool" where
  "actionless (DefaultRule r a) = (a = None)"
| "actionless (LogicalRule mode rules invert a) = (a = None \<and> list_all actionless rules)"

fun dns_actionless :: "'d option DNSRule \<Rightarrow> bool" where
  "dns_actionless (DefaultDNSRule r mr tag race a) = (a = None \<and> \<not> race)"
| "dns_actionless (LogicalDNSRule mode rules invert tags anon race a) =
     (a = None \<and> \<not> race \<and> list_all dns_actionless rules)"

lemma new_action_zero [simp]: "new_action A (action_options_zero z) = Inr None"
  by (simp add: new_action_def NewRuleAction_def action_options_zero_def)

lemma new_dns_action_zero [simp]: "new_dns_action dns_action_options_zero = Inr None"
  by (simp add: new_dns_action_def NewDNSRuleAction_def dns_action_options_zero_def)

lemma da_Race_zero: "\<not> da_Race dns_action_options_zero"
  by (simp add: dns_action_options_zero_def)

lemma types_distinct [simp]:
  "RuleTypeLogical \<noteq> RuleTypeDefault" "RuleTypeLogical \<noteq> []" "RuleTypeDefault \<noteq> []"
  by (simp_all add: RuleTypeLogical_def RuleTypeDefault_def)

lemma NewRule_actionless:
  assumes "validateNoNestedRuleActions (ae_direct_zero A) opts True = Inr ()"
    and "NewRule A B opts c = Inr rule"
  shows "actionless rule"
  using assms
proof (induction opts arbitrary: c rule)
  case (RuleOptions t d ao mode rules invert lo)
  show ?case
  proof (cases "t = [] \<or> t = RuleTypeDefault")
    case True
    then have z: "ao = action_options_zero (ae_direct_zero A)"
      using RuleOptions.prems(1) by (auto simp: ruleHasConfiguredAction_def split: if_splits)
    show ?thesis
      by (rule NewRule_defaultE [OF RuleOptions.prems(2) True]) (simp add: z)
  next
    case False
    then have f: "t \<noteq> []" "t \<noteq> RuleTypeDefault" by simp_all
    obtain subs a where r: "rule = LogicalRule mode subs invert a" "t = RuleTypeLogical" "new_action A lo = Inr a"
      and all: "list_all2 (\<lambda>sub r. bindE (validateNoNestedRuleActions (ae_direct_zero A) sub True)
             (\<lambda>_. NewRule A B sub False) = Inr r) rules subs"
      by (rule NewRule_logicalE [OF RuleOptions.prems(2) f])
    from all have "list_all actionless subs"
    proof (rule list_all2_list_all)
      fix sub r assume "sub \<in> set rules"
        "bindE (validateNoNestedRuleActions (ae_direct_zero A) sub True) (\<lambda>_. NewRule A B sub False) = Inr r"
      then show "actionless r" by (elim bindE_InrE) (rule RuleOptions.IH, simp_all)
    qed
    moreover have "lo = action_options_zero (ae_direct_zero A)"
      using RuleOptions.prems(1) r(2) by (auto simp: ruleHasConfiguredAction_def split: if_splits)
    ultimately show ?thesis using r by simp
  qed
qed

lemma NewDNSRule_actionless:
  assumes "validateNoNestedDNSRuleActions opts True = Inr ()"
    and "NewDNSRule uniq B opts c l = Inr rule"
  shows "dns_actionless rule"
  using assms
proof (induction opts arbitrary: c rule)
  case (DNSRuleOptions t d ao mode rules invert lo)
  show ?case
  proof (cases "t = [] \<or> t = RuleTypeDefault")
    case True
    then have z: "ao = dns_action_options_zero"
      using DNSRuleOptions.prems(1) by (auto simp: dnsRuleHasConfiguredAction_def split: if_splits)
    show ?thesis
      by (rule NewDNSRule_defaultE [OF DNSRuleOptions.prems(2) True]) (simp add: z da_Race_zero)
  next
    case False
    then have f: "t \<noteq> []" "t \<noteq> RuleTypeDefault" by simp_all
    show ?thesis
    proof (rule NewDNSRule_logicalE [OF DNSRuleOptions.prems(2) f])
      fix subs a
      assume r: "rule = LogicalDNSRule mode subs invert (collect_tags uniq subs)
            (list_ex MatchResponseAnonymous subs) (da_Race lo) a" "t = RuleTypeLogical" "new_dns_action lo = Inr a"
      assume "list_all2 (\<lambda>sub r. bindE (validateNoNestedDNSRuleActions sub True)
             (\<lambda>_. NewDNSRule uniq B sub False l) = Inr r) rules subs"
      then have "list_all dns_actionless subs"
      proof (rule list_all2_list_all)
        fix sub r assume "sub \<in> set rules" "bindE (validateNoNestedDNSRuleActions sub True)
             (\<lambda>_. NewDNSRule uniq B sub False l) = Inr r"
        then show "dns_actionless r" by (elim bindE_InrE) (rule DNSRuleOptions.IH, simp_all)
      qed
      moreover have "lo = dns_action_options_zero"
        using DNSRuleOptions.prems(1) r(2) by (auto simp: dnsRuleHasConfiguredAction_def split: if_splits)
      ultimately show ?thesis using r by (auto simp: da_Race_zero)
    qed
  qed
qed

subsection \<open>Racing rules look at a response\<close>

fun reads_response :: "'a DNSRule \<Rightarrow> bool" where
  "reads_response (DefaultDNSRule r mr tag race a) = (mr \<or> tag \<noteq> [])"
| "reads_response (LogicalDNSRule mode rules invert tags anon race a) = list_ex reads_response rules"

definition keeps_elements :: "(string list \<Rightarrow> string list) \<Rightarrow> bool" where
  "keeps_elements uniq = (\<forall>xs. set (uniq xs) = set xs)"

lemma keeps_elements_empty: "keeps_elements uniq \<Longrightarrow> uniq xs = [] \<longleftrightarrow> xs = []"
  by (metis keeps_elements_def set_empty)

lemma check_dns_action_race: "check_dns_action action ok c = Inr () \<Longrightarrow> ok"
  by (auto simp: check_dns_action_def split: if_splits sum.splits)

lemma NewDNSRule_tags:
  assumes "keeps_elements uniq" "NewDNSRule uniq B opts c l = Inr rule"
  shows "MatchResponseTags rule \<noteq> [] \<or> MatchResponseAnonymous rule \<Longrightarrow> reads_response rule"
    and "DNSRule_Race rule \<Longrightarrow> reads_response rule"
proof -
  have "(MatchResponseTags rule \<noteq> [] \<or> MatchResponseAnonymous rule \<longrightarrow> reads_response rule) \<and>
        (DNSRule_Race rule \<longrightarrow> reads_response rule)"
    using assms(2)
  proof (induction opts arbitrary: c rule)
    case (DNSRuleOptions t d ao mode rules invert lo)
    show ?case
    proof (cases "t = [] \<or> t = RuleTypeDefault")
      case True
      show ?thesis
      proof (rule NewDNSRule_defaultE [OF DNSRuleOptions.prems True])
        fix r a
        assume r: "rule = DefaultDNSRule r (MatchResponse_IsEnabled (dd_MatchResponse d))
            (MatchResponse_ResponseTag (dd_MatchResponse d)) (da_Race ao) a"
          and "check_dns_action ao (\<not> (da_Race ao \<and> \<not> MatchResponse_IsEnabled (dd_MatchResponse d))) c = Inr ()"
        then show ?thesis using check_dns_action_race by (fastforce split: if_splits)
      qed
    next
      case False
      then have f: "t \<noteq> []" "t \<noteq> RuleTypeDefault" by simp_all
      show ?thesis
      proof (rule NewDNSRule_logicalE [OF DNSRuleOptions.prems f])
        fix subs a
        assume r: "rule = LogicalDNSRule mode subs invert (collect_tags uniq subs)
              (list_ex MatchResponseAnonymous subs) (da_Race lo) a"
          and race: "da_Race lo \<longrightarrow> collect_tags uniq subs \<noteq> [] \<or> list_ex MatchResponseAnonymous subs"
        assume "list_all2 (\<lambda>sub r. bindE (validateNoNestedDNSRuleActions sub True)
               (\<lambda>_. NewDNSRule uniq B sub False l) = Inr r) rules subs"
        then have "list_all (\<lambda>r. MatchResponseTags r \<noteq> [] \<or> MatchResponseAnonymous r \<longrightarrow> reads_response r) subs"
        proof (rule list_all2_list_all)
          fix sub r assume "sub \<in> set rules" "bindE (validateNoNestedDNSRuleActions sub True)
               (\<lambda>_. NewDNSRule uniq B sub False l) = Inr r"
          then show "MatchResponseTags r \<noteq> [] \<or> MatchResponseAnonymous r \<longrightarrow> reads_response r"
            by (elim bindE_InrE) (drule (1) DNSRuleOptions.IH, simp)
        qed
        then have "collect_tags uniq subs \<noteq> [] \<or> list_ex MatchResponseAnonymous subs \<longrightarrow> list_ex reads_response subs"
          by (auto simp: collect_tags_def keeps_elements_empty [OF assms(1)] list_all_iff list_ex_iff)
        then show ?thesis using r race by auto
      qed
    qed
  qed
  then show "MatchResponseTags rule \<noteq> [] \<or> MatchResponseAnonymous rule \<Longrightarrow> reads_response rule"
    and "DNSRule_Race rule \<Longrightarrow> reads_response rule" by blast+
qed

subsection \<open>The action of a top-level rule\<close>

lemma new_action_route:
  "new_action A opts = Inr (Some (RuleActionRoute tag ro)) \<Longrightarrow>
   ao_Action opts = ''route'' \<and> tag = fst (ao_RouteOptions opts)"
  by (auto simp: new_action_def NewRuleAction_def split: if_splits sum.splits option.splits)

lemma NewRule_outbound:
  assumes "NewRule A B opts True = Inr rule" "Rule_Action rule = Some (RuleActionRoute tag ro)"
  shows "tag \<noteq> []"
proof (cases opts)
  case (RuleOptions t d ao mode rules invert lo)
  note new = assms(1) [unfolded RuleOptions]
  show ?thesis
  proof (cases "t = [] \<or> t = RuleTypeDefault")
    case True
    show ?thesis
      by (rule NewRule_defaultE [OF new True])
         (use assms(2) in \<open>auto dest!: new_action_route simp: missing_outbound_def\<close>)
  next
    case False
    then have f: "t \<noteq> []" "t \<noteq> RuleTypeDefault" by simp_all
    show ?thesis
      by (rule NewRule_logicalE [OF new f])
         (use assms(2) in \<open>auto dest!: new_action_route simp: missing_outbound_def\<close>)
  qed
qed

subsection \<open>Properties\<close>

text \<open>
  Library functions and options for evaluating the constructors: a logical rule of a port and a domain
  suffix, with a route action.
\<close>

definition sample_build :: build_env where
  "sample_build = \<lparr>b_Compiles = (\<lambda>_. True), b_ParsePrefix = (\<lambda>_. None), b_ParseAddr = (\<lambda>_. None),
     b_BuildIPSet = (\<lambda>_. None), b_TrimSpace = (\<lambda>s. s), b_NetworkManager = True\<rparr>"

definition sample_action_env :: "(unit, unit) action_env" where
  "sample_action_env = \<lparr>ae_PlatformSupported = False,
     ae_ParseSocksaddrHostPort = (\<lambda>host port. \<lparr>sa_Addr = AddrZero, sa_Port = port, sa_Fqdn = host\<rparr>),
     ae_new_dialer = (\<lambda>_. None), ae_direct_zero = ()\<rparr>"

abbreviation no_action :: "unit action_options" where
  "no_action \<equiv> action_options_zero ()"

definition sample_port_options :: "unit RuleOptions" where
  "sample_port_options = RuleOptions RuleTypeDefault (RawDefaultRule_zero\<lparr>rd_Port := Some [443]\<rparr>) no_action [] [] False no_action"

definition sample_suffix_options :: "unit RuleOptions" where
  "sample_suffix_options = RuleOptions RuleTypeDefault (RawDefaultRule_zero\<lparr>rd_DomainSuffix := Some [''example'']\<rparr>) no_action [] [] True no_action"

definition sample_rule_options :: "unit RuleOptions" where
  "sample_rule_options = RuleOptions RuleTypeLogical RawDefaultRule_zero no_action ''and''
     [sample_port_options, sample_suffix_options] False
     (no_action\<lparr>ao_Action := ''route'', ao_RouteOptions := (''proxy'', RawRouteOptions_zero)\<rparr>)"

definition sample_outcome :: "(build_error, unit RuleAction option Rule) res" where
  "sample_outcome = NewRule sample_action_env sample_build sample_rule_options True"

lemma sample_outcome_routes:
  "case sample_outcome of
     Inr (LogicalRule mode rules invert (Some (RuleActionRoute tag ro))) \<Rightarrow> length rules = 2 \<and> tag = ''proxy''
   | _ \<Rightarrow> False"
  by code_simp

lemma sample_rule_built:
  obtains mode rules invert tag ro where
    "NewRule sample_action_env sample_build sample_rule_options True =
       Inr (LogicalRule mode rules invert (Some (RuleActionRoute tag ro)))"
    "length rules = 2" "tag = ''proxy''"
  using sample_outcome_routes unfolding sample_outcome_def
  by (auto split: sum.splits Rule.splits option.splits RuleAction.splits)

text \<open>
  (C28) In a route rule that was built, at every level, the list of all conditions agrees with the
  condition groups, so that the rule matches everything unconditionally only when it has no condition
  in any group and no rule-set.
\<close>

theorem built_rule_items_agree:
  assumes "NewRule A B opts checkOutbound = Inr rule"
  shows "rule_agrees rule"
  using assms by (rule NewRule_agrees)

theorem built_rule_items_agree_witness:
  "\<exists>mode rules invert a. NewRule sample_action_env sample_build sample_rule_options True =
     Inr (LogicalRule mode rules invert a) \<and> length rules = 2 \<and> rule_agrees (LogicalRule mode rules invert a)"
proof (rule sample_rule_built)
  fix mode rules invert tag ro
  assume new: "NewRule sample_action_env sample_build sample_rule_options True =
      Inr (LogicalRule mode rules invert (Some (RuleActionRoute tag ro)))" and "length rules = 2"
  with built_rule_items_agree [OF new] show ?thesis by blast
qed

text \<open>
  (C29) The sub-rules of a logical route rule that was built carry no action, at any depth: only the
  top-level rule decides what is done with a connection.
\<close>

theorem nested_rules_have_no_action:
  assumes "NewRule A B opts checkOutbound = Inr (LogicalRule mode rules invert a)"
  shows "list_all actionless rules"
proof (cases opts)
  case (RuleOptions t d ao mode' rules' invert' lo)
  note new = assms [unfolded RuleOptions]
  have "\<not> (t = [] \<or> t = RuleTypeDefault)"
  proof
    assume h: "t = [] \<or> t = RuleTypeDefault"
    show False by (rule NewRule_defaultE [OF new h]) simp
  qed
  then have f: "t \<noteq> []" "t \<noteq> RuleTypeDefault" by simp_all
  obtain subs where "rules = subs" and all: "list_all2 (\<lambda>sub r. bindE
      (validateNoNestedRuleActions (ae_direct_zero A) sub True) (\<lambda>_. NewRule A B sub False) = Inr r) rules' subs"
    by (rule NewRule_logicalE [OF new f]) simp
  moreover from all have "list_all actionless subs"
    by (rule list_all2_list_all) (elim bindE_InrE, rule NewRule_actionless, simp_all)
  ultimately show ?thesis by simp
qed

theorem nested_rules_have_no_action_witness:
  "\<exists>mode rules invert a. NewRule sample_action_env sample_build sample_rule_options True =
     Inr (LogicalRule mode rules invert a) \<and> length rules = 2 \<and> list_all actionless rules"
proof (rule sample_rule_built)
  fix mode rules invert tag ro
  assume new: "NewRule sample_action_env sample_build sample_rule_options True =
      Inr (LogicalRule mode rules invert (Some (RuleActionRoute tag ro)))" and "length rules = 2"
  with nested_rules_have_no_action [OF new] show ?thesis by blast
qed

text \<open>
  A top-level rule with a route action names an outbound: an empty tag is refused when the rule
  is built.
\<close>

theorem routed_rule_names_outbound:
  assumes "NewRule A B opts True = Inr rule" "Rule_Action rule = Some (RuleActionRoute tag ro)"
  shows "tag \<noteq> []"
  using assms by (rule NewRule_outbound)

theorem routed_rule_names_outbound_witness:
  "\<exists>rule tag ro. NewRule sample_action_env sample_build sample_rule_options True = Inr rule \<and>
     Rule_Action rule = Some (RuleActionRoute tag ro) \<and> tag \<noteq> []"
proof (rule sample_rule_built)
  fix mode rules invert tag ro
  assume new: "NewRule sample_action_env sample_build sample_rule_options True =
      Inr (LogicalRule mode rules invert (Some (RuleActionRoute tag ro)))"
  show ?thesis
    using new routed_rule_names_outbound [OF new Rule_Action.simps(2)]
    by (intro exI [of _ "LogicalRule mode rules invert (Some (RuleActionRoute tag ro))"] exI [of _ tag]
        exI [of _ ro]) simp
qed

text \<open>
  (C30) A DNS rule that was built with \<^verbatim>\<open>race\<close> looks at a response, itself or in a sub-rule. \<open>uniq\<close> is
  \<^verbatim>\<open>common.Uniq\<close>, which keeps the elements of a list.
\<close>

theorem racing_rule_reads_response:
  assumes "\<forall>xs. set (uniq xs) = set xs" "NewDNSRule uniq B opts checkServer legacyDNSMode = Inr rule"
    and "DNSRule_Race rule"
  shows "reads_response rule"
  using assms NewDNSRule_tags(2) by (simp add: keeps_elements_def)

definition sample_dns_options :: DNSRuleOptions where
  "sample_dns_options = DNSRuleOptions RuleTypeDefault
     (RawDefaultDNSRule_zero\<lparr>dd_MatchResponse := Some (True, ''first''), dd_IPAcceptAny := True\<rparr>)
     (dns_action_options_zero\<lparr>da_Action := ''respond'', da_Race := True\<rparr>) [] [] False dns_action_options_zero"

definition sample_dns_outcome :: "(build_error, DNSRuleAction option DNSRule) res" where
  "sample_dns_outcome = NewDNSRule remdups sample_build sample_dns_options True False"

lemma sample_dns_outcome_races: "case sample_dns_outcome of Inr rule \<Rightarrow> DNSRule_Race rule | Inl _ \<Rightarrow> False"
  by code_simp

theorem racing_rule_reads_response_witness:
  "\<exists>rule. sample_dns_outcome = Inr rule \<and> DNSRule_Race rule \<and> reads_response rule"
proof -
  obtain rule where r: "sample_dns_outcome = Inr rule" "DNSRule_Race rule"
    using sample_dns_outcome_races by (auto split: sum.splits)
  have "\<forall>xs :: string list. set (remdups xs) = set xs" by simp
  from racing_rule_reads_response [OF this r(1) [unfolded sample_dns_outcome_def] r(2)] r
  show ?thesis by (intro exI [of _ rule]) simp
qed

text \<open>
  The sub-rules of a logical DNS rule that was built carry no action and do not race, at any depth.
\<close>

theorem nested_dns_rules_have_no_action:
  assumes "NewDNSRule uniq B opts checkServer legacyDNSMode = Inr (LogicalDNSRule mode rules invert tags anon race a)"
  shows "list_all dns_actionless rules"
proof (cases opts)
  case (DNSRuleOptions t d ao mode' rules' invert' lo)
  note new = assms [unfolded DNSRuleOptions]
  have "\<not> (t = [] \<or> t = RuleTypeDefault)"
  proof
    assume h: "t = [] \<or> t = RuleTypeDefault"
    show False by (rule NewDNSRule_defaultE [OF new h]) simp
  qed
  then have f: "t \<noteq> []" "t \<noteq> RuleTypeDefault" by simp_all
  show ?thesis
  proof (rule NewDNSRule_logicalE [OF new f])
    fix subs a'
    assume r: "LogicalDNSRule mode rules invert tags anon race a = LogicalDNSRule mode' subs invert'
        (collect_tags uniq subs) (list_ex MatchResponseAnonymous subs) (da_Race lo) a'"
    assume "list_all2 (\<lambda>sub r. bindE (validateNoNestedDNSRuleActions sub True)
             (\<lambda>_. NewDNSRule uniq B sub False legacyDNSMode) = Inr r) rules' subs"
    then have "list_all dns_actionless subs"
      by (rule list_all2_list_all) (elim bindE_InrE, rule NewDNSRule_actionless, simp_all)
    then show ?thesis using r by simp
  qed
qed

definition sample_dns_nested :: "(build_error, DNSRuleAction option DNSRule) res" where
  "sample_dns_nested = NewDNSRule remdups sample_build
     (DNSRuleOptions RuleTypeLogical RawDefaultDNSRule_zero dns_action_options_zero ''or''
        [DNSRuleOptions RuleTypeDefault (RawDefaultDNSRule_zero\<lparr>dd_QueryType := Some [28]\<rparr>)
           dns_action_options_zero [] [] False dns_action_options_zero] False
        (dns_action_options_zero\<lparr>da_Action := ''route'', da_Server := ''local''\<rparr>)) True False"

lemma sample_dns_nested_logical:
  "case sample_dns_nested of Inr (LogicalDNSRule mode rules invert tags anon race a) \<Rightarrow> length rules = 1 | _ \<Rightarrow> False"
  by code_simp

theorem nested_dns_rules_have_no_action_witness:
  "\<exists>mode rules invert tags anon race a. sample_dns_nested = Inr (LogicalDNSRule mode rules invert tags anon race a) \<and>
     length rules = 1 \<and> list_all dns_actionless rules"
proof -
  obtain mode rules invert tags anon race a
    where r: "sample_dns_nested = Inr (LogicalDNSRule mode rules invert tags anon race a)" "length rules = 1"
    using sample_dns_nested_logical by (auto split: sum.splits DNSRule.splits)
  from nested_dns_rules_have_no_action [OF r(1) [unfolded sample_dns_nested_def]] r
  show ?thesis by (intro exI conjI) 
qed

text \<open>
  (C31) The metadata of a rule-set tells the truth about IP conditions: for rules with their types
  written out, as the decoder leaves them, \<^verbatim>\<open>ContainsIPCIDRRule\<close> holds exactly when some rule built from
  them has a destination IP condition. This is what \<^verbatim>\<open>WithAddressLimit\<close> relies on.
\<close>

theorem rule_set_metadata_ip_cidr:
  assumes "mapE_at SubRule (NewHeadlessRule B) 0 rules = Inr built" "list_all typed_headless rules"
  shows "md_ContainsIPCIDRRule (buildRuleSetMetadata rules) = list_ex headless_has_cidr built"
proof -
  have "list_all2 (\<lambda>x y. HasHeadlessRule isIPCIDRHeadlessRule x = headless_has_cidr y) rules built"
    using assms(1) unfolding mapE_at_Inr_iff
    by (rule list.rel_mono_strong) (use assms(2) in \<open>simp add: NewHeadlessRule_has_cidr list_all_iff\<close>)
  from list_ex_all2 [OF this] show ?thesis by (simp add: buildRuleSetMetadata_def)
qed

definition sample_headless :: "HeadlessRuleOptions list" where
  "sample_headless =
     [HeadlessRuleOptions RuleTypeDefault (headless_options_zero\<lparr>hl_Port := Some [53]\<rparr>) [] [] False,
      HeadlessRuleOptions RuleTypeDefault (headless_options_zero\<lparr>hl_IPSet := Some [(Addr4 1, Addr4 2)]\<rparr>) [] [] False]"

definition sample_headless_built :: "(build_error, HeadlessRule list) res" where
  "sample_headless_built = mapE_at SubRule (NewHeadlessRule sample_build) 0 sample_headless"

lemma sample_headless_built_ok: "case sample_headless_built of Inr rs \<Rightarrow> length rs = 2 | Inl _ \<Rightarrow> False"
  by code_simp

theorem rule_set_metadata_ip_cidr_witness:
  "\<exists>built. sample_headless_built = Inr built \<and> length built = 2 \<and>
     md_ContainsIPCIDRRule (buildRuleSetMetadata sample_headless) = list_ex headless_has_cidr built"
proof -
  obtain built where b: "sample_headless_built = Inr built" "length built = 2"
    using sample_headless_built_ok by (auto split: sum.splits)
  have "list_all typed_headless sample_headless" by code_simp
  from rule_set_metadata_ip_cidr [OF b(1) [unfolded sample_headless_built_def] this] b
  show ?thesis by (intro exI [of _ built]) simp
qed

end
