(* ===== verification/Lifecycle.thy ===== *)
theory Lifecycle
  imports QM_Prelude
begin

text \<open>
  The life cycle of the services of the core (adapter/lifecycle.go): start stages, and starting a list
  of services stage by stage.
\<close>

datatype StartStage = StartStateInitialize | StartStateStart | StartStatePostStart | StartStateStarted

definition ListStartStages :: "StartStage list" where
  "ListStartStages = [StartStateInitialize, StartStateStart, StartStatePostStart, StartStateStarted]"

text \<open>The stages are numbered in this order, and the code compares them.\<close>

fun stage_number :: "StartStage \<Rightarrow> nat" where
  "stage_number StartStateInitialize = 0"
| "stage_number StartStateStart = 1"
| "stage_number StartStatePostStart = 2"
| "stage_number StartStateStarted = 3"

instantiation StartStage :: linorder
begin

definition less_eq_StartStage :: "StartStage \<Rightarrow> StartStage \<Rightarrow> bool" where
  "less_eq_StartStage s t \<longleftrightarrow> stage_number s \<le> stage_number t"

definition less_StartStage :: "StartStage \<Rightarrow> StartStage \<Rightarrow> bool" where
  "less_StartStage s t \<longleftrightarrow> stage_number s < stage_number t"

instance
proof
  fix s t :: StartStage
  assume "s \<le> t" "t \<le> s"
  then show "s = t" by (cases s; cases t) (simp_all add: less_eq_StartStage_def)
qed (auto simp: less_eq_StartStage_def less_StartStage_def)

end

text \<open>
  Starting the services in order; the first error ends the loop. The error of the context stands for
  \<^verbatim>\<open>ctx.Err()\<close> before each service. \<open>StartNamed\<close> differs in the text of the error only.
\<close>

fun Lifecycle_Start :: "('w \<Rightarrow> 'e option) \<Rightarrow> ('a \<Rightarrow> StartStage \<Rightarrow> 'w \<Rightarrow> 'e option \<times> 'w) \<Rightarrow> StartStage \<Rightarrow> 'a list \<Rightarrow> 'w \<Rightarrow> 'e option \<times> 'w" where
  "Lifecycle_Start ctxErr start stage [] w = (None, w)"
| "Lifecycle_Start ctxErr start stage (service # services) w =
     (case ctxErr w of
        Some err \<Rightarrow> (Some err, w)
      | None \<Rightarrow>
          (case start service stage w of
             (Some err, w') \<Rightarrow> (Some err, w')
           | (None, w') \<Rightarrow> Lifecycle_Start ctxErr start stage services w'))"

end
