(* ===== verification/FakeIP.thy ===== *)
theory FakeIP
  imports Netip_Codec DNS_Message Lifecycle
begin

text \<open>
  FakeIP (dns/transport/fakeip): a DNS transport that answers address queries with addresses of a
  private range and remembers which domain an address stands for.

  The store of the transport (store.go) works on a storage interface (adapter/fakeip.go), a record of
  its methods here; the storage in memory (memory.go) implements it. The metadata a storage may keep
  has a binary form (adapter/fakeip\_metadata.go).
\<close>

subsection \<open>Metadata\<close>

record FakeIPMetadata =
  fm_Inet4Range :: prefix
  fm_Inet6Range :: prefix
  fm_Inet4Current :: addr
  fm_Inet6Current :: addr

definition metadata_element :: "bytes \<Rightarrow> bytes" where
  "metadata_element data = be16 (of_nat (length data)) @ data"

definition FakeIPMetadata_MarshalBinary :: "FakeIPMetadata \<Rightarrow> bytes" where
  "FakeIPMetadata_MarshalBinary m =
     concat (map metadata_element
       [prefix_MarshalBinary (fm_Inet4Range m), prefix_MarshalBinary (fm_Inet6Range m),
        addr_MarshalBinary (fm_Inet4Current m), addr_MarshalBinary (fm_Inet6Current m)])"

text \<open>\<open>MetadataPanic\<close>: \<^verbatim>\<open>common.Must\<close> panics when the length of an element cannot be read.\<close>

datatype metadata_error = MetadataPanic read_error | MetadataRead read_error | MetadataElement

definition read_element :: "(bytes \<Rightarrow> 'a option) \<Rightarrow> (metadata_error, 'a) reader" where
  "read_element unmarshal bs =
     bindE (lift_err MetadataPanic (read_be 2 bs :: (read_error, 16 word \<times> bytes) res))
       (\<lambda>(len, bs1). bindE (lift_err MetadataRead (ReadFull (unat len) bs1))
          (\<lambda>(element, bs2). case unmarshal element of
             None \<Rightarrow> Inl MetadataElement | Some x \<Rightarrow> Inr (x, bs2)))"

definition FakeIPMetadata_UnmarshalBinary :: "bytes \<Rightarrow> (metadata_error, FakeIPMetadata) res" where
  "FakeIPMetadata_UnmarshalBinary data =
     bindE (read_element prefix_UnmarshalBinary data)
       (\<lambda>(r4, bs1). bindE (read_element prefix_UnmarshalBinary bs1)
       (\<lambda>(r6, bs2). bindE (read_element addr_UnmarshalBinary bs2)
       (\<lambda>(c4, bs3). bindE (read_element addr_UnmarshalBinary bs3)
       (\<lambda>(c6, bs4). Inr \<lparr>fm_Inet4Range = r4, fm_Inet6Range = r6, fm_Inet4Current = c4,
                         fm_Inet6Current = c6\<rparr>))))"

subsection \<open>The storage interface and the storage in memory\<close>

text \<open>The methods of \<^verbatim>\<open>adapter.FakeIPStorage\<close> that a store calls. \<open>'s\<close> is the state of the storage.\<close>

record 's FakeIPStorage =
  st_FakeIPMetadata :: "'s \<Rightarrow> FakeIPMetadata option \<times> 's"
  st_FakeIPSaveMetadata :: "FakeIPMetadata \<Rightarrow> 's \<Rightarrow> 's"
  st_FakeIPSaveMetadataAsync :: "FakeIPMetadata \<Rightarrow> 's \<Rightarrow> 's"
  st_FakeIPStore :: "addr \<Rightarrow> string \<Rightarrow> 's \<Rightarrow> 's"
  st_FakeIPLoad :: "'s \<Rightarrow> addr \<Rightarrow> string option"
  st_FakeIPLoadDomain :: "'s \<Rightarrow> string \<Rightarrow> bool \<Rightarrow> addr option"
  st_FakeIPReset :: "'s \<Rightarrow> 's"

record MemoryStorage =
  addressCache :: "addr \<rightharpoonup> string"
  domainCache4 :: "string \<rightharpoonup> addr"
  domainCache6 :: "string \<rightharpoonup> addr"

definition NewMemoryStorage :: MemoryStorage where
  "NewMemoryStorage = \<lparr>addressCache = Map.empty, domainCache4 = Map.empty, domainCache6 = Map.empty\<rparr>"

definition MemoryStorage_FakeIPStore :: "addr \<Rightarrow> string \<Rightarrow> MemoryStorage \<Rightarrow> MemoryStorage" where
  "MemoryStorage_FakeIPStore address domain s =
     (let s1 = (case addressCache s address of
                  Some oldDomain \<Rightarrow>
                    if addr_Is4 address then s\<lparr>domainCache4 := (domainCache4 s)(oldDomain := None)\<rparr>
                    else s\<lparr>domainCache6 := (domainCache6 s)(oldDomain := None)\<rparr>
                | None \<Rightarrow> s);
          s2 = s1\<lparr>addressCache := (addressCache s1)(address \<mapsto> domain)\<rparr>
      in if addr_Is4 address then s2\<lparr>domainCache4 := (domainCache4 s2)(domain \<mapsto> address)\<rparr>
         else s2\<lparr>domainCache6 := (domainCache6 s2)(domain \<mapsto> address)\<rparr>)"

definition MemoryStorage_FakeIPLoad :: "MemoryStorage \<Rightarrow> addr \<Rightarrow> string option" where
  "MemoryStorage_FakeIPLoad s address = addressCache s address"

definition MemoryStorage_FakeIPLoadDomain :: "MemoryStorage \<Rightarrow> string \<Rightarrow> bool \<Rightarrow> addr option" where
  "MemoryStorage_FakeIPLoadDomain s domain isIPv6 =
     (if \<not> isIPv6 then domainCache4 s domain else domainCache6 s domain)"

definition MemoryStorage_FakeIPReset :: "MemoryStorage \<Rightarrow> MemoryStorage" where
  "MemoryStorage_FakeIPReset s =
     s\<lparr>addressCache := Map.empty, domainCache4 := Map.empty, domainCache6 := Map.empty\<rparr>"

definition memory_methods :: "MemoryStorage FakeIPStorage" where
  "memory_methods = \<lparr>
     st_FakeIPMetadata = (\<lambda>s. (None, s)),
     st_FakeIPSaveMetadata = (\<lambda>_ s. s),
     st_FakeIPSaveMetadataAsync = (\<lambda>_ s. s),
     st_FakeIPStore = MemoryStorage_FakeIPStore,
     st_FakeIPLoad = MemoryStorage_FakeIPLoad,
     st_FakeIPLoadDomain = MemoryStorage_FakeIPLoadDomain,
     st_FakeIPReset = MemoryStorage_FakeIPReset\<rparr>"

subsection \<open>The store\<close>

text \<open>
  \<^verbatim>\<open>broadcastAddress\<close>: the sixteen bytes of the address as one number, of which bit \<open>i\<close> from the left is
  bit \<open>127 - i\<close>.
\<close>

definition v4_mapped :: "128 word" where
  "v4_mapped = push_bit 32 0xFFFF"

fun addr_As16 :: "addr \<Rightarrow> 128 word" where
  "addr_As16 AddrZero = 0"
| "addr_As16 (Addr4 w) = v4_mapped OR ucast w"
| "addr_As16 (Addr6 w z) = w"

definition broadcastAddress :: "prefix \<Rightarrow> addr" where
  "broadcastAddress p =
     (let addr = prefix_Addr p;
          bits = nat (prefix_Bits p) + (if addr_Is4 addr then 96 else 0);
          raw = fold (\<lambda>i r. set_bit (127 - i) r) [bits..<128] (addr_As16 addr)
      in if addr_Is4 addr then Addr4 (ucast raw) else Addr6 raw [])"

text \<open>\<open>started\<close> tells that the storage has been selected (it is not nil).\<close>

record 's Store =
  started :: bool
  inet4Range :: prefix
  inet6Range :: prefix
  inet4Last :: addr
  inet6Last :: addr
  storage :: 's
  inet4Current :: addr
  inet6Current :: addr

definition NewStore :: "prefix \<Rightarrow> prefix \<Rightarrow> 's \<Rightarrow> 's Store" where
  "NewStore range4 range6 nil =
     \<lparr>started = False, inet4Range = range4, inet6Range = range6,
      inet4Last = (if prefix_IsValid range4 then broadcastAddress range4 else AddrZero),
      inet6Last = (if prefix_IsValid range6 then broadcastAddress range6 else AddrZero),
      storage = nil, inet4Current = AddrZero, inet6Current = AddrZero\<rparr>"

text \<open>\<^verbatim>\<open>Store.Start\<close> with the storage it selects, whose methods are \<open>I\<close> and whose state is \<open>st\<close>.\<close>

definition Store_Start :: "'s FakeIPStorage \<Rightarrow> 's \<Rightarrow> 's Store \<Rightarrow> 's Store" where
  "Store_Start I st s =
     (case st_FakeIPMetadata I st of
        (metadata, st1) \<Rightarrow>
          let fresh = s\<lparr>
                inet4Current := (if prefix_IsValid (inet4Range s) then addr_Next (prefix_Addr (inet4Range s))
                                 else inet4Current s),
                inet6Current := (if prefix_IsValid (inet6Range s) then addr_Next (prefix_Addr (inet6Range s))
                                 else inet6Current s),
                storage := st_FakeIPReset I st1, started := True\<rparr>
          in case metadata of
               Some m \<Rightarrow>
                 if fm_Inet4Range m = inet4Range s \<and> fm_Inet6Range m = inet6Range s
                 then s\<lparr>inet4Current := fm_Inet4Current m, inet6Current := fm_Inet6Current m,
                          storage := st1, started := True\<rparr>
                 else fresh
             | None \<Rightarrow> fresh)"

definition Store_Contains :: "'s Store \<Rightarrow> addr \<Rightarrow> bool" where
  "Store_Contains s address = (prefix_Contains (inet4Range s) address \<or> prefix_Contains (inet6Range s) address)"

definition Store_metadata :: "'s Store \<Rightarrow> FakeIPMetadata" where
  "Store_metadata s = \<lparr>fm_Inet4Range = inet4Range s, fm_Inet6Range = inet6Range s,
     fm_Inet4Current = inet4Current s, fm_Inet6Current = inet6Current s\<rparr>"

definition Store_Close :: "'s FakeIPStorage \<Rightarrow> 's Store \<Rightarrow> 's Store" where
  "Store_Close I s =
     (if \<not> started s then s
      else s\<lparr>storage := st_FakeIPSaveMetadata I (Store_metadata s) (storage s)\<rparr>)"

text \<open>The address after \<open>current\<close>, from the start of the range again at its end.\<close>

definition nextAddress :: "prefix \<Rightarrow> addr \<Rightarrow> addr \<Rightarrow> addr" where
  "nextAddress pool last_addr current =
     (let address = addr_Next current
      in if address = last_addr \<or> \<not> prefix_Contains pool address
         then addr_Next (addr_Next (prefix_Addr pool)) else address)"

text \<open>The end of \<^verbatim>\<open>Create\<close>: store the new address and save the metadata.\<close>

definition remember :: "'s FakeIPStorage \<Rightarrow> addr \<Rightarrow> string \<Rightarrow> 's Store \<Rightarrow> 's Store" where
  "remember I address domain s =
     s\<lparr>storage := st_FakeIPSaveMetadataAsync I (Store_metadata s) (st_FakeIPStore I address domain (storage s))\<rparr>"

datatype fakeip_error = MissingRange4 | MissingRange6

definition Store_Create ::
  "'s FakeIPStorage \<Rightarrow> string \<Rightarrow> bool \<Rightarrow> 's Store \<Rightarrow> (fakeip_error, addr) res \<times> 's Store"
where
  "Store_Create I domain isIPv6 s =
     (case st_FakeIPLoadDomain I (storage s) domain isIPv6 of
        Some address \<Rightarrow> (Inr address, s)
      | None \<Rightarrow>
          if \<not> isIPv6 then
            (if \<not> addr_IsValid (inet4Current s) then (Inl MissingRange4, s)
             else let address = nextAddress (inet4Range s) (inet4Last s) (inet4Current s)
                  in (Inr address, remember I address domain (s\<lparr>inet4Current := address\<rparr>)))
          else
            (if \<not> addr_IsValid (inet6Current s) then (Inl MissingRange6, s)
             else let address = nextAddress (inet6Range s) (inet6Last s) (inet6Current s)
                  in (Inr address, remember I address domain (s\<lparr>inet6Current := address\<rparr>))))"

definition Store_Lookup :: "'s FakeIPStorage \<Rightarrow> 's Store \<Rightarrow> addr \<Rightarrow> string option" where
  "Store_Lookup I s address = st_FakeIPLoad I (storage s) address"

definition Store_Reset :: "'s FakeIPStorage \<Rightarrow> 's Store \<Rightarrow> 's Store" where
  "Store_Reset I s = s\<lparr>storage := st_FakeIPReset I (storage s)\<rparr>"

subsection \<open>The transport\<close>

record 's fakeip_Transport =
  tr_store :: "'s Store"
  tr_inet4Enabled :: bool
  tr_inet6Enabled :: bool

text \<open>\<open>None\<close> is the error when no range is configured.\<close>

definition NewTransport :: "prefix option \<Rightarrow> prefix option \<Rightarrow> 's \<Rightarrow> 's fakeip_Transport option" where
  "NewTransport opt4 opt6 nil =
     (let range4 = (case opt4 of None \<Rightarrow> prefix_zero | Some p \<Rightarrow> p);
          range6 = (case opt6 of None \<Rightarrow> prefix_zero | Some p \<Rightarrow> p)
      in if \<not> prefix_IsValid range4 \<and> \<not> prefix_IsValid range6 then None
         else Some \<lparr>tr_store = NewStore range4 range6 nil, tr_inet4Enabled = prefix_IsValid range4,
                    tr_inet6Enabled = prefix_IsValid range6\<rparr>)"

text \<open>\<open>selected\<close> is the storage \<^verbatim>\<open>Store.Start\<close> selects.\<close>

definition Transport_Start :: "'s FakeIPStorage \<Rightarrow> 's \<Rightarrow> StartStage \<Rightarrow> 's fakeip_Transport \<Rightarrow> 's fakeip_Transport" where
  "Transport_Start I selected stage t =
     (if stage \<noteq> StartStateStart then t else t\<lparr>tr_store := Store_Start I selected (tr_store t)\<rparr>)"

definition Transport_Close :: "'s FakeIPStorage \<Rightarrow> 's fakeip_Transport \<Rightarrow> 's fakeip_Transport" where
  "Transport_Close I t = t\<lparr>tr_store := Store_Close I (tr_store t)\<rparr>"

datatype exchange_error = NoQuestionPanic | OnlyIPQueries | CreateError fakeip_error

definition DefaultDNSTTL :: "32 word" where "DefaultDNSTTL = 600"

text \<open>\<open>isFqdn\<close> is \<^verbatim>\<open>dns.IsFqdn\<close>.\<close>

definition Transport_Exchange ::
  "(string \<Rightarrow> bool) \<Rightarrow> 's FakeIPStorage \<Rightarrow> dns_Message \<Rightarrow> 's fakeip_Transport \<Rightarrow>
   (exchange_error, dns_Message) res \<times> 's fakeip_Transport"
where
  "Transport_Exchange isFqdn I message t =
     (case h_Question message of
        [] \<Rightarrow> (Inl NoQuestionPanic, t)
      | question # _ \<Rightarrow>
          if q_Qtype question \<noteq> TypeA \<and> q_Qtype question \<noteq> TypeAAAA then (Inl OnlyIPQueries, t)
          else if q_Qtype question = TypeA \<and> \<not> tr_inet4Enabled t \<or>
                  q_Qtype question = TypeAAAA \<and> \<not> tr_inet6Enabled t
          then (Inr (FixedResponseStatus message RcodeSuccess), t)
          else
            (case Store_Create I (FqdnToDomain isFqdn (q_Name question)) (q_Qtype question = TypeAAAA) (tr_store t) of
               (Inl e, s) \<Rightarrow> (Inl (CreateError e), t\<lparr>tr_store := s\<rparr>)
             | (Inr address, s) \<Rightarrow>
                 (Inr (FixedResponse (h_Id message) question [address] DefaultDNSTTL), t\<lparr>tr_store := s\<rparr>)))"

end
