(* ===== verification/FakeIP_Pool.thy ===== *)
theory FakeIP_Pool
  imports FakeIP
begin

text \<open>
  The addresses of a prefix as an interval of numbers, and the walk through them: which addresses a
  FakeIP store hands out and when it comes back to one.
\<close>

unbundle bit_operations_syntax

subsection \<open>Prefixes as intervals\<close>

fun addr_val :: "addr \<Rightarrow> nat" where
  "addr_val AddrZero = 0"
| "addr_val (Addr4 w) = unat w"
| "addr_val (Addr6 w z) = unat w"

definition host_bits :: "prefix \<Rightarrow> nat" where
  "host_bits p = addr_BitLen (prefix_Addr p) - nat (prefix_Bits p)"

definition pool_first :: "prefix \<Rightarrow> nat" where
  "pool_first p = addr_val (prefix_Addr p) div 2 ^ host_bits p * 2 ^ host_bits p"

definition pool_last :: "prefix \<Rightarrow> nat" where
  "pool_last p = pool_first p + 2 ^ host_bits p - 1"

lemma div_eq_iff_interval:
  fixes i j k :: nat
  assumes "k > 0"
  shows "i div k = j div k \<longleftrightarrow> i div k * k \<le> j \<and> j < i div k * k + k"
  using assms by (metis add.commute div_nat_eqI dividend_less_times_div div_times_less_eq_dividend
      less_add_same_cancel1 mult.commute mult_Suc_right)

lemma drop_bit_eq_iff:
  fixes v w :: "'a::len word"
  shows "drop_bit n v = drop_bit n w \<longleftrightarrow>
         unat v div 2 ^ n * 2 ^ n \<le> unat w \<and> unat w < unat v div 2 ^ n * 2 ^ n + 2 ^ n"
proof -
  have "drop_bit n v = drop_bit n w \<longleftrightarrow> unat v div 2 ^ n = unat w div 2 ^ n"
    by (simp add: word_unat_eq_iff unat_drop_bit_eq drop_bit_eq_div [of n "unat v"] drop_bit_eq_div [of n "unat w"])
  then show ?thesis by (simp add: div_eq_iff_interval)
qed

lemma or_mask_nat: "(m :: nat) OR mask n = m div 2 ^ n * 2 ^ n + (2 ^ n - 1)"
proof -
  have "push_bit n (drop_bit n m) + mask n = push_bit n (drop_bit n m) OR mask n"
    by (rule disjunctive_add) (auto simp: bit_simps)
  also have "\<dots> = m OR mask n"
    by (rule bit_eqI) (auto simp: bit_simps)
  finally show ?thesis
    unfolding push_bit_eq_mult drop_bit_eq_div mask_eq_exp_minus_1 by (rule sym)
qed

lemma unat_or_mask:
  fixes w :: "'a::len word"
  assumes "n \<le> LENGTH('a)"
  shows "unat (w OR mask n) = unat w div 2 ^ n * 2 ^ n + (2 ^ n - 1)"
proof -
  have "unat (mask n :: 'a word) = take_bit n (unat (- 1 :: 'a word))"
    by (simp only: mask_eq_take_bit_minus_one unsigned_take_bit_eq)
  also have "\<dots> = mask n"
    unfolding unsigned_minus_1_eq_mask using assms by (intro bit_eqI) (auto simp: bit_simps)
  finally show ?thesis by (simp only: unsigned_or_eq or_mask_nat)
qed

lemma bit_fold_set_bit:
  "bit (fold (\<lambda>i r. set_bit (127 - i) r) xs (r :: 128 word)) n \<longleftrightarrow>
   bit r n \<or> (n < 128 \<and> (\<exists>i \<in> set xs. n = 127 - i))"
  by (induction xs arbitrary: r) (auto simp: bit_simps)

lemma fold_set_bit_mask:
  assumes "b \<le> 128"
  shows "fold (\<lambda>i r. set_bit (127 - i) r) [b..<128] (r :: 128 word) = r OR mask (128 - b)"
proof (rule bit_word_eqI)
  fix n assume "n < LENGTH(128)"
  then have "(\<exists>i \<in> {b..<128}. n = 127 - i) \<longleftrightarrow> n < 128 - b"
    by (auto intro!: bexI [of _ "127 - n"])
  then show "bit (fold (\<lambda>i r. set_bit (127 - i) r) [b..<128] r) n = bit (r OR mask (128 - b)) n"
    using \<open>n < LENGTH(128)\<close> by (simp add: bit_fold_set_bit bit_simps)
qed

lemma bit_v4_mapped: "bit v4_mapped n \<Longrightarrow> 32 \<le> n"
  unfolding v4_mapped_def by (simp only: bit_push_bit_iff)

lemma ucast_or_mask4:
  assumes "n \<le> 32"
  shows "ucast ((v4_mapped OR ucast w) OR mask n) = (w :: 32 word) OR mask n"
  using assms by (intro bit_word_eqI) (auto simp: bit_simps dest: bit_v4_mapped)

lemma broadcastAddress_eq:
  assumes "prefix_wf p" "prefix_IsValid p"
  shows "addr_Is4 (broadcastAddress p) = addr_Is4 (prefix_Addr p)"
    and "addr_IsValid (broadcastAddress p)" and "\<not> addr_hasZone (broadcastAddress p)"
    and "addr_val (broadcastAddress p) = pool_last p"
proof -
  obtain b where b: "prefix_bits p = Some b" using assms(2) by (auto simp: prefix_IsValid_def)
  show "addr_Is4 (broadcastAddress p) = addr_Is4 (prefix_Addr p)"
    "addr_IsValid (broadcastAddress p)" "\<not> addr_hasZone (broadcastAddress p)"
    by (simp_all add: broadcastAddress_def Let_def)
  show "addr_val (broadcastAddress p) = pool_last p"
  proof (cases "prefix_Addr p")
    case AddrZero
    then show ?thesis using assms b by (simp add: prefix_wf_def)
  next
    case (Addr4 w)
    then have "b \<le> 32" using assms b by (simp add: prefix_wf_def)
    then show ?thesis using Addr4 b
      by (simp add: broadcastAddress_def prefix_Bits_def fold_set_bit_mask ucast_or_mask4 unat_or_mask
          pool_last_def pool_first_def host_bits_def)
  next
    case (Addr6 w z)
    then have "b \<le> 128" using assms b by (simp add: prefix_wf_def)
    then show ?thesis using Addr6 b
      by (simp add: broadcastAddress_def prefix_Bits_def fold_set_bit_mask unat_or_mask
          pool_last_def pool_first_def host_bits_def)
  qed
qed

lemma prefix_Contains_iff:
  assumes "prefix_wf p" "prefix_IsValid p"
  shows "prefix_Contains p a \<longleftrightarrow>
     addr_IsValid a \<and> \<not> addr_hasZone a \<and> addr_Is4 a = addr_Is4 (prefix_Addr p) \<and>
     pool_first p \<le> addr_val a \<and> addr_val a \<le> pool_last p"
proof -
  obtain b where b: "prefix_bits p = Some b" using assms(2) by (auto simp: prefix_IsValid_def)
  have lt: "x < y + 2 ^ n \<longleftrightarrow> x \<le> y + 2 ^ n - 1" for x y n :: nat by (cases "(2 :: nat) ^ n") auto
  show ?thesis
    using assms b
    by (cases "prefix_Addr p"; cases a)
       (auto simp: prefix_Contains_def prefix_wf_def drop_bit_xor_zero_iff drop_bit_eq_iff
         pool_last_def pool_first_def host_bits_def prefix_Bits_def lt simp del: drop_bit_xor)
qed

subsection \<open>The walk through a pool\<close>

text \<open>An address of the family of a prefix.\<close>

definition addr_like :: "prefix \<Rightarrow> addr \<Rightarrow> bool" where
  "addr_like p a = (addr_IsValid a \<and> \<not> addr_hasZone a \<and> addr_Is4 a = addr_Is4 (prefix_Addr p))"

text \<open>
  A pool a store can work with: the network address, the address after it and the broadcast address are
  never handed out, and at least one address is left.
\<close>

definition pool_base :: "prefix \<Rightarrow> nat" where
  "pool_base p = addr_val (prefix_Addr p)"

definition pool_ok :: "prefix \<Rightarrow> bool" where
  "pool_ok p = (prefix_wf p \<and> prefix_IsValid p \<and> pool_base p + 3 \<le> pool_last p)"

definition pool_size :: "prefix \<Rightarrow> nat" where
  "pool_size p = pool_last p - pool_base p - 2"

definition usable :: "prefix \<Rightarrow> addr \<Rightarrow> bool" where
  "usable p a = (addr_like p a \<and> pool_base p + 2 \<le> addr_val a \<and> addr_val a < pool_last p)"

text \<open>The current address of a store: its last allocation, or the address before the first one.\<close>

definition walking :: "prefix \<Rightarrow> addr \<Rightarrow> bool" where
  "walking p c = (addr_like p c \<and> pool_base p + 1 \<le> addr_val c \<and> addr_val c < pool_last p)"

lemma addr_like_eq_iff: "addr_like p a \<Longrightarrow> addr_like p b \<Longrightarrow> a = b \<longleftrightarrow> addr_val a = addr_val b"
  by (cases a; cases b) (auto simp: addr_like_def word_unat_eq_iff)

lemma addr_like_own: "prefix_wf p \<Longrightarrow> prefix_IsValid p \<Longrightarrow> addr_like p (prefix_Addr p)"
  by (auto simp: addr_like_def prefix_wf_def prefix_IsValid_def)

lemma unat_Suc:
  fixes w :: "'a::len word"
  assumes "unat w + 1 < 2 ^ LENGTH('a)"
  shows "unat (w + 1) = unat w + 1" "w + 1 \<noteq> 0"
proof -
  have "unat w + unat (1 :: 'a word) < 2 ^ LENGTH('a)" using assms by simp
  then show *: "unat (w + 1) = unat w + 1" unfolding unat_add_lem by simp
  show "w + 1 \<noteq> 0"
  proof
    assume "w + 1 = 0"
    with * show False by simp
  qed
qed

lemma addr_Next_like:
  assumes a: "addr_like p a" and b: "addr_like p b" and less: "addr_val a < addr_val b"
  shows "addr_like p (addr_Next a)" "addr_val (addr_Next a) = addr_val a + 1"
proof -
  have "addr_like p (addr_Next a) \<and> addr_val (addr_Next a) = addr_val a + 1"
  proof (cases a)
    case (Addr4 w)
    then obtain v where v: "b = Addr4 v" using a b by (cases b) (auto simp: addr_like_def)
    have "unat v < 2 ^ LENGTH(32)" by (rule unsigned_less)
    then have "unat w + 1 < 2 ^ LENGTH(32)" using less Addr4 v by simp
    then show ?thesis using a Addr4 unat_Suc [of w] by (simp add: addr_like_def)
  next
    case (Addr6 w z)
    then obtain v y where v: "b = Addr6 v y" using a b by (cases b) (auto simp: addr_like_def)
    have "unat v < 2 ^ LENGTH(128)" by (rule unsigned_less)
    then have "unat w + 1 < 2 ^ LENGTH(128)" using less Addr6 v by simp
    then show ?thesis using a Addr6 unat_Suc [of w] by (simp add: addr_like_def)
  qed (use a in \<open>simp add: addr_like_def\<close>)
  then show "addr_like p (addr_Next a)" "addr_val (addr_Next a) = addr_val a + 1" by simp_all
qed

lemma pool_first_le: "pool_first p \<le> pool_base p"
  by (simp add: pool_first_def pool_base_def)

lemma nextAddress_walk:
  assumes ok: "pool_ok p" and c: "walking p c"
  shows "usable p (nextAddress p (broadcastAddress p) c)"
    and "addr_val (nextAddress p (broadcastAddress p) c) =
         (if addr_val c + 1 = pool_last p then pool_base p + 2 else addr_val c + 1)"
proof -
  have wf: "prefix_wf p" "prefix_IsValid p" using ok by (simp_all add: pool_ok_def)
  note bc = broadcastAddress_eq [OF wf]
  have lb: "addr_like p (broadcastAddress p)" using bc by (simp add: addr_like_def)
  have lc: "addr_like p c" "addr_val c < addr_val (broadcastAddress p)"
    using c bc by (simp_all add: walking_def)
  note n = addr_Next_like [OF lc(1) lb lc(2)]
  have b0: "addr_like p (prefix_Addr p)" "addr_val (prefix_Addr p) < addr_val (broadcastAddress p)"
    using addr_like_own [OF wf] ok bc by (simp_all add: pool_ok_def pool_base_def)
  note n1 = addr_Next_like [OF b0(1) lb b0(2)]
  have "addr_val (addr_Next (prefix_Addr p)) < addr_val (broadcastAddress p)"
    using n1 ok bc by (simp add: pool_ok_def pool_base_def)
  note n2 = addr_Next_like [OF n1(1) lb this]
  have inside: "prefix_Contains p (addr_Next c)"
    using n c pool_first_le [of p]
    by (auto simp: prefix_Contains_iff [OF wf] addr_like_def walking_def)
  have last: "addr_Next c = broadcastAddress p \<longleftrightarrow> addr_val c + 1 = pool_last p"
    using addr_like_eq_iff [OF n(1) lb] n(2) bc by simp
  show "addr_val (nextAddress p (broadcastAddress p) c) =
         (if addr_val c + 1 = pool_last p then pool_base p + 2 else addr_val c + 1)"
    using last inside n n1 n2 by (simp add: nextAddress_def Let_def pool_base_def)
  then show "usable p (nextAddress p (broadcastAddress p) c)"
    using last inside n n1 n2 ok c
    by (auto simp: nextAddress_def Let_def usable_def pool_ok_def walking_def pool_base_def)
qed

lemma usable_walking: "usable p a \<Longrightarrow> walking p a"
  by (simp add: usable_def walking_def)

lemma start_walking:
  assumes "pool_ok p"
  shows "walking p (addr_Next (prefix_Addr p))"
proof -
  have wf: "prefix_wf p" "prefix_IsValid p" using assms by (simp_all add: pool_ok_def)
  note bc = broadcastAddress_eq [OF wf]
  have "addr_like p (broadcastAddress p)" "addr_val (prefix_Addr p) < addr_val (broadcastAddress p)"
    using bc assms by (simp_all add: addr_like_def pool_ok_def pool_base_def)
  from addr_Next_like [OF addr_like_own [OF wf] this] show ?thesis
    using assms by (simp add: walking_def pool_ok_def pool_base_def)
qed

lemma usable_contained: "pool_ok p \<Longrightarrow> usable p a \<Longrightarrow> prefix_Contains p a"
  using pool_first_le [of p]
  by (auto simp: pool_ok_def prefix_Contains_iff usable_def addr_like_def)

text \<open>The walk comes back to an address after exactly \<open>pool_size\<close> steps.\<close>

abbreviation walk :: "prefix \<Rightarrow> addr \<Rightarrow> addr" where
  "walk p \<equiv> nextAddress p (broadcastAddress p)"

definition offset :: "prefix \<Rightarrow> addr \<Rightarrow> nat" where
  "offset p a = addr_val a - (pool_base p + 2)"

lemma usable_offset: "usable p a \<Longrightarrow> addr_val a = pool_base p + 2 + offset p a \<and> offset p a < pool_size p"
  by (auto simp: usable_def offset_def pool_size_def)

lemma walk_offset:
  assumes "pool_ok p" "usable p a"
  shows "usable p ((walk p ^^ k) a) \<and> offset p ((walk p ^^ k) a) = (offset p a + k) mod pool_size p"
proof (induction k)
  case 0
  then show ?case using assms(2) usable_offset by simp
next
  case (Suc k)
  let ?b = "(walk p ^^ k) a"
  have o: "offset p ?b = (offset p a + k) mod pool_size p" and u: "usable p ?b" using Suc by simp_all
  note step = nextAddress_walk [OF assms(1) usable_walking [OF u]]
  have b: "addr_val ?b = pool_base p + 2 + offset p ?b" using usable_offset [OF u] by simp
  have "addr_val ?b + 1 = pool_last p \<longleftrightarrow> Suc (offset p ?b) = pool_size p"
    using b assms(1) by (auto simp: pool_size_def pool_ok_def)
  then have "offset p (walk p ?b) = Suc (offset p a + k) mod pool_size p"
    using step(2) b o unfolding offset_def [of p "walk p ?b"] by (simp add: mod_Suc)
  then show ?case using step(1) by simp
qed

lemma walk_returns_late:
  assumes "pool_ok p" "usable p a" "0 < k" "k < pool_size p"
  shows "(walk p ^^ k) a \<noteq> a"
proof
  assume eq: "(walk p ^^ k) a = a"
  have "(offset p a + k) mod pool_size p = offset p a mod pool_size p"
    using walk_offset [OF assms(1,2), of k] eq usable_offset [OF assms(2)] by simp
  then have "pool_size p dvd k"
    by (metis add_diff_cancel_left' le_add1 mod_eq_dvd_iff_nat)
  with assms(3,4) show False by (simp add: nat_dvd_not_less)
qed

end
