(* ===== verification/FakeIP_Store.thy ===== *)
theory FakeIP_Store
  imports FakeIP_Pool
begin

text \<open>
  The contract of a FakeIP storage as a locale, what a store promises on top of any such storage, and
  the storage in memory as an instance.
\<close>

subsection \<open>The contract of a storage\<close>

text \<open>
  A storage keeps, for each address family, a one-to-one relation between domains and addresses. The
  law for \<^verbatim>\<open>FakeIPStore\<close> is for a domain without an address in the family: storing it under an address
  takes the address from the domain that had it.
\<close>

locale fakeip_storage =
  fixes I :: "'s FakeIPStorage" and inv :: "'s \<Rightarrow> bool"
  assumes load_iff: "inv st \<Longrightarrow>
      st_FakeIPLoad I st a = Some d \<longleftrightarrow> st_FakeIPLoadDomain I st d (\<not> addr_Is4 a) = Some a"
    and load_family: "inv st \<Longrightarrow> st_FakeIPLoadDomain I st d v = Some a \<Longrightarrow> v = (\<not> addr_Is4 a)"
    and store_inv: "inv st \<Longrightarrow> st_FakeIPLoadDomain I st d (\<not> addr_Is4 a) = None \<Longrightarrow> inv (st_FakeIPStore I a d st)"
    and store_domain: "inv st \<Longrightarrow> st_FakeIPLoadDomain I st d (\<not> addr_Is4 a) = None \<Longrightarrow>
      st_FakeIPLoadDomain I (st_FakeIPStore I a d st) d' v =
        (if d' = d \<and> v = (\<not> addr_Is4 a) then Some a
         else if st_FakeIPLoadDomain I st d' v = Some a then None
         else st_FakeIPLoadDomain I st d' v)"
    and reset_inv: "inv (st_FakeIPReset I st)"
    and reset_domain: "st_FakeIPLoadDomain I (st_FakeIPReset I st) d v = None"
    and save_inv: "inv st \<Longrightarrow> inv (st_FakeIPSaveMetadataAsync I m st)"
    and save_domain: "st_FakeIPLoadDomain I (st_FakeIPSaveMetadataAsync I m st) d v = st_FakeIPLoadDomain I st d v"
begin

text \<open>The abstract view of a store: which address a domain has in a family.\<close>

definition bindings :: "'s Store \<Rightarrow> string \<times> bool \<Rightarrow> addr option" where
  "bindings s = (\<lambda>(d, v). st_FakeIPLoadDomain I (storage s) d v)"

definition bind_spec :: "string \<times> bool \<Rightarrow> addr \<Rightarrow> (string \<times> bool \<Rightarrow> addr option) \<Rightarrow> string \<times> bool \<Rightarrow> addr option" where
  "bind_spec k a m = (\<lambda>k'. if k' = k then Some a else if m k' = Some a then None else m k')"

definition current :: "bool \<Rightarrow> 's Store \<Rightarrow> addr" where
  "current v s = (if v then inet6Current s else inet4Current s)"

definition pool :: "bool \<Rightarrow> 's Store \<Rightarrow> prefix" where
  "pool v s = (if v then inet6Range s else inet4Range s)"

text \<open>A pool with its current address, or no pool at all.\<close>

definition pool_state :: "prefix \<Rightarrow> bool \<Rightarrow> addr \<Rightarrow> bool" where
  "pool_state p v c =
     (if prefix_IsValid p then addr_Is4 (prefix_Addr p) = (\<not> v) \<and> pool_ok p \<and> walking p c
      else \<not> addr_IsValid c)"

text \<open>What holds of a store at any time after its start.\<close>

definition store_ok :: "'s Store \<Rightarrow> bool" where
  "store_ok s =
     (inv (storage s) \<and>
      inet4Last s = (if prefix_IsValid (inet4Range s) then broadcastAddress (inet4Range s) else AddrZero) \<and>
      inet6Last s = (if prefix_IsValid (inet6Range s) then broadcastAddress (inet6Range s) else AddrZero) \<and>
      (\<forall>v. pool_state (pool v s) v (current v s)) \<and>
      (\<forall>d v a. bindings s (d, v) = Some a \<longrightarrow> prefix_IsValid (pool v s) \<and> usable (pool v s) a))"

lemma store_ok_pool: "store_ok s \<Longrightarrow> pool_state (pool v s) v (current v s)"
  by (simp add: store_ok_def)

lemma Create_bound:
  "bindings s (d, v) = Some a \<Longrightarrow> Store_Create I d v s = (Inr a, s)"
  by (simp add: bindings_def Store_Create_def)

lemma Create_missing:
  assumes "store_ok s" "\<not> prefix_IsValid (pool v s)"
  shows "Store_Create I d v s = (Inl (if v then MissingRange6 else MissingRange4), s)"
proof -
  have "bindings s (d, v) = None"
    using assms unfolding store_ok_def by (cases "bindings s (d, v)") blast+
  moreover have "\<not> addr_IsValid (current v s)" using store_ok_pool [OF assms(1), of v] assms(2) by (simp add: pool_state_def)
  ultimately show ?thesis by (cases v) (simp_all add: bindings_def Store_Create_def current_def)
qed

text \<open>The state after an allocation.\<close>

definition allocated :: "string \<Rightarrow> bool \<Rightarrow> 's Store \<Rightarrow> 's Store" where
  "allocated d v s =
     (let a = walk (pool v s) (current v s)
      in remember I a d (if v then s\<lparr>inet6Current := a\<rparr> else s\<lparr>inet4Current := a\<rparr>))"

lemma Create_fresh:
  assumes ok: "store_ok s" and v: "prefix_IsValid (pool v s)" and fresh: "bindings s (d, v) = None"
  shows "Store_Create I d v s = (Inr (walk (pool v s) (current v s)), allocated d v s)"
proof -
  have "addr_IsValid (current v s)"
    using store_ok_pool [OF ok, of v] v by (simp add: pool_state_def walking_def addr_like_def)
  then show ?thesis using ok v fresh
    by (cases v) (simp_all add: Store_Create_def bindings_def current_def pool_def allocated_def Let_def store_ok_def)
qed

lemma allocated_fields [simp]:
  "pool w (allocated d v s) = pool w s"
  "inet4Range (allocated d v s) = inet4Range s" "inet6Range (allocated d v s) = inet6Range s"
  "inet4Last (allocated d v s) = inet4Last s" "inet6Last (allocated d v s) = inet6Last s"
  "current w (allocated d v s) = (if w = v then walk (pool v s) (current v s) else current w s)"
  by (simp_all add: pool_def current_def allocated_def Let_def remember_def)

lemma storage_allocated:
  obtains m where "storage (allocated d v s) =
    st_FakeIPSaveMetadataAsync I m (st_FakeIPStore I (walk (pool v s) (current v s)) d (storage s))"
  by (cases v) (auto simp: allocated_def Let_def remember_def)

lemma walk_family:
  assumes "store_ok s" "prefix_IsValid (pool v s)"
  shows "addr_Is4 (walk (pool v s) (current v s)) = (\<not> v)"
    and "usable (pool v s) (walk (pool v s) (current v s))"
proof -
  have p: "addr_Is4 (prefix_Addr (pool v s)) = (\<not> v)" "pool_ok (pool v s)" "walking (pool v s) (current v s)"
    using store_ok_pool [OF assms(1), of v] assms(2) by (simp_all add: pool_state_def)
  from nextAddress_walk(1) [OF p(2,3)] show "usable (pool v s) (walk (pool v s) (current v s))" .
  then show "addr_Is4 (walk (pool v s) (current v s)) = (\<not> v)"
    using p(1) by (simp add: usable_def addr_like_def)
qed

lemma bindings_allocated:
  assumes ok: "store_ok s" and v: "prefix_IsValid (pool v s)" and fresh: "bindings s (d, v) = None"
  shows "bindings (allocated d v s) = bind_spec (d, v) (walk (pool v s) (current v s)) (bindings s)"
    and "inv (storage (allocated d v s))"
proof -
  let ?a = "walk (pool v s) (current v s)"
  have i: "inv (storage s)" using ok by (simp add: store_ok_def)
  have n: "st_FakeIPLoadDomain I (storage s) d (\<not> addr_Is4 ?a) = None"
    using fresh walk_family(1) [OF ok v] by (simp add: bindings_def)
  obtain m where st: "storage (allocated d v s) = st_FakeIPSaveMetadataAsync I m (st_FakeIPStore I ?a d (storage s))"
    by (rule storage_allocated)
  show "inv (storage (allocated d v s))"
    unfolding st by (rule save_inv [OF store_inv [OF i n]])
  show "bindings (allocated d v s) = bind_spec (d, v) ?a (bindings s)"
    using store_domain [OF i n] walk_family(1) [OF ok v]
    by (auto simp: fun_eq_iff bindings_def bind_spec_def st save_domain)
qed

lemma allocated_ok:
  assumes ok: "store_ok s" and v: "prefix_IsValid (pool v s)" and fresh: "bindings s (d, v) = None"
  shows "store_ok (allocated d v s)"
proof -
  note b = bindings_allocated [OF ok v fresh] and f = walk_family [OF ok v]
  have pools: "pool_state (pool w s) w (current w s)" for w using ok by (simp add: store_ok_def)
  have bound: "\<forall>d w a. bindings s (d, w) = Some a \<longrightarrow> prefix_IsValid (pool w s) \<and> usable (pool w s) a"
    using ok by (simp add: store_ok_def)
  have "pool_state (pool w s) w (current w (allocated d v s))" for w
  proof (cases "w = v")
    case True
    then show ?thesis using pools [of v] v usable_walking [OF f(2)] by (simp add: pool_state_def)
  next
    case False
    then have "current w (allocated d v s) = current w s" unfolding allocated_fields by simp
    then show ?thesis using pools [of w] by metis
  qed
  moreover have "\<forall>d' w a. bindings (allocated d v s) (d', w) = Some a \<longrightarrow>
        prefix_IsValid (pool w s) \<and> usable (pool w s) a"
    using bound v f(2) unfolding b(1) bind_spec_def by (auto split: if_splits)
  ultimately show ?thesis
    using ok b(2) unfolding store_ok_def by simp
qed

lemma Create_cases:
  assumes ok: "store_ok s" and create: "Store_Create I d v s = (r, s')"
  obtains (missing) "\<not> prefix_IsValid (pool v s)" "r = Inl (if v then MissingRange6 else MissingRange4)" "s' = s"
    | (bound) a where "r = Inr a" "bindings s (d, v) = Some a" "s' = s" "prefix_IsValid (pool v s)"
    | (fresh) "bindings s (d, v) = None" "prefix_IsValid (pool v s)"
        "r = Inr (walk (pool v s) (current v s))" "s' = allocated d v s"
proof (cases "prefix_IsValid (pool v s)")
  case False
  then show ?thesis using missing Create_missing [OF ok False, of d] create by simp
next
  case True
  show ?thesis
  proof (cases "bindings s (d, v)")
    case None
    then show ?thesis using fresh Create_fresh [OF ok True None] create True by simp
  next
    case (Some a)
    then show ?thesis using bound Create_bound [OF Some] create True by simp
  qed
qed

lemma Create_ok:
  assumes "store_ok s" "Store_Create I d v s = (r, s')"
  shows "store_ok s'"
  using assms
proof (cases rule: Create_cases)
  case fresh
  then show ?thesis using allocated_ok [OF assms(1)] by simp
qed (use assms in simp_all)

lemma Create_binding:
  assumes "store_ok s" "Store_Create I d v s = (Inr a, s')"
  shows "bindings s' (d, v) = Some a"
  using assms
proof (cases rule: Create_cases)
  case fresh
  then show ?thesis using bindings_allocated(1) [OF assms(1) fresh(2,1)] by (simp add: bind_spec_def)
qed simp_all

lemma Lookup_iff:
  assumes "store_ok s"
  shows "Store_Lookup I s a = Some d \<longleftrightarrow> bindings s (d, \<not> addr_Is4 a) = Some a"
  using assms load_iff by (simp add: Store_Lookup_def bindings_def store_ok_def)

lemma bindings_family: "store_ok s \<Longrightarrow> bindings s (d, v) = Some a \<Longrightarrow> v = (\<not> addr_Is4 a)"
  using load_family by (auto simp: bindings_def store_ok_def)

lemma Reset_ok: "store_ok s \<Longrightarrow> store_ok (Store_Reset I s)"
proof -
  have "pool v (Store_Reset I s) = pool v s" "current v (Store_Reset I s) = current v s"
    "bindings (Store_Reset I s) (d, v) = None" "inv (storage (Store_Reset I s))"
    "inet4Range (Store_Reset I s) = inet4Range s" "inet6Range (Store_Reset I s) = inet6Range s"
    "inet4Last (Store_Reset I s) = inet4Last s" "inet6Last (Store_Reset I s) = inet6Last s" for v d
    by (simp_all add: Store_Reset_def pool_def current_def bindings_def reset_domain reset_inv)
  moreover assume "store_ok s"
  ultimately show ?thesis unfolding store_ok_def by simp
qed

lemma Start_ok:
  assumes "fst (st_FakeIPMetadata I st) = None"
    and "prefix_IsValid r4 \<Longrightarrow> addr_Is4 (prefix_Addr r4) \<and> pool_ok r4"
    and "prefix_IsValid r6 \<Longrightarrow> \<not> addr_Is4 (prefix_Addr r6) \<and> pool_ok r6"
  shows "store_ok (Store_Start I st (NewStore r4 r6 st0))"
proof -
  let ?s = "Store_Start I st (NewStore r4 r6 st0)"
  have f: "inet4Range ?s = r4" "inet6Range ?s = r6"
    "inet4Current ?s = (if prefix_IsValid r4 then addr_Next (prefix_Addr r4) else AddrZero)"
    "inet6Current ?s = (if prefix_IsValid r6 then addr_Next (prefix_Addr r6) else AddrZero)"
    "inet4Last ?s = (if prefix_IsValid r4 then broadcastAddress r4 else AddrZero)"
    "inet6Last ?s = (if prefix_IsValid r6 then broadcastAddress r6 else AddrZero)"
    "storage ?s = st_FakeIPReset I (snd (st_FakeIPMetadata I st))"
    using assms(1) by (cases "st_FakeIPMetadata I st"; simp add: Store_Start_def NewStore_def Let_def)+
  have "pool_state (pool v ?s) v (current v ?s)" for v
    using assms(2,3) start_walking by (cases v) (auto simp: pool_state_def pool_def current_def f)
  then show ?thesis
    by (simp add: store_ok_def f reset_inv bindings_def reset_domain)
qed

subsection \<open>How long an address stays with a domain\<close>

fun creates :: "(string \<times> bool) list \<Rightarrow> 's Store \<Rightarrow> 's Store" where
  "creates [] s = s"
| "creates ((d, v) # ks) s = creates ks (snd (Store_Create I d v s))"

lemma allocation_keeps:
  assumes ok: "store_ok s" and v: "prefix_IsValid (pool v s)" and fresh: "bindings s (d, v) = None"
    and b: "bindings s k = Some a" and other: "walk (pool v s) (current v s) \<noteq> a"
  shows "bindings (allocated d v s) k = Some a"
  using b other fresh unfolding bindings_allocated(1) [OF ok v fresh] bind_spec_def by auto

lemma creates_keep:
  assumes "store_ok s" "bindings s (d, v) = Some a" "current v s = (walk (pool v s) ^^ j) a"
    and "j + length ks < pool_size (pool v s)"
  shows "bindings (creates ks s) (d, v) = Some a"
  using assms
proof (induction ks arbitrary: s j)
  case (Cons k ks)
  obtain d' v' where k: "k = (d', v')" by (cases k)
  obtain r s' where c: "Store_Create I d' v' s = (r, s')" by (cases "Store_Create I d' v' s")
  have use: "prefix_IsValid (pool v s)" "usable (pool v s) a"
    using Cons.prems(1,2) by (auto simp: store_ok_def)
  have ok: "pool_ok (pool v s)"
    using store_ok_pool [OF Cons.prems(1), of v] use by (simp add: pool_state_def)
  have "bindings s' (d, v) = Some a \<and> pool v s' = pool v s \<and>
        (\<exists>i. current v s' = (walk (pool v s) ^^ i) a \<and> i \<le> Suc j)"
    using Cons.prems(1) c
  proof (cases rule: Create_cases)
    case fresh
    have ne: "walk (pool v' s) (current v' s) \<noteq> a"
    proof (cases "v' = v")
      case True
      then show ?thesis
        using walk_returns_late [OF ok use(2), of "Suc j"] Cons.prems(3,4) by simp
    next
      case False
      then show ?thesis
        using walk_family(1) [OF Cons.prems(1) fresh(2)] bindings_family [OF Cons.prems(1,2)] by auto
    qed
    have "bindings s' (d, v) = Some a"
      unfolding fresh(4) by (rule allocation_keeps [OF Cons.prems(1) fresh(2,1) Cons.prems(2) ne])
    moreover have "current v s' = (if v' = v then (walk (pool v s) ^^ Suc j) a else (walk (pool v s) ^^ j) a)"
      using fresh(4) Cons.prems(3) by simp
    ultimately show ?thesis using fresh(4) by (metis allocated_fields(1) le_SucI order_refl)
  qed (use Cons.prems in \<open>auto intro: exI [of _ j]\<close>)
  then obtain i where i: "bindings s' (d, v) = Some a" "pool v s' = pool v s"
    "current v s' = (walk (pool v s') ^^ i) a" "i \<le> Suc j" by auto
  then have "bindings (creates ks s') (d, v) = Some a"
    using Create_ok [OF Cons.prems(1) c] Cons.prems(4) by (intro Cons.IH [of s' i]) simp_all
  then show ?case by (simp add: k c)
qed simp

lemma fresh_address_kept:
  assumes "store_ok s" "bindings s (d, v) = None" "Store_Create I d v s = (Inr a, s')"
    and "length ks < pool_size (pool v s)"
  shows "Store_Lookup I (creates ks s') a = Some d"
proof -
  have new: "s' = allocated d v s" "a = walk (pool v s) (current v s)" "prefix_IsValid (pool v s)"
    using assms(1,3) by (cases rule: Create_cases; use assms(2) in simp)+
  note ok = Create_ok [OF assms(1,3)]
  have "bindings (creates ks s') (d, v) = Some a"
    using Create_binding [OF assms(1,3)] new assms(4)
    by (intro creates_keep [OF ok, of _ _ _ 0]) simp_all
  moreover have "store_ok (creates ks s')"
    using ok
  proof (induction ks arbitrary: s')
    case (Cons k ks)
    obtain r s2 where "Store_Create I (fst k) (snd k) s' = (r, s2)"
      by (cases "Store_Create I (fst k) (snd k) s'")
    then show ?case using Cons.IH [of s2] Create_ok [OF Cons.prems] by (cases k) simp
  qed simp
  ultimately show ?thesis
    using bindings_family [of "creates ks s'" d v a] by (simp add: Lookup_iff)
qed

end

subsection \<open>The storage in memory\<close>

definition memory_inv :: "MemoryStorage \<Rightarrow> bool" where
  "memory_inv s =
     ((\<forall>d a. domainCache4 s d = Some a \<longleftrightarrow> addr_Is4 a \<and> addressCache s a = Some d) \<and>
      (\<forall>d a. domainCache6 s d = Some a \<longleftrightarrow> \<not> addr_Is4 a \<and> addressCache s a = Some d))"

lemmas memory_defs = memory_methods_def MemoryStorage_FakeIPStore_def MemoryStorage_FakeIPLoad_def
  MemoryStorage_FakeIPLoadDomain_def MemoryStorage_FakeIPReset_def

lemma memory_store_inv:
  assumes "memory_inv s" "MemoryStorage_FakeIPLoadDomain s d (\<not> addr_Is4 a) = None"
  shows "memory_inv (MemoryStorage_FakeIPStore a d s)"
proof (cases "addr_Is4 a")
  case True
  then show ?thesis using assms
    by (cases "addressCache s a")
       (auto simp: memory_inv_def memory_defs Let_def, (metis option.distinct(1) option.inject)+)
next
  case False
  then show ?thesis using assms
    by (cases "addressCache s a")
       (auto simp: memory_inv_def memory_defs Let_def, (metis option.distinct(1) option.inject)+)
qed

lemma memory_store_domain:
  assumes "memory_inv s" "MemoryStorage_FakeIPLoadDomain s d (\<not> addr_Is4 a) = None"
  shows "MemoryStorage_FakeIPLoadDomain (MemoryStorage_FakeIPStore a d s) d' v =
        (if d' = d \<and> v = (\<not> addr_Is4 a) then Some a
         else if MemoryStorage_FakeIPLoadDomain s d' v = Some a then None
         else MemoryStorage_FakeIPLoadDomain s d' v)"
  using assms
  by (cases "addr_Is4 a"; cases v; cases "addressCache s a")
     (auto simp: memory_inv_def memory_defs Let_def)

interpretation mem: fakeip_storage memory_methods memory_inv
proof
  fix st :: MemoryStorage and a d v d' m
  show "memory_inv st \<Longrightarrow> (st_FakeIPLoad memory_methods st a = Some d) =
      (st_FakeIPLoadDomain memory_methods st d (\<not> addr_Is4 a) = Some a)"
    by (auto simp: memory_inv_def memory_defs)
  show "memory_inv st \<Longrightarrow> st_FakeIPLoadDomain memory_methods st d v = Some a \<Longrightarrow> v = (\<not> addr_Is4 a)"
    by (auto simp: memory_inv_def memory_defs split: if_splits)
  show "memory_inv st \<Longrightarrow> st_FakeIPLoadDomain memory_methods st d (\<not> addr_Is4 a) = None \<Longrightarrow>
      memory_inv (st_FakeIPStore memory_methods a d st)"
    using memory_store_inv by (simp add: memory_methods_def)
  show "memory_inv st \<Longrightarrow> st_FakeIPLoadDomain memory_methods st d (\<not> addr_Is4 a) = None \<Longrightarrow>
      st_FakeIPLoadDomain memory_methods (st_FakeIPStore memory_methods a d st) d' v =
        (if d' = d \<and> v = (\<not> addr_Is4 a) then Some a
         else if st_FakeIPLoadDomain memory_methods st d' v = Some a then None
         else st_FakeIPLoadDomain memory_methods st d' v)"
    using memory_store_domain by (simp add: memory_methods_def)
qed (simp_all add: memory_defs memory_inv_def)

end
