(* ===== verification/FakeIP_Properties.thy ===== *)
theory FakeIP_Properties
  imports FakeIP_Store
begin

text \<open>
  What the FakeIP store with the storage in memory promises, at any time after its start: round trips
  between domains and addresses, which addresses it hands out, how long they last, and the answers of
  the transport.
\<close>

subsection \<open>Reachable states\<close>

text \<open>A store for two ranges after its start, and after any sequence of operations.\<close>

inductive fakeip_reachable :: "prefix \<Rightarrow> prefix \<Rightarrow> MemoryStorage Store \<Rightarrow> bool"
  for r4 r6 where
  start: "fakeip_reachable r4 r6 (Store_Start memory_methods NewMemoryStorage (NewStore r4 r6 NewMemoryStorage))"
| create: "fakeip_reachable r4 r6 s \<Longrightarrow> Store_Create memory_methods d v s = (r, s') \<Longrightarrow> fakeip_reachable r4 r6 s'"
| reset: "fakeip_reachable r4 r6 s \<Longrightarrow> fakeip_reachable r4 r6 (Store_Reset memory_methods s)"
| close: "fakeip_reachable r4 r6 s \<Longrightarrow> fakeip_reachable r4 r6 (Store_Close memory_methods s)"

text \<open>
  A range is absent, or of the right family with at least one address that is neither the configured
  one, nor the one after it, nor the last one of the range.
\<close>

definition range_ok :: "bool \<Rightarrow> prefix \<Rightarrow> bool" where
  "range_ok v p = (prefix_IsValid p \<longrightarrow> addr_Is4 (prefix_Addr p) = (\<not> v) \<and> pool_ok p)"

lemma Close_memory: "Store_Close memory_methods s = s"
  by (cases s) (simp add: Store_Close_def memory_methods_def)

lemma Create_ranges:
  "Store_Create memory_methods d v s = (r, s') \<Longrightarrow> inet4Range s' = inet4Range s \<and> inet6Range s' = inet6Range s"
  by (auto simp: Store_Create_def remember_def Let_def split: option.splits if_splits)

lemma reachable_ok:
  assumes "fakeip_reachable r4 r6 s" "range_ok False r4" "range_ok True r6"
  shows "mem.store_ok s \<and> inet4Range s = r4 \<and> inet6Range s = r6"
  using assms
proof (induction rule: fakeip_reachable.induct)
  case start
  have "fst (st_FakeIPMetadata memory_methods NewMemoryStorage) = None" by (simp add: memory_methods_def)
  from mem.Start_ok [OF this] start show ?case
    by (simp add: range_ok_def Store_Start_def NewStore_def memory_methods_def Let_def)
next
  case (create s d v r s')
  then show ?case using Create_ranges [OF create.hyps(2)] mem.Create_ok by metis
next
  case (reset s)
  then show ?case using mem.Reset_ok by (simp add: Store_Reset_def)
qed (simp add: Close_memory)

lemma reachable_pool:
  assumes "fakeip_reachable r4 r6 s" "range_ok False r4" "range_ok True r6"
  shows "mem.store_ok s" "mem.pool v s = (if v then r6 else r4)"
  using reachable_ok [OF assms] by (simp_all add: mem.pool_def)

subsection \<open>Samples\<close>

definition sample_range4 :: prefix where
  "sample_range4 = \<lparr>prefix_Addr = Addr4 0xC6120000, prefix_bits = Some 15\<rparr>"

definition sample_store :: "MemoryStorage Store" where
  "sample_store = Store_Start memory_methods NewMemoryStorage (NewStore sample_range4 prefix_zero NewMemoryStorage)"

lemma sample_ranges: "range_ok False sample_range4" "range_ok True prefix_zero"
  by (simp_all add: range_ok_def sample_range4_def pool_ok_def prefix_wf_def prefix_IsValid_def
      pool_base_def pool_last_def pool_first_def host_bits_def prefix_Bits_def prefix_zero_def)

lemma sample_reachable: "fakeip_reachable sample_range4 prefix_zero sample_store"
  unfolding sample_store_def by (rule fakeip_reachable.start)

lemma sample_create: "fst (Store_Create memory_methods ''a.example'' False sample_store) = Inr (Addr4 0xC6120002)"
  by code_simp

lemma sample_created:
  obtains s' where "Store_Create memory_methods ''a.example'' False sample_store = (Inr (Addr4 0xC6120002), s')"
  using sample_create by (metis prod.collapse)

subsection \<open>Properties\<close>

text \<open>
  (C33) Domains and FakeIP addresses correspond: right after \<^verbatim>\<open>Create\<close> has returned an address for a
  domain, \<^verbatim>\<open>Lookup\<close> of the address gives the domain, and another \<^verbatim>\<open>Create\<close> for the domain gives the same
  address and changes nothing.  The store is any one reached from \<^verbatim>\<open>Start\<close>, and the configured ranges
  are of their families and have a usable address (\<^const>\<open>range_ok\<close>).
\<close>

theorem fakeip_round_trip:
  assumes "fakeip_reachable r4 r6 s" "range_ok False r4" "range_ok True r6"
    and "Store_Create memory_methods domain isIPv6 s = (Inr address, s')"
  shows "Store_Lookup memory_methods s' address = Some domain \<and>
         Store_Create memory_methods domain isIPv6 s' = (Inr address, s')"
proof
  note ok = reachable_pool(1) [OF assms(1-3)]
  note ok' = mem.Create_ok [OF ok assms(4)] and b = mem.Create_binding [OF ok assms(4)]
  show "Store_Create memory_methods domain isIPv6 s' = (Inr address, s')"
    using b by (rule mem.Create_bound)
  show "Store_Lookup memory_methods s' address = Some domain"
    using b mem.bindings_family [OF ok' b] by (simp add: mem.Lookup_iff [OF ok'])
qed

theorem fakeip_round_trip_witness:
  "\<exists>s'. Store_Create memory_methods ''a.example'' False sample_store = (Inr (Addr4 0xC6120002), s') \<and>
        Store_Lookup memory_methods s' (Addr4 0xC6120002) = Some ''a.example''"
proof (rule sample_created)
  fix s' assume c: "Store_Create memory_methods ''a.example'' False sample_store = (Inr (Addr4 0xC6120002), s')"
  with fakeip_round_trip [OF sample_reachable sample_ranges c] show ?thesis by blast
qed

text \<open>
  (C34) If each configured range is of its family and has a usable address at all (\<^const>\<open>range_ok\<close>: the last
  address of the range is at least the third one after the configured address), every address \<^verbatim>\<open>Create\<close>
  returns is of the requested family and inside the configured range, after the first two addresses and
  before the broadcast address.  The code does not check that the range is big enough, and a smaller
  one does hand out addresses outside itself (\<open>fakeip_small_range_leaves_range\<close> below).
\<close>

theorem fakeip_address_usable:
  assumes "fakeip_reachable r4 r6 s" "range_ok False r4" "range_ok True r6"
    and "Store_Create memory_methods domain isIPv6 s = (Inr address, s')"
  shows "addr_Is4 address = (\<not> isIPv6) \<and> Store_Contains s address \<and>
         pool_base (if isIPv6 then r6 else r4) + 2 \<le> addr_val address \<and>
         addr_val address < pool_last (if isIPv6 then r6 else r4)"
proof -
  note ok = reachable_pool [OF assms(1-3)]
  note ok' = mem.Create_ok [OF ok(1) assms(4)] and b = mem.Create_binding [OF ok(1) assms(4)]
  note p = ok(2) [of isIPv6]
  have p': "mem.pool isIPv6 s' = mem.pool isIPv6 s"
    using Create_ranges [OF assms(4)] by (simp add: mem.pool_def)
  have u: "prefix_IsValid (mem.pool isIPv6 s)" "usable (mem.pool isIPv6 s) address"
    using ok' b p' unfolding mem.store_ok_def by metis+
  have "pool_ok (mem.pool isIPv6 s)"
    using mem.store_ok_pool [OF ok(1), of isIPv6] u(1) by (simp add: mem.pool_state_def)
  then have "prefix_Contains (mem.pool isIPv6 s) address" using u(2) by (rule usable_contained)
  then have "Store_Contains s address"
    by (auto simp: Store_Contains_def mem.pool_def split: if_splits)
  then show ?thesis
    using u(2) mem.bindings_family [OF ok' b] p by (auto simp: usable_def)
qed

theorem fakeip_address_usable_witness:
  "Store_Contains sample_store (Addr4 0xC6120002)"
proof (rule sample_created)
  fix s' assume c: "Store_Create memory_methods ''a.example'' False sample_store = (Inr (Addr4 0xC6120002), s')"
  with fakeip_address_usable [OF sample_reachable sample_ranges c] show ?thesis by blast
qed

text \<open>
  (C35) An address that \<^verbatim>\<open>Create\<close> newly assigns to a domain (which had none in that family) stays with the
  domain during the next calls of \<^verbatim>\<open>Create\<close>, as long as they are fewer than the number of usable addresses
  of the range.  The ranges are of their families and have a usable address (\<^const>\<open>range_ok\<close>).
\<close>

theorem fakeip_address_kept:
  assumes "fakeip_reachable r4 r6 s" "range_ok False r4" "range_ok True r6"
    and "MemoryStorage_FakeIPLoadDomain (storage s) domain isIPv6 = None"
    and "Store_Create memory_methods domain isIPv6 s = (Inr address, s')"
    and "length calls < pool_size (if isIPv6 then r6 else r4)"
  shows "Store_Lookup memory_methods
           (foldl (\<lambda>t (d, v). snd (Store_Create memory_methods d v t)) s' calls) address = Some domain"
proof -
  note ok = reachable_pool [OF assms(1-3)]
  have "foldl (\<lambda>t (d, v). snd (Store_Create memory_methods d v t)) t calls = mem.creates calls t" for t
    by (induction calls arbitrary: t) auto
  moreover have "mem.bindings s (domain, isIPv6) = None"
    using assms(4) by (simp add: mem.bindings_def) (simp add: memory_methods_def)
  ultimately show ?thesis
    using mem.fresh_address_kept [OF ok(1) _ assms(5)] assms(6) ok(2) [of isIPv6] by simp
qed

theorem fakeip_address_kept_witness:
  "\<exists>s'. Store_Create memory_methods ''a.example'' False sample_store = (Inr (Addr4 0xC6120002), s') \<and>
        Store_Lookup memory_methods (snd (Store_Create memory_methods ''b.example'' False s')) (Addr4 0xC6120002) =
          Some ''a.example''"
proof (rule sample_created)
  fix s' assume c: "Store_Create memory_methods ''a.example'' False sample_store = (Inr (Addr4 0xC6120002), s')"
  have "MemoryStorage_FakeIPLoadDomain (storage sample_store) ''a.example'' False = None" by code_simp
  moreover have "length [(''b.example'', False)] < pool_size (if False then prefix_zero else sample_range4)"
    by (simp add: pool_size_def sample_range4_def pool_base_def pool_last_def pool_first_def host_bits_def prefix_Bits_def)
  ultimately show ?thesis
    using fakeip_address_kept [OF sample_reachable sample_ranges _ c, of "[(''b.example'', False)]"] c by auto
qed

text \<open>
  The abstract FakeIP service: a relation between domains, with their address family, and addresses.
  \<open>new\<close> is the next address of the range.
\<close>

definition spec_create ::
  "addr \<Rightarrow> string \<times> bool \<Rightarrow> (string \<times> bool \<rightharpoonup> addr) \<Rightarrow> addr \<times> (string \<times> bool \<rightharpoonup> addr)"
where
  "spec_create new key m =
     (case m key of
        Some address \<Rightarrow> (address, m)
      | None \<Rightarrow> (new, (\<lambda>k. if m k = Some new then None else m k)(key \<mapsto> new)))"

definition fakeip_bindings :: "MemoryStorage Store \<Rightarrow> (string \<times> bool \<rightharpoonup> addr)" where
  "fakeip_bindings s = (\<lambda>(domain, isIPv6). MemoryStorage_FakeIPLoadDomain (storage s) domain isIPv6)"

lemma fakeip_bindings_mem: "fakeip_bindings s = mem.bindings s"
  by (rule ext) (auto simp: fakeip_bindings_def mem.bindings_def, simp_all add: memory_methods_def)

text \<open>
  (C7) The store refines the abstract service: for a configured family, \<^verbatim>\<open>Create\<close> returns the address the
  abstract service gives, and the domain caches afterwards hold the relation of the abstract service
  afterwards, in which no address belongs to two domains.
\<close>

theorem fakeip_refines_spec:
  assumes "fakeip_reachable r4 r6 s" "range_ok False r4" "range_ok True r6"
    and "prefix_IsValid (if isIPv6 then r6 else r4)"
    and "Store_Create memory_methods domain isIPv6 s = (result, s')"
  defines "new \<equiv> (if isIPv6 then nextAddress r6 (broadcastAddress r6) (inet6Current s)
                  else nextAddress r4 (broadcastAddress r4) (inet4Current s))"
  shows "result = Inr (fst (spec_create new (domain, isIPv6) (fakeip_bindings s))) \<and>
         fakeip_bindings s' = snd (spec_create new (domain, isIPv6) (fakeip_bindings s)) \<and>
         inj_on (fakeip_bindings s') (dom (fakeip_bindings s'))"
proof -
  note ok = reachable_pool [OF assms(1-3)]
  have new: "walk (mem.pool isIPv6 s) (mem.current isIPv6 s) = new"
    using ok(2) [of isIPv6] by (simp add: new_def mem.current_def)
  have "result = Inr (fst (spec_create new (domain, isIPv6) (mem.bindings s))) \<and>
        mem.bindings s' = snd (spec_create new (domain, isIPv6) (mem.bindings s))"
    using ok(1) assms(5)
  proof (cases rule: mem.Create_cases)
    case fresh
    then show ?thesis
      using mem.bindings_allocated(1) [OF ok(1) fresh(2,1)] new
      by (auto simp: spec_create_def mem.bind_spec_def fun_eq_iff)
  qed (use assms(4) ok(2) [of isIPv6] in \<open>simp_all add: spec_create_def\<close>)
  moreover have "inj_on (mem.bindings s') (dom (mem.bindings s'))"
  proof (rule inj_onI)
    fix k k' assume k: "k \<in> dom (mem.bindings s')" and eq: "mem.bindings s' k = mem.bindings s' k'"
    obtain d v d' v' where kk: "k = (d, v)" "k' = (d', v')" by (cases k, cases k')
    obtain a where a: "mem.bindings s' (d, v) = Some a" using k kk by auto
    note ok' = mem.Create_ok [OF ok(1) assms(5)]
    have a': "mem.bindings s' (d', v') = Some a" using a eq kk by simp
    note v = mem.bindings_family [OF ok' a] mem.bindings_family [OF ok' a']
    have "Store_Lookup memory_methods s' a = Some d" using a v(1) by (simp add: mem.Lookup_iff [OF ok'])
    moreover have "Store_Lookup memory_methods s' a = Some d'" using a' v(2) by (simp add: mem.Lookup_iff [OF ok'])
    ultimately show "k = k'" using kk v by simp
  qed
  ultimately show ?thesis by (simp add: fakeip_bindings_mem)
qed

theorem fakeip_refines_spec_witness:
  "\<exists>s'. Store_Create memory_methods ''a.example'' False sample_store = (Inr (Addr4 0xC6120002), s') \<and>
        inj_on (fakeip_bindings s') (dom (fakeip_bindings s'))"
proof (rule sample_created)
  fix s' assume c: "Store_Create memory_methods ''a.example'' False sample_store = (Inr (Addr4 0xC6120002), s')"
  have "prefix_IsValid (if False then prefix_zero else sample_range4)"
    by (simp add: sample_range4_def prefix_IsValid_def)
  with fakeip_refines_spec [OF sample_reachable sample_ranges _ c] c show ?thesis by blast
qed

lemma read_element_append:
  "length x < 65536 \<Longrightarrow> u x = Some y \<Longrightarrow> read_element u (metadata_element x @ rest) = Inr (y, rest)"
  by (simp add: read_element_def metadata_element_def unat_of_nat)

text \<open>
  Saving and loading the metadata of a store is lossless, for prefixes as the address package makes
  them and addresses whose zone is not extremely long.
\<close>

theorem fakeip_metadata_round_trip:
  assumes "prefix_wf (fm_Inet4Range m)" "prefix_wf (fm_Inet6Range m)"
    and "length (addr_MarshalBinary (fm_Inet4Current m)) < 65536"
    and "length (addr_MarshalBinary (fm_Inet6Current m)) < 65536"
  shows "FakeIPMetadata_UnmarshalBinary (FakeIPMetadata_MarshalBinary m) = Inr m"
proof -
  have len: "length (prefix_MarshalBinary p) < 65536" if "prefix_wf p" for p
    using that by (cases "prefix_Addr p") (auto simp: prefix_MarshalBinary_def prefix_wf_def)
  show ?thesis
    using assms
    by (simp add: FakeIPMetadata_UnmarshalBinary_def FakeIPMetadata_MarshalBinary_def read_element_append
        read_element_append [where rest = "[]", simplified] len
        prefix_UnmarshalBinary_inverse)
qed

theorem fakeip_metadata_round_trip_witness:
  "FakeIPMetadata_UnmarshalBinary (FakeIPMetadata_MarshalBinary
     \<lparr>fm_Inet4Range = sample_range4, fm_Inet6Range = prefix_zero, fm_Inet4Current = Addr4 0xC6120002,
      fm_Inet6Current = AddrZero\<rparr>) =
   Inr \<lparr>fm_Inet4Range = sample_range4, fm_Inet6Range = prefix_zero, fm_Inet4Current = Addr4 0xC6120002,
      fm_Inet6Current = AddrZero\<rparr>"
  by (rule fakeip_metadata_round_trip) (simp_all add: sample_range4_def prefix_wf_def prefix_zero_def)

text \<open>
  A range with a single host bit is accepted, and the first address handed out for it lies outside
  the range: the restart at the second address after the network address is not checked.
\<close>

theorem fakeip_small_range_leaves_range:
  "let s = Store_Start memory_methods NewMemoryStorage
             (NewStore \<lparr>prefix_Addr = Addr4 0xC6120000, prefix_bits = Some 31\<rparr> prefix_zero NewMemoryStorage)
   in fst (Store_Create memory_methods ''a.example'' False s) = Inr (Addr4 0xC6120002) \<and>
      \<not> Store_Contains s (Addr4 0xC6120002)"
  by code_simp

lemma exchange_configured_family:
  assumes "fakeip_reachable r4 r6 (tr_store t)" "range_ok False r4" "range_ok True r6"
    and "tr_inet4Enabled t = prefix_IsValid r4" "tr_inet6Enabled t = prefix_IsValid r6"
    and "h_Question message = question # questions" "q_Qtype question = (if isIPv6 then TypeAAAA else TypeA)"
    and "prefix_IsValid (if isIPv6 then r6 else r4)"
  shows "\<exists>address response t'.
     Transport_Exchange isFqdn memory_methods message t = (Inr response, t') \<and>
     h_Id response = h_Id message \<and> h_Rcode response = RcodeSuccess \<and>
     h_Answer response = [\<lparr>rr_Name = q_Name question, rr_Class = ClassINET, rr_Ttl = DefaultDNSTTL,
        rr_Data = (if isIPv6 then RR_AAAA else RR_A) (addr_AsSlice address)\<rparr>] \<and>
     Store_Lookup memory_methods (tr_store t') address = Some (FqdnToDomain isFqdn (q_Name question))"
proof -
  let ?d = "FqdnToDomain isFqdn (q_Name question)"
  note ok = reachable_pool [OF assms(1-3)]
  obtain r s' where c: "Store_Create memory_methods ?d isIPv6 (tr_store t) = (r, s')"
    by (cases "Store_Create memory_methods ?d isIPv6 (tr_store t)")
  obtain a where r: "r = Inr a"
    using ok(1) c by (cases rule: mem.Create_cases) (use assms(8) ok(2) [of isIPv6] in auto)
  note c = c [unfolded r]
  note ok' = mem.Create_ok [OF ok(1) c] and b = mem.Create_binding [OF ok(1) c]
  have fam: "isIPv6 = (\<not> addr_Is4 a)" using mem.bindings_family [OF ok' b] .
  have "usable (mem.pool isIPv6 s') a" using ok' b unfolding mem.store_ok_def by metis
  then have v: "addr_IsValid a" by (simp add: usable_def addr_like_def)
  have look: "Store_Lookup memory_methods s' a = Some ?d"
    using b fam by (simp add: mem.Lookup_iff [OF ok'])
  have "Transport_Exchange isFqdn memory_methods message t =
      (Inr (FixedResponse (h_Id message) question [a] DefaultDNSTTL), t\<lparr>tr_store := s'\<rparr>)"
    using assms(4-8) c by (cases isIPv6) (simp_all add: Transport_Exchange_def TypeA_def TypeAAAA_def)
  moreover have "addr_Is4 a \<or> addr_Is6 a" using v by (simp add: addr_IsValid_iff)
  ultimately show ?thesis
    using look fam assms(7)
    by (intro exI [of _ a] exI [of _ "FixedResponse (h_Id message) question [a] DefaultDNSTTL"]
        exI [of _ "t\<lparr>tr_store := s'\<rparr>"])
       (auto simp: FixedResponse_def fixed_record_def TypeA_def TypeAAAA_def)
qed

text \<open>
  (C36) The transport answers an address query for a configured family with exactly one record, of the
  type that was asked for, holding an address that \<^verbatim>\<open>Lookup\<close> maps back to the domain of the question.
  A query for a family without a range gets a successful response without a record, and nothing
  changes.  The configured ranges are of their families and have a usable address (\<^const>\<open>range_ok\<close>).
\<close>

theorem fakeip_exchange_answers:
  assumes "fakeip_reachable r4 r6 (tr_store t)" "range_ok False r4" "range_ok True r6"
    and "tr_inet4Enabled t = prefix_IsValid r4" "tr_inet6Enabled t = prefix_IsValid r6"
    and "h_Question message = question # questions" "q_Qtype question = (if isIPv6 then TypeAAAA else TypeA)"
  shows "if prefix_IsValid (if isIPv6 then r6 else r4)
         then \<exists>address response t'.
           Transport_Exchange isFqdn memory_methods message t = (Inr response, t') \<and>
           h_Id response = h_Id message \<and> h_Rcode response = RcodeSuccess \<and>
           h_Answer response = [\<lparr>rr_Name = q_Name question, rr_Class = ClassINET, rr_Ttl = DefaultDNSTTL,
              rr_Data = (if isIPv6 then RR_AAAA else RR_A) (addr_AsSlice address)\<rparr>] \<and>
           Store_Lookup memory_methods (tr_store t') address = Some (FqdnToDomain isFqdn (q_Name question))
         else \<exists>response.
           Transport_Exchange isFqdn memory_methods message t = (Inr response, t) \<and>
           h_Id response = h_Id message \<and> h_Rcode response = RcodeSuccess \<and>
           h_Answer response = []"
proof (cases "prefix_IsValid (if isIPv6 then r6 else r4)")
  case True
  then show ?thesis using exchange_configured_family [OF assms] by simp
next
  case False
  then have "Transport_Exchange isFqdn memory_methods message t =
      (Inr (FixedResponseStatus message RcodeSuccess), t)"
    using assms(4-7) by (cases isIPv6) (simp_all add: Transport_Exchange_def TypeA_def TypeAAAA_def)
  then show ?thesis using False by (simp add: FixedResponseStatus_def)
qed

theorem fakeip_exchange_answers_witness:
  "\<exists>address response t'.
     Transport_Exchange (\<lambda>s. s \<noteq> [] \<and> last s = CHR ''.'') memory_methods
       ((FixedResponseStatus \<lparr>h_Id = 7, h_Response = False, h_Authoritative = False, h_RecursionDesired = True,
           h_RecursionAvailable = False, h_Rcode = 0,
           h_Question = [\<lparr>q_Name = ''a.example.'', q_Qtype = TypeA, q_Qclass = ClassINET\<rparr>],
           h_Answer = [], h_Ns = [], h_Extra = []\<rparr> 0))
       \<lparr>tr_store = sample_store, tr_inet4Enabled = True, tr_inet6Enabled = False\<rparr> = (Inr response, t') \<and>
     length (h_Answer response) = 1 \<and> Store_Lookup memory_methods (tr_store t') address = Some ''a.example''"
proof -
  let ?m = "(FixedResponseStatus \<lparr>h_Id = 7, h_Response = False, h_Authoritative = False, h_RecursionDesired = True,
           h_RecursionAvailable = False, h_Rcode = 0,
           h_Question = [\<lparr>q_Name = ''a.example.'', q_Qtype = TypeA, q_Qclass = ClassINET\<rparr>],
           h_Answer = [], h_Ns = [], h_Extra = []\<rparr> 0)"
  let ?t = "\<lparr>tr_store = sample_store, tr_inet4Enabled = True, tr_inet6Enabled = False\<rparr>"
  let ?f = "\<lambda>s. s \<noteq> [] \<and> last s = CHR ''.''"
  have "fakeip_reachable sample_range4 prefix_zero (tr_store ?t)" using sample_reachable by simp
  from fakeip_exchange_answers [OF this sample_ranges, of ?m "\<lparr>q_Name = ''a.example.'', q_Qtype = TypeA, q_Qclass = ClassINET\<rparr>" "[]" False ?f]
  obtain address response t' where
    "Transport_Exchange ?f memory_methods ?m ?t = (Inr response, t')" "length (h_Answer response) = 1"
    "Store_Lookup memory_methods (tr_store t') address = Some (FqdnToDomain ?f ''a.example.'')"
    by (auto simp: FixedResponseStatus_def prefix_IsValid_def sample_range4_def prefix_zero_def split: if_splits)
  moreover have "FqdnToDomain ?f ''a.example.'' = ''a.example''" by (simp add: FqdnToDomain_def)
  ultimately show ?thesis by metis
qed

end
