(* ===== verification/SRS_Codec.thy ===== *)
theory SRS_Codec
  imports Rule_Build Netip_Codec
begin

text \<open>
  The binary rule-set format (common/srs): reading and writing headless rules as tagged items, address
  sets as ranges, and the file around them.

  A writer is represented by the bytes it writes; errors of the underlying stream are not modelled.
  Domain matchers, the helpers of \<^verbatim>\<open>sing/common/varbin\<close>, the address conversion of \<^verbatim>\<open>sing/common/metadata\<close>
  and the ordered map of \<^verbatim>\<open>sing/common/json/badjson\<close> are not part of the repository: they are fields of
  a record of library functions. Compression is a pair of such functions too; \<open>lib_Inflate\<close> gives the
  bytes that can be read from the compressed stream.
\<close>

subsection \<open>Library functions and errors\<close>

record srs_lib =
  lib_WriteUvarint :: "64 word \<Rightarrow> bytes"
  lib_ReadSlice8 :: "(string, byte slice) reader"
  lib_ReadSlice16 :: "(string, 16 word slice) reader"
  lib_ReadMatcher :: "(string, domain_Matcher) reader"
  lib_Matcher_Write :: "domain_Matcher \<Rightarrow> bytes"
  lib_Matcher_Dump :: "domain_Matcher \<Rightarrow> string slice \<times> string slice"
  lib_ReadAdGuardMatcher :: "(string, domain_AdGuardMatcher) reader"
  lib_AdGuardMatcher_Write :: "domain_AdGuardMatcher \<Rightarrow> bytes"
  lib_AdGuardMatcher_Dump :: "domain_AdGuardMatcher \<Rightarrow> string slice"
  lib_AddrFromIP :: "bytes \<Rightarrow> addr"
  lib_Prefixes :: "IPSet \<Rightarrow> prefix list"
  lib_prefix_String :: "prefix \<Rightarrow> string"
  lib_Put :: "(InterfaceType \<times> prefix list) list \<Rightarrow> InterfaceType \<Rightarrow> prefix list \<Rightarrow> (InterfaceType \<times> prefix list) list"
  lib_Deflate :: "bytes \<Rightarrow> bytes"
  lib_Inflate :: "bytes \<Rightarrow> bytes option"

datatype srs_error =
    ReadError read_error
  | LibError string
  | ErrInvalid
  | InvalidFile
  | UnsupportedVersion byte
  | ZlibError
  | NestedTooDeep
  | UnknownRuleTypeByte byte
  | UnknownItemType byte byte
  | UnknownModeByte byte
  | AtRule nat srs_error
  | AtLogicalRule nat srs_error
  | OutOfFuel

datatype srs_write_error =
    OnlyInVersion string nat
  | CIDRError string item_error
  | RuleTypePanic string
  | LogicalModePanic string

abbreviation read1 :: "(read_error, 'a) reader \<Rightarrow> (srs_error, 'a) reader" where
  "read1 r bs \<equiv> lift_err ReadError (r bs)"

abbreviation lib1 :: "(string, 'a) reader \<Rightarrow> (srs_error, 'a) reader" where
  "lib1 r bs \<equiv> lift_err LibError (r bs)"

text \<open>The loop \<^verbatim>\<open>for i := range n\<close> whose errors carry the index.\<close>

fun read_at :: "(nat \<Rightarrow> 'e \<Rightarrow> 'e) \<Rightarrow> nat \<Rightarrow> nat \<Rightarrow> ('e, 'a) reader \<Rightarrow> ('e, 'a list) reader" where
  "read_at w i 0 read bs = Inr ([], bs)"
| "read_at w i (Suc n) read bs =
     bindE (lift_err (w i) (read bs)) (\<lambda>(x, bs1). bindE (read_at w (Suc i) n read bs1) (\<lambda>(xs, bs2). Inr (x # xs, bs2)))"

text \<open>A slice that was appended to from nil.\<close>

definition appended :: "'a list \<Rightarrow> 'a slice" where
  "appended xs = (if xs = [] then None else Some xs)"

subsection \<open>Addresses, prefixes and address sets\<close>

definition readIPSetAddr :: "srs_lib \<Rightarrow> (srs_error, addr) reader" where
  "readIPSetAddr L bs =
     bindE (read1 ReadUvarint bs) (\<lambda>(addrLen, bs1).
       if addrLen \<noteq> 4 \<and> addrLen \<noteq> 16 then Inl ErrInvalid
       else bindE (read1 (ReadFull (unat addrLen)) bs1) (\<lambda>(addrBytes, bs2).
         Inr (lib_AddrFromIP L addrBytes, bs2)))"

definition readIPRange :: "srs_lib \<Rightarrow> (srs_error, addr \<times> addr) reader" where
  "readIPRange L bs =
     bindE (readIPSetAddr L bs) (\<lambda>(from, bs1).
       bindE (readIPSetAddr L bs1) (\<lambda>(to, bs2). Inr ((from, to), bs2)))"

definition readIPSet :: "srs_lib \<Rightarrow> (srs_error, IPSet) reader" where
  "readIPSet L bs =
     bindE (read1 ReadByte bs) (\<lambda>(version, bs1).
       if version \<noteq> 1 then Inl ErrInvalid
       else bindE (read1 (read_be 8) bs1) (\<lambda>(len :: 64 word, bs2).
         read_n (unat len) (readIPRange L) bs2))"

definition write_addr :: "srs_lib \<Rightarrow> addr \<Rightarrow> bytes" where
  "write_addr L a = lib_WriteUvarint L (of_nat (length (addr_AsSlice a))) @ addr_AsSlice a"

definition writeIPSet :: "srs_lib \<Rightarrow> IPSet \<Rightarrow> bytes" where
  "writeIPSet L rr =
     [1] @ be64 (of_nat (length rr)) @ concat (map (\<lambda>(from, to). write_addr L from @ write_addr L to) rr)"

definition readPrefix :: "srs_lib \<Rightarrow> (srs_error, prefix) reader" where
  "readPrefix L bs =
     bindE (read1 ReadUvarint bs) (\<lambda>(addrLen, bs1).
       if addrLen \<noteq> 4 \<and> addrLen \<noteq> 16 then Inl ErrInvalid
       else bindE (read1 (ReadFull (unat addrLen)) bs1) (\<lambda>(addrBytes, bs2).
         bindE (read1 ReadByte bs2) (\<lambda>(prefixBits, bs3).
           Inr (PrefixFrom (lib_AddrFromIP L addrBytes) (uint prefixBits), bs3))))"

definition writePrefix :: "srs_lib \<Rightarrow> prefix \<Rightarrow> bytes" where
  "writePrefix L p = write_addr L (prefix_Addr p) @ [word_of_int (prefix_Bits p)]"

subsection \<open>Items of a default rule\<close>

definition ruleItemQueryType :: byte where "ruleItemQueryType = 0"
definition ruleItemNetwork :: byte where "ruleItemNetwork = 1"
definition ruleItemDomain :: byte where "ruleItemDomain = 2"
definition ruleItemDomainKeyword :: byte where "ruleItemDomainKeyword = 3"
definition ruleItemDomainRegex :: byte where "ruleItemDomainRegex = 4"
definition ruleItemSourceIPCIDR :: byte where "ruleItemSourceIPCIDR = 5"
definition ruleItemIPCIDR :: byte where "ruleItemIPCIDR = 6"
definition ruleItemSourcePort :: byte where "ruleItemSourcePort = 7"
definition ruleItemSourcePortRange :: byte where "ruleItemSourcePortRange = 8"
definition ruleItemPort :: byte where "ruleItemPort = 9"
definition ruleItemPortRange :: byte where "ruleItemPortRange = 10"
definition ruleItemProcessName :: byte where "ruleItemProcessName = 11"
definition ruleItemProcessPath :: byte where "ruleItemProcessPath = 12"
definition ruleItemPackageName :: byte where "ruleItemPackageName = 13"
definition ruleItemWIFISSID :: byte where "ruleItemWIFISSID = 14"
definition ruleItemWIFIBSSID :: byte where "ruleItemWIFIBSSID = 15"
definition ruleItemAdGuardDomain :: byte where "ruleItemAdGuardDomain = 16"
definition ruleItemProcessPathRegex :: byte where "ruleItemProcessPathRegex = 17"
definition ruleItemNetworkType :: byte where "ruleItemNetworkType = 18"
definition ruleItemNetworkIsExpensive :: byte where "ruleItemNetworkIsExpensive = 19"
definition ruleItemNetworkIsConstrained :: byte where "ruleItemNetworkIsConstrained = 20"
definition ruleItemNetworkInterfaceAddress :: byte where "ruleItemNetworkInterfaceAddress = 21"
definition ruleItemDefaultInterfaceAddress :: byte where "ruleItemDefaultInterfaceAddress = 22"
definition ruleItemPackageNameRegex :: byte where "ruleItemPackageNameRegex = 23"
definition ruleItemFinal :: byte where "ruleItemFinal = 0xFF"

lemmas rule_item_defs =
  ruleItemQueryType_def ruleItemNetwork_def ruleItemDomain_def ruleItemDomainKeyword_def
  ruleItemDomainRegex_def ruleItemSourceIPCIDR_def ruleItemIPCIDR_def ruleItemSourcePort_def
  ruleItemSourcePortRange_def ruleItemPort_def ruleItemPortRange_def ruleItemProcessName_def
  ruleItemProcessPath_def ruleItemPackageName_def ruleItemWIFISSID_def ruleItemWIFIBSSID_def
  ruleItemAdGuardDomain_def ruleItemProcessPathRegex_def ruleItemNetworkType_def
  ruleItemNetworkIsExpensive_def ruleItemNetworkIsConstrained_def
  ruleItemNetworkInterfaceAddress_def ruleItemDefaultInterfaceAddress_def
  ruleItemPackageNameRegex_def ruleItemFinal_def

definition readRuleItemString :: "srs_lib \<Rightarrow> (srs_error, string slice) reader" where
  "readRuleItemString L bs =
     bindE (read1 ReadUvarint bs) (\<lambda>(len, bs1).
       bindE (read_n (unat len) (\<lambda>b. bindE (lib1 (lib_ReadSlice8 L) b) (\<lambda>(v, b'). Inr (bytes_string (elems v), b'))) bs1)
         (\<lambda>(result, bs2). Inr (appended result, bs2)))"

definition read_prefixes :: "srs_lib \<Rightarrow> (srs_error, prefix list) reader" where
  "read_prefixes L bs =
     bindE (read1 ReadUvarint bs) (\<lambda>(prefixCount, bs1). read_n (unat prefixCount) (readPrefix L) bs1)"

definition read_interface :: "srs_lib \<Rightarrow> (srs_error, InterfaceType \<times> prefix list) reader" where
  "read_interface L bs =
     bindE (read1 (read_be 1) bs) (\<lambda>(key, bs1).
       bindE (read_prefixes L bs1) (\<lambda>(value, bs2). Inr ((key, value), bs2)))"

definition read_interfaces :: "srs_lib \<Rightarrow> (srs_error, (InterfaceType \<times> prefix list) list) reader" where
  "read_interfaces L bs =
     bindE (read1 ReadUvarint bs) (\<lambda>(size, bs1).
       bindE (read_n (unat size) (read_interface L) bs1) (\<lambda>(entries, bs2).
         Inr (foldl (\<lambda>m (k, v). lib_Put L m k v) [] entries, bs2)))"

text \<open>Reading one item into the rule, and the field it is stored in.\<close>

definition read_field ::
  "(srs_error, 'a) reader \<Rightarrow> ('a \<Rightarrow> headless_options \<Rightarrow> headless_options) \<Rightarrow> headless_options \<Rightarrow> (srs_error, headless_options) reader"
where
  "read_field read store rule bs = bindE (read bs) (\<lambda>(x, bs1). Inr (store x rule, bs1))"

definition prefix_strings :: "srs_lib \<Rightarrow> IPSet \<Rightarrow> string slice" where
  "prefix_strings L s = Some (map (lib_prefix_String L) (lib_Prefixes L s))"

definition read_domain :: "srs_lib \<Rightarrow> bool \<Rightarrow> domain_Matcher \<Rightarrow> headless_options \<Rightarrow> headless_options" where
  "read_domain L recover matcher rule =
     (let rule1 = rule\<lparr>hl_DomainMatcher := Some matcher\<rparr>
      in if recover then
           (case lib_Matcher_Dump L matcher of (d, s) \<Rightarrow> rule1\<lparr>hl_Domain := d, hl_DomainSuffix := s\<rparr>)
         else rule1)"

definition read_item ::
  "srs_lib \<Rightarrow> bool \<Rightarrow> byte \<Rightarrow> byte \<Rightarrow> headless_options \<Rightarrow> (srs_error, headless_options) reader"
where
  "read_item L recover itemType lastItemType rule bs =
     (if itemType = ruleItemQueryType then
        read_field (lib1 (lib_ReadSlice16 L)) (\<lambda>x. hl_QueryType_update (\<lambda>_. Some (elems x))) rule bs
      else if itemType = ruleItemNetwork then
        read_field (readRuleItemString L) (\<lambda>x. hl_Network_update (\<lambda>_. x)) rule bs
      else if itemType = ruleItemDomain then
        read_field (lib1 (lib_ReadMatcher L)) (read_domain L recover) rule bs
      else if itemType = ruleItemDomainKeyword then
        read_field (readRuleItemString L) (\<lambda>x. hl_DomainKeyword_update (\<lambda>_. x)) rule bs
      else if itemType = ruleItemDomainRegex then
        read_field (readRuleItemString L) (\<lambda>x. hl_DomainRegex_update (\<lambda>_. x)) rule bs
      else if itemType = ruleItemSourceIPCIDR then
        read_field (readIPSet L)
          (\<lambda>x r. r\<lparr>hl_SourceIPSet := Some x,
                   hl_SourceIPCIDR := (if recover then prefix_strings L x else hl_SourceIPCIDR r)\<rparr>) rule bs
      else if itemType = ruleItemIPCIDR then
        read_field (readIPSet L)
          (\<lambda>x r. r\<lparr>hl_IPSet := Some x,
                   hl_IPCIDR := (if recover then prefix_strings L x else hl_IPCIDR r)\<rparr>) rule bs
      else if itemType = ruleItemSourcePort then
        read_field (lib1 (lib_ReadSlice16 L)) (\<lambda>x. hl_SourcePort_update (\<lambda>_. x)) rule bs
      else if itemType = ruleItemSourcePortRange then
        read_field (readRuleItemString L) (\<lambda>x. hl_SourcePortRange_update (\<lambda>_. x)) rule bs
      else if itemType = ruleItemPort then
        read_field (lib1 (lib_ReadSlice16 L)) (\<lambda>x. hl_Port_update (\<lambda>_. x)) rule bs
      else if itemType = ruleItemPortRange then
        read_field (readRuleItemString L) (\<lambda>x. hl_PortRange_update (\<lambda>_. x)) rule bs
      else if itemType = ruleItemProcessName then
        read_field (readRuleItemString L) (\<lambda>x. hl_ProcessName_update (\<lambda>_. x)) rule bs
      else if itemType = ruleItemProcessPath then
        read_field (readRuleItemString L) (\<lambda>x. hl_ProcessPath_update (\<lambda>_. x)) rule bs
      else if itemType = ruleItemProcessPathRegex then
        read_field (readRuleItemString L) (\<lambda>x. hl_ProcessPathRegex_update (\<lambda>_. x)) rule bs
      else if itemType = ruleItemPackageName then
        read_field (readRuleItemString L) (\<lambda>x. hl_PackageName_update (\<lambda>_. x)) rule bs
      else if itemType = ruleItemPackageNameRegex then
        read_field (readRuleItemString L) (\<lambda>x. hl_PackageNameRegex_update (\<lambda>_. x)) rule bs
      else if itemType = ruleItemWIFISSID then
        read_field (readRuleItemString L) (\<lambda>x. hl_WIFISSID_update (\<lambda>_. x)) rule bs
      else if itemType = ruleItemWIFIBSSID then
        read_field (readRuleItemString L) (\<lambda>x. hl_WIFIBSSID_update (\<lambda>_. x)) rule bs
      else if itemType = ruleItemAdGuardDomain then
        read_field (lib1 (lib_ReadAdGuardMatcher L))
          (\<lambda>x r. r\<lparr>hl_AdGuardDomainMatcher := Some x,
                   hl_AdGuardDomain := (if recover then lib_AdGuardMatcher_Dump L x else hl_AdGuardDomain r)\<rparr>) rule bs
      else if itemType = ruleItemNetworkType then
        read_field (lib1 (lib_ReadSlice8 L)) (\<lambda>x. hl_NetworkType_update (\<lambda>_. x)) rule bs
      else if itemType = ruleItemNetworkIsExpensive then
        Inr (rule\<lparr>hl_NetworkIsExpensive := True\<rparr>, bs)
      else if itemType = ruleItemNetworkIsConstrained then
        Inr (rule\<lparr>hl_NetworkIsConstrained := True\<rparr>, bs)
      else if itemType = ruleItemNetworkInterfaceAddress then
        read_field (read_interfaces L) (\<lambda>x. hl_NetworkInterfaceAddress_update (\<lambda>_. Some x)) rule bs
      else if itemType = ruleItemDefaultInterfaceAddress then
        read_field (read_prefixes L) (\<lambda>x. hl_DefaultInterfaceAddress_update (\<lambda>_. appended x)) rule bs
      else Inl (UnknownItemType itemType lastItemType))"

text \<open>
  The loop of \<^verbatim>\<open>readDefaultRule\<close>. Every round reads at least the type of an item, so one more round
  than there are bytes is enough.
\<close>

fun read_items :: "srs_lib \<Rightarrow> bool \<Rightarrow> nat \<Rightarrow> byte \<Rightarrow> headless_options \<Rightarrow> (srs_error, headless_options) reader" where
  "read_items L recover 0 lastItemType rule bs = Inl OutOfFuel"
| "read_items L recover (Suc n) lastItemType rule bs =
     bindE (read1 (read_be 1) bs) (\<lambda>(itemType, bs1).
       if itemType = ruleItemFinal then
         bindE (read1 read_bool bs1) (\<lambda>(invert, bs2). Inr (rule\<lparr>hl_Invert := invert\<rparr>, bs2))
       else bindE (read_item L recover itemType lastItemType rule bs1) (\<lambda>(rule1, bs2).
         read_items L recover n itemType rule1 bs2))"

definition readDefaultRule :: "srs_lib \<Rightarrow> bool \<Rightarrow> (srs_error, headless_options) reader" where
  "readDefaultRule L recover bs = read_items L recover (Suc (length bs)) 0 headless_options_zero bs"

subsection \<open>Rules\<close>

definition maxLogicalRuleDepth :: nat where "maxLogicalRuleDepth = 100"

text \<open>The rest of \<^verbatim>\<open>readLogicalRule\<close> with \<open>sub\<close> for reading a sub-rule.\<close>

definition readLogicalRule ::
  "(srs_error, HeadlessRuleOptions) reader \<Rightarrow> (srs_error, string \<times> HeadlessRuleOptions list \<times> bool) reader"
where
  "readLogicalRule sub bs =
     bindE (read1 ReadByte bs) (\<lambda>(mode, bs1).
       if mode \<noteq> 0 \<and> mode \<noteq> 1 then Inl (UnknownModeByte mode)
       else bindE (read1 ReadUvarint bs1) (\<lambda>(len, bs2).
         bindE (read_at AtLogicalRule 0 (unat len) sub bs2) (\<lambda>(rules, bs3).
           bindE (read1 read_bool bs3) (\<lambda>(invert, bs4).
             Inr ((if mode = 0 then LogicalTypeAnd else LogicalTypeOr, rules, invert), bs4)))))"

text \<open>\<^verbatim>\<open>readRule\<close> with \<open>left\<close> levels left before the limit: \<open>left = maxLogicalRuleDepth + 1 - depth\<close>.\<close>

primrec readRule_left :: "srs_lib \<Rightarrow> bool \<Rightarrow> nat \<Rightarrow> (srs_error, HeadlessRuleOptions) reader" where
  "readRule_left L recover 0 = (\<lambda>bs. Inl NestedTooDeep)"
| "readRule_left L recover (Suc left) = (\<lambda>bs.
     bindE (read1 (read_be 1) bs) (\<lambda>(ruleType :: byte, bs1).
       if ruleType = 0 then
         bindE (readDefaultRule L recover bs1) (\<lambda>(d, bs2).
           Inr (HeadlessRuleOptions RuleTypeDefault d [] [] False, bs2))
       else if ruleType = 1 then
         bindE (readLogicalRule (readRule_left L recover left) bs1) (\<lambda>((mode, rules, invert), bs2).
           Inr (HeadlessRuleOptions RuleTypeLogical headless_options_zero mode rules invert, bs2))
       else Inl (UnknownRuleTypeByte ruleType)))"

definition readRule :: "srs_lib \<Rightarrow> bool \<Rightarrow> nat \<Rightarrow> (srs_error, HeadlessRuleOptions) reader" where
  "readRule L recover depth = readRule_left L recover (maxLogicalRuleDepth + 1 - depth)"

subsection \<open>Writing items\<close>

definition writeRuleItemString :: "srs_lib \<Rightarrow> byte \<Rightarrow> string list \<Rightarrow> bytes" where
  "writeRuleItemString L itemType value =
     itemType # lib_WriteUvarint L (of_nat (length value)) @
     concat (map (\<lambda>s. lib_WriteUvarint L (of_nat (length s)) @ string_bytes s) value)"

definition writeRuleItemUint8 :: "srs_lib \<Rightarrow> byte \<Rightarrow> byte list \<Rightarrow> bytes" where
  "writeRuleItemUint8 L itemType value = itemType # lib_WriteUvarint L (of_nat (length value)) @ value"

definition writeRuleItemUint16 :: "srs_lib \<Rightarrow> byte \<Rightarrow> 16 word list \<Rightarrow> bytes" where
  "writeRuleItemUint16 L itemType value =
     itemType # lib_WriteUvarint L (of_nat (length value)) @ concat (map be16 value)"

definition writeRuleItemCIDR :: "srs_lib \<Rightarrow> build_env \<Rightarrow> byte \<Rightarrow> string list \<Rightarrow> (item_error, bytes) res" where
  "writeRuleItemCIDR L B itemType value =
     bindE (parse_cidrs (b_ParsePrefix B) (b_ParseAddr B) 0 value) (\<lambda>cs.
       case b_BuildIPSet B cs of
         None \<Rightarrow> Inl BadIPSet
       | Some ipSet \<Rightarrow> Inr (itemType # writeIPSet L ipSet))"

definition write_prefixes :: "srs_lib \<Rightarrow> prefix list \<Rightarrow> bytes" where
  "write_prefixes L ps = lib_WriteUvarint L (of_nat (length ps)) @ concat (map (writePrefix L) ps)"

definition write_interface :: "srs_lib \<Rightarrow> InterfaceType \<times> prefix list \<Rightarrow> bytes" where
  "write_interface L = (\<lambda>(key, value). [key] @ write_prefixes L value)"

text \<open>
  One item of \<^verbatim>\<open>writeDefaultRule\<close>: nothing when its field is empty, an error when the version of the
  file is too old for it.
\<close>

definition write_field :: "bool \<Rightarrow> bytes \<Rightarrow> (srs_write_error, bytes) res" where
  "write_field present item = Inr (if present then item else [])"

definition write_since ::
  "nat \<Rightarrow> string \<Rightarrow> nat \<Rightarrow> bool \<Rightarrow> bytes \<Rightarrow> (srs_write_error, bytes) res"
where
  "write_since since name generateVersion present item =
     (if present then (if generateVersion < since then Inl (OnlyInVersion name since) else Inr item) else Inr [])"

definition write_cidr ::
  "srs_lib \<Rightarrow> build_env \<Rightarrow> string \<Rightarrow> byte \<Rightarrow> string slice \<Rightarrow> (srs_write_error, bytes) res"
where
  "write_cidr L B name itemType s =
     (if nonempty s then lift_err (CIDRError name) (writeRuleItemCIDR L B itemType (elems s)) else Inr [])"

definition RuleSetVersion1 :: nat where "RuleSetVersion1 = 1"
definition RuleSetVersion2 :: nat where "RuleSetVersion2 = 2"
definition RuleSetVersion3 :: nat where "RuleSetVersion3 = 3"
definition RuleSetVersion4 :: nat where "RuleSetVersion4 = 4"
definition RuleSetVersion5 :: nat where "RuleSetVersion5 = 5"
definition RuleSetVersionCurrent :: nat where "RuleSetVersionCurrent = RuleSetVersion5"

definition write_address_items ::
  "srs_lib \<Rightarrow> build_env \<Rightarrow> headless_options \<Rightarrow> nat \<Rightarrow> (srs_write_error, bytes) res list"
where
  "write_address_items L B rule generateVersion =
     [write_field (nonempty (hl_QueryType rule)) (writeRuleItemUint16 L ruleItemQueryType (elems (hl_QueryType rule))),
      write_field (nonempty (hl_Network rule)) (writeRuleItemString L ruleItemNetwork (elems (hl_Network rule))),
      write_field (nonempty (hl_Domain rule) \<or> nonempty (hl_DomainSuffix rule))
        (ruleItemDomain # lib_Matcher_Write L
           (NewMatcher (elems (hl_Domain rule)) (elems (hl_DomainSuffix rule)) (generateVersion = RuleSetVersion1))),
      write_field (nonempty (hl_DomainKeyword rule))
        (writeRuleItemString L ruleItemDomainKeyword (elems (hl_DomainKeyword rule))),
      write_field (nonempty (hl_DomainRegex rule))
        (writeRuleItemString L ruleItemDomainRegex (elems (hl_DomainRegex rule))),
      write_cidr L B ''source_ip_cidr'' ruleItemSourceIPCIDR (hl_SourceIPCIDR rule),
      write_cidr L B ''ipcidr'' ruleItemIPCIDR (hl_IPCIDR rule)]"

definition write_port_items :: "srs_lib \<Rightarrow> headless_options \<Rightarrow> (srs_write_error, bytes) res list" where
  "write_port_items L rule =
     [write_field (nonempty (hl_SourcePort rule)) (writeRuleItemUint16 L ruleItemSourcePort (elems (hl_SourcePort rule))),
      write_field (nonempty (hl_SourcePortRange rule))
        (writeRuleItemString L ruleItemSourcePortRange (elems (hl_SourcePortRange rule))),
      write_field (nonempty (hl_Port rule)) (writeRuleItemUint16 L ruleItemPort (elems (hl_Port rule))),
      write_field (nonempty (hl_PortRange rule)) (writeRuleItemString L ruleItemPortRange (elems (hl_PortRange rule)))]"

definition write_process_items :: "srs_lib \<Rightarrow> headless_options \<Rightarrow> nat \<Rightarrow> (srs_write_error, bytes) res list" where
  "write_process_items L rule generateVersion =
     [write_field (nonempty (hl_ProcessName rule))
        (writeRuleItemString L ruleItemProcessName (elems (hl_ProcessName rule))),
      write_field (nonempty (hl_ProcessPath rule))
        (writeRuleItemString L ruleItemProcessPath (elems (hl_ProcessPath rule))),
      write_field (nonempty (hl_ProcessPathRegex rule))
        (writeRuleItemString L ruleItemProcessPathRegex (elems (hl_ProcessPathRegex rule))),
      write_field (nonempty (hl_PackageName rule))
        (writeRuleItemString L ruleItemPackageName (elems (hl_PackageName rule))),
      write_since RuleSetVersion5 ''package_name_regex'' generateVersion (nonempty (hl_PackageNameRegex rule))
        (writeRuleItemString L ruleItemPackageNameRegex (elems (hl_PackageNameRegex rule)))]"

definition write_network_items :: "srs_lib \<Rightarrow> headless_options \<Rightarrow> nat \<Rightarrow> (srs_write_error, bytes) res list" where
  "write_network_items L rule generateVersion =
     [write_since RuleSetVersion3 ''network_type'' generateVersion (nonempty (hl_NetworkType rule))
        (writeRuleItemUint8 L ruleItemNetworkType (elems (hl_NetworkType rule))),
      write_since RuleSetVersion3 ''network_is_expensive'' generateVersion (hl_NetworkIsExpensive rule)
        [ruleItemNetworkIsExpensive],
      write_since RuleSetVersion3 ''network_is_constrained'' generateVersion (hl_NetworkIsConstrained rule)
        [ruleItemNetworkIsConstrained],
      write_since RuleSetVersion4 ''network_interface_address'' generateVersion
        (nonempty (hl_NetworkInterfaceAddress rule))
        (ruleItemNetworkInterfaceAddress #
         lib_WriteUvarint L (of_nat (length (elems (hl_NetworkInterfaceAddress rule)))) @
         concat (map (write_interface L) (elems (hl_NetworkInterfaceAddress rule)))),
      write_since RuleSetVersion4 ''default_interface_address'' generateVersion
        (nonempty (hl_DefaultInterfaceAddress rule))
        (ruleItemDefaultInterfaceAddress # write_prefixes L (elems (hl_DefaultInterfaceAddress rule))),
      write_field (nonempty (hl_WIFISSID rule)) (writeRuleItemString L ruleItemWIFISSID (elems (hl_WIFISSID rule))),
      write_field (nonempty (hl_WIFIBSSID rule)) (writeRuleItemString L ruleItemWIFIBSSID (elems (hl_WIFIBSSID rule))),
      write_since RuleSetVersion2 ''AdGuard'' generateVersion (nonempty (hl_AdGuardDomain rule))
        (ruleItemAdGuardDomain # lib_AdGuardMatcher_Write L (NewAdGuardMatcher (elems (hl_AdGuardDomain rule))))]"

definition write_items ::
  "srs_lib \<Rightarrow> build_env \<Rightarrow> headless_options \<Rightarrow> nat \<Rightarrow> (srs_write_error, bytes) res list"
where
  "write_items L B rule generateVersion =
     write_address_items L B rule generateVersion @ write_port_items L rule @
     write_process_items L rule generateVersion @ write_network_items L rule generateVersion"

text \<open>The items one after the other, up to the first error.\<close>

fun write_all :: "('e, bytes) res list \<Rightarrow> ('e, bytes) res" where
  "write_all [] = Inr []"
| "write_all (w # ws) = bindE w (\<lambda>b. bindE (write_all ws) (\<lambda>bs. Inr (b @ bs)))"

definition writeDefaultRule ::
  "srs_lib \<Rightarrow> build_env \<Rightarrow> headless_options \<Rightarrow> nat \<Rightarrow> (srs_write_error, bytes) res"
where
  "writeDefaultRule L B rule generateVersion =
     bindE (write_all (write_items L B rule generateVersion)) (\<lambda>items.
       Inr ([0] @ items @ [ruleItemFinal] @ write_bool (hl_Invert rule)))"

text \<open>\<open>rules\<close> are the written sub-rules. An unknown mode panics, and so does an unknown type of a rule.\<close>

definition writeLogicalRule ::
  "srs_lib \<Rightarrow> string \<Rightarrow> (srs_write_error, bytes) res list \<Rightarrow> bool \<Rightarrow> (srs_write_error, bytes) res"
where
  "writeLogicalRule L mode rules invert =
     (if mode \<noteq> LogicalTypeAnd \<and> mode \<noteq> LogicalTypeOr then Inl (LogicalModePanic mode)
      else bindE (write_all rules) (\<lambda>body.
        Inr ([1] @ [if mode = LogicalTypeAnd then 0 else 1] @
             lib_WriteUvarint L (of_nat (length rules)) @ body @ write_bool invert)))"

fun writeRule :: "srs_lib \<Rightarrow> build_env \<Rightarrow> nat \<Rightarrow> HeadlessRuleOptions \<Rightarrow> (srs_write_error, bytes) res" where
  "writeRule L B generateVersion (HeadlessRuleOptions t d mode rules invert) =
     (if t = RuleTypeDefault then writeDefaultRule L B d generateVersion
      else if t = RuleTypeLogical then
        writeLogicalRule L mode (map (writeRule L B generateVersion) rules) invert
      else Inl (RuleTypePanic t))"

subsection \<open>Files\<close>

definition MagicBytes :: bytes where "MagicBytes = [0x53, 0x52, 0x53]"

text \<open>The version and the rules of \<^verbatim>\<open>PlainRuleSetCompat\<close>.\<close>

definition srs_Read :: "srs_lib \<Rightarrow> bool \<Rightarrow> bytes \<Rightarrow> (srs_error, byte \<times> HeadlessRuleOptions list) res" where
  "srs_Read L recover file =
     bindE (read1 (ReadFull 3) file) (\<lambda>(magicBytes, bs1).
       if magicBytes \<noteq> MagicBytes then Inl InvalidFile
       else bindE (read1 (read_be 1) bs1) (\<lambda>(version :: byte, bs2).
         if unat version > RuleSetVersionCurrent then Inl (UnsupportedVersion version)
         else (case lib_Inflate L bs2 of
                 None \<Rightarrow> Inl ZlibError
               | Some bs3 \<Rightarrow>
                   bindE (read1 ReadUvarint bs3) (\<lambda>(len, bs4).
                     bindE (read_at AtRule 0 (unat len) (readRule L recover 0) bs4) (\<lambda>(rules, _).
                       Inr (version, rules))))))"

definition srs_Write :: "srs_lib \<Rightarrow> build_env \<Rightarrow> HeadlessRuleOptions list \<Rightarrow> byte \<Rightarrow> (srs_write_error, bytes) res" where
  "srs_Write L B rules generateVersion =
     bindE (write_all (map (writeRule L B (unat generateVersion)) rules)) (\<lambda>body.
       Inr (MagicBytes @ [generateVersion] @
            lib_Deflate L (lib_WriteUvarint L (of_nat (length rules)) @ body)))"

end
