(* ===== verification/Rule_Alike.thy ===== *)
theory Rule_Alike
  imports Rule_Build
begin

text \<open>
  Rules that match alike: two headless rules whose conditions correspond one to one, with conditions
  that hold for the same connections. They cannot be told apart, neither by matching them nor by
  merging them into an outer rule; and building them from alike steps gives alike rules.
\<close>

subsection \<open>Conditions and rules\<close>

definition item_alike :: "env \<Rightarrow> RuleItem \<Rightarrow> RuleItem \<Rightarrow> bool" where
  "item_alike E i j \<longleftrightarrow> RuleItem_Match E i = RuleItem_Match E j"

definition rule_alike :: "env \<Rightarrow> abstractDefaultRule \<Rightarrow> abstractDefaultRule \<Rightarrow> bool" where
  "rule_alike E r r' \<longleftrightarrow>
     list_all2 (item_alike E) (r_items r) (r_items r') \<and>
     list_all2 (item_alike E) (r_sourceAddressItems r) (r_sourceAddressItems r') \<and>
     list_all2 (item_alike E) (r_sourcePortItems r) (r_sourcePortItems r') \<and>
     list_all2 (item_alike E) (r_destinationAddressItems r) (r_destinationAddressItems r') \<and>
     list_all2 (item_alike E) (r_destinationIPCIDRItems r) (r_destinationIPCIDRItems r') \<and>
     list_all2 (item_alike E) (r_destinationPortItems r) (r_destinationPortItems r') \<and>
     length (r_allItems r) = length (r_allItems r') \<and>
     r_ruleSetItem r = r_ruleSetItem r' \<and> r_invert r = r_invert r'"

inductive headless_alike :: "env \<Rightarrow> HeadlessRule \<Rightarrow> HeadlessRule \<Rightarrow> bool" for E where
  default: "rule_alike E r r' \<Longrightarrow> headless_alike E (DefaultHeadlessRule r) (DefaultHeadlessRule r')"
| logical: "list_all2 (headless_alike E) rules rules' \<Longrightarrow>
     headless_alike E (LogicalHeadlessRule mode rules invert) (LogicalHeadlessRule mode rules' invert)"

inductive_cases headless_alike_default: "headless_alike E (DefaultHeadlessRule r) h"
inductive_cases headless_alike_logical: "headless_alike E (LogicalHeadlessRule mode rules invert) h"

lemma item_alike_refl [simp]: "item_alike E i i"
  by (simp add: item_alike_def)

lemma items_alike:
  assumes "list_all2 (item_alike E) is js"
  shows "matchAnyItem E is m = matchAnyItem E js m"
    and "list_all (\<lambda>i. RuleItem_Match E i m) is = list_all (\<lambda>i. RuleItem_Match E i m) js"
    and "is = [] \<longleftrightarrow> js = []"
  using assms by (induction rule: list_all2_induct) (simp_all add: matchAnyItem_def item_alike_def)

lemma rule_alike_refl [simp]: "rule_alike E r r"
  by (simp add: rule_alike_def list.rel_refl)

lemma headless_alike_refl: "headless_alike E h h"
  by (induction h) (auto intro!: headless_alike.intros simp: list.rel_refl_strong)

subsection \<open>Matching alike\<close>

lemma evaluateGroups_alike:
  assumes "rule_alike E r r'"
  shows "evaluateGroups E r m = evaluateGroups E r' m"
proof -
  note a = assms [unfolded rule_alike_def]
  have "matchAnyItem E (r_sourceAddressItems r) = matchAnyItem E (r_sourceAddressItems r')"
    "matchAnyItem E (r_sourcePortItems r) = matchAnyItem E (r_sourcePortItems r')"
    "matchAnyItem E (r_destinationAddressItems r) = matchAnyItem E (r_destinationAddressItems r')"
    "matchAnyItem E (r_destinationIPCIDRItems r) = matchAnyItem E (r_destinationIPCIDRItems r')"
    "matchAnyItem E (r_destinationPortItems r) = matchAnyItem E (r_destinationPortItems r')"
    using a by (auto intro!: ext items_alike(1))
  moreover have "r_sourceAddressItems r = [] \<longleftrightarrow> r_sourceAddressItems r' = []"
    "r_sourcePortItems r = [] \<longleftrightarrow> r_sourcePortItems r' = []"
    "r_destinationAddressItems r = [] \<longleftrightarrow> r_destinationAddressItems r' = []"
    "r_destinationIPCIDRItems r = [] \<longleftrightarrow> r_destinationIPCIDRItems r' = []"
    "r_destinationPortItems r = [] \<longleftrightarrow> r_destinationPortItems r' = []"
    using a by (auto dest: items_alike(3))
  ultimately show ?thesis
    by (simp only: evaluateGroups_def destinationIPCIDRMatchesSource_def destinationIPCIDRMatchesDestination_def)
qed

lemma default_rule_alike:
  assumes "rule_alike E r r'"
  shows "abstractDefaultRule_Match E rsm r = abstractDefaultRule_Match E rsm r'"
    and "evaluateForMerge E r = evaluateForMerge E r'"
proof -
  note a = assms [unfolded rule_alike_def]
  have "list_all (\<lambda>i. RuleItem_Match E i m) (r_items r) = list_all (\<lambda>i. RuleItem_Match E i m) (r_items r')" for m
    using a items_alike(2) by blast
  then show "evaluateForMerge E r = evaluateForMerge E r'"
    by (simp add: fun_eq_iff evaluateForMerge_def evaluateGroups_alike [OF assms] split: prod.split)
  have "matchInner E rsm r = matchInner E rsm r'"
    using a \<open>\<And>m. list_all (\<lambda>i. RuleItem_Match E i m) (r_items r) = list_all (\<lambda>i. RuleItem_Match E i m) (r_items r')\<close>
    by (simp add: fun_eq_iff matchInner_def evaluateGroups_alike [OF assms] split: prod.split)
  moreover have "r_allItems r = [] \<longleftrightarrow> r_allItems r' = []" using a by (metis length_0_conv)
  ultimately show "abstractDefaultRule_Match E rsm r = abstractDefaultRule_Match E rsm r'"
    using a by (simp add: fun_eq_iff abstractDefaultRule_Match_def)
qed

lemma HeadlessRule_alike: "headless_alike E h h' \<Longrightarrow> HeadlessRule_Match E h = HeadlessRule_Match E h'"
proof (induction rule: headless_alike.induct)
  case (logical rules rules' mode invert)
  then have "map (HeadlessRule_Match E) rules = map (HeadlessRule_Match E) rules'"
    by (auto simp: list_all2_conv_all_nth intro: nth_equalityI)
  then show ?case by simp
qed (simp add: default_rule_alike(1))

lemma matchAnyHeadlessRule_alike:
  assumes "list_all2 (headless_alike E) hs hs'"
  shows "matchAnyHeadlessRule E hs = matchAnyHeadlessRule E hs'"
proof -
  have "map (HeadlessRule_Match E) hs = map (HeadlessRule_Match E) hs'"
    using assms HeadlessRule_alike by (induction rule: list_all2_induct) auto
  then show ?thesis by (simp add: fun_eq_iff matchAnyHeadlessRule_def)
qed

lemma mergeableRuleIn_alike:
  assumes "list_all2 (headless_alike E) hs hs'"
  shows "rel_option (rule_alike E) (mergeableRuleIn hs) (mergeableRuleIn hs')"
proof (cases "\<exists>r. hs = [DefaultHeadlessRule r]")
  case True
  then obtain r where "hs = [DefaultHeadlessRule r]" by blast
  moreover from this assms obtain r' where "hs' = [DefaultHeadlessRule r']" "rule_alike E r r'"
    by (auto simp: list_all2_Cons1 elim: headless_alike_default)
  ultimately show ?thesis by (auto simp: mergeableRuleIn_def rule_alike_def)
next
  case False
  moreover have "\<nexists>r. hs' = [DefaultHeadlessRule r]"
  proof
    assume "\<exists>r. hs' = [DefaultHeadlessRule r]"
    then obtain r h where "hs = [h]" "headless_alike E h (DefaultHeadlessRule r)"
      using assms by (auto simp: list_all2_Cons2)
    with False show False by (auto elim: headless_alike.cases)
  qed
  ultimately show ?thesis
    by (auto simp: mergeableRuleIn_def split: list.splits HeadlessRule.splits)
qed

text \<open>A rule-set condition cannot tell two stores apart whose sets are alike.\<close>

lemma matchWithOuterGroups_alike:
  assumes "\<And>tag. list_all2 (headless_alike E) (S tag) (S' tag)"
  shows "matchWithOuterGroups E S = matchWithOuterGroups E S'"
proof -
  have "outer_groups_loop E S rsi tags m outer matched deferred =
      outer_groups_loop E S' rsi tags m outer matched deferred" for rsi tags m outer matched deferred
  proof (induction tags arbitrary: matched deferred)
    case (Cons tag tags)
    note any = matchAnyHeadlessRule_alike [OF assms [of tag]]
    from mergeableRuleIn_alike [OF assms [of tag]] show ?case
    proof (cases rule: option.rel_cases)
      case None
      then show ?thesis by (simp add: Cons.IH any split: prod.split)
    next
      case (Some r r')
      then show ?thesis by (simp add: Cons.IH default_rule_alike(2) [OF Some(3)] Let_def split: prod.split option.split)
    qed
  qed simp
  then show ?thesis by (simp add: fun_eq_iff matchWithOuterGroups_def)
qed

subsection \<open>Building alike\<close>

text \<open>A step that succeeds whenever another one does, with an alike rule.\<close>

definition step_alike :: "env \<Rightarrow> build_step \<Rightarrow> build_step \<Rightarrow> bool" where
  "step_alike E s s' \<longleftrightarrow>
     (\<forall>b b' r. rule_alike E b b' \<longrightarrow> s b = Inr r \<longrightarrow> (\<exists>r'. s' b' = Inr r' \<and> rule_alike E r r'))"

lemma run_steps_alike:
  assumes "list_all2 (step_alike E) ss ss'" "rule_alike E b b'" "run_steps ss b = Inr r"
  shows "\<exists>r'. run_steps ss' b' = Inr r' \<and> rule_alike E r r'"
  using assms
proof (induction ss ss' arbitrary: b b' rule: list_all2_induct)
  case (Cons s ss s' ss')
  from Cons.prems(2) obtain r1 where r1: "s b = Inr r1" "run_steps ss r1 = Inr r" by auto
  then obtain r1' where "s' b' = Inr r1'" "rule_alike E r1 r1'"
    using Cons.hyps(1) Cons.prems(1) unfolding step_alike_def by blast
  then show ?case using Cons.IH [OF _ r1(2)] by auto
qed simp

definition place_alike :: "(RuleItem \<Rightarrow> abstractDefaultRule \<Rightarrow> abstractDefaultRule) \<Rightarrow> bool" where
  "place_alike place \<longleftrightarrow>
     (\<forall>E i j r r'. item_alike E i j \<longrightarrow> rule_alike E r r' \<longrightarrow> rule_alike E (place i r) (place j r'))"

lemma places_alike [simp]:
  "place_alike to_items" "place_alike to_srcAddr" "place_alike to_srcPort" "place_alike to_dstAddr"
  "place_alike to_dstCIDR" "place_alike to_dstPort"
  by (auto simp: place_alike_def rule_alike_def place_defs intro!: list_all2_appendI)

lemma step_alike_plain:
  "place_alike place \<Longrightarrow> (c \<Longrightarrow> item_alike E i j) \<Longrightarrow> step_alike E (plain c i place) (plain c j place)"
  by (auto simp: step_alike_def plain_def place_alike_def)

lemma step_alike_checked:
  "place_alike place \<Longrightarrow> step_alike E (checked c name res place) (checked c name res place)"
  by (auto simp: step_alike_def checked_def place_alike_def split: sum.splits)

lemma step_alike_checked_plain:
  assumes "place_alike place" "\<And>i. res = Inr i \<Longrightarrow> item_alike E i j"
  shows "step_alike E (checked True name res place) (plain True j place)"
  using assms by (auto simp: step_alike_def checked_def plain_def place_alike_def split: sum.splits)

lemma step_alike_Inr [simp]: "step_alike E Inr Inr"
  by (simp add: step_alike_def)

lemmas step_alike_intros = step_alike_plain step_alike_checked step_alike_Inr places_alike item_alike_refl

end
