(* ===== verification/SRS_Round.thy ===== *)
theory SRS_Round
  imports SRS_Codec Rule_Alike
begin

text \<open>
  Reading back what was written in the binary rule-set format: first the parts of an item, then the
  items of a default rule, then rules and files. \<open>compiled_options\<close> says what a default rule becomes
  on the way: lists that are empty disappear, and domains and address ranges are replaced by matchers.
\<close>

subsection \<open>What is assumed of the libraries\<close>

definition addr_ok :: "addr \<Rightarrow> bool" where
  "addr_ok a = (addr_IsValid a \<and> \<not> addr_hasZone a)"

text \<open>
  The documented behaviour of the library functions: integers are encoded like \<^verbatim>\<open>encoding/binary\<close> does, a
  slice is its length and its elements, a written matcher can be read and the one that is read matches
  the same names, compressed data can be read back, an address is made of its bytes, and a new key is
  put at the end of an ordered map. How a matcher represents its names (their order, repetitions, the
  encoding chosen by the legacy flag) is left to the library.
\<close>

definition srs_lib_ok :: "env \<Rightarrow> srs_lib \<Rightarrow> bool" where
  "srs_lib_ok E L \<longleftrightarrow>
     (\<forall>x. lib_WriteUvarint L x = AppendUvarint x) \<and>
     (\<forall>xs rest. length xs < 2 ^ 64 \<longrightarrow>
        (\<exists>s. elems s = xs \<and> lib_ReadSlice8 L (AppendUvarint (of_nat (length xs)) @ xs @ rest) = Inr (s, rest))) \<and>
     (\<forall>xs rest. length xs < 2 ^ 64 \<longrightarrow>
        (\<exists>s. elems s = xs \<and>
             lib_ReadSlice16 L (AppendUvarint (of_nat (length xs)) @ concat (map be16 xs) @ rest) = Inr (s, rest))) \<and>
     (\<forall>d s legacy. (d \<noteq> [] \<or> s \<noteq> []) \<and> [] \<notin> set d \<and> [] \<notin> set s \<longrightarrow>
        (\<exists>m. (\<forall>rest. lib_ReadMatcher L (lib_Matcher_Write L (NewMatcher d s legacy) @ rest) = Inr (m, rest)) \<and>
             x_Matcher_Match E m = x_Matcher_Match E (NewMatcher d s legacy))) \<and>
     (\<forall>d. d \<noteq> [] \<longrightarrow>
        (\<exists>m. (\<forall>rest. lib_ReadAdGuardMatcher L (lib_AdGuardMatcher_Write L (NewAdGuardMatcher d) @ rest) = Inr (m, rest)) \<and>
             x_AdGuardMatcher_Match E m = x_AdGuardMatcher_Match E (NewAdGuardMatcher d))) \<and>
     (\<forall>a. addr_ok a \<longrightarrow> lib_AddrFromIP L (addr_AsSlice a) = a) \<and>
     (\<forall>m k v. k \<notin> fst ` set m \<longrightarrow> lib_Put L m k v = m @ [(k, v)]) \<and>
     (\<forall>bs. lib_Inflate L (lib_Deflate L bs) = Some bs)"

text \<open>The matcher that is read when a matcher was written.\<close>

definition reread_matcher :: "srs_lib \<Rightarrow> domain_Matcher \<Rightarrow> domain_Matcher" where
  "reread_matcher L m = (case lib_ReadMatcher L (lib_Matcher_Write L m) of Inl _ \<Rightarrow> m | Inr (m', _) \<Rightarrow> m')"

definition reread_adguard :: "srs_lib \<Rightarrow> domain_AdGuardMatcher \<Rightarrow> domain_AdGuardMatcher" where
  "reread_adguard L m = (case lib_ReadAdGuardMatcher L (lib_AdGuardMatcher_Write L m) of Inl _ \<Rightarrow> m | Inr (m', _) \<Rightarrow> m')"

text \<open>The set builder of \<^verbatim>\<open>netipx\<close> gives ranges of valid addresses without zones.\<close>

definition ipset_builder_ok :: "build_env \<Rightarrow> bool" where
  "ipset_builder_ok B \<longleftrightarrow>
     (\<forall>cs s. b_BuildIPSet B cs = Some s \<longrightarrow> list_all (\<lambda>(from, to). addr_ok from \<and> addr_ok to) s)"

lemma lib_okD:
  assumes "srs_lib_ok E L"
  shows "lib_WriteUvarint L x = AppendUvarint x"
    and "length xs < 2 ^ 64 \<Longrightarrow>
      \<exists>s. elems s = xs \<and> lib_ReadSlice8 L (AppendUvarint (of_nat (length xs)) @ xs @ rest) = Inr (s, rest)"
    and "length ys < 2 ^ 64 \<Longrightarrow>
      \<exists>s. elems s = ys \<and> lib_ReadSlice16 L (AppendUvarint (of_nat (length ys)) @ concat (map be16 ys) @ rest) = Inr (s, rest)"
    and "addr_ok a \<Longrightarrow> lib_AddrFromIP L (addr_AsSlice a) = a"
    and "k \<notin> fst ` set m \<Longrightarrow> lib_Put L m k v = m @ [(k, v)]"
    and "lib_Inflate L (lib_Deflate L bs) = Some bs"
  using assms by (simp_all add: srs_lib_ok_def)

lemma lib_ok_matcher:
  assumes "srs_lib_ok E L" "d \<noteq> [] \<or> s \<noteq> []" "[] \<notin> set d" "[] \<notin> set s"
  shows "lib_ReadMatcher L (lib_Matcher_Write L (NewMatcher d s legacy) @ rest) =
         Inr (reread_matcher L (NewMatcher d s legacy), rest)"
    and "x_Matcher_Match E (reread_matcher L (NewMatcher d s legacy)) = x_Matcher_Match E (NewMatcher d s legacy)"
proof -
  obtain m where m: "\<And>rest. lib_ReadMatcher L (lib_Matcher_Write L (NewMatcher d s legacy) @ rest) = Inr (m, rest)"
      "x_Matcher_Match E m = x_Matcher_Match E (NewMatcher d s legacy)"
    using assms unfolding srs_lib_ok_def by meson
  then have "reread_matcher L (NewMatcher d s legacy) = m"
    using m(1) [of "[]"] by (simp add: reread_matcher_def)
  then show "lib_ReadMatcher L (lib_Matcher_Write L (NewMatcher d s legacy) @ rest) =
         Inr (reread_matcher L (NewMatcher d s legacy), rest)"
    and "x_Matcher_Match E (reread_matcher L (NewMatcher d s legacy)) = x_Matcher_Match E (NewMatcher d s legacy)"
    using m by simp_all
qed

lemma lib_ok_adguard:
  assumes "srs_lib_ok E L" "d \<noteq> []"
  shows "lib_ReadAdGuardMatcher L (lib_AdGuardMatcher_Write L (NewAdGuardMatcher d) @ rest) =
         Inr (reread_adguard L (NewAdGuardMatcher d), rest)"
    and "x_AdGuardMatcher_Match E (reread_adguard L (NewAdGuardMatcher d)) = x_AdGuardMatcher_Match E (NewAdGuardMatcher d)"
proof -
  obtain m where m: "\<And>rest. lib_ReadAdGuardMatcher L (lib_AdGuardMatcher_Write L (NewAdGuardMatcher d) @ rest) = Inr (m, rest)"
      "x_AdGuardMatcher_Match E m = x_AdGuardMatcher_Match E (NewAdGuardMatcher d)"
    using assms unfolding srs_lib_ok_def by meson
  then have "reread_adguard L (NewAdGuardMatcher d) = m"
    using m(1) [of "[]"] by (simp add: reread_adguard_def)
  then show "lib_ReadAdGuardMatcher L (lib_AdGuardMatcher_Write L (NewAdGuardMatcher d) @ rest) =
         Inr (reread_adguard L (NewAdGuardMatcher d), rest)"
    and "x_AdGuardMatcher_Match E (reread_adguard L (NewAdGuardMatcher d)) = x_AdGuardMatcher_Match E (NewAdGuardMatcher d)"
    using m by simp_all
qed

subsection \<open>Lengths\<close>

lemma AppendUvarint_nonempty [simp]: "AppendUvarint x \<noteq> []"
  by (subst AppendUvarint.simps) simp

lemma length_concat_ge: "(\<And>x. x \<in> set xs \<Longrightarrow> f x \<noteq> []) \<Longrightarrow> length xs \<le> length (concat (map f xs))"
proof (induction xs)
  case (Cons x xs)
  then have "f x \<noteq> []" "length xs \<le> length (concat (map f xs))" by auto
  then show ?case by (cases "f x") auto
qed simp

lemma length_concat_elem: "x \<in> set xs \<Longrightarrow> length (f x) \<le> length (concat (map f xs))"
  by (induction xs) auto

lemma unat_of_length: "n < 2 ^ 64 \<Longrightarrow> unat (of_nat n :: 64 word) = n"
  by (simp add: unat_of_nat)

subsection \<open>Parts of an item\<close>

lemma addr_bytes:
  assumes "addr_ok a"
  shows "length (addr_AsSlice a) = 4 \<or> length (addr_AsSlice a) = 16"
  using assms by (cases a) (simp_all add: addr_ok_def)

lemma addr_len_word:
  assumes "addr_ok a"
  shows "(of_nat (length (addr_AsSlice a)) :: 64 word) = 4 \<or> (of_nat (length (addr_AsSlice a)) :: 64 word) = 16"
    and "unat (of_nat (length (addr_AsSlice a)) :: 64 word) = length (addr_AsSlice a)"
  using addr_bytes [OF assms] by auto

lemma readIPSetAddr_write:
  assumes "srs_lib_ok E L" "addr_ok a"
  shows "readIPSetAddr L (write_addr L a @ rest) = Inr (a, rest)"
  using addr_len_word [OF assms(2)] lib_okD(1,4) [OF assms(1)] assms(2)
  by (simp add: readIPSetAddr_def write_addr_def)

lemma write_addr_nonempty [simp]: "srs_lib_ok E L \<Longrightarrow> write_addr L a \<noteq> []"
  by (simp add: write_addr_def lib_okD)

lemma readIPSet_write:
  assumes "srs_lib_ok E L" "list_all (\<lambda>(from, to). addr_ok from \<and> addr_ok to) rr" "length (writeIPSet L rr) < 2 ^ 64"
  shows "readIPSet L (writeIPSet L rr @ rest) = Inr (rr, rest)"
proof -
  let ?w = "\<lambda>(from, to). write_addr L from @ write_addr L to"
  have "length rr \<le> length (concat (map ?w rr))"
    using assms(1) by (intro length_concat_ge) auto
  then have len: "unat (of_nat (length rr) :: 64 word) = length rr"
    using assms(3) by (intro unat_of_length) (simp add: writeIPSet_def)
  have "read_n (length rr) (readIPRange L) (concat (map ?w rr) @ rest) = Inr (map (\<lambda>r. r) rr, rest)"
    using assms(2) readIPSetAddr_write [OF assms(1)]
    by (intro read_n_concat) (auto simp: readIPRange_def list_all_iff)
  then show ?thesis
    by (simp add: readIPSet_def writeIPSet_def len del: be_bytes.simps)
qed

definition prefix_ok :: "prefix \<Rightarrow> bool" where
  "prefix_ok p = (prefix_wf p \<and> prefix_IsValid p)"

lemma uint_prefix_Bits:
  assumes "prefix_wf p" "prefix_IsValid p"
  shows "uint (word_of_int (prefix_Bits p) :: byte) = prefix_Bits p"
proof (cases "prefix_bits p")
  case None
  then show ?thesis using assms by (simp add: prefix_IsValid_def)
next
  case (Some b)
  then have "b \<le> 128" using assms addr_BitLen_le [of "prefix_Addr p"] by (simp add: prefix_wf_def)
  then show ?thesis using Some by (simp add: prefix_Bits_def unsigned_of_nat take_bit_nat_eq_self)
qed

lemma readPrefix_write:
  assumes "srs_lib_ok E L" "prefix_ok p"
  shows "readPrefix L (writePrefix L p @ rest) = Inr (p, rest)"
proof -
  have a: "addr_ok (prefix_Addr p)"
    using assms(2) by (cases "prefix_bits p") (auto simp: prefix_ok_def prefix_wf_def prefix_IsValid_def addr_ok_def)
  have "PrefixFrom (prefix_Addr p) (uint (word_of_int (prefix_Bits p) :: byte)) = p"
    using assms(2) by (simp add: prefix_ok_def PrefixFrom_Bits uint_prefix_Bits)
  then show ?thesis
    using addr_len_word [OF a] lib_okD(1,4) [OF assms(1)] a
    by (simp add: readPrefix_def writePrefix_def write_addr_def)
qed

lemma read_prefixes_write:
  assumes "srs_lib_ok E L" "list_all prefix_ok ps" "length (write_prefixes L ps) < 2 ^ 64"
  shows "read_prefixes L (write_prefixes L ps @ rest) = Inr (ps, rest)"
proof -
  have "length ps \<le> length (concat (map (writePrefix L) ps))"
    by (intro length_concat_ge) (simp add: writePrefix_def)
  then have len: "unat (of_nat (length ps) :: 64 word) = length ps"
    using assms(3) by (intro unat_of_length) (simp add: write_prefixes_def)
  have "read_n (length ps) (readPrefix L) (concat (map (writePrefix L) ps) @ rest) = Inr (map (\<lambda>p. p) ps, rest)"
    using assms(2) readPrefix_write [OF assms(1)] by (intro read_n_concat) (auto simp: list_all_iff)
  then show ?thesis
    by (simp add: read_prefixes_def write_prefixes_def lib_okD(1) [OF assms(1)] len)
qed

lemma foldl_Put:
  assumes "srs_lib_ok E L" "distinct (map fst (m @ es))"
  shows "foldl (\<lambda>m (k, v). lib_Put L m k v) m es = m @ es"
  using assms(2)
proof (induction es arbitrary: m)
  case (Cons e es)
  obtain k v where e: "e = (k, v)" by (cases e)
  have "lib_Put L m k v = m @ [(k, v)]"
    using Cons.prems e by (intro lib_okD(5) [OF assms(1)]) auto
  then show ?case using Cons e by simp
qed simp

lemma read_interface_write:
  assumes "srs_lib_ok E L" "list_all prefix_ok (snd e)" "length (write_interface L e) < 2 ^ 64"
  shows "read_interface L (write_interface L e @ rest) = Inr (e, rest)"
  using assms read_prefixes_write [OF assms(1), of "snd e" rest]
  by (cases e) (simp add: read_interface_def write_interface_def)

lemma read_interfaces_write:
  assumes "srs_lib_ok E L" "list_all (\<lambda>e. list_all prefix_ok (snd e)) es" "distinct (map fst es)"
    and "length (concat (map (write_interface L) es)) < 2 ^ 64"
  shows "read_interfaces L (lib_WriteUvarint L (of_nat (length es)) @ concat (map (write_interface L) es) @ rest) = Inr (es, rest)"
proof -
  have "length es \<le> length (concat (map (write_interface L) es))"
    by (intro length_concat_ge) (auto simp: write_interface_def)
  then have len: "unat (of_nat (length es) :: 64 word) = length es"
    using assms(4) by (intro unat_of_length) simp
  have "length (write_interface L e) < 2 ^ 64" if "e \<in> set es" for e
    using length_concat_elem [OF that, of "write_interface L"] assms(4) by simp
  then have "read_n (length es) (read_interface L) (concat (map (write_interface L) es) @ rest) = Inr (map (\<lambda>e. e) es, rest)"
    using assms(2) read_interface_write [OF assms(1)]
    by (intro read_n_concat) (auto simp: list_all_iff)
  then show ?thesis
    using foldl_Put [OF assms(1), of "[]" es] assms(3)
    by (simp add: read_interfaces_def lib_okD(1) [OF assms(1)] len)
qed

lemma slice_of_elems: "elems s = xs \<Longrightarrow> xs \<noteq> [] \<Longrightarrow> s = Some xs"
  by (cases s) auto

lemma nonempty_elems: "nonempty s \<Longrightarrow> elems s \<noteq> [] \<and> Some (elems s) = s"
  by (cases s) (auto simp: nonempty_def)

lemma readRuleItemString_write:
  assumes "srs_lib_ok E L" "length (writeRuleItemString L t ss) < 2 ^ 64"
  shows "readRuleItemString L (tl (writeRuleItemString L t ss) @ rest) = Inr (appended ss, rest)"
proof -
  let ?w = "\<lambda>s. lib_WriteUvarint L (of_nat (length s)) @ string_bytes s"
  let ?r = "\<lambda>b. bindE (lib1 (lib_ReadSlice8 L) b) (\<lambda>(v, b'). Inr (bytes_string (elems v), b'))"
  have total: "length (concat (map ?w ss)) < 2 ^ 64" using assms(2) by (simp add: writeRuleItemString_def)
  have "length ss \<le> length (concat (map ?w ss))"
    using lib_okD(1) [OF assms(1)] by (intro length_concat_ge) simp
  then have len: "unat (of_nat (length ss) :: 64 word) = length ss"
    using total by (intro unat_of_length) simp
  have "?r (?w s @ bs) = Inr (s, bs)" if "s \<in> set ss" for s bs
  proof -
    have "length (string_bytes s) < 2 ^ 64"
      using length_concat_elem [OF that, of ?w] total by simp
    from lib_okD(2) [OF assms(1) this, of bs] lib_okD(1) [OF assms(1)]
    show ?thesis by auto
  qed
  then have "read_n (length ss) ?r (concat (map ?w ss) @ rest) = Inr (map (\<lambda>s. s) ss, rest)"
    by (intro read_n_concat) auto
  then show ?thesis
    by (simp add: readRuleItemString_def writeRuleItemString_def lib_okD(1) [OF assms(1)] len)
qed

subsection \<open>Items\<close>

text \<open>Bytes that are nothing, or an item whose reading updates the rule by \<open>upd\<close>.\<close>

definition reads_as :: "srs_lib \<Rightarrow> bytes \<Rightarrow> (headless_options \<Rightarrow> headless_options) \<Rightarrow> bool" where
  "reads_as L b upd \<longleftrightarrow>
     b = [] \<and> (\<forall>r. upd r = r) \<or>
     (\<exists>t p. b = t # p \<and> t \<noteq> ruleItemFinal \<and>
        (\<forall>prev r rest. read_item L False t prev r (p @ rest) = Inr (upd r, rest)))"

definition item_as :: "srs_lib \<Rightarrow> (srs_write_error, bytes) res \<Rightarrow> (headless_options \<Rightarrow> headless_options) \<Rightarrow> bool" where
  "item_as L w upd = (\<forall>b. w = Inr b \<longrightarrow> length b < 2 ^ 64 \<longrightarrow> reads_as L b upd)"

lemma read_items_write:
  assumes "list_all2 (item_as L) ws upds" "write_all ws = Inr bs" "length bs < 2 ^ 64" "n > length bs"
  shows "read_items L False n prev r (bs @ ruleItemFinal # write_bool invert @ rest) =
         Inr ((fold (\<lambda>u. u) upds r)\<lparr>hl_Invert := invert\<rparr>, rest)"
  using assms
proof (induction ws upds arbitrary: bs n prev r rule: list_all2_induct)
  case Nil
  then obtain k where "n = Suc k" by (cases n) auto
  with Nil show ?case by simp
next
  case (Cons w ws u upds)
  from Cons.prems(1) obtain b bs' where w: "w = Inr b" "write_all ws = Inr bs'" "bs = b @ bs'" by auto
  then have "reads_as L b u" using Cons.hyps(1) Cons.prems(2) by (simp add: item_as_def)
  then consider "b = []" "\<And>r. u r = r" | t p where "b = t # p" "t \<noteq> ruleItemFinal"
      "\<And>prev r rest. read_item L False t prev r (p @ rest) = Inr (u r, rest)"
    unfolding reads_as_def by blast
  then show ?case
  proof cases
    case 1
    then show ?thesis using Cons.IH [OF w(2), of n prev r] Cons.prems w by simp
  next
    case 2
    obtain k where k: "n = Suc k" "k > length bs'" using Cons.prems(3) 2(1) w(3) by (cases n) auto
    show ?thesis
      using Cons.IH [OF w(2), of k t "u r"] Cons.prems w 2 k by simp
  qed
qed

lemma item_as_field:
  assumes "c \<Longrightarrow> length item < 2 ^ 64 \<Longrightarrow> reads_as L item u" "\<not> c \<Longrightarrow> (\<And>r. u r = r)"
  shows "item_as L (write_field c item) u"
  using assms by (auto simp: item_as_def write_field_def reads_as_def)

lemma item_as_since:
  assumes "c \<Longrightarrow> length item < 2 ^ 64 \<Longrightarrow> reads_as L item u" "\<not> c \<Longrightarrow> (\<And>r. u r = r)"
  shows "item_as L (write_since since name v c item) u"
  using assms by (auto simp: item_as_def write_since_def reads_as_def split: if_splits)

text \<open>An item that is read by one of the readers of the previous section into one field.\<close>

lemma reads_as_string:
  assumes "srs_lib_ok E L" "nonempty s" "length (writeRuleItemString L t (elems s)) < 2 ^ 64" "t \<noteq> ruleItemFinal"
    and "\<And>prev r bs. read_item L False t prev r bs = read_field (readRuleItemString L) store r bs"
    and "\<And>r. store s r = u r"
  shows "reads_as L (writeRuleItemString L t (elems s)) u"
proof -
  have "appended (elems s) = s" using nonempty_elems [OF assms(2)] by (simp add: appended_def)
  then show ?thesis
    using readRuleItemString_write [OF assms(1,3)] assms(4-)
    by (simp add: reads_as_def read_field_def writeRuleItemString_def)
qed

lemma reads_as_uint16:
  assumes "srs_lib_ok E L" "nonempty s" "length (writeRuleItemUint16 L t (elems s)) < 2 ^ 64" "t \<noteq> ruleItemFinal"
    and "\<And>prev r bs. read_item L False t prev r bs = read_field (lib1 (lib_ReadSlice16 L)) store r bs"
    and "\<And>r. store s r = u r"
  shows "reads_as L (writeRuleItemUint16 L t (elems s)) u"
proof -
  have n: "elems s \<noteq> []" "Some (elems s) = s" using nonempty_elems [OF assms(2)] by auto
  have "length (elems s) \<le> length (concat (map be16 (elems s)))"
    by (intro length_concat_ge) (simp add: length_greater_0_conv [symmetric] del: length_greater_0_conv be_bytes.simps)
  then have len: "length (elems s) < 2 ^ 64"
    using assms(3) by (simp add: writeRuleItemUint16_def del: be_bytes.simps)
  have "lib_ReadSlice16 L (AppendUvarint (of_nat (length (elems s))) @ concat (map be16 (elems s)) @ rest) = Inr (s, rest)" for rest
    using lib_okD(3) [OF assms(1) len, of rest] slice_of_elems n by fastforce
  then show ?thesis
    using assms(4-) by (simp add: reads_as_def read_field_def writeRuleItemUint16_def lib_okD(1) [OF assms(1)] del: be_bytes.simps)
qed

lemma reads_as_uint8:
  assumes "srs_lib_ok E L" "nonempty s" "length (writeRuleItemUint8 L t (elems s)) < 2 ^ 64" "t \<noteq> ruleItemFinal"
    and "\<And>prev r bs. read_item L False t prev r bs = read_field (lib1 (lib_ReadSlice8 L)) store r bs"
    and "\<And>r. store s r = u r"
  shows "reads_as L (writeRuleItemUint8 L t (elems s)) u"
proof -
  have n: "elems s \<noteq> []" "Some (elems s) = s" using nonempty_elems [OF assms(2)] by auto
  have len: "length (elems s) < 2 ^ 64" using assms(3) by (simp add: writeRuleItemUint8_def)
  have "lib_ReadSlice8 L (AppendUvarint (of_nat (length (elems s))) @ elems s @ rest) = Inr (s, rest)" for rest
    using lib_okD(2) [OF assms(1) len, of rest] slice_of_elems n by fastforce
  then show ?thesis
    using assms(4-) by (simp add: reads_as_def read_field_def writeRuleItemUint8_def lib_okD(1) [OF assms(1)])
qed

lemma item_as_cidr:
  assumes "srs_lib_ok E L" "ipset_builder_ok B" "t \<noteq> ruleItemFinal"
    and "\<And>prev r bs. read_item L False t prev r bs = read_field (readIPSet L) store r bs"
    and "\<And>x r. nonempty s \<Longrightarrow> NewIPCIDRItem (b_ParsePrefix B) (b_ParseAddr B) (b_BuildIPSet B) (elems s) = Inr x \<Longrightarrow> store x r = u r"
    and "\<not> nonempty s \<Longrightarrow> (\<And>r. u r = r)"
  shows "item_as L (write_cidr L B name t s) u"
  unfolding item_as_def
proof (intro allI impI)
  fix b assume w: "write_cidr L B name t s = Inr b" and len: "length b < 2 ^ 64"
  show "reads_as L b u"
  proof (cases "nonempty s")
    case False
    then show ?thesis using w assms(6) by (simp add: write_cidr_def reads_as_def)
  next
    case True
    with w obtain cs x where c: "parse_cidrs (b_ParsePrefix B) (b_ParseAddr B) 0 (elems s) = Inr cs"
        "b_BuildIPSet B cs = Some x" "b = t # writeIPSet L x"
      by (auto simp: write_cidr_def writeRuleItemCIDR_def split: option.splits)
    then have n: "NewIPCIDRItem (b_ParsePrefix B) (b_ParseAddr B) (b_BuildIPSet B) (elems s) = Inr x"
      by (simp add: NewIPCIDRItem_def)
    have "list_all (\<lambda>(from, to). addr_ok from \<and> addr_ok to) x"
      using assms(2) c(2) unfolding ipset_builder_ok_def by blast
    then have "readIPSet L (writeIPSet L x @ rest) = Inr (x, rest)" for rest
      using readIPSet_write [OF assms(1)] c(3) len by simp
    then show ?thesis
      using c(3) assms(3-5) n True by (simp add: reads_as_def read_field_def)
  qed
qed

subsection \<open>Default rules\<close>

text \<open>The address set of a list of strings.\<close>

definition cidr_set :: "build_env \<Rightarrow> string slice \<Rightarrow> IPSet option" where
  "cidr_set B s =
     (case NewIPCIDRItem (b_ParsePrefix B) (b_ParseAddr B) (b_BuildIPSet B) (elems s) of
        Inl _ \<Rightarrow> None | Inr x \<Rightarrow> Some x)"

text \<open>What is stored for a slice: an empty one is read back as nil.\<close>

definition stored :: "'a slice \<Rightarrow> 'a slice" where
  "stored s = (if nonempty s then s else None)"

text \<open>The matchers a default rule is written with for version \<open>v\<close>.\<close>

definition written_matcher :: "nat \<Rightarrow> headless_options \<Rightarrow> domain_Matcher option" where
  "written_matcher v d =
     (if nonempty (hl_Domain d) \<or> nonempty (hl_DomainSuffix d)
      then Some (NewMatcher (elems (hl_Domain d)) (elems (hl_DomainSuffix d)) (v = RuleSetVersion1)) else None)"

definition written_adguard :: "headless_options \<Rightarrow> domain_AdGuardMatcher option" where
  "written_adguard d =
     (if nonempty (hl_AdGuardDomain d) then Some (NewAdGuardMatcher (elems (hl_AdGuardDomain d))) else None)"

text \<open>
  The options that are read back for a default rule, when \<open>matcher\<close> and \<open>adguard\<close> are read for its
  matchers.
\<close>

definition written_options ::
  "build_env \<Rightarrow> headless_options \<Rightarrow> domain_Matcher option \<Rightarrow> domain_AdGuardMatcher option \<Rightarrow> headless_options"
where
  "written_options B d matcher adguard = \<lparr>
     hl_QueryType = stored (hl_QueryType d), hl_Network = stored (hl_Network d),
     hl_Domain = None, hl_DomainSuffix = None,
     hl_DomainKeyword = stored (hl_DomainKeyword d), hl_DomainRegex = stored (hl_DomainRegex d),
     hl_SourceIPCIDR = None, hl_IPCIDR = None,
     hl_SourcePort = stored (hl_SourcePort d), hl_SourcePortRange = stored (hl_SourcePortRange d),
     hl_Port = stored (hl_Port d), hl_PortRange = stored (hl_PortRange d),
     hl_ProcessName = stored (hl_ProcessName d), hl_ProcessPath = stored (hl_ProcessPath d),
     hl_ProcessPathRegex = stored (hl_ProcessPathRegex d), hl_PackageName = stored (hl_PackageName d),
     hl_PackageNameRegex = stored (hl_PackageNameRegex d), hl_NetworkType = stored (hl_NetworkType d),
     hl_NetworkIsExpensive = hl_NetworkIsExpensive d, hl_NetworkIsConstrained = hl_NetworkIsConstrained d,
     hl_WIFISSID = stored (hl_WIFISSID d), hl_WIFIBSSID = stored (hl_WIFIBSSID d),
     hl_NetworkInterfaceAddress = stored (hl_NetworkInterfaceAddress d),
     hl_DefaultInterfaceAddress = stored (hl_DefaultInterfaceAddress d), hl_Invert = hl_Invert d,
     hl_DomainMatcher = matcher,
     hl_SourceIPSet = (if nonempty (hl_SourceIPCIDR d) then cidr_set B (hl_SourceIPCIDR d) else None),
     hl_IPSet = (if nonempty (hl_IPCIDR d) then cidr_set B (hl_IPCIDR d) else None),
     hl_AdGuardDomain = None,
     hl_AdGuardDomainMatcher = adguard\<rparr>"

definition compiled_options :: "srs_lib \<Rightarrow> build_env \<Rightarrow> nat \<Rightarrow> headless_options \<Rightarrow> headless_options" where
  "compiled_options L B v d =
     written_options B d (map_option (reread_matcher L) (written_matcher v d))
       (map_option (reread_adguard L) (written_adguard d))"

text \<open>
  Options that can be written: no empty domain, valid prefixes, and no interface type twice. Values of
  the configuration have these properties.
\<close>

definition srs_options_ok :: "headless_options \<Rightarrow> bool" where
  "srs_options_ok d \<longleftrightarrow>
     [] \<notin> set (elems (hl_Domain d)) \<and> [] \<notin> set (elems (hl_DomainSuffix d)) \<and>
     list_all prefix_ok (elems (hl_DefaultInterfaceAddress d)) \<and>
     list_all (\<lambda>e. list_all prefix_ok (snd e)) (elems (hl_NetworkInterfaceAddress d)) \<and>
     distinct (map fst (elems (hl_NetworkInterfaceAddress d)))"

text \<open>How each item updates the rule that is read.\<close>

definition address_updates :: "srs_lib \<Rightarrow> build_env \<Rightarrow> nat \<Rightarrow> headless_options \<Rightarrow> (headless_options \<Rightarrow> headless_options) list" where
  "address_updates L B v d =
     [hl_QueryType_update (\<lambda>x. if nonempty (hl_QueryType d) then hl_QueryType d else x),
      hl_Network_update (\<lambda>x. if nonempty (hl_Network d) then hl_Network d else x),
      hl_DomainMatcher_update (\<lambda>x. if nonempty (hl_Domain d) \<or> nonempty (hl_DomainSuffix d)
        then Some (reread_matcher L (NewMatcher (elems (hl_Domain d)) (elems (hl_DomainSuffix d)) (v = RuleSetVersion1))) else x),
      hl_DomainKeyword_update (\<lambda>x. if nonempty (hl_DomainKeyword d) then hl_DomainKeyword d else x),
      hl_DomainRegex_update (\<lambda>x. if nonempty (hl_DomainRegex d) then hl_DomainRegex d else x),
      hl_SourceIPSet_update (\<lambda>x. if nonempty (hl_SourceIPCIDR d) then cidr_set B (hl_SourceIPCIDR d) else x),
      hl_IPSet_update (\<lambda>x. if nonempty (hl_IPCIDR d) then cidr_set B (hl_IPCIDR d) else x)]"

definition port_updates :: "headless_options \<Rightarrow> (headless_options \<Rightarrow> headless_options) list" where
  "port_updates d =
     [hl_SourcePort_update (\<lambda>x. if nonempty (hl_SourcePort d) then hl_SourcePort d else x),
      hl_SourcePortRange_update (\<lambda>x. if nonempty (hl_SourcePortRange d) then hl_SourcePortRange d else x),
      hl_Port_update (\<lambda>x. if nonempty (hl_Port d) then hl_Port d else x),
      hl_PortRange_update (\<lambda>x. if nonempty (hl_PortRange d) then hl_PortRange d else x)]"

definition process_updates :: "headless_options \<Rightarrow> (headless_options \<Rightarrow> headless_options) list" where
  "process_updates d =
     [hl_ProcessName_update (\<lambda>x. if nonempty (hl_ProcessName d) then hl_ProcessName d else x),
      hl_ProcessPath_update (\<lambda>x. if nonempty (hl_ProcessPath d) then hl_ProcessPath d else x),
      hl_ProcessPathRegex_update (\<lambda>x. if nonempty (hl_ProcessPathRegex d) then hl_ProcessPathRegex d else x),
      hl_PackageName_update (\<lambda>x. if nonempty (hl_PackageName d) then hl_PackageName d else x),
      hl_PackageNameRegex_update (\<lambda>x. if nonempty (hl_PackageNameRegex d) then hl_PackageNameRegex d else x)]"

definition network_updates :: "srs_lib \<Rightarrow> headless_options \<Rightarrow> (headless_options \<Rightarrow> headless_options) list" where
  "network_updates L d =
     [hl_NetworkType_update (\<lambda>x. if nonempty (hl_NetworkType d) then hl_NetworkType d else x),
      hl_NetworkIsExpensive_update (\<lambda>x. if hl_NetworkIsExpensive d then True else x),
      hl_NetworkIsConstrained_update (\<lambda>x. if hl_NetworkIsConstrained d then True else x),
      hl_NetworkInterfaceAddress_update (\<lambda>x. if nonempty (hl_NetworkInterfaceAddress d) then hl_NetworkInterfaceAddress d else x),
      hl_DefaultInterfaceAddress_update (\<lambda>x. if nonempty (hl_DefaultInterfaceAddress d) then hl_DefaultInterfaceAddress d else x),
      hl_WIFISSID_update (\<lambda>x. if nonempty (hl_WIFISSID d) then hl_WIFISSID d else x),
      hl_WIFIBSSID_update (\<lambda>x. if nonempty (hl_WIFIBSSID d) then hl_WIFIBSSID d else x),
      hl_AdGuardDomainMatcher_update (\<lambda>x. if nonempty (hl_AdGuardDomain d)
        then Some (reread_adguard L (NewAdGuardMatcher (elems (hl_AdGuardDomain d)))) else x)]"

definition item_updates :: "srs_lib \<Rightarrow> build_env \<Rightarrow> nat \<Rightarrow> headless_options \<Rightarrow> (headless_options \<Rightarrow> headless_options) list" where
  "item_updates L B v d = address_updates L B v d @ port_updates d @ process_updates d @ network_updates L d"

lemmas item_updates_defs = item_updates_def address_updates_def port_updates_def process_updates_def network_updates_def

lemma item_updates_compiled:
  "(fold (\<lambda>u. u) (item_updates L B v d) headless_options_zero)\<lparr>hl_Invert := hl_Invert d\<rparr> = compiled_options L B v d"
  by (simp add: item_updates_defs compiled_options_def written_options_def written_matcher_def written_adguard_def
      headless_options_zero_def stored_def)

text \<open>The reader of each item.\<close>

lemma read_item_eqs:
  shows "read_item L False ruleItemQueryType prev r bs =
      read_field (lib1 (lib_ReadSlice16 L)) (\<lambda>x. hl_QueryType_update (\<lambda>_. Some (elems x))) r bs"
    and "read_item L False ruleItemNetwork prev r bs =
      read_field (readRuleItemString L) (\<lambda>x. hl_Network_update (\<lambda>_. x)) r bs"
    and "read_item L False ruleItemDomainKeyword prev r bs =
      read_field (readRuleItemString L) (\<lambda>x. hl_DomainKeyword_update (\<lambda>_. x)) r bs"
    and "read_item L False ruleItemDomainRegex prev r bs =
      read_field (readRuleItemString L) (\<lambda>x. hl_DomainRegex_update (\<lambda>_. x)) r bs"
    and "read_item L False ruleItemSourceIPCIDR prev r bs =
      read_field (readIPSet L) (\<lambda>x r. r\<lparr>hl_SourceIPSet := Some x\<rparr>) r bs"
    and "read_item L False ruleItemIPCIDR prev r bs =
      read_field (readIPSet L) (\<lambda>x r. r\<lparr>hl_IPSet := Some x\<rparr>) r bs"
    and "read_item L False ruleItemSourcePort prev r bs =
      read_field (lib1 (lib_ReadSlice16 L)) (\<lambda>x. hl_SourcePort_update (\<lambda>_. x)) r bs"
    and "read_item L False ruleItemSourcePortRange prev r bs =
      read_field (readRuleItemString L) (\<lambda>x. hl_SourcePortRange_update (\<lambda>_. x)) r bs"
    and "read_item L False ruleItemPort prev r bs =
      read_field (lib1 (lib_ReadSlice16 L)) (\<lambda>x. hl_Port_update (\<lambda>_. x)) r bs"
    and "read_item L False ruleItemPortRange prev r bs =
      read_field (readRuleItemString L) (\<lambda>x. hl_PortRange_update (\<lambda>_. x)) r bs"
    and "read_item L False ruleItemProcessName prev r bs =
      read_field (readRuleItemString L) (\<lambda>x. hl_ProcessName_update (\<lambda>_. x)) r bs"
    and "read_item L False ruleItemProcessPath prev r bs =
      read_field (readRuleItemString L) (\<lambda>x. hl_ProcessPath_update (\<lambda>_. x)) r bs"
    and "read_item L False ruleItemProcessPathRegex prev r bs =
      read_field (readRuleItemString L) (\<lambda>x. hl_ProcessPathRegex_update (\<lambda>_. x)) r bs"
    and "read_item L False ruleItemPackageName prev r bs =
      read_field (readRuleItemString L) (\<lambda>x. hl_PackageName_update (\<lambda>_. x)) r bs"
    and "read_item L False ruleItemPackageNameRegex prev r bs =
      read_field (readRuleItemString L) (\<lambda>x. hl_PackageNameRegex_update (\<lambda>_. x)) r bs"
    and "read_item L False ruleItemNetworkType prev r bs =
      read_field (lib1 (lib_ReadSlice8 L)) (\<lambda>x. hl_NetworkType_update (\<lambda>_. x)) r bs"
    and "read_item L False ruleItemNetworkIsExpensive prev r bs =
      Inr (r\<lparr>hl_NetworkIsExpensive := True\<rparr>, bs)"
    and "read_item L False ruleItemNetworkIsConstrained prev r bs =
      Inr (r\<lparr>hl_NetworkIsConstrained := True\<rparr>, bs)"
    and "read_item L False ruleItemNetworkInterfaceAddress prev r bs =
      read_field (read_interfaces L) (\<lambda>x. hl_NetworkInterfaceAddress_update (\<lambda>_. Some x)) r bs"
    and "read_item L False ruleItemDefaultInterfaceAddress prev r bs =
      read_field (read_prefixes L) (\<lambda>x. hl_DefaultInterfaceAddress_update (\<lambda>_. appended x)) r bs"
    and "read_item L False ruleItemWIFISSID prev r bs =
      read_field (readRuleItemString L) (\<lambda>x. hl_WIFISSID_update (\<lambda>_. x)) r bs"
    and "read_item L False ruleItemWIFIBSSID prev r bs =
      read_field (readRuleItemString L) (\<lambda>x. hl_WIFIBSSID_update (\<lambda>_. x)) r bs"
    and "read_item L False ruleItemAdGuardDomain prev r bs =
      read_field (lib1 (lib_ReadAdGuardMatcher L)) (\<lambda>x r. r\<lparr>hl_AdGuardDomainMatcher := Some x\<rparr>) r bs"
  by (simp_all add: read_item_def rule_item_defs)

lemma item_as_string:
  assumes "srs_lib_ok E L" "t \<noteq> ruleItemFinal"
    and "\<And>prev r bs. read_item L False t prev r bs = read_field (readRuleItemString L) store r bs"
    and "\<And>r. nonempty s \<Longrightarrow> store s r = u r" "\<And>r. \<not> nonempty s \<Longrightarrow> u r = r"
  shows "item_as L (write_field (nonempty s) (writeRuleItemString L t (elems s))) u"
    and "item_as L (write_since since name v (nonempty s) (writeRuleItemString L t (elems s))) u"
  using assms by (auto intro!: item_as_field item_as_since reads_as_string)

lemma item_as_uint16:
  assumes "srs_lib_ok E L" "t \<noteq> ruleItemFinal"
    and "\<And>prev r bs. read_item L False t prev r bs = read_field (lib1 (lib_ReadSlice16 L)) store r bs"
    and "\<And>r. nonempty s \<Longrightarrow> store s r = u r" "\<And>r. \<not> nonempty s \<Longrightarrow> u r = r"
  shows "item_as L (write_field (nonempty s) (writeRuleItemUint16 L t (elems s))) u"
  using assms by (auto intro!: item_as_field reads_as_uint16)

lemma item_as_uint8:
  assumes "srs_lib_ok E L" "t \<noteq> ruleItemFinal"
    and "\<And>prev r bs. read_item L False t prev r bs = read_field (lib1 (lib_ReadSlice8 L)) store r bs"
    and "\<And>r. nonempty s \<Longrightarrow> store s r = u r" "\<And>r. \<not> nonempty s \<Longrightarrow> u r = r"
  shows "item_as L (write_since since name v (nonempty s) (writeRuleItemUint8 L t (elems s))) u"
  using assms by (auto intro!: item_as_since reads_as_uint8)

lemma item_as_flag:
  assumes "t \<noteq> ruleItemFinal" "\<And>prev r bs. read_item L False t prev r bs = Inr (u r, bs)" "\<And>r. \<not> c \<Longrightarrow> u' r = r"
    and "\<And>r. c \<Longrightarrow> u' r = u r"
  shows "item_as L (write_since since name v c [t]) u'"
  using assms by (intro item_as_since) (auto simp: reads_as_def)

lemma item_as_matcher:
  assumes "srs_lib_ok E L" "srs_options_ok d"
    and "\<And>r. nonempty (hl_Domain d) \<or> nonempty (hl_DomainSuffix d) \<Longrightarrow>
      r\<lparr>hl_DomainMatcher := Some (reread_matcher L (NewMatcher (elems (hl_Domain d)) (elems (hl_DomainSuffix d)) legacy))\<rparr> = u r"
    and "\<And>r. \<not> (nonempty (hl_Domain d) \<or> nonempty (hl_DomainSuffix d)) \<Longrightarrow> u r = r"
  shows "item_as L (write_field (nonempty (hl_Domain d) \<or> nonempty (hl_DomainSuffix d))
           (ruleItemDomain # lib_Matcher_Write L (NewMatcher (elems (hl_Domain d)) (elems (hl_DomainSuffix d)) legacy))) u"
proof (rule item_as_field)
  assume c: "nonempty (hl_Domain d) \<or> nonempty (hl_DomainSuffix d)"
  show "reads_as L (ruleItemDomain # lib_Matcher_Write L (NewMatcher (elems (hl_Domain d)) (elems (hl_DomainSuffix d)) legacy)) u"
    using assms c lib_ok_matcher(1) [OF assms(1), of "elems (hl_Domain d)" "elems (hl_DomainSuffix d)"]
    by (simp add: reads_as_def read_item_def rule_item_defs read_field_def read_domain_def srs_options_ok_def
        nonempty_def)
qed (use assms(4) in simp)

lemma item_as_adguard:
  assumes "srs_lib_ok E L"
    and "\<And>r. nonempty s \<Longrightarrow> r\<lparr>hl_AdGuardDomainMatcher := Some (reread_adguard L (NewAdGuardMatcher (elems s)))\<rparr> = u r"
    and "\<And>r. \<not> nonempty s \<Longrightarrow> u r = r"
  shows "item_as L (write_since since name v (nonempty s)
           (ruleItemAdGuardDomain # lib_AdGuardMatcher_Write L (NewAdGuardMatcher (elems s)))) u"
proof (rule item_as_since)
  assume "nonempty s"
  then show "reads_as L (ruleItemAdGuardDomain # lib_AdGuardMatcher_Write L (NewAdGuardMatcher (elems s))) u"
    using assms lib_ok_adguard(1) [OF assms(1), of "elems s"]
    by (simp add: reads_as_def read_item_def rule_item_defs read_field_def nonempty_def)
qed (use assms(3) in simp)

lemma item_as_interfaces:
  assumes "srs_lib_ok E L" "srs_options_ok d"
    and "\<And>r. nonempty (hl_NetworkInterfaceAddress d) \<Longrightarrow>
      r\<lparr>hl_NetworkInterfaceAddress := hl_NetworkInterfaceAddress d\<rparr> = u r"
    and "\<And>r. \<not> nonempty (hl_NetworkInterfaceAddress d) \<Longrightarrow> u r = r"
  shows "item_as L (write_since since name v (nonempty (hl_NetworkInterfaceAddress d))
           (ruleItemNetworkInterfaceAddress #
            lib_WriteUvarint L (of_nat (length (elems (hl_NetworkInterfaceAddress d)))) @
            concat (map (write_interface L) (elems (hl_NetworkInterfaceAddress d))))) u" (is "item_as L (write_since _ _ _ _ ?item) u")
proof (rule item_as_since)
  assume n: "nonempty (hl_NetworkInterfaceAddress d)" and len: "length ?item < 2 ^ 64"
  then have "length (concat (map (write_interface L) (elems (hl_NetworkInterfaceAddress d)))) < 2 ^ 64" by simp
  from read_interfaces_write [OF assms(1) _ _ this] assms(2,3) n nonempty_elems [OF n]
  show "reads_as L ?item u"
    by (simp add: reads_as_def read_item_eqs read_field_def srs_options_ok_def) (simp add: rule_item_defs)
qed (use assms(4) in simp)

lemma item_as_prefixes:
  assumes "srs_lib_ok E L" "srs_options_ok d"
    and "\<And>r. nonempty (hl_DefaultInterfaceAddress d) \<Longrightarrow>
      r\<lparr>hl_DefaultInterfaceAddress := hl_DefaultInterfaceAddress d\<rparr> = u r"
    and "\<And>r. \<not> nonempty (hl_DefaultInterfaceAddress d) \<Longrightarrow> u r = r"
  shows "item_as L (write_since since name v (nonempty (hl_DefaultInterfaceAddress d))
           (ruleItemDefaultInterfaceAddress # write_prefixes L (elems (hl_DefaultInterfaceAddress d)))) u" (is "item_as L (write_since _ _ _ _ ?item) u")
proof (rule item_as_since)
  assume n: "nonempty (hl_DefaultInterfaceAddress d)" and len: "length ?item < 2 ^ 64"
  then have "length (write_prefixes L (elems (hl_DefaultInterfaceAddress d))) < 2 ^ 64" by simp
  from read_prefixes_write [OF assms(1) _ this] assms(2,3) n nonempty_elems [OF n]
  show "reads_as L ?item u"
    by (simp add: reads_as_def read_item_eqs read_field_def srs_options_ok_def appended_def) (simp add: rule_item_defs)
qed (use assms(4) in simp)

lemma cidr_set_Inr:
  "NewIPCIDRItem (b_ParsePrefix B) (b_ParseAddr B) (b_BuildIPSet B) (elems s) = Inr x \<Longrightarrow> cidr_set B s = Some x"
  by (simp add: cidr_set_def)

lemma address_items_as:
  assumes "srs_lib_ok E L" "ipset_builder_ok B" "srs_options_ok d"
  shows "list_all2 (item_as L) (write_address_items L B d v) (address_updates L B v d)"
  unfolding write_address_items_def address_updates_def list.rel_inject list_all2_Nil simp_thms
  by (intro conjI item_as_string [OF assms(1)] item_as_uint16 [OF assms(1)] item_as_cidr [OF assms(1,2)]
      item_as_matcher [OF assms(1,3)])
     (rule read_item_eqs | simp add: rule_item_defs nonempty_elems cidr_set_Inr)+

lemma port_items_as:
  assumes "srs_lib_ok E L"
  shows "list_all2 (item_as L) (write_port_items L d) (port_updates d)"
  unfolding write_port_items_def port_updates_def list.rel_inject list_all2_Nil simp_thms
  by (intro conjI item_as_string [OF assms(1)] item_as_uint16 [OF assms(1)])
     (rule read_item_eqs | simp add: rule_item_defs)+

lemma process_items_as:
  assumes "srs_lib_ok E L"
  shows "list_all2 (item_as L) (write_process_items L d v) (process_updates d)"
  unfolding write_process_items_def process_updates_def list.rel_inject list_all2_Nil simp_thms
  by (intro conjI item_as_string [OF assms(1)]) (rule read_item_eqs | simp add: rule_item_defs)+

lemma network_items_as:
  assumes "srs_lib_ok E L" "srs_options_ok d"
  shows "list_all2 (item_as L) (write_network_items L d v) (network_updates L d)"
  unfolding write_network_items_def network_updates_def list.rel_inject list_all2_Nil simp_thms
  by (intro conjI item_as_string [OF assms(1)] item_as_uint8 [OF assms(1)] item_as_flag
      item_as_interfaces [OF assms] item_as_prefixes [OF assms] item_as_adguard [OF assms(1)])
     (rule read_item_eqs | simp add: rule_item_defs)+

lemma write_items_as:
  assumes "srs_lib_ok E L" "ipset_builder_ok B" "srs_options_ok d"
  shows "list_all2 (item_as L) (write_items L B d v) (item_updates L B v d)"
  unfolding write_items_def item_updates_def
  using assms by (intro list_all2_appendI address_items_as port_items_as process_items_as network_items_as)

lemma readDefaultRule_write:
  assumes "srs_lib_ok E L" "ipset_builder_ok B" "srs_options_ok d"
    and "writeDefaultRule L B d v = Inr bs" "length bs < 2 ^ 64"
  shows "\<exists>body. bs = 0 # body \<and> readDefaultRule L False (body @ rest) = Inr (compiled_options L B v d, rest)"
proof -
  obtain items where w: "write_all (write_items L B d v) = Inr items"
      "bs = 0 # items @ ruleItemFinal # write_bool (hl_Invert d)"
    using assms(4) by (auto simp: writeDefaultRule_def)
  have "readDefaultRule L False (items @ ruleItemFinal # write_bool (hl_Invert d) @ rest) = Inr (compiled_options L B v d, rest)"
    unfolding readDefaultRule_def using assms(5) w(2)
    by (subst read_items_write [OF write_items_as [OF assms(1-3)] w(1)]) (simp_all add: item_updates_compiled)
  then show ?thesis using w(2) by (intro exI [of _ "items @ ruleItemFinal # write_bool (hl_Invert d)"]) simp
qed

subsection \<open>Rules and files\<close>

text \<open>How deep rules are nested below a rule, and what it becomes when it is written and read back.\<close>

fun rule_depth :: "HeadlessRuleOptions \<Rightarrow> nat" where
  "rule_depth (HeadlessRuleOptions t d mode rules invert) =
     (if t = RuleTypeLogical then Max (set (0 # map (\<lambda>r. Suc (rule_depth r)) rules)) else 0)"

fun compiled_rule :: "srs_lib \<Rightarrow> build_env \<Rightarrow> nat \<Rightarrow> HeadlessRuleOptions \<Rightarrow> HeadlessRuleOptions" where
  "compiled_rule L B v (HeadlessRuleOptions t d mode rules invert) =
     (if t = RuleTypeLogical
      then HeadlessRuleOptions t headless_options_zero mode (map (compiled_rule L B v) rules) invert
      else HeadlessRuleOptions t (compiled_options L B v d) [] [] False)"

fun srs_rule_ok :: "HeadlessRuleOptions \<Rightarrow> bool" where
  "srs_rule_ok (HeadlessRuleOptions t d mode rules invert) =
     (if t = RuleTypeLogical then list_all srs_rule_ok rules else srs_options_ok d)"

lemma write_all_concat:
  "write_all (map f xs) = Inr bs \<Longrightarrow> \<exists>g. bs = concat (map g xs) \<and> (\<forall>x\<in>set xs. f x = Inr (g x))"
proof (induction xs arbitrary: bs)
  case (Cons x xs)
  then obtain b bs' where b: "f x = Inr b" "write_all (map f xs) = Inr bs'" "bs = b @ bs'" by auto
  from Cons.IH [OF b(2)] obtain g where "bs' = concat (map g xs)" "\<forall>y\<in>set xs. f y = Inr (g y)" by blast
  then have g: "bs' = concat (map (\<lambda>y. projr (f y)) xs)" "\<forall>y\<in>set xs. f y = Inr (projr (f y))"
    by (auto intro: arg_cong [of _ _ concat])
  show ?case using b g by (intro exI [of _ "\<lambda>y. projr (f y)"]) auto
qed simp

lemma read_at_concat:
  assumes "\<And>x bs. x \<in> set xs \<Longrightarrow> read (write x @ bs) = Inr (f x, bs)" "n = length xs"
  shows "read_at w i n read (concat (map write xs) @ bs) = Inr (map f xs, bs)"
  using assms by (induction xs arbitrary: n i) simp_all

lemma writeRule_nonempty: "writeRule L B v r = Inr bs \<Longrightarrow> bs \<noteq> []"
  by (cases r) (auto simp: writeDefaultRule_def writeLogicalRule_def split: if_splits)

text \<open>A list of written rules, with a reader that reads each of them.\<close>

lemma read_rules_write:
  assumes "srs_lib_ok E L" "write_all (map (writeRule L B v) rules) = Inr body" "length body < 2 ^ 64"
    and "\<And>r bs rest. r \<in> set rules \<Longrightarrow> writeRule L B v r = Inr bs \<Longrightarrow> length bs < 2 ^ 64 \<Longrightarrow>
           read (bs @ rest) = Inr (compiled_rule L B v r, rest)"
  shows "unat (of_nat (length rules) :: 64 word) = length rules"
    and "read_at w i (length rules) read (body @ rest) = Inr (map (compiled_rule L B v) rules, rest)"
proof -
  obtain g where g: "body = concat (map g rules)" "\<forall>r\<in>set rules. writeRule L B v r = Inr (g r)"
    using write_all_concat [OF assms(2)] by blast
  have "length rules \<le> length body"
    unfolding g(1) using g(2) writeRule_nonempty by (intro length_concat_ge) blast
  then show "unat (of_nat (length rules) :: 64 word) = length rules"
    using assms(3) by (intro unat_of_length) simp
  have "length (g r) < 2 ^ 64" if "r \<in> set rules" for r
    using length_concat_elem [OF that, of g] assms(3) g(1) by simp
  then show "read_at w i (length rules) read (body @ rest) = Inr (map (compiled_rule L B v) rules, rest)"
    unfolding g(1) using g(2) assms(4) by (intro read_at_concat) auto
qed

lemma rule_depth_sub:
  assumes "rule_depth (HeadlessRuleOptions RuleTypeLogical d mode rules invert) < Suc n" "r \<in> set rules"
  shows "rule_depth r < n"
  using assms by auto

lemma readRule_write:
  assumes "srs_lib_ok E L" "ipset_builder_ok B"
    and "srs_rule_ok r" "writeRule L B v r = Inr bs" "length bs < 2 ^ 64" "rule_depth r < left"
  shows "readRule_left L False left (bs @ rest) = Inr (compiled_rule L B v r, rest)"
  using assms(3-)
proof (induction left arbitrary: r bs rest)
  case (Suc left)
  obtain t d mode rules invert where r: "r = HeadlessRuleOptions t d mode rules invert" by (cases r)
  have types: "RuleTypeDefault \<noteq> RuleTypeLogical" by (simp add: RuleTypeDefault_def RuleTypeLogical_def)
  show ?case
  proof (cases "t = RuleTypeLogical")
    case False
    then have "writeDefaultRule L B d v = Inr bs" "t = RuleTypeDefault"
      using Suc.prems(2) r by (auto split: if_splits)
    moreover from this obtain body where "bs = 0 # body"
        "readDefaultRule L False (body @ rest) = Inr (compiled_options L B v d, rest)"
      using readDefaultRule_write [OF assms(1,2) _ _ Suc.prems(3), of d v rest] Suc.prems(1) r False by auto
    ultimately show ?thesis using r types by simp
  next
    case True
    then obtain body where w: "write_all (map (writeRule L B v) rules) = Inr body"
        "mode = LogicalTypeAnd \<or> mode = LogicalTypeOr"
        "bs = 1 # (if mode = LogicalTypeAnd then 0 else 1) # AppendUvarint (of_nat (length rules)) @ body @ write_bool invert"
      using Suc.prems(2) r types lib_okD(1) [OF assms(1)] by (auto simp: writeLogicalRule_def split: if_splits)
    have "length body < 2 ^ 64" using w(3) Suc.prems(3) by simp
    moreover have "readRule_left L False left (bs' @ rest') = Inr (compiled_rule L B v r', rest')"
      if "r' \<in> set rules" "writeRule L B v r' = Inr bs'" "length bs' < 2 ^ 64" for r' bs' rest'
    proof (rule Suc.IH [OF _ that(2,3)])
      show "srs_rule_ok r'" using Suc.prems(1) r True that(1) by (simp add: list_all_iff)
      show "rule_depth r' < left" using Suc.prems(4) rule_depth_sub that(1) r True by blast
    qed
    ultimately show ?thesis
      using read_rules_write(1) [OF assms(1) w(1), of "readRule_left L False left"]
        read_rules_write(2) [OF assms(1) w(1), of "readRule_left L False left" AtLogicalRule 0] w(2,3) r True
      by (auto simp: readLogicalRule_def LogicalTypeAnd_def LogicalTypeOr_def)
  qed
qed simp

subsection \<open>What is read is what was written\<close>

text \<open>
  \<open>d'\<close> holds the options \<open>d\<close> as the format keeps them: every list with elements unchanged, the address
  ranges of the lists of addresses, and matchers that match what the written ones match.
\<close>

definition options_as_written :: "env \<Rightarrow> build_env \<Rightarrow> nat \<Rightarrow> headless_options \<Rightarrow> headless_options \<Rightarrow> bool" where
  "options_as_written E B v d d' \<longleftrightarrow>
     d' = written_options B d (hl_DomainMatcher d') (hl_AdGuardDomainMatcher d') \<and>
     rel_option (\<lambda>m m'. x_Matcher_Match E m' = x_Matcher_Match E m) (written_matcher v d) (hl_DomainMatcher d') \<and>
     rel_option (\<lambda>m m'. x_AdGuardMatcher_Match E m' = x_AdGuardMatcher_Match E m)
       (written_adguard d) (hl_AdGuardDomainMatcher d')"

inductive rule_as_written :: "env \<Rightarrow> build_env \<Rightarrow> nat \<Rightarrow> HeadlessRuleOptions \<Rightarrow> HeadlessRuleOptions \<Rightarrow> bool"
  for E B v
where
  default: "t \<noteq> RuleTypeLogical \<Longrightarrow> options_as_written E B v d d' \<Longrightarrow>
     rule_as_written E B v (HeadlessRuleOptions t d mode rules invert) (HeadlessRuleOptions t d' [] [] False)"
| logical: "list_all2 (rule_as_written E B v) rules rules' \<Longrightarrow>
     rule_as_written E B v (HeadlessRuleOptions RuleTypeLogical d mode rules invert)
       (HeadlessRuleOptions RuleTypeLogical headless_options_zero mode rules' invert)"

lemma compiled_options_as_written:
  assumes "srs_lib_ok E L" "srs_options_ok d"
  shows "options_as_written E B v d (compiled_options L B v d)"
  using assms lib_ok_matcher(2) [OF assms(1), of "elems (hl_Domain d)" "elems (hl_DomainSuffix d)"]
    lib_ok_adguard(2) [OF assms(1), of "elems (hl_AdGuardDomain d)"]
  by (auto simp: options_as_written_def compiled_options_def written_options_def written_matcher_def written_adguard_def
      srs_options_ok_def nonempty_def)

lemma compiled_rule_as_written:
  assumes "srs_lib_ok E L" "srs_rule_ok r"
  shows "rule_as_written E B v r (compiled_rule L B v r)"
  using assms(2)
proof (induction r rule: srs_rule_ok.induct)
  case (1 t d mode rules invert)
  then show ?case
    using compiled_options_as_written [OF assms(1)]
    by (auto intro!: rule_as_written.intros simp: list_all_iff list_all2_conv_all_nth)
qed

end
