(* ===== verification/SRS_Rules.thy ===== *)
theory SRS_Rules
  imports SRS_Round
begin

text \<open>
  Consequences for whole rules: the rule built from options that went through the binary format matches
  like the rule built from the original options, reading always ends because every reader uses up
  bytes, and what is read is never nested deeper than the limit.
\<close>

subsection \<open>The rule that is built\<close>

text \<open>
  Options of a rule in source form: every condition is given by its list, and at least one list has
  an element.
\<close>

definition source_options :: "headless_options \<Rightarrow> bool" where
  "source_options d \<longleftrightarrow>
     srs_options_ok d \<and> hl_DomainMatcher d = None \<and> hl_SourceIPSet d = None \<and> hl_IPSet d = None \<and>
     hl_AdGuardDomainMatcher d = None \<and>
     (nonempty (hl_QueryType d) \<or> nonempty (hl_Network d) \<or> nonempty (hl_Domain d) \<or> nonempty (hl_DomainSuffix d) \<or>
      nonempty (hl_DomainKeyword d) \<or> nonempty (hl_DomainRegex d) \<or> nonempty (hl_SourceIPCIDR d) \<or>
      nonempty (hl_IPCIDR d) \<or> nonempty (hl_SourcePort d) \<or> nonempty (hl_SourcePortRange d) \<or>
      nonempty (hl_Port d) \<or> nonempty (hl_PortRange d) \<or> nonempty (hl_ProcessName d) \<or>
      nonempty (hl_ProcessPath d) \<or> nonempty (hl_ProcessPathRegex d) \<or> nonempty (hl_PackageName d) \<or>
      nonempty (hl_PackageNameRegex d) \<or> nonempty (hl_NetworkType d) \<or> hl_NetworkIsExpensive d \<or>
      hl_NetworkIsConstrained d \<or> nonempty (hl_WIFISSID d) \<or> nonempty (hl_WIFIBSSID d) \<or>
      nonempty (hl_NetworkInterfaceAddress d) \<or> nonempty (hl_DefaultInterfaceAddress d) \<or>
      nonempty (hl_AdGuardDomain d))"

fun source_rule :: "HeadlessRuleOptions \<Rightarrow> bool" where
  "source_rule (HeadlessRuleOptions t d mode rules invert) =
     (if t = RuleTypeLogical then list_all source_rule rules else source_options d)"

lemma source_rule_srs: "source_rule r \<Longrightarrow> srs_rule_ok r"
  by (induction r rule: source_rule.induct) (auto simp: source_options_def list_all_iff)

lemma elems_stored [simp]: "elems (stored s) = elems s" "nonempty (stored s) = nonempty s" "stored s = None \<longleftrightarrow> \<not> nonempty s"
  by (cases s; simp add: stored_def nonempty_def)+

lemma domain_step_alike:
  assumes "v \<noteq> RuleSetVersion1" "hl_DomainMatcher d = None"
    and "rel_option (\<lambda>m m'. x_Matcher_Match E m' = x_Matcher_Match E m) (written_matcher v d) matcher"
  shows "step_alike E
    (if nonempty (hl_Domain d) \<or> nonempty (hl_DomainSuffix d) then
       checked True '''' (item_of DomainItem (NewDomainItem (elems (hl_Domain d)) (elems (hl_DomainSuffix d)))) to_dstAddr
     else case hl_DomainMatcher d of Some matcher \<Rightarrow> plain True (DomainItem matcher) to_dstAddr | None \<Rightarrow> Inr)
    (case matcher of Some matcher \<Rightarrow> plain True (DomainItem matcher) to_dstAddr | None \<Rightarrow> Inr)"
  using assms
  by (auto simp: written_matcher_def option_rel_Some1 item_of_def NewDomainItem_def item_alike_def DomainItem_Match_def
      fun_eq_iff split: if_splits intro!: step_alike_checked_plain)

lemma cidr_step_alike:
  assumes "place_alike place"
  shows "step_alike E (checked True name (cidr_item B src s) place)
     (case cidr_set B s of Some ipSet \<Rightarrow> plain True (IPCIDRItem src ipSet) place | None \<Rightarrow> Inr)"
  using assms
  by (auto simp: step_alike_def cidr_set_def checked_def plain_def cidr_item_def item_of_def place_alike_def
      split: sum.splits)

lemma adguard_step_alike:
  assumes "hl_AdGuardDomainMatcher d = None"
    and "rel_option (\<lambda>m m'. x_AdGuardMatcher_Match E m' = x_AdGuardMatcher_Match E m) (written_adguard d) adguard"
  shows "step_alike E (headless_adguard_step d) (headless_adguard_step (written_options B d matcher adguard))"
  using assms
  by (auto simp: headless_adguard_step_def written_adguard_def written_options_def option_rel_Some1 nonempty_def
      item_alike_def AdGuardDomainItem_Match_def fun_eq_iff split: if_splits intro!: step_alike_plain)

lemma address_steps_alike:
  assumes "source_options d" "v \<noteq> RuleSetVersion1"
    and "rel_option (\<lambda>m m'. x_Matcher_Match E m' = x_Matcher_Match E m) (written_matcher v d) matcher"
  shows "list_all2 (step_alike E) (headless_address_steps B d) (headless_address_steps B (written_options B d matcher adguard))"
proof -
  let ?c = "written_options B d matcher adguard"
  have e: "\<not> nonempty (hl_Domain ?c)" "\<not> nonempty (hl_DomainSuffix ?c)"
      "\<not> nonempty (hl_SourceIPCIDR ?c)" "\<not> nonempty (hl_IPCIDR ?c)" "hl_DomainMatcher ?c = matcher"
    by (simp_all add: written_options_def nonempty_def)
  have f: "hl_QueryType ?c = stored (hl_QueryType d)" "hl_Network ?c = stored (hl_Network d)"
      "hl_DomainKeyword ?c = stored (hl_DomainKeyword d)" "hl_DomainRegex ?c = stored (hl_DomainRegex d)"
    by (simp_all add: written_options_def)
  have "step_alike E
     (if nonempty (hl_SourceIPCIDR d) then checked True ''source_ip_cidr'' (cidr_item B True (hl_SourceIPCIDR d)) to_srcAddr
      else case hl_SourceIPSet d of Some ipSet \<Rightarrow> plain True (IPCIDRItem True ipSet) to_srcAddr | None \<Rightarrow> Inr)
     (case hl_SourceIPSet ?c of Some ipSet \<Rightarrow> plain True (IPCIDRItem True ipSet) to_srcAddr | None \<Rightarrow> Inr)"
    using assms(1) by (simp add: written_options_def source_options_def cidr_step_alike)
  moreover have "step_alike E
     (if nonempty (hl_IPCIDR d) then checked True ''ipcidr'' (cidr_item B False (hl_IPCIDR d)) to_dstCIDR
      else case hl_IPSet d of Some ipSet \<Rightarrow> plain True (IPCIDRItem False ipSet) to_dstCIDR | None \<Rightarrow> Inr)
     (case hl_IPSet ?c of Some ipSet \<Rightarrow> plain True (IPCIDRItem False ipSet) to_dstCIDR | None \<Rightarrow> Inr)"
    using assms(1) by (simp add: written_options_def source_options_def cidr_step_alike)
  moreover note domain_step_alike [OF assms(2) _ assms(3)]
  moreover have "hl_DomainMatcher d = None" using assms(1) by (simp add: source_options_def)
  ultimately show ?thesis
    unfolding headless_address_steps_def list.rel_inject list_all2_Nil
    by (simp only: e f elems_stored simp_thms if_False) (intro conjI step_alike_intros TrueI)
qed

lemma other_steps_alike:
  "list_all2 (step_alike E) (headless_port_steps d) (headless_port_steps d)"
  "list_all2 (step_alike E) (headless_process_steps B d) (headless_process_steps B d)"
  "list_all2 (step_alike E) (headless_network_steps B d) (headless_network_steps B d)"
  by (auto simp: headless_port_steps_def headless_process_steps_def headless_network_steps_def
      intro!: step_alike_intros)

lemma NewDefaultHeadlessRule_written:
  assumes "NewDefaultHeadlessRule B d = Inr r" "source_options d" "v \<noteq> RuleSetVersion1"
    and "options_as_written E B v d d'"
  shows "\<exists>r'. NewDefaultHeadlessRule B d' = Inr r' \<and> rule_alike E r r'"
proof -
  obtain matcher adguard where c: "d' = written_options B d matcher adguard"
      "rel_option (\<lambda>m m'. x_Matcher_Match E m' = x_Matcher_Match E m) (written_matcher v d) matcher"
      "rel_option (\<lambda>m m'. x_AdGuardMatcher_Match E m' = x_AdGuardMatcher_Match E m) (written_adguard d) adguard"
    using assms(4) unfolding options_as_written_def by blast
  have same: "headless_port_steps d' = headless_port_steps d" "headless_process_steps B d' = headless_process_steps B d"
      "headless_network_steps B d' = headless_network_steps B d" "hl_Invert d' = hl_Invert d"
    by (simp_all add: c(1) headless_port_steps_def headless_process_steps_def headless_network_steps_def
        range_item_def written_options_def)
  have "hl_AdGuardDomainMatcher d = None" using assms(2) by (simp add: source_options_def)
  from adguard_step_alike [OF this c(3), of B matcher]
  have "list_all2 (step_alike E)
      (headless_address_steps B d @ headless_port_steps d @ headless_process_steps B d @
       headless_network_steps B d @ [headless_adguard_step d])
      (headless_address_steps B d' @ headless_port_steps d' @ headless_process_steps B d' @
       headless_network_steps B d' @ [headless_adguard_step d'])"
    unfolding same unfolding c(1)
    by (intro list_all2_appendI address_steps_alike [OF assms(2,3) c(2)] other_steps_alike) simp
  from run_steps_alike [OF this rule_alike_refl] assms(1) show ?thesis
    by (simp add: NewDefaultHeadlessRule_def same(4))
qed

text \<open>Address lists that were built into a rule have a set.\<close>

lemma cidr_set_built:
  assumes "NewDefaultHeadlessRule B d = Inr r"
  shows "nonempty (hl_SourceIPCIDR d) \<Longrightarrow> cidr_set B (hl_SourceIPCIDR d) \<noteq> None"
    and "nonempty (hl_IPCIDR d) \<Longrightarrow> cidr_set B (hl_IPCIDR d) \<noteq> None"
  using assms
  by (auto simp: NewDefaultHeadlessRule_def headless_address_steps_def run_steps_append checked_def cidr_item_def
      item_of_def cidr_set_def split: sum.splits if_splits)

lemma written_options_valid:
  assumes "NewDefaultHeadlessRule B d = Inr r" "source_options d" "options_as_written E B v d d'"
  shows "DefaultHeadlessRule_IsValid d'"
  unfolding DefaultHeadlessRule_IsValid_def
proof
  obtain matcher adguard where c: "d' = written_options B d matcher adguard"
      "nonempty (hl_Domain d) \<or> nonempty (hl_DomainSuffix d) \<Longrightarrow> matcher \<noteq> None"
      "nonempty (hl_AdGuardDomain d) \<Longrightarrow> adguard \<noteq> None"
    using assms(3) by (auto simp: options_as_written_def written_matcher_def written_adguard_def option_rel_Some1
        split: if_splits)
  assume "d' = headless_options_zero\<lparr>hl_Invert := hl_Invert d'\<rparr>"
  then show False
    using assms(2) c cidr_set_built [OF assms(1)]
    by (auto simp: written_options_def headless_options_zero_def source_options_def split: if_splits)
qed

lemma everyE_True: "everyE f xs = Inr True \<longleftrightarrow> list_all (\<lambda>x. f x = Inr True) xs"
  by (induction xs) (auto split: if_splits)

text \<open>The rule built from what is read back.\<close>

lemma built_alike:
  assumes "rule_as_written E B v opts opts'" "NewHeadlessRule B opts = Inr r" "source_rule opts" "v \<noteq> RuleSetVersion1"
  shows "(\<exists>r'. NewHeadlessRule B opts' = Inr r' \<and> headless_alike E r r') \<and> HeadlessRule_IsValid opts' = Inr True"
  using assms(1-3)
proof (induction arbitrary: r rule: rule_as_written.induct)
  case (default t d d' mode rules invert)
  then have t: "t = [] \<or> t = RuleTypeDefault" by (auto split: if_splits)
  then obtain a where a: "NewDefaultHeadlessRule B d = Inr a" "r = DefaultHeadlessRule a"
    using default.prems(1) by (auto split: if_splits)
  have s: "source_options d" using default by simp
  obtain a' where "NewDefaultHeadlessRule B d' = Inr a'" "rule_alike E a a'"
    using NewDefaultHeadlessRule_written [OF a(1) s assms(4) default.hyps(2)] by blast
  then show ?case
    using written_options_valid [OF a(1) s default.hyps(2)] a(2) t by (auto intro: headless_alike.default)
next
  case (logical rules rules' d mode invert)
  have types: "RuleTypeDefault \<noteq> RuleTypeLogical" "RuleTypeLogical \<noteq> []" "RuleTypeDefault \<noteq> []"
    by (simp_all add: RuleTypeDefault_def RuleTypeLogical_def)
  obtain subs where s: "rules \<noteq> []" "mapE_at SubRule (NewHeadlessRule B) 0 rules = Inr subs"
      "mode = LogicalTypeAnd \<or> mode = LogicalTypeOr" "r = LogicalHeadlessRule mode subs invert"
    using logical.prems(1) types by (auto simp: LogicalHeadlessRule_IsValid_def split: if_splits)
  have len: "length subs = length rules" "length rules' = length rules"
    using s(2) logical by (auto simp: mapE_at_Inr_iff list_all2_lengthD dest: list_all2_lengthD)
  have "(\<exists>x'. NewHeadlessRule B (rules' ! i) = Inr x' \<and> headless_alike E (subs ! i) x') \<and>
      HeadlessRule_IsValid (rules' ! i) = Inr True" if "i < length rules" for i
    using logical s(2) that types len
    by (auto simp: mapE_at_Inr_iff list_all2_conv_all_nth list_all_length)
  then obtain f where f: "\<And>i. i < length rules \<Longrightarrow> NewHeadlessRule B (rules' ! i) = Inr (f i) \<and>
      headless_alike E (subs ! i) (f i) \<and> HeadlessRule_IsValid (rules' ! i) = Inr True"
    by metis
  have "mapE_at SubRule (NewHeadlessRule B) 0 rules' = Inr (map f [0..<length rules])"
    "list_all2 (headless_alike E) subs (map f [0..<length rules])"
    using f len by (simp_all add: mapE_at_Inr_iff list_all2_conv_all_nth)
  moreover have "everyE HeadlessRule_IsValid rules' = Inr True"
    using f len by (simp add: everyE_True list_all_length)
  moreover have "rules' \<noteq> []" using s(1) len by auto
  ultimately show ?case
    using s(3,4) types by (auto simp: LogicalHeadlessRule_IsValid_def intro: headless_alike.logical)
qed

text \<open>The rules of a set.\<close>

lemma set_built_alike:
  assumes "list_all2 (rule_as_written E B v) rules rules'" "list_all source_rule rules" "v \<noteq> RuleSetVersion1"
    and "mapE_at SubRule (NewHeadlessRule B) 0 rules = Inr built"
  shows "\<exists>built'. mapE_at SubRule (NewHeadlessRule B) 0 rules' = Inr built' \<and> list_all2 (headless_alike E) built built'"
proof -
  have b: "list_all2 (\<lambda>o' x. NewHeadlessRule B o' = Inr x) rules built" using assms(4) by (simp add: mapE_at_Inr_iff)
  have "\<exists>x'. NewHeadlessRule B (rules' ! i) = Inr x' \<and> headless_alike E (built ! i) x'" if "i < length rules" for i
    using built_alike [of E B v "rules ! i" "rules' ! i" "built ! i"] assms(1-3) b that
    by (auto simp: list_all2_conv_all_nth list_all_length)
  then obtain f where f: "\<And>i. i < length rules \<Longrightarrow> NewHeadlessRule B (rules' ! i) = Inr (f i) \<and>
      headless_alike E (built ! i) (f i)"
    by metis
  moreover have "length built = length rules" "length rules' = length rules"
    using b assms(1) by (auto dest: list_all2_lengthD)
  ultimately show ?thesis
    by (intro exI [of _ "map f [0..<length rules]"]) (simp add: mapE_at_Inr_iff list_all2_conv_all_nth)
qed

subsection \<open>Reading ends\<close>

text \<open>The error that says that the loop over the items was cut off.\<close>

fun cut_off :: "srs_error \<Rightarrow> bool" where
  "cut_off OutOfFuel = True"
| "cut_off (AtRule i e) = cut_off e"
| "cut_off (AtLogicalRule i e) = cut_off e"
| "cut_off _ = False"

text \<open>A reader that gives no bytes back and is never cut off.\<close>

definition proper :: "(srs_error, 'a) reader \<Rightarrow> bool" where
  "proper read \<longleftrightarrow>
     (\<forall>bs. case read bs of Inl e \<Rightarrow> \<not> cut_off e | Inr (x, rest) \<Rightarrow> length rest \<le> length bs)"

lemma properI:
  assumes "\<And>bs e. read bs = Inl e \<Longrightarrow> \<not> cut_off e"
    and "\<And>bs x rest. read bs = Inr (x, rest) \<Longrightarrow> length rest \<le> length bs"
  shows "proper read"
  using assms by (auto simp: proper_def split: sum.splits)

lemma properD:
  assumes "proper read"
  shows "read bs = Inl e \<Longrightarrow> \<not> cut_off e" "read bs = Inr (x, rest) \<Longrightarrow> length rest \<le> length bs"
  using assms by (auto simp: proper_def split: sum.splits)

lemma bindE_Inl_iff: "bindE x f = Inl e \<longleftrightarrow> x = Inl e \<or> (\<exists>a. x = Inr a \<and> f a = Inl e)"
  by (cases x) auto

lemma proper_bind:
  assumes "proper read" "\<And>x. proper (f x)"
  shows "proper (\<lambda>bs. bindE (read bs) (\<lambda>(x, bs1). f x bs1))"
proof (rule properI)
  fix bs e assume "bindE (read bs) (\<lambda>(x, bs1). f x bs1) = Inl e"
  then show "\<not> cut_off e"
    using properD(1) [OF assms(1)] properD(1) [OF assms(2)] by (auto simp: bindE_Inl_iff)
next
  fix bs x rest assume "bindE (read bs) (\<lambda>(x, bs1). f x bs1) = Inr (x, rest)"
  then show "length rest \<le> length bs"
    using properD(2) [OF assms(1)] properD(2) [OF assms(2)] by (fastforce intro: order_trans)
qed

lemma proper_Inr [intro!]: "proper (\<lambda>bs. Inr (x, bs))"
  by (simp add: proper_def)

lemma proper_Inl: "\<not> cut_off e \<Longrightarrow> proper (\<lambda>bs. Inl e)"
  by (simp add: proper_def)

lemma proper_if: "proper f \<Longrightarrow> proper g \<Longrightarrow> proper (\<lambda>bs. if c then f bs else g bs)"
  by (cases c) simp_all

lemma proper_lift:
  assumes "consumes k read" "\<And>e. \<not> cut_off (w e)"
  shows "proper (\<lambda>bs. lift_err w (read bs))"
proof (rule properI)
  fix bs e assume "lift_err w (read bs) = Inl e"
  then show "\<not> cut_off e" using assms(2) by (cases "read bs") auto
next
  fix bs x rest assume "lift_err w (read bs) = Inr (x, rest)"
  then show "length rest \<le> length bs" using consumesD [OF assms(1)] by fastforce
qed

lemma proper_read_n: "proper read \<Longrightarrow> proper (read_n n read)"
proof (induction n)
  case (Suc n)
  then have "proper (\<lambda>bs. bindE (read bs) (\<lambda>(x, bs1). (\<lambda>b. bindE (read_n n read b) (\<lambda>(xs, bs2). Inr (x # xs, bs2))) bs1))"
    by (intro proper_bind proper_Inr) auto
  then show ?case by (simp add: proper_def)
qed (simp add: proper_def)

lemma proper_read_at:
  assumes "proper read" "\<And>i e. \<not> cut_off e \<Longrightarrow> \<not> cut_off (w i e)"
  shows "proper (read_at w i n read)"
proof (induction n arbitrary: i)
  case (Suc n)
  have "proper (\<lambda>bs. lift_err (w i) (read bs))"
    using properD [OF assms(1)] assms(2)
    by (intro properI) (auto simp: lift_err_def split: sum.splits)
  then have "proper (\<lambda>bs. bindE (lift_err (w i) (read bs)) (\<lambda>(x, bs1). (\<lambda>b. bindE (read_at w (Suc i) n read b) (\<lambda>(xs, bs2). Inr (x # xs, bs2))) bs1))"
    using Suc by (intro proper_bind proper_Inr) auto
  then show ?case by (simp add: proper_def)
qed (simp add: proper_def)

lemmas proper_readers =
  proper_lift [OF consumes_ReadByte, of ReadError, simplified]
  proper_lift [OF consumes_ReadFull, of ReadError, simplified]
  proper_lift [OF consumes_read_be, of ReadError, simplified]
  proper_lift [OF consumes_read_bool, of ReadError, simplified]
  proper_lift [OF consumes_ReadUvarint, of ReadError, simplified]

text \<open>Library readers that give no bytes back.\<close>

definition srs_lib_consumes :: "srs_lib \<Rightarrow> bool" where
  "srs_lib_consumes L \<longleftrightarrow>
     consumes 0 (lib_ReadSlice8 L) \<and> consumes 0 (lib_ReadSlice16 L) \<and> consumes 0 (lib_ReadMatcher L) \<and>
     consumes 0 (lib_ReadAdGuardMatcher L)"

lemma proper_lib:
  assumes "srs_lib_consumes L"
  shows "proper (lib1 (lib_ReadSlice8 L))" "proper (lib1 (lib_ReadSlice16 L))"
    "proper (lib1 (lib_ReadMatcher L))" "proper (lib1 (lib_ReadAdGuardMatcher L))"
  using assms by (auto simp: srs_lib_consumes_def intro: proper_lift)

lemmas proper_intros = proper_bind proper_if proper_Inr proper_Inl proper_readers proper_read_n

lemma proper_readIPSet: "proper (readIPSet L)"
proof -
  have a: "proper (readIPSetAddr L)"
    unfolding readIPSetAddr_def [abs_def] by (intro proper_intros) simp
  have "proper (readIPRange L)"
    unfolding readIPRange_def [abs_def] by (intro proper_intros a)
  then show ?thesis
    unfolding readIPSet_def [abs_def] by (intro proper_intros) simp_all
qed

lemma proper_read_prefixes: "proper (read_prefixes L)"
proof -
  have "proper (readPrefix L)"
    unfolding readPrefix_def [abs_def] by (intro proper_intros) simp
  then show ?thesis unfolding read_prefixes_def [abs_def] by (intro proper_intros)
qed

lemma proper_read_interfaces: "proper (read_interfaces L)"
proof -
  have "proper (read_interface L)"
    unfolding read_interface_def [abs_def] by (intro proper_intros proper_read_prefixes)
  then show ?thesis unfolding read_interfaces_def [abs_def] by (intro proper_intros)
qed

lemma proper_readRuleItemString: "srs_lib_consumes L \<Longrightarrow> proper (readRuleItemString L)"
  unfolding readRuleItemString_def [abs_def] by (intro proper_intros proper_lib)

lemma proper_read_field: "proper read \<Longrightarrow> proper (read_field read store r)"
  unfolding read_field_def [abs_def] by (intro proper_intros)

lemma proper_read_item: "srs_lib_consumes L \<Longrightarrow> proper (read_item L recover t prev r)"
  unfolding read_item_def [abs_def]
  by (intro proper_if proper_read_field proper_readRuleItemString proper_lib proper_readIPSet
      proper_read_prefixes proper_read_interfaces proper_Inr proper_Inl) simp_all

lemma read_items_proper:
  assumes "srs_lib_consumes L" "length bs < n"
  shows "case read_items L recover n prev r bs of
           Inl e \<Rightarrow> \<not> cut_off e | Inr (x, rest) \<Rightarrow> length rest \<le> length bs"
  using assms(2)
proof (induction n arbitrary: prev r bs)
  case (Suc n)
  show ?case
  proof (cases "read_be 1 bs :: (read_error, byte \<times> bytes) res")
    case (Inl e)
    then show ?thesis by simp
  next
    case (Inr p)
    then obtain t bs1 where p: "(read_be 1 bs :: (read_error, byte \<times> bytes) res) = Inr (t, bs1)" by (cases p) auto
    then have len: "length bs1 < length bs" using consumesD [OF consumes_read_be] by fastforce
    show ?thesis
    proof (cases "t = ruleItemFinal")
      case True
      then show ?thesis
        using p len consumesD [OF consumes_read_bool]
        by (cases "read_bool bs1") (fastforce simp: bindE_Inl_iff split: sum.splits)+
    next
      case False
      show ?thesis
      proof (cases "read_item L recover t prev r bs1")
        case (Inl e)
        then show ?thesis using p False properD(1) [OF proper_read_item [OF assms(1)] Inl] by simp
      next
        case (Inr q)
        then obtain r1 bs2 where q: "read_item L recover t prev r bs1 = Inr (r1, bs2)" by (cases q) auto
        have "length bs2 \<le> length bs1" using properD(2) [OF proper_read_item [OF assms(1)] q] .
        then show ?thesis
          using Suc.IH [of bs2 t r1] Suc.prems len p False q by (fastforce split: sum.splits)
      qed
    qed
  qed
qed simp

lemma proper_readDefaultRule: "srs_lib_consumes L \<Longrightarrow> proper (readDefaultRule L recover)"
  unfolding proper_def readDefaultRule_def by (intro allI read_items_proper) simp_all

lemma proper_readLogicalRule: "proper sub \<Longrightarrow> proper (readLogicalRule sub)"
  unfolding readLogicalRule_def [abs_def] by (intro proper_intros proper_read_at) simp_all

lemma proper_readRule: "srs_lib_consumes L \<Longrightarrow> proper (readRule_left L recover left)"
proof (induction left)
  case (Suc left)
  have "proper (\<lambda>bs. bindE (read1 (read_be 1) bs) (\<lambda>(ruleType :: byte, bs1).
     (\<lambda>b. if ruleType = 0 then
         bindE (readDefaultRule L recover b) (\<lambda>(d, bs2). Inr (HeadlessRuleOptions RuleTypeDefault d [] [] False, bs2))
       else (\<lambda>b. if ruleType = 1 then
         bindE (readLogicalRule (readRule_left L recover left) b) (\<lambda>(x, bs2).
           (case x of (mode, rules, invert) \<Rightarrow>
             \<lambda>bs2. Inr (HeadlessRuleOptions RuleTypeLogical headless_options_zero mode rules invert, bs2)) bs2)
       else Inl (UnknownRuleTypeByte ruleType)) b) bs1))"
    using Suc by (intro proper_intros proper_readDefaultRule proper_readLogicalRule)
      (auto simp: split_beta)
  then show ?case by (simp add: case_prod_unfold cong: if_cong)
qed (simp add: proper_def)

subsection \<open>The nesting limit\<close>

text \<open>The error of a rule that is nested too deep, at whatever position.\<close>

fun nested_too_deep :: "srs_error \<Rightarrow> bool" where
  "nested_too_deep NestedTooDeep = True"
| "nested_too_deep (AtRule i e) = nested_too_deep e"
| "nested_too_deep (AtLogicalRule i e) = nested_too_deep e"
| "nested_too_deep _ = False"

lemma read_at_all:
  assumes "\<And>bs x rest. read bs = Inr (x, rest) \<Longrightarrow> P x" "read_at w i n read bs = Inr (xs, rest)"
  shows "list_all P xs"
  using assms(2)
proof (induction n arbitrary: i bs xs)
  case (Suc n)
  then obtain y ys bs1 where "lift_err (w i) (read bs) = Inr (y, bs1)" "read_at w (Suc i) n read bs1 = Inr (ys, rest)"
      "xs = y # ys"
    by auto
  then show ?case using Suc.IH assms(1) by auto
qed simp

text \<open>Whatever the bytes are, a rule that is read is not nested deeper than there are levels left.\<close>

lemma readRule_left_depth: "readRule_left L recover left bs = Inr (r, rest) \<Longrightarrow> rule_depth r < left"
proof (induction left arbitrary: bs r rest)
  case (Suc left)
  consider d where "r = HeadlessRuleOptions RuleTypeDefault d [] [] False"
    | mode rules invert bs1 bs2 where "readLogicalRule (readRule_left L recover left) bs1 = Inr ((mode, rules, invert), bs2)"
        "r = HeadlessRuleOptions RuleTypeLogical headless_options_zero mode rules invert"
    using Suc.prems by (auto split: if_splits)
  then show ?case
  proof cases
    case 1
    then show ?thesis by (simp add: RuleTypeDefault_def RuleTypeLogical_def)
  next
    case 2
    then obtain n bs3 bs4 where "read_at AtLogicalRule 0 n (readRule_left L recover left) bs3 = Inr (rules, bs4)"
      by (auto simp: readLogicalRule_def split: if_splits)
    then have sub: "list_all (\<lambda>r. rule_depth r < left) rules"
      by (rule read_at_all [rotated]) (rule Suc.IH)
    with 2(2) show ?thesis by (auto simp: list_all_iff less_Suc_eq_le Suc_le_eq)
  qed
qed simp

text \<open>A list of written elements with one that is refused, after elements that can be read.\<close>

lemma read_at_refused:
  assumes "\<And>x bs. x \<in> set xs \<Longrightarrow> \<not> deep x \<Longrightarrow> read (write x @ bs) = Inr (f x, bs)"
    and "\<And>x bs. x \<in> set xs \<Longrightarrow> deep x \<Longrightarrow> \<exists>e. read (write x @ bs) = Inl e \<and> P e"
    and "\<And>i e. P e \<Longrightarrow> P (w i e)" "list_ex deep xs"
  shows "\<exists>e. read_at w i (length xs) read (concat (map write xs) @ bs) = Inl e \<and> P e"
  using assms(1,2,4)
proof (induction xs arbitrary: i)
  case (Cons x xs)
  show ?case
  proof (cases "deep x")
    case True
    then obtain e where "read (write x @ concat (map write xs) @ bs) = Inl e" "P e" using Cons.prems(2) by fastforce
    then show ?thesis using assms(3) by simp
  next
    case False
    then have "list_ex deep xs" using Cons.prems(3) by simp
    with Cons.IH [of "Suc i"] Cons.prems(1,2) obtain e where
      "read_at w (Suc i) (length xs) read (concat (map write xs) @ bs) = Inl e" "P e" by auto
    then show ?thesis using Cons.prems(1) False by simp
  qed
qed simp

lemma read_rules_refused:
  assumes "srs_lib_ok E L" "ipset_builder_ok B" "list_all srs_rule_ok rules"
    and "write_all (map (writeRule L B v) rules) = Inr body" "length body < 2 ^ 64"
    and "list_ex (\<lambda>r. \<not> rule_depth r < left) rules" "\<And>i e. nested_too_deep e \<Longrightarrow> nested_too_deep (w i e)"
    and "\<And>r bs rest. r \<in> set rules \<Longrightarrow> writeRule L B v r = Inr bs \<Longrightarrow> length bs < 2 ^ 64 \<Longrightarrow> \<not> rule_depth r < left \<Longrightarrow>
           \<exists>e. readRule_left L False left (bs @ rest) = Inl e \<and> nested_too_deep e"
  shows "unat (of_nat (length rules) :: 64 word) = length rules"
    and "\<exists>e. read_at w i (length rules) (readRule_left L False left) (body @ rest) = Inl e \<and> nested_too_deep e"
proof -
  obtain g where g: "body = concat (map g rules)" "\<forall>r\<in>set rules. writeRule L B v r = Inr (g r)"
    using write_all_concat [OF assms(4)] by blast
  have "length rules \<le> length body"
    unfolding g(1) using g(2) writeRule_nonempty by (intro length_concat_ge) blast
  then show "unat (of_nat (length rules) :: 64 word) = length rules"
    using assms(5) by (intro unat_of_length) simp
  have len: "length (g r) < 2 ^ 64" if "r \<in> set rules" for r
    using length_concat_elem [OF that, of g] assms(5) g(1) by simp
  show "\<exists>e. read_at w i (length rules) (readRule_left L False left) (body @ rest) = Inl e \<and> nested_too_deep e"
    unfolding g(1)
  proof (rule read_at_refused [where deep = "\<lambda>r. \<not> rule_depth r < left"])
    fix r bs assume r: "r \<in> set rules" "\<not> \<not> rule_depth r < left"
    then show "readRule_left L False left (g r @ bs) = Inr (compiled_rule L B v r, bs)"
      using readRule_write [OF assms(1,2)] g(2) len assms(3) by (simp add: list_all_iff)
  qed (use assms(6-8) g(2) len in blast)+
qed

text \<open>A rule that was written and is nested too deep is refused.\<close>

lemma readRule_refused:
  assumes "srs_lib_ok E L" "ipset_builder_ok B"
    and "srs_rule_ok r" "writeRule L B v r = Inr bs" "length bs < 2 ^ 64" "\<not> rule_depth r < left"
  shows "\<exists>e. readRule_left L False left (bs @ rest) = Inl e \<and> nested_too_deep e"
  using assms(3-)
proof (induction left arbitrary: r bs rest)
  case (Suc left)
  obtain t d mode rules invert where r: "r = HeadlessRuleOptions t d mode rules invert" by (cases r)
  have types: "RuleTypeDefault \<noteq> RuleTypeLogical" by (simp add: RuleTypeDefault_def RuleTypeLogical_def)
  have t: "t = RuleTypeLogical" using Suc.prems(4) r by (auto split: if_splits)
  then obtain body where w: "write_all (map (writeRule L B v) rules) = Inr body"
      "mode = LogicalTypeAnd \<or> mode = LogicalTypeOr"
      "bs = 1 # (if mode = LogicalTypeAnd then 0 else 1) # AppendUvarint (of_nat (length rules)) @ body @ write_bool invert"
    using Suc.prems(2) r types lib_okD(1) [OF assms(1)] by (auto simp: writeLogicalRule_def split: if_splits)
  have body: "length body < 2 ^ 64" using w(3) Suc.prems(3) by simp
  have ok: "list_all srs_rule_ok rules" using Suc.prems(1) r t by simp
  have deep: "list_ex (\<lambda>r. \<not> rule_depth r < left) rules"
  proof (rule ccontr)
    assume "\<not> ?thesis"
    then have "rule_depth r < Suc left" using r t by (auto simp: list_ex_iff)
    with Suc.prems(4) show False by simp
  qed
  have sub: "\<exists>e. readRule_left L False left (bs' @ rest') = Inl e \<and> nested_too_deep e"
    if "r' \<in> set rules" "writeRule L B v r' = Inr bs'" "length bs' < 2 ^ 64" "\<not> rule_depth r' < left" for r' bs' rest'
    using Suc.IH [OF _ that(2-)] ok that(1) by (simp add: list_all_iff)
  have n: "unat (of_nat (length rules) :: 64 word) = length rules"
      "\<exists>e. read_at AtLogicalRule 0 (length rules) (readRule_left L False left) (body @ rest') = Inl e \<and> nested_too_deep e" for rest'
    by (rule read_rules_refused [where w = AtLogicalRule, OF assms(1,2) ok w(1) body deep]; use sub in simp)+
  obtain e where "read_at AtLogicalRule 0 (length rules) (readRule_left L False left) (body @ write_bool invert @ rest) = Inl e"
      "nested_too_deep e"
    using n(2) by auto
  then show ?case using n(1) w(2,3) by (auto simp: readLogicalRule_def)
qed simp

end
