(* ===== verification/SRS_Properties.thy ===== *)
theory SRS_Properties
  imports SRS_Rules Sample_Env
begin

text \<open>
  What the binary rule-set format promises: a file that was written can be read, the rules built from
  it match like the rules built from the source, reading any file ends with a result or an error, and
  rules nested too deep are refused.
\<close>

subsection \<open>A library that behaves as assumed\<close>

text \<open>
  Sample encodings of the library values: strings and lists with a continuation byte before each element.
  A matcher is written without repetitions and without its flag, so that the matcher that is read is not
  the one that was written, but matches the same names.
\<close>

fun enc_list :: "('a \<Rightarrow> bytes) \<Rightarrow> 'a list \<Rightarrow> bytes" where
  "enc_list f [] = [0]"
| "enc_list f (x # xs) = 1 # f x @ enc_list f xs"

fun dec_bytes :: "bytes \<Rightarrow> (string, bytes \<times> bytes) res" where
  "dec_bytes (Cons x (Cons b bs)) =
     (if x = 0 then Inr ([], b # bs) else bindE (dec_bytes bs) (\<lambda>(s, rest). Inr (b # s, rest)))"
| "dec_bytes [x] = (if x = 0 then Inr ([], []) else Inl ''string'')"
| "dec_bytes [] = Inl ''string''"

definition enc_string :: "string \<Rightarrow> bytes" where
  "enc_string s = enc_list (\<lambda>b. [b]) (string_bytes s)"

fun dec_strings :: "nat \<Rightarrow> bytes \<Rightarrow> (string, string list \<times> bytes) res" where
  "dec_strings 0 bs = Inl ''list''"
| "dec_strings (Suc n) [] = Inl ''list''"
| "dec_strings (Suc n) (x # bs) =
     (if x = 0 then Inr ([], bs)
      else bindE (dec_bytes bs) (\<lambda>(s, bs1). bindE (dec_strings n bs1) (\<lambda>(ss, bs2). Inr (bytes_string s # ss, bs2))))"

definition dec_list :: "(string, string list) reader" where
  "dec_list bs = dec_strings (length bs) bs"

definition sample_read_matcher :: "(string, domain_Matcher) reader" where
  "sample_read_matcher bs =
     bindE (dec_list bs) (\<lambda>(d, bs1). bindE (dec_list bs1) (\<lambda>(s, bs2).
       Inr (NewMatcher d s False, bs2)))"

fun sample_write_matcher :: "domain_Matcher \<Rightarrow> bytes" where
  "sample_write_matcher (NewMatcher d s legacy) = 
     enc_list enc_string (remdups d) @ enc_list enc_string (remdups s)"
| "sample_write_matcher (RawMatcher bs) = bs"

fun sample_write_adguard :: "domain_AdGuardMatcher \<Rightarrow> bytes" where
  "sample_write_adguard (NewAdGuardMatcher d) = enc_list enc_string d"
| "sample_write_adguard (RawAdGuardMatcher bs) = bs"

definition sample_slice8 :: "(string, byte slice) reader" where
  "sample_slice8 bs =
     lift_err (\<lambda>_. ''slice'') (bindE (ReadUvarint bs) (\<lambda>(n, bs1).
       bindE (ReadFull (unat n) bs1) (\<lambda>(xs, bs2). Inr (Some xs, bs2))))"

definition sample_slice16 :: "(string, 16 word slice) reader" where
  "sample_slice16 bs =
     lift_err (\<lambda>_. ''slice'') (bindE (ReadUvarint bs) (\<lambda>(n, bs1).
       bindE (read_n (unat n) (read_be 2) bs1) (\<lambda>(xs, bs2). Inr (Some xs, bs2))))"

definition sample_srs :: srs_lib where
  "sample_srs = \<lparr>
     lib_WriteUvarint = AppendUvarint,
     lib_ReadSlice8 = sample_slice8,
     lib_ReadSlice16 = sample_slice16,
     lib_ReadMatcher = sample_read_matcher,
     lib_Matcher_Write = sample_write_matcher,
     lib_Matcher_Dump = (\<lambda>_. (None, None)),
     lib_ReadAdGuardMatcher = (\<lambda>bs. bindE (dec_list bs) (\<lambda>(d, bs1). Inr (NewAdGuardMatcher d, bs1))),
     lib_AdGuardMatcher_Write = sample_write_adguard,
     lib_AdGuardMatcher_Dump = (\<lambda>_. None),
     lib_AddrFromIP = (\<lambda>b. case AddrFromSlice b of Some a \<Rightarrow> a | None \<Rightarrow> AddrZero),
     lib_Prefixes = (\<lambda>_. []),
     lib_prefix_String = (\<lambda>_. []),
     lib_Put = (\<lambda>m k v. if k \<in> fst ` set m then map (\<lambda>(k', v'). (k', if k' = k then v else v')) m else m @ [(k, v)]),
     lib_Deflate = (\<lambda>bs. bs),
     lib_Inflate = Some\<rparr>"

lemma dec_enc_bytes [simp]: "dec_bytes (enc_list (\<lambda>b. [b]) bs @ c # rest) = Inr (bs, c # rest)"
  by (induction bs) simp_all

lemma dec_enc_bytes_end [simp]: "dec_bytes (enc_list (\<lambda>b. [b]) bs) = Inr (bs, [])"
  by (induction bs) simp_all

lemma dec_enc_string [simp]: "dec_bytes (enc_string s @ rest) = Inr (string_bytes s, rest)"
  by (cases rest) (simp_all add: enc_string_def)

lemma dec_enc_strings: "length ss < n \<Longrightarrow> dec_strings n (enc_list enc_string ss @ rest) = Inr (ss, rest)"
proof (induction ss arbitrary: n)
  case Nil
  then show ?case by (cases n) simp_all
next
  case (Cons s ss)
  then obtain m where "n = Suc m" "length ss < m" by (cases n) auto
  then show ?case using Cons.IH by simp
qed

lemma length_enc_list: "length xs < length (enc_list f xs)"
  by (induction xs) auto

lemma dec_enc_list [simp]: "dec_list (enc_list enc_string ss @ rest) = Inr (ss, rest)"
  using length_enc_list [of ss enc_string] by (simp add: dec_list_def dec_enc_strings)

lemma sample_slice16_law:
  assumes "length xs < 2 ^ 64"
  shows "sample_slice16 (AppendUvarint (of_nat (length xs)) @ concat (map be16 xs) @ rest) = Inr (Some xs, rest)"
proof -
  have "read_n (length xs) (read_be 2) (concat (map be16 xs) @ rest) = Inr (map (\<lambda>x. x) xs, rest)"
    by (intro read_n_concat) (simp_all del: be_bytes.simps)
  then show ?thesis using unat_of_length [OF assms] by (simp add: sample_slice16_def del: be_bytes.simps)
qed

lemma sample_srs_ok: "srs_lib_ok sample_env sample_srs"
  unfolding srs_lib_ok_def
proof (intro conjI allI impI)
  fix xs :: bytes and rest assume "length xs < 2 ^ 64"
  then show "\<exists>s. elems s = xs \<and> lib_ReadSlice8 sample_srs (AppendUvarint (of_nat (length xs)) @ xs @ rest) = Inr (s, rest)"
    using unat_of_length [of "length xs"] by (intro exI [of _ "Some xs"]) (simp add: sample_srs_def sample_slice8_def)
next
  fix xs :: "16 word list" and rest assume "length xs < 2 ^ 64"
  then show "\<exists>s. elems s = xs \<and> lib_ReadSlice16 sample_srs (AppendUvarint (of_nat (length xs)) @ concat (map be16 xs) @ rest) = Inr (s, rest)"
    by (intro exI [of _ "Some xs"]) (simp add: sample_srs_def sample_slice16_law del: be_bytes.simps)
next
  fix d s legacy
  show "\<exists>m. (\<forall>rest. lib_ReadMatcher sample_srs (lib_Matcher_Write sample_srs (NewMatcher d s legacy) @ rest) = Inr (m, rest)) \<and>
      x_Matcher_Match sample_env m = x_Matcher_Match sample_env (NewMatcher d s legacy)"
    by (intro exI [of _ "NewMatcher (remdups d) (remdups s) False"])
       (simp add: sample_srs_def sample_read_matcher_def sample_env_def fun_eq_iff list_ex_iff)
qed (auto simp: sample_srs_def addr_ok_def addr_AsSlice_inverse)

definition srs_build :: build_env where
  "srs_build = \<lparr>
     b_Compiles = (\<lambda>_. True),
     b_ParsePrefix = (\<lambda>_. None),
     b_ParseAddr = (\<lambda>s. Some (Addr4 (of_nat (length s)))),
     b_BuildIPSet = (\<lambda>cs. Some (concat (map (\<lambda>c. case c of CAddr a \<Rightarrow> if addr_ok a then [(a, a)] else [] | _ \<Rightarrow> []) cs))),
     b_TrimSpace = (\<lambda>s. s),
     b_NetworkManager = True\<rparr>"

lemma srs_build_ok: "ipset_builder_ok srs_build"
  by (auto simp: ipset_builder_ok_def srs_build_def list_all_iff split: cidr_entry.splits if_splits)

text \<open>A rule-set with a default rule and a logical rule.\<close>

definition sample_default :: HeadlessRuleOptions where
  "sample_default = HeadlessRuleOptions RuleTypeDefault
     (headless_options_zero\<lparr>hl_Domain := Some [''a.example'', ''a.example''], hl_IPCIDR := Some [''::1''], hl_Port := Some [443],
        hl_Network := Some []\<rparr>) [] [] False"

definition sample_rules :: "HeadlessRuleOptions list" where
  "sample_rules = [sample_default,
     HeadlessRuleOptions RuleTypeLogical headless_options_zero LogicalTypeOr [sample_default] True]"

lemma AppendUvarint_small: "x < 0x80 \<Longrightarrow> length (AppendUvarint x) = 1"
  by (subst AppendUvarint.simps) simp

lemma sample_default_written:
  "\<exists>bs. writeRule sample_srs srs_build 3 sample_default = Inr bs \<and> length bs < 1000"
  by (simp add: sample_default_def writeDefaultRule_def write_items_def write_address_items_def write_port_items_def
      write_process_items_def write_network_items_def write_field_def write_since_def write_cidr_def nonempty_def
      headless_options_zero_def writeRuleItemCIDR_def srs_build_def writeIPSet_def write_addr_def addr_ok_def
      sample_srs_def writeRuleItemUint16_def AppendUvarint_small enc_string_def string_bytes_def write_bool_def
      del: be_bytes.simps)

lemma sample_written:
  obtains raw where "srs_Write sample_srs srs_build sample_rules 3 = Inr raw" "length raw < 2 ^ 64"
proof -
  obtain bs where bs: "writeRule sample_srs srs_build 3 sample_default = Inr bs" "length bs < 1000"
    using sample_default_written by blast
  then have "\<exists>raw. srs_Write sample_srs srs_build sample_rules 3 = Inr raw \<and> length raw < 2 ^ 64"
    by (simp add: srs_Write_def sample_rules_def MagicBytes_def sample_srs_def AppendUvarint_small write_bool_def
        writeLogicalRule_def RuleTypeDefault_def RuleTypeLogical_def)
  then show thesis using that by blast
qed

lemma sample_source: "list_all source_rule sample_rules" "list_all (\<lambda>r. rule_depth r \<le> maxLogicalRuleDepth) sample_rules"
  by (simp_all add: sample_rules_def sample_default_def source_options_def srs_options_ok_def headless_options_zero_def
      nonempty_def maxLogicalRuleDepth_def RuleTypeDefault_def RuleTypeLogical_def)

subsection \<open>Properties\<close>

lemma srs_Read_Write:
  assumes "srs_lib_ok E L" "ipset_builder_ok B" "list_all srs_rule_ok rules"
    and "list_all (\<lambda>r. rule_depth r \<le> maxLogicalRuleDepth) rules" "unat v \<le> RuleSetVersionCurrent"
    and "srs_Write L B rules v = Inr raw" "lib_Inflate L (drop 4 raw) = Some data" "length data < 2 ^ 64"
  shows "srs_Read L False raw = Inr (v, map (compiled_rule L B (unat v)) rules)"
proof -
  obtain body where w: "write_all (map (writeRule L B (unat v)) rules) = Inr body"
      "raw = MagicBytes @ [v] @ lib_Deflate L (AppendUvarint (of_nat (length rules)) @ body)"
    using assms(6) lib_okD(1) [OF assms(1)] by (auto simp: srs_Write_def)
  have data: "data = AppendUvarint (of_nat (length rules)) @ body"
    using assms(7) w(2) lib_okD(6) [OF assms(1)] by (simp add: MagicBytes_def)
  have "length body < 2 ^ 64" using assms(8) data by simp
  moreover have "readRule L False 0 (bs @ rest) = Inr (compiled_rule L B (unat v) r, rest)"
    if "r \<in> set rules" "writeRule L B (unat v) r = Inr bs" "length bs < 2 ^ 64" for r bs rest
    using that assms(3,4) readRule_write [OF assms(1,2) _ that(2,3)]
    by (auto simp: readRule_def list_all_iff less_Suc_eq_le simp del: readRule_left.simps)
  ultimately have n: "unat (of_nat (length rules) :: 64 word) = length rules"
      "read_at AtRule 0 (length rules) (readRule L False 0) (body @ []) = Inr (map (compiled_rule L B (unat v)) rules, [])"
    using read_rules_write(1) [OF assms(1) w(1), of "readRule L False 0"]
      read_rules_write(2) [OF assms(1) w(1), of "readRule L False 0" AtRule 0 "[]"] by simp_all
  have "lib_Inflate L (lib_Deflate L (AppendUvarint (of_nat (length rules)) @ body)) = Some data"
    using lib_okD(6) [OF assms(1)] data by simp
  moreover have "ReadFull 3 (MagicBytes @ bs) = Inr (MagicBytes, bs)" for bs
    by (rule ReadFull_append) (simp add: MagicBytes_def)
  ultimately show ?thesis
    using n assms(5) data by (simp add: srs_Read_def w(2))
qed

lemma srs_Read_Write_rel:
  assumes "srs_lib_ok E L" "ipset_builder_ok B" "list_all srs_rule_ok rules"
    and "list_all (\<lambda>r. rule_depth r \<le> maxLogicalRuleDepth) rules" "unat v \<le> RuleSetVersionCurrent"
    and "srs_Write L B rules v = Inr raw" "lib_Inflate L (drop 4 raw) = Some data" "length data < 2 ^ 64"
  shows "\<exists>rules'. srs_Read L False raw = Inr (v, rules') \<and> list_all2 (rule_as_written E B (unat v)) rules rules'"
  using srs_Read_Write [OF assms] compiled_rule_as_written [OF assms(1)] assms(3)
  by (auto simp: list_all_iff list_all2_conv_all_nth)

text \<open>
  (C37) Writing a rule-set and reading the file gives the version and the rules back
  (\<^const>\<open>rule_as_written\<close>): nested rules keep their structure, every list of a default rule that has
  elements is kept, lists of addresses come back as the address ranges they stand for, and lists of
  domains as matchers that match the names the written matchers match. Of the library it is assumed
  (\<^const>\<open>srs_lib_ok\<close>) that what it reads for a written matcher matches the same names. The options have no
  empty domain, only valid prefixes and no interface type twice (\<^const>\<open>srs_rule_ok\<close>), and the rules are
  not nested deeper than the limit.
\<close>

theorem srs_round_trip:
  assumes "srs_lib_ok E L" "ipset_builder_ok B" "list_all srs_rule_ok rules"
    and "list_all (\<lambda>r. rule_depth r \<le> maxLogicalRuleDepth) rules" "unat v \<le> RuleSetVersionCurrent"
    and "srs_Write L B rules v = Inr raw" "lib_Inflate L (drop 4 raw) = Some data" "length data < 2 ^ 64"
  shows "\<exists>rules'. srs_Read L False raw = Inr (v, rules') \<and> list_all2 (rule_as_written E B (unat v)) rules rules'"
  using assms by (rule srs_Read_Write_rel)

lemma sample_file:
  assumes "length raw < 2 ^ 64"
  shows "lib_Inflate sample_srs (drop 4 raw) = Some (drop 4 raw)" "length (drop 4 raw) < 2 ^ 64"
    and "unat (3 :: byte) \<le> RuleSetVersionCurrent" "unat (3 :: byte) \<noteq> RuleSetVersion1"
  using assms by (simp_all add: sample_srs_def RuleSetVersionCurrent_def RuleSetVersion5_def RuleSetVersion1_def)

theorem srs_round_trip_witness:
  "\<exists>raw rules'. srs_Write sample_srs srs_build sample_rules 3 = Inr raw \<and>
     srs_Read sample_srs False raw = Inr (3, rules') \<and>
     list_all2 (rule_as_written sample_env srs_build 3) sample_rules rules'"
proof (rule sample_written)
  fix raw assume w: "srs_Write sample_srs srs_build sample_rules 3 = Inr raw" and l: "length raw < 2 ^ 64"
  have "list_all srs_rule_ok sample_rules"
    using sample_source(1) source_rule_srs by (auto simp: list_all_iff)
  from srs_round_trip [OF sample_srs_ok srs_build_ok this sample_source(2) sample_file(3) [OF l] w sample_file(1,2) [OF l]]
  have "\<exists>rules'. srs_Read sample_srs False raw = Inr (3, rules') \<and>
      list_all2 (rule_as_written sample_env srs_build 3) sample_rules rules'" by simp
  with w show ?thesis by blast
qed

text \<open>
  (C8) Compiling a rule-set in source form does not change what it matches. From version 2 of the format
  on (version 1 writes domain matchers in the legacy encoding and is excluded), when the source form can
  be built into headless rules, so can the file that was written; the two sets match the same
  connections with the same effect on the metadata, and a rule-set condition cannot tell them apart
  either, whatever the outer rule and the other sets are. Of the library it is assumed
  (\<^const>\<open>srs_lib_ok\<close>) that what it reads for a written matcher matches the same names. In source form
  (\<^const>\<open>source_rule\<close>) every default rule gives its conditions by lists and has at least one; the rules
  are not nested deeper than the limit.
\<close>

theorem srs_same_rules:
  assumes "srs_lib_ok E L" "ipset_builder_ok B" "list_all source_rule rules"
    and "list_all (\<lambda>r. rule_depth r \<le> maxLogicalRuleDepth) rules"
    and "unat v \<le> RuleSetVersionCurrent" "unat v \<noteq> RuleSetVersion1"
    and "srs_Write L B rules v = Inr raw" "lib_Inflate L (drop 4 raw) = Some data" "length data < 2 ^ 64"
    and "mapE_at SubRule (NewHeadlessRule B) 0 rules = Inr built"
  shows "\<exists>rules' built'. srs_Read L False raw = Inr (v, rules') \<and>
           mapE_at SubRule (NewHeadlessRule B) 0 rules' = Inr built' \<and>
           matchAnyHeadlessRule E built' = matchAnyHeadlessRule E built \<and>
           (\<forall>S tag. matchWithOuterGroups E (S(tag := built')) = matchWithOuterGroups E (S(tag := built)))"
proof -
  have "list_all srs_rule_ok rules" using assms(3) source_rule_srs by (auto simp: list_all_iff)
  then obtain rules' where r: "srs_Read L False raw = Inr (v, rules')"
      "list_all2 (rule_as_written E B (unat v)) rules rules'"
    using srs_Read_Write_rel [OF assms(1,2) _ assms(4,5,7-9)] by blast
  obtain built' where b: "mapE_at SubRule (NewHeadlessRule B) 0 rules' = Inr built'"
      "list_all2 (headless_alike E) built built'"
    using set_built_alike [OF r(2) assms(3,6,10)] by blast
  have "list_all2 (headless_alike E) ((S(tag := built)) t) ((S(tag := built')) t)" for S tag t
    using b(2) by (simp add: list.rel_refl headless_alike_refl)
  then have "matchWithOuterGroups E (S(tag := built')) = matchWithOuterGroups E (S(tag := built))" for S tag
    by (intro matchWithOuterGroups_alike [symmetric])
  then show ?thesis using r(1) b(1) matchAnyHeadlessRule_alike [OF b(2)] by (intro exI [of _ rules'] exI [of _ built']) simp
qed

lemma sample_built:
  obtains built where "mapE_at SubRule (NewHeadlessRule srs_build) 0 sample_rules = Inr built" "length built = 2"
proof -
  have "\<exists>r. NewHeadlessRule srs_build sample_default = Inr r"
    by (simp add: sample_default_def NewDefaultHeadlessRule_def headless_address_steps_def headless_port_steps_def
        headless_process_steps_def headless_network_steps_def headless_adguard_step_def plain_def checked_def
        nonempty_def headless_options_zero_def srs_build_def item_of_def NewDomainItem_def cidr_item_def
        NewIPCIDRItem_def DefaultHeadlessRule_IsValid_def RuleTypeDefault_def)
  then obtain r where r: "NewHeadlessRule srs_build sample_default = Inr r" by blast
  have "HeadlessRule_IsValid sample_default = Inr True"
    by (simp add: sample_default_def DefaultHeadlessRule_IsValid_def headless_options_zero_def)
  with r that show thesis
    by (simp add: sample_rules_def LogicalHeadlessRule_IsValid_def RuleTypeLogical_def RuleTypeDefault_def)
qed

theorem srs_same_rules_witness:
  "\<exists>raw built rules' built'. srs_Write sample_srs srs_build sample_rules 3 = Inr raw \<and>
     mapE_at SubRule (NewHeadlessRule srs_build) 0 sample_rules = Inr built \<and> length built = 2 \<and>
     srs_Read sample_srs False raw = Inr (3, rules') \<and>
     mapE_at SubRule (NewHeadlessRule srs_build) 0 rules' = Inr built' \<and>
     matchAnyHeadlessRule sample_env built' = matchAnyHeadlessRule sample_env built"
proof (rule sample_written, rule sample_built)
  fix raw built assume w: "srs_Write sample_srs srs_build sample_rules 3 = Inr raw" and l: "length raw < 2 ^ 64"
    and b: "mapE_at SubRule (NewHeadlessRule srs_build) 0 sample_rules = Inr built" "length built = 2"
  note f = sample_file [OF l]
  show ?thesis
    using srs_same_rules [OF sample_srs_ok srs_build_ok sample_source f(3,4) w f(1,2) b(1)] w b by blast
qed

lemma lift_err_Inl_iff: "lift_err w x = Inl e \<longleftrightarrow> (\<exists>a. x = Inl a \<and> e = w a)"
  by (cases x) auto

text \<open>
  (C38) Reading a file always ends by itself: the loop over the items of a rule is never cut off,
  whatever the bytes of the file are.
\<close>

theorem srs_reading_ends:
  assumes "srs_lib_consumes L" "srs_Read L recover raw = Inl e"
  shows "\<not> cut_off e"
proof -
  have p: "proper (read_at AtRule 0 n (readRule L recover 0))" for n
    unfolding readRule_def by (intro proper_read_at proper_readRule [OF assms(1)]) simp
  show ?thesis
    using assms(2) properD(1) [OF p]
    by (auto simp: srs_Read_def bindE_Inl_iff lift_err_Inl_iff split: if_splits option.splits)
qed

lemma dec_bytes_consumes: "dec_bytes bs = Inr (s, rest) \<Longrightarrow> length rest \<le> length bs"
  by (induction bs arbitrary: s rest rule: dec_bytes.induct) (auto split: if_splits)

lemma dec_strings_consumes: "dec_strings n bs = Inr (s, rest) \<Longrightarrow> length rest \<le> length bs"
  using dec_bytes_consumes
  by (induction n bs arbitrary: s rest rule: dec_strings.induct) (fastforce split: if_splits)+

lemma consumes_bind:
  assumes "consumes 0 read" "\<And>x. consumes 0 (f x)"
  shows "consumes 0 (\<lambda>bs. bindE (read bs) (\<lambda>(x, bs1). f x bs1))"
  using consumesD [OF assms(1)] consumesD [OF assms(2)] by (fastforce simp: consumes_def intro: order_trans)

lemma consumes_basic: "consumes 0 (\<lambda>bs. Inr (x, bs))" "consumes 0 read \<Longrightarrow> consumes 0 (\<lambda>bs. lift_err w (read bs))"
  by (auto simp: consumes_def)

lemma consumes_dec_list: "consumes 0 dec_list"
  using dec_strings_consumes by (simp add: consumes_def dec_list_def)

lemmas consumes_intros = consumes_bind consumes_basic consumes_dec_list consumes_read_n
  consumes_weaken [OF consumes_ReadUvarint le0] consumes_weaken [OF consumes_ReadFull le0]
  consumes_weaken [OF consumes_read_be le0] consumes_weaken [OF consumes_read_bool le0]

lemma sample_srs_consumes: "srs_lib_consumes sample_srs"
  unfolding srs_lib_consumes_def sample_srs_def srs_lib.simps
    sample_slice8_def [abs_def] sample_slice16_def [abs_def] sample_read_matcher_def [abs_def]
  by (intro conjI consumes_intros)

text \<open>A file with one default rule whose port item is followed by an item of an unknown type.\<close>

definition sample_bad_file :: bytes where
  "sample_bad_file = [0x53, 0x52, 0x53, 5] @ [1] @ [0] @ [9, 1, 1, 0xBB] @ [24]"

theorem srs_reading_ends_witness:
  "\<exists>e. srs_Read sample_srs False sample_bad_file = Inl e \<and> e = AtRule 0 (UnknownItemType 24 9) \<and> \<not> cut_off e"
proof -
  have "srs_Read sample_srs False sample_bad_file = Inl (AtRule 0 (UnknownItemType 24 9))" by code_simp
  then show ?thesis using srs_reading_ends [OF sample_srs_consumes] by blast
qed

text \<open>Whatever the bytes of a file are, rules that are read from it are not nested deeper than the limit.\<close>

lemma srs_depth_bounded:
  assumes "srs_Read L recover raw = Inr (v, rules)"
  shows "list_all (\<lambda>r. rule_depth r \<le> maxLogicalRuleDepth) rules"
proof -
  obtain n bs rest where "read_at AtRule 0 n (readRule L recover 0) bs = Inr (rules, rest)"
    using assms by (auto simp: srs_Read_def split: if_splits option.splits)
  then show ?thesis
  proof (rule read_at_all [rotated])
    fix bs r rest assume "readRule L recover 0 bs = Inr (r, rest)"
    from readRule_left_depth [OF this [unfolded readRule_def]] show "rule_depth r \<le> maxLogicalRuleDepth" by simp
  qed
qed

lemma srs_read_refused:
  assumes "srs_lib_ok E L" "ipset_builder_ok B" "list_all srs_rule_ok rules"
    and "list_ex (\<lambda>r. rule_depth r > maxLogicalRuleDepth) rules" "unat v \<le> RuleSetVersionCurrent"
    and "srs_Write L B rules v = Inr raw" "lib_Inflate L (drop 4 raw) = Some data" "length data < 2 ^ 64"
  shows "\<exists>e. srs_Read L False raw = Inl e \<and> nested_too_deep e"
proof -
  obtain body where w: "write_all (map (writeRule L B (unat v)) rules) = Inr body"
      "raw = MagicBytes @ [v] @ lib_Deflate L (AppendUvarint (of_nat (length rules)) @ body)"
    using assms(6) lib_okD(1) [OF assms(1)] by (auto simp: srs_Write_def)
  have data: "data = AppendUvarint (of_nat (length rules)) @ body"
    using assms(7) w(2) lib_okD(6) [OF assms(1)] by (simp add: MagicBytes_def)
  have len: "length body < 2 ^ 64" using assms(8) data by simp
  have deep: "list_ex (\<lambda>r. \<not> rule_depth r < Suc maxLogicalRuleDepth) rules"
    using assms(4) by (simp add: not_less Suc_le_eq)
  have sub: "\<exists>e. readRule_left L False (Suc maxLogicalRuleDepth) (bs @ rest) = Inl e \<and> nested_too_deep e"
    if "r \<in> set rules" "writeRule L B (unat v) r = Inr bs" "length bs < 2 ^ 64" "\<not> rule_depth r < Suc maxLogicalRuleDepth"
    for r bs rest
    using readRule_refused [OF assms(1,2) _ that(2-)] assms(3) that(1) by (simp add: list_all_iff del: readRule_left.simps)
  have n: "unat (of_nat (length rules) :: 64 word) = length rules"
    "\<exists>e. read_at AtRule 0 (length rules) (readRule_left L False (Suc maxLogicalRuleDepth)) (body @ []) = Inl e \<and> nested_too_deep e"
    by (rule read_rules_refused [where w = AtRule, OF assms(1-3) w(1) len deep];
        use sub in \<open>simp del: readRule_left.simps\<close>)+
  have "lib_Inflate L (lib_Deflate L (AppendUvarint (of_nat (length rules)) @ body)) = Some data"
    using lib_okD(6) [OF assms(1)] data by simp
  moreover have "ReadFull 3 (MagicBytes @ bs) = Inr (MagicBytes, bs)" for bs
    by (rule ReadFull_append) (simp add: MagicBytes_def)
  ultimately show ?thesis
    using n assms(5) data by (auto simp: srs_Read_def w(2) readRule_def simp del: readRule_left.simps)
qed

text \<open>
  (C39) Rules nested deeper than the limit are refused. Whatever the bytes of a file are, no rule that is
  read from it has rules nested deeper than the limit below it. A rule-set with such a rule can be
  written, but reading the file fails with the error for rules nested too deep; for this the assumptions
  are those of the round trip.
\<close>

theorem srs_nesting_limit:
  assumes "srs_lib_ok E L" "ipset_builder_ok B" "list_all srs_rule_ok rules"
    and "list_ex (\<lambda>r. rule_depth r > maxLogicalRuleDepth) rules" "unat v \<le> RuleSetVersionCurrent"
    and "srs_Write L B rules v = Inr raw" "lib_Inflate L (drop 4 raw) = Some data" "length data < 2 ^ 64"
  shows "(\<exists>e. srs_Read L False raw = Inl e \<and> nested_too_deep e) \<and>
         (\<forall>recover file v' rules'. srs_Read L recover file = Inr (v', rules') \<longrightarrow>
            list_all (\<lambda>r. rule_depth r \<le> maxLogicalRuleDepth) rules')"
  using srs_read_refused [OF assms] srs_depth_bounded by blast

fun nested_sample :: "nat \<Rightarrow> HeadlessRuleOptions" where
  "nested_sample 0 = sample_default"
| "nested_sample (Suc n) = HeadlessRuleOptions RuleTypeLogical headless_options_zero LogicalTypeAnd [nested_sample n] False"

lemma nested_sample_written:
  "\<exists>bs. writeRule sample_srs srs_build 3 (nested_sample n) = Inr bs \<and> length bs < 1000 + 4 * n"
proof (induction n)
  case 0
  then show ?case using sample_default_written by simp
next
  case (Suc n)
  then show ?case
    by (auto simp: writeLogicalRule_def sample_srs_def AppendUvarint_small write_bool_def RuleTypeDefault_def
        RuleTypeLogical_def)
qed

lemma nested_sample_shape: "rule_depth (nested_sample n) = n" "srs_rule_ok (nested_sample n)"
proof (induction n)
  case 0
  { case 1 show ?case by (simp add: sample_default_def RuleTypeDefault_def RuleTypeLogical_def) }
  { case 2 show ?case using sample_source(1) source_rule_srs by (simp add: sample_rules_def) }
qed simp_all

theorem srs_nesting_limit_witness:
  "\<exists>raw e. srs_Write sample_srs srs_build [nested_sample 101] 3 = Inr raw \<and>
     srs_Read sample_srs False raw = Inl e \<and> nested_too_deep e"
proof -
  obtain bs where "writeRule sample_srs srs_build 3 (nested_sample 101) = Inr bs" "length bs < 2000"
    using nested_sample_written [of 101] by auto
  then obtain raw where w: "srs_Write sample_srs srs_build [nested_sample 101] 3 = Inr raw" and l: "length raw < 2 ^ 64"
    by (simp add: srs_Write_def MagicBytes_def sample_srs_def AppendUvarint_small)
  have "list_ex (\<lambda>r. rule_depth r > maxLogicalRuleDepth) [nested_sample 101]" "list_all srs_rule_ok [nested_sample 101]"
    using nested_sample_shape [of 101] by (simp_all add: maxLogicalRuleDepth_def del: nested_sample.simps)
  from srs_nesting_limit [OF sample_srs_ok srs_build_ok this(2,1) sample_file(3) [OF l] w sample_file(1,2) [OF l]] w
  show ?thesis by blast
qed

end
