(* ===== verification/Sniff.thy ===== *)
theory Sniff
  imports Rule_Action Codec
begin

text \<open>
  Protocol sniffers (common/sniff): functions that look at the first bytes of a stream or at a packet
  and set the protocol, domain and client of the metadata.

  A stream sniffer reads from the concatenation of buffers (\<^verbatim>\<open>io.MultiReader\<close>), represented by the list of
  their contents; a single \<^verbatim>\<open>Read\<close> stops at the end of a buffer, \<^verbatim>\<open>io.ReadFull\<close> and \<^verbatim>\<open>bufio.Reader\<close> do not.
  A sniffer returns its error, \<open>None\<close> for nil, and the metadata. Errors with the cause
  \<^verbatim>\<open>ErrNeedMoreData\<close> are represented by \<open>ErrNeedMoreData\<close>.
\<close>

unbundle bit_operations_syntax

subsection \<open>Libraries and results\<close>

text \<open>
  Functions the repository does not contain: \<^verbatim>\<open>rw.SkipN\<close> and \<^verbatim>\<open>buf.Buffer.ReadFullFrom\<close> (the bytes read, and
  whether they are all that was asked for), decoding of DNS messages and HTTP requests, the address
  part of a host, and the TLS handshake (the server name when a client hello was seen, else whether the
  error is \<^verbatim>\<open>io.ErrUnexpectedEOF\<close>). The QUIC sniffer (quic.go) is a parameter, too.
\<close>

record sniff_lib =
  sl_SkipN :: "nat \<Rightarrow> bytes \<Rightarrow> bytes option"
  sl_ReadFullFrom :: "nat \<Rightarrow> bytes \<Rightarrow> bytes \<times> bool"
  sl_Unpack :: "bytes \<Rightarrow> (string, dns_Message) res"
  sl_ReadRequest :: "bytes \<Rightarrow> (bool \<times> string, string) res"
  sl_HostAddrString :: "string \<Rightarrow> string"
  sl_ClientHello :: "bytes \<Rightarrow> (bool \<times> string, string) res"
  sl_QUICClientHello :: "InboundContext \<Rightarrow> bytes \<Rightarrow> sniff_error option \<times> InboundContext"

type_synonym sniff_result = "sniff_error option \<times> InboundContext"

definition invalid :: sniff_error where "invalid = ErrOther ''invalid argument''"

definition ProtocolTLS :: string where "ProtocolTLS = ''tls''"
definition ProtocolHTTP :: string where "ProtocolHTTP = ''http''"
definition ProtocolDNS :: string where "ProtocolDNS = ''dns''"
definition ProtocolSTUN :: string where "ProtocolSTUN = ''stun''"
definition ProtocolBitTorrent :: string where "ProtocolBitTorrent = ''bittorrent''"
definition ProtocolDTLS :: string where "ProtocolDTLS = ''dtls''"
definition ProtocolSSH :: string where "ProtocolSSH = ''ssh''"
definition ProtocolRDP :: string where "ProtocolRDP = ''rdp''"
definition ProtocolNTP :: string where "ProtocolNTP = ''ntp''"

definition found :: "string \<Rightarrow> InboundContext \<Rightarrow> sniff_result" where
  "found protocol m = (None, m\<lparr>m_Protocol := protocol\<rparr>)"

definition fails :: "sniff_error \<Rightarrow> InboundContext \<Rightarrow> sniff_result" where
  "fails e m = (Some e, m)"

subsection \<open>Buffers\<close>

text \<open>One \<^verbatim>\<open>Read\<close> of at most \<open>n\<close> bytes, and whether it returns \<^verbatim>\<open>io.EOF\<close>; and the buffers after \<open>n\<close> bytes.\<close>

definition read_once :: "nat \<Rightarrow> bytes list \<Rightarrow> bytes \<times> bool" where
  "read_once n chunks =
     (case dropWhile (\<lambda>c. c = []) chunks of [] \<Rightarrow> ([], True) | c # _ \<Rightarrow> (take n c, False))"

fun drop_chunks :: "nat \<Rightarrow> bytes list \<Rightarrow> bytes list" where
  "drop_chunks n [] = []"
| "drop_chunks n (c # cs) = (if n \<le> length c then drop n c # cs else drop_chunks (n - length c) cs)"

subsection \<open>Stream sniffers\<close>

definition sniff_BitTorrent :: "InboundContext \<Rightarrow> bytes list \<Rightarrow> sniff_result" where
  "sniff_BitTorrent m chunks =
     (case concat chunks of
        [] \<Rightarrow> fails ErrNeedMoreData m
      | first # _ \<Rightarrow>
          if first \<noteq> 19 then fails invalid m
          else
            (let header = string_bytes ''BitTorrent protocol'';
                 (protocol, eof) = read_once 19 (drop_chunks 1 chunks)
             in if protocol \<noteq> take (length protocol) header then fails invalid m
                else if eof then fails ErrNeedMoreData m
                else if length protocol < 19 then fails ErrNeedMoreData m
                else found ProtocolBitTorrent m))"

definition sniff_DomainNameQuery :: "sniff_lib \<Rightarrow> InboundContext \<Rightarrow> bytes \<Rightarrow> sniff_result" where
  "sniff_DomainNameQuery X m packet =
     (case sl_Unpack X packet of
        Inl e \<Rightarrow> fails (ErrOther e) m
      | Inr msg \<Rightarrow>
          if h_Response msg \<or> h_Question msg = [] \<or> h_Answer msg \<noteq> [] \<or> h_Ns msg \<noteq> [] then (None, m)
          else found ProtocolDNS m)"

text \<open>The tests of the header as far as it has arrived.\<close>

definition query_header_invalid :: "bytes \<Rightarrow> bool" where
  "query_header_invalid packet =
     (let n = length packet in
        (n > 2 \<and> packet ! 2 AND 0x80 \<noteq> 0) \<or>
        (n > 5 \<and> packet ! 4 = 0 \<and> packet ! 5 = 0) \<or>
        list_ex (\<lambda>i. n > i \<and> packet ! i \<noteq> 0) [6..<10])"

definition sniff_StreamDomainNameQuery :: "sniff_lib \<Rightarrow> InboundContext \<Rightarrow> bytes \<Rightarrow> sniff_result" where
  "sniff_StreamDomainNameQuery X m data =
     (case (read_be 2 data :: (read_error, 16 word \<times> bytes) res) of
        Inl _ \<Rightarrow> fails ErrNeedMoreData m
      | Inr (len, rest) \<Rightarrow>
          if len < 12 then fails invalid m
          else
            (case sl_ReadFullFrom X (unat len) rest of
               (packet, complete) \<Rightarrow>
                 if query_header_invalid packet then fails invalid m
                 else if \<not> complete then fails ErrNeedMoreData m
                 else sniff_DomainNameQuery X m packet))"

definition sniff_HTTPHost :: "sniff_lib \<Rightarrow> InboundContext \<Rightarrow> bytes \<Rightarrow> sniff_result" where
  "sniff_HTTPHost X m data =
     (case sl_ReadRequest X data of
        Inl (unexpectedEOF, e) \<Rightarrow> fails (if unexpectedEOF then ErrNeedMoreData else ErrOther e) m
      | Inr host \<Rightarrow> (None, m\<lparr>m_Protocol := ProtocolHTTP, m_Domain := sl_HostAddrString X host\<rparr>))"

definition sniff_TLSClientHello :: "sniff_lib \<Rightarrow> InboundContext \<Rightarrow> bytes \<Rightarrow> sniff_result" where
  "sniff_TLSClientHello X m data =
     (case sl_ClientHello X data of
        Inr serverName \<Rightarrow> (None, m\<lparr>m_Protocol := ProtocolTLS, m_Domain := serverName\<rparr>)
      | Inl (unexpectedEOF, e) \<Rightarrow> fails (if unexpectedEOF then ErrNeedMoreData else ErrOther e) m)"

text \<open>
  \<^verbatim>\<open>ReadLine\<close> of a \<^verbatim>\<open>bufio.Reader\<close> with its default buffer of 4096 bytes: the line without its end, at
  most a full buffer, or all that is left.
\<close>

definition ReadLine :: "bytes \<Rightarrow> bytes" where
  "ReadLine data =
     (let line = takeWhile (\<lambda>b. b \<noteq> 10) (take 4096 data)
      in if length line < length (take 4096 data) \<or> length data \<ge> 4096
         then (if line \<noteq> [] \<and> last line = 13 then butlast line else line)
         else line)"

text \<open>The slice expression \<^verbatim>\<open>[8:]\<close> panics on a shorter line.\<close>

definition sniff_SSH :: "InboundContext \<Rightarrow> bytes \<Rightarrow> sniff_result" where
  "sniff_SSH m data =
     (let sshPrefix = string_bytes ''SSH-2.0-''; prefix = take 8 data
      in if prefix \<noteq> take (length prefix) sshPrefix then fails invalid m
         else if length data < 8 then fails ErrNeedMoreData m
         else
           (let line = ReadLine data
            in if length line < 8 then fails (ErrOther ''panic'') m
               else (None, m\<lparr>m_Protocol := ProtocolSSH, m_Client := bytes_string (drop 8 line)\<rparr>)))"

text \<open>The fields of a TPKT, COTP and RDP header in order: \<open>expect\<close> reads one field and compares it.\<close>

definition expect :: "nat \<Rightarrow> (nat \<Rightarrow> bool) \<Rightarrow> (bytes \<Rightarrow> sniff_result) \<Rightarrow> InboundContext \<Rightarrow> bytes \<Rightarrow> sniff_result" where
  "expect width ok next m data =
     (case ReadFull width data of
        Inl _ \<Rightarrow> fails ErrNeedMoreData m
      | Inr (raw, rest) \<Rightarrow>
          if ok (unat (be_value raw :: 16 word)) then next rest else fails invalid m)"

definition sniff_RDP :: "sniff_lib \<Rightarrow> InboundContext \<Rightarrow> bytes \<Rightarrow> sniff_result" where
  "sniff_RDP X m data =
     expect 1 (\<lambda>tpktVersion. tpktVersion = 3) (expect 1 (\<lambda>tpktReserved. tpktReserved = 0)
       (expect 2 (\<lambda>tpktLength. tpktLength = 19) (expect 1 (\<lambda>cotpLength. cotpLength = 14)
       (expect 1 (\<lambda>cotpTpduType. cotpTpduType = 0xE0) (\<lambda>rest.
          case sl_SkipN X 5 rest of
            None \<Rightarrow> fails ErrNeedMoreData m
          | Some rest1 \<Rightarrow>
              expect 1 (\<lambda>rdpType. rdpType = 1) (expect 1 (\<lambda>rdpFlags. True)
                (expect 1 (\<lambda>rdpLength. rdpLength = 8) (\<lambda>_. found ProtocolRDP m) m) m) m rest1) m) m) m) m) m data"

definition run_StreamSniffer :: "sniff_lib \<Rightarrow> StreamSniffer \<Rightarrow> InboundContext \<Rightarrow> bytes list \<Rightarrow> sniff_result" where
  "run_StreamSniffer X sniffer m chunks =
     (case sniffer of
        TLSClientHello \<Rightarrow> sniff_TLSClientHello X m (concat chunks)
      | HTTPHost \<Rightarrow> sniff_HTTPHost X m (concat chunks)
      | StreamDomainNameQuery \<Rightarrow> sniff_StreamDomainNameQuery X m (concat chunks)
      | BitTorrent \<Rightarrow> sniff_BitTorrent m chunks
      | SSH \<Rightarrow> sniff_SSH m (concat chunks)
      | RDP \<Rightarrow> sniff_RDP X m (concat chunks))"

subsection \<open>Packet sniffers\<close>

text \<open>The loop over the extension headers: \<open>extension\<close> is the type of the next one.\<close>

function utp_extensions :: "byte \<Rightarrow> bytes \<Rightarrow> sniff_error option" where
  "utp_extensions extension reader =
     (if extension = 0 then None
      else case reader of
             [] \<Rightarrow> Some (ErrOther ''EOF'')
           | e # reader1 \<Rightarrow>
               if e > 4 then Some invalid
               else (case reader1 of
                       [] \<Rightarrow> Some (ErrOther ''EOF'')
                     | len # reader2 \<Rightarrow> utp_extensions e (drop (unat len) reader2)))"
  by pat_completeness auto
termination
  by (relation "measure (\<lambda>(_, reader). length reader)") auto

declare utp_extensions.simps [simp del]

definition sniff_UTP :: "InboundContext \<Rightarrow> bytes \<Rightarrow> sniff_result" where
  "sniff_UTP m packet =
     (if length packet < 20 then fails invalid m
      else if packet ! 0 AND 0x0F \<noteq> 1 \<or> drop_bit 4 (packet ! 0) > 4 then fails invalid m
      else case utp_extensions (packet ! 1) (drop 20 packet) of
             Some e \<Rightarrow> fails e m
           | None \<Rightarrow> found ProtocolBitTorrent m)"

abbreviation packet_be :: "bytes \<Rightarrow> nat \<Rightarrow> nat \<Rightarrow> 'a::len word" where
  "packet_be packet from to \<equiv> be_value (take (to - from) (drop from packet))"

definition sniff_UDPTracker :: "InboundContext \<Rightarrow> bytes \<Rightarrow> sniff_result" where
  "sniff_UDPTracker m packet =
     (if length packet < 16 then fails invalid m
      else if (packet_be packet 0 8 :: 64 word) \<noteq> 0x41727101980 then fails invalid m
      else if (packet_be packet 8 12 :: 32 word) \<noteq> 0 then fails invalid m
      else found ProtocolBitTorrent m)"

definition sniff_DTLSRecord :: "InboundContext \<Rightarrow> bytes \<Rightarrow> sniff_result" where
  "sniff_DTLSRecord m packet =
     (if length packet < 13 then fails invalid m
      else if packet ! 0 \<notin> set [20, 21, 22, 23, 25] then fails invalid m
      else if packet ! 1 \<noteq> 0xfe then fails invalid m
      else if packet ! 2 \<noteq> 0xff \<and> packet ! 2 \<noteq> 0xfd then fails invalid m
      else found ProtocolDTLS m)"

text \<open>A root delay of more than 16 seconds, in units of 1/65536 seconds; the division is exact.\<close>

definition sniff_NTP :: "InboundContext \<Rightarrow> bytes \<Rightarrow> sniff_result" where
  "sniff_NTP m packet =
     (if length packet < 48 then fails invalid m
      else
        (let firstByte = packet ! 0;
             li = drop_bit 6 firstByte AND 0x03;
             vn = drop_bit 3 firstByte AND 0x07;
             mode = firstByte AND 0x07
         in if li > 3 then fails invalid m
            else if vn \<noteq> 3 \<and> vn \<noteq> 4 then fails invalid m
            else if mode \<noteq> 3 then fails invalid m
            else if unat (packet_be packet 4 8 :: 32 word) > 16 * 65536 then fails invalid m
            else if unat (packet_be packet 8 12 :: 32 word) > 16 * 65536 then fails invalid m
            else found ProtocolNTP m))"

definition sniff_STUNMessage :: "InboundContext \<Rightarrow> bytes \<Rightarrow> sniff_result" where
  "sniff_STUNMessage m packet =
     (if length packet < 20 then fails invalid m
      else if (packet_be packet 4 8 :: 32 word) \<noteq> 0x2112A442 then fails invalid m
      else if length packet < 20 + unat (packet_be packet 2 4 :: 16 word) then fails invalid m
      else found ProtocolSTUN m)"

definition run_PacketSniffer :: "sniff_lib \<Rightarrow> PacketSniffer \<Rightarrow> InboundContext \<Rightarrow> bytes \<Rightarrow> sniff_result" where
  "run_PacketSniffer X sniffer m packet =
     (case sniffer of
        QUICClientHello \<Rightarrow> sl_QUICClientHello X m packet
      | DomainNameQuery \<Rightarrow> sniff_DomainNameQuery X m packet
      | STUNMessage \<Rightarrow> sniff_STUNMessage m packet
      | UTP \<Rightarrow> sniff_UTP m packet
      | UDPTracker \<Rightarrow> sniff_UDPTracker m packet
      | DTLSRecord \<Rightarrow> sniff_DTLSRecord m packet
      | NTP \<Rightarrow> sniff_NTP m packet)"

subsection \<open>Running a list of sniffers\<close>

text \<open>Server-first protocols: mail ports.\<close>

definition sniff_Skip :: "InboundContext \<Rightarrow> bool" where
  "sniff_Skip m = (sa_Port (m_Destination m) \<in> set [25, 465, 587, 143, 993, 110, 995])"

text \<open>\<^verbatim>\<open>E.Errors\<close>: the combination of errors is \<^verbatim>\<open>ErrNeedMoreData\<close> when one of them is.\<close>

definition E_Errors :: "sniff_error list \<Rightarrow> sniff_error option" where
  "E_Errors errs =
     (if errs = [] then None
      else if ErrNeedMoreData \<in> set errs then Some ErrNeedMoreData
      else Some (ErrOther (concat (map (\<lambda>e. case e of ErrOther s \<Rightarrow> s | ErrNeedMoreData \<Rightarrow> []) errs))))"

text \<open>The loop over the sniffers, with the errors so far: the first one without an error ends it.\<close>

fun try_sniffers :: "('a \<Rightarrow> InboundContext \<Rightarrow> sniff_result) \<Rightarrow> 'a list \<Rightarrow> sniff_error list \<Rightarrow> InboundContext \<Rightarrow> sniff_result" where
  "try_sniffers run [] errs m = (E_Errors errs, m)"
| "try_sniffers run (s # ss) errs m =
     (case run s m of
        (None, m1) \<Rightarrow> (None, m1)
      | (Some e, m1) \<Rightarrow> try_sniffers run ss (errs @ [e]) m1)"

definition PeekPacket :: "sniff_lib \<Rightarrow> InboundContext \<Rightarrow> bytes \<Rightarrow> PacketSniffer list \<Rightarrow> sniff_result" where
  "PeekPacket X m packet sniffers = try_sniffers (\<lambda>s m. run_PacketSniffer X s m packet) sniffers [] m"

text \<open>
  \<^verbatim>\<open>PeekStream\<close>: \<open>reads\<close> are the results of the following reads from the connection, the bytes or an
  error (a timeout when the list ends); \<open>buffer\<close> is what was read already and \<open>sniffError\<close> the error of
  the last round. The result holds the buffer and the reads that are left.
\<close>

fun PeekStream_loop ::
  "sniff_lib \<Rightarrow> bytes list \<Rightarrow> StreamSniffer list \<Rightarrow> bytes \<Rightarrow> sniff_error option \<Rightarrow> bool \<Rightarrow> InboundContext \<Rightarrow>
   (string, bytes) res list \<Rightarrow> sniff_error option \<times> InboundContext \<times> bytes \<times> (string, bytes) res list"
where
  "PeekStream_loop X buffers sniffers buffer sniffError first m [] =
     (if first then Some (ErrOther ''read payload'') else sniffError, m, buffer, [])"
| "PeekStream_loop X buffers sniffers buffer sniffError first m (Inl e # reads) =
     (if first then Some (ErrOther e) else sniffError, m, buffer, reads)"
| "PeekStream_loop X buffers sniffers buffer sniffError first m (Inr data # reads) =
     (case try_sniffers (\<lambda>s m. run_StreamSniffer X s m (buffers @ [buffer @ data])) sniffers [] m of
        (None, m1) \<Rightarrow> (None, m1, buffer @ data, reads)
      | (Some err, m1) \<Rightarrow>
          if err \<noteq> ErrNeedMoreData then (Some err, m1, buffer @ data, reads)
          else PeekStream_loop X buffers sniffers (buffer @ data) (Some err) False m1 reads)"

definition PeekStream ::
  "sniff_lib \<Rightarrow> bytes list \<Rightarrow> StreamSniffer list \<Rightarrow> InboundContext \<Rightarrow> (string, bytes) res list \<Rightarrow>
   sniff_error option \<times> InboundContext \<times> bytes \<times> (string, bytes) res list"
where
  "PeekStream X buffers sniffers m reads = PeekStream_loop X buffers sniffers [] None True m reads"

end
