(* ===== verification/Router.thy ===== *)
theory Router
  imports Sniff Rule_Match
begin

text \<open>
  The router (route/route.go, route/process\_cache.go): preparing the metadata of a connection, walking
  the rules with their actions, selecting the outbound, and the decision before a connection is
  accepted (\<^verbatim>\<open>PreMatch\<close>).

  The components the router holds are functions of \<open>router_env\<close>, as they are while one connection is
  routed. What can still be read from a connection is a list of results of its reads. The log is not
  modelled.
\<close>

subsection \<open>Constants and environment\<close>

definition NetworkTCP :: string where "NetworkTCP = ''tcp''"
definition NetworkUDP :: string where "NetworkUDP = ''udp''"
definition NetworkICMP :: string where "NetworkICMP = ''icmp''"
definition TypeTun :: string where "TypeTun = ''tun''"
definition RuleActionRejectMethodReply :: string where "RuleActionRejectMethodReply = ''reply''"

datatype PreMatchAction =
    PreMatchContinue | PreMatchFlow | PreMatchReject | PreMatchDrop | PreMatchBypass | PreMatchHijackDNS

text \<open>
  An outbound: its tag, the networks it supports, for a group the outbound it has selected, and for a
  flow outbound its \<^verbatim>\<open>PreMatchFlow\<close> method, and whether it is a \<^verbatim>\<open>tun.Port\<close>.
\<close>

record Outbound =
  o_Tag :: string
  o_Network :: "string list"
  o_Now :: "string option"
  o_PreMatchFlow :: "(string \<Rightarrow> addr \<Rightarrow> PreMatchAction) option"
  o_IsPort :: bool

type_synonym AddrPort = "addr \<times> 16 word"

text \<open>
  The environment: matching and sniffing, the process search (with its cache), the addresses of the
  device, the neighbour resolver (hardware address and host name), the FakeIP store (\<^verbatim>\<open>Contains\<close> and
  \<^verbatim>\<open>Lookup\<close>), DNS, the outbound manager, for an inbound whether TCP and UDP connections can be injected
  into it, the destinations of the former global multiplex and UDP-over-TCP, the descriptions of the
  rules, and the number of connection trackers.
\<close>

record router_env =
  q_env :: env
  q_store :: rule_store
  q_sniff :: sniff_lib
  q_findProcessInfoCached :: "(string \<Rightarrow> AddrPort \<Rightarrow> AddrPort \<Rightarrow> (string, ConnectionOwner) res) option"
  q_MyInterfaceAddress :: "addr list"
  q_Interfaces :: "prefix list list"
  q_neighborResolver :: "((addr \<Rightarrow> bytes option) \<times> (addr \<Rightarrow> string option)) option"
  q_FakeIP :: "((addr \<Rightarrow> bool) \<times> (addr \<Rightarrow> string option)) option"
  q_LookupReverseMapping :: "addr \<Rightarrow> string option"
  q_Transport :: "string \<Rightarrow> bool"
  q_Lookup :: "InboundContext \<Rightarrow> string \<Rightarrow> RuleActionResolve \<Rightarrow> (string, addr list) res"
  q_Outbound :: "string \<Rightarrow> Outbound option"
  q_Default :: Outbound
  q_Inbound :: "string \<Rightarrow> (bool \<times> bool) option"
  q_GlobalDestination :: "string \<Rightarrow> bool"
  q_RuleString :: "nat \<Rightarrow> string"
  q_trackers :: nat

datatype route_error =
    RoutingLoop string
  | DetourNotFound string
  | DetourNotInjectable string
  | GlobalMultiplex string
  | MissingFakeIPRecord
  | DNSServerNotFound string
  | LookupError string
  | PacketReadError string
  | ContextDone
  | OutboundNotFound string
  | NetworkNotSupported string
  | ReplyNotSupported
  | Rejected reject_outcome
  | NilActionPanic

subsection \<open>Preparing the metadata\<close>

text \<open>\<^verbatim>\<open>netip.Addr.IsLoopback\<close>.\<close>

fun addr_IsLoopback :: "addr \<Rightarrow> bool" where
  "addr_IsLoopback AddrZero = False"
| "addr_IsLoopback (Addr4 w) = (drop_bit 24 w = 127)"
| "addr_IsLoopback (Addr6 w z) =
     (if drop_bit 32 w = 0xFFFF then drop_bit 24 (ucast w :: 32 word) = 127 else w = 1)"

definition isLocalSource :: "router_env \<Rightarrow> addr \<Rightarrow> bool" where
  "isLocalSource R source =
     (addr_IsLoopback source \<or> source \<in> set (q_MyInterfaceAddress R) \<or>
      list_ex (list_ex (\<lambda>p. prefix_Addr p = source)) (q_Interfaces R))"

abbreviation sa_AddrPort :: "Socksaddr \<Rightarrow> AddrPort" where
  "sa_AddrPort a \<equiv> (sa_Addr a, sa_Port a)"

definition searchProcessInfo :: "router_env \<Rightarrow> InboundContext \<Rightarrow> InboundContext" where
  "searchProcessInfo R m =
     (case q_findProcessInfoCached R of
        None \<Rightarrow> m
      | Some finder \<Rightarrow>
          if m_ProcessInfo m \<noteq> None \<or> \<not> isLocalSource R (sa_Addr (m_Source m)) then m
          else
            (let originDestination =
                   (if x_sa_IsValid (q_env R) (m_OriginDestination m) then sa_AddrPort (m_OriginDestination m)
                    else if x_IsIP (q_env R) (m_Destination m) then sa_AddrPort (m_Destination m)
                    else (AddrZero, 0))
             in case finder (m_Network m) (sa_AddrPort (m_Source m)) originDestination of
                  Inl _ \<Rightarrow> m
                | Inr processInfo \<Rightarrow> m\<lparr>m_ProcessInfo := Some processInfo\<rparr>))"

definition find_neighbor :: "router_env \<Rightarrow> InboundContext \<Rightarrow> InboundContext" where
  "find_neighbor R m =
     (case q_neighborResolver R of
        None \<Rightarrow> m
      | Some (lookupMAC, lookupHostname) \<Rightarrow>
          if m_SourceMACAddress m = None \<and> addr_IsValid (sa_Addr (m_Source m)) then
            (let m1 = (case lookupMAC (sa_Addr (m_Source m)) of
                         Some mac \<Rightarrow> m\<lparr>m_SourceMACAddress := Some mac\<rparr> | None \<Rightarrow> m)
             in case lookupHostname (sa_Addr (m_Source m)) of
                  Some hostname \<Rightarrow> m1\<lparr>m_SourceHostname := hostname\<rparr> | None \<Rightarrow> m1)
          else m)"

definition domain_destination :: "string \<Rightarrow> Socksaddr \<Rightarrow> Socksaddr" where
  "domain_destination domain a = \<lparr>sa_Addr = AddrZero, sa_Port = sa_Port a, sa_Fqdn = domain\<rparr>"

text \<open>The domain of a FakeIP destination, or else of the reverse mapping.\<close>

definition find_domain :: "router_env \<Rightarrow> InboundContext \<Rightarrow> (route_error, InboundContext) res" where
  "find_domain R m =
     (let address = sa_Addr (m_Destination m) in
      case (case q_FakeIP R of
              Some (contains, lookup) \<Rightarrow>
                if addr_IsValid address \<and> contains address then Some (lookup address) else None
            | None \<Rightarrow> None) of
        Some None \<Rightarrow> Inl MissingFakeIPRecord
      | Some (Some domain) \<Rightarrow>
          Inr (if domain \<noteq> [] then
                 m\<lparr>m_OriginDestination := m_Destination m,
                   m_Destination := domain_destination domain (m_Destination m),
                   m_FakeIP := True\<rparr>
               else m)
      | None \<Rightarrow>
          Inr (if m_Domain m = [] then
                 (case q_LookupReverseMapping R address of
                    Some domain \<Rightarrow> m\<lparr>m_Domain := domain\<rparr> | None \<Rightarrow> m)
               else m))"

definition set_ip_version :: "router_env \<Rightarrow> InboundContext \<Rightarrow> InboundContext" where
  "set_ip_version R m =
     (if x_IsIPv4 (q_env R) (m_Destination m) then m\<lparr>m_IPVersion := 4\<rparr>
      else if x_IsIPv6 (q_env R) (m_Destination m) then m\<lparr>m_IPVersion := 6\<rparr>
      else m)"

definition prepareMatchMetadata :: "router_env \<Rightarrow> InboundContext \<Rightarrow> (route_error, InboundContext) res" where
  "prepareMatchMetadata R m =
     bindE (find_domain R (find_neighbor R (searchProcessInfo R m))) (\<lambda>m1. Inr (set_ip_version R m1))"

subsection \<open>Route options and resolving\<close>

definition applyRouteOptionsOverride :: "router_env \<Rightarrow> InboundContext \<Rightarrow> RuleActionRouteOptions \<Rightarrow> InboundContext" where
  "applyRouteOptionsOverride R m opts =
     (let m1 = (if x_sa_IsValid (q_env R) (ro_OverrideAddress opts)
                then m\<lparr>m_Destination := \<lparr>sa_Addr = sa_Addr (ro_OverrideAddress opts),
                        sa_Port = sa_Port (m_Destination m), sa_Fqdn = sa_Fqdn (ro_OverrideAddress opts)\<rparr>\<rparr>
                else m);
          m2 = (if ro_OverridePort opts > 0
                then m1\<lparr>m_Destination := (m_Destination m1)\<lparr>sa_Port := ro_OverridePort opts\<rparr>\<rparr> else m1)
      in if ro_UDPTimeout opts > 0 then m2\<lparr>m_UDPTimeout := ro_UDPTimeout opts\<rparr> else m2)"

text \<open>The route options of the action of a matched rule in \<^verbatim>\<open>matchRule\<close>.\<close>

definition apply_route_options :: "router_env \<Rightarrow> RuleActionRouteOptions \<Rightarrow> InboundContext \<Rightarrow> InboundContext" where
  "apply_route_options R opts m0 =
     (let valid = x_sa_IsValid (q_env R) (ro_OverrideAddress opts);
          m1 = (if (valid \<or> ro_OverridePort opts > 0) \<and> \<not> x_sa_IsValid (q_env R) (m_RouteOriginalDestination m0)
                then m0\<lparr>m_RouteOriginalDestination := m_Destination m0\<rparr> else m0);
          m2 = (if valid then m1\<lparr>m_DestinationAddresses := []\<rparr> else m1);
          m3 = applyRouteOptionsOverride R m2 opts;
          m4 = (if ro_NetworkStrategy opts \<noteq> None then m3\<lparr>m_NetworkStrategy := ro_NetworkStrategy opts\<rparr> else m3);
          m5 = (if ro_NetworkType opts \<noteq> [] then m4\<lparr>m_NetworkType := ro_NetworkType opts\<rparr> else m4);
          m6 = (if ro_FallbackNetworkType opts \<noteq> [] then m5\<lparr>m_FallbackNetworkType := ro_FallbackNetworkType opts\<rparr> else m5);
          m7 = (if ro_FallbackDelay opts \<noteq> 0 then m6\<lparr>m_FallbackDelay := ro_FallbackDelay opts\<rparr> else m6);
          m8 = (if ro_UDPDisableDomainUnmapping opts then m7\<lparr>m_UDPDisableDomainUnmapping := True\<rparr> else m7);
          m9 = (if ro_UDPConnect opts then m8\<lparr>m_UDPConnect := True\<rparr> else m8);
          m10 = (if ro_UDPTimeout opts > 0 then m9\<lparr>m_UDPTimeout := ro_UDPTimeout opts\<rparr> else m9);
          m11 = (if ro_TLSFragment opts
                 then m10\<lparr>m_TLSFragment := True, m_TLSFragmentFallbackDelay := ro_TLSFragmentFallbackDelay opts\<rparr> else m10);
          m12 = (if ro_TLSRecordFragment opts then m11\<lparr>m_TLSRecordFragment := True\<rparr> else m11)
      in if ro_TLSSpoof opts \<noteq> []
         then m12\<lparr>m_TLSSpoof := ro_TLSSpoof opts, m_TLSSpoofMethod := ro_TLSSpoofMethod opts\<rparr> else m12)"

definition actionResolve :: "router_env \<Rightarrow> InboundContext \<Rightarrow> RuleActionResolve \<Rightarrow> (route_error, InboundContext) res" where
  "actionResolve R m action =
     (if x_IsDomain (q_env R) (m_Destination m) then
        (if rs_Server action \<noteq> [] \<and> \<not> q_Transport R (rs_Server action)
         then Inl (DNSServerNotFound (rs_Server action))
         else (case q_Lookup R m (sa_Fqdn (m_Destination m)) action of
                 Inl e \<Rightarrow> Inl (LookupError e)
               | Inr addresses \<Rightarrow> Inr (m\<lparr>m_DestinationAddresses := addresses\<rparr>)))
      else Inr m)"

subsection \<open>Connections and the state of matching\<close>

text \<open>
  A stream connection and a packet connection: the reads that are still to come, possibly with data
  that was read already put before them (\<^verbatim>\<open>bufio.NewCachedConn\<close>, \<^verbatim>\<open>bufio.NewCachedPacketConn\<close>) with
  the address translation for FakeIP, or wrapped by a connection tracker, which is given the metadata, the
  selected rule and the outbound.
\<close>

datatype packet_read = Packet bytes Socksaddr | PacketTimeout | PacketError string | PacketContextDone

datatype conn =
    Conn "(string, bytes) res list"
  | CachedConn conn bytes
  | TrackedConn nat conn InboundContext "nat option" Outbound

datatype packet_conn =
    PacketConn "packet_read list"
  | CachedPacketConn packet_conn bytes Socksaddr
  | TrackedPacketConn nat packet_conn InboundContext "nat option" Outbound
  | FakeIPNATPacketConn packet_conn Socksaddr Socksaddr

record match_state =
  ms_metadata :: InboundContext
  ms_buffers :: "bytes list"
  ms_packetBuffers :: "(bytes \<times> Socksaddr) list"
  ms_reads :: "(string, bytes) res list"
  ms_packetReads :: "packet_read list"

datatype flow = StreamFlow | PacketFlow

subsection \<open>Sniffing\<close>

definition defaultStreamSniffers :: "StreamSniffer list" where
  "defaultStreamSniffers = [TLSClientHello, HTTPHost, StreamDomainNameQuery, BitTorrent, SSH, RDP]"

definition defaultPacketSniffers :: "PacketSniffer list" where
  "defaultPacketSniffers = [DomainNameQuery, QUICClientHello, STUNMessage, UTP, UDPTracker, DTLSRecord, NTP]"

text \<open>A sniff with the same sniffers has failed for good before.\<close>

definition sniff_failed_before :: "InboundContext \<Rightarrow> RuleActionSniff \<Rightarrow> bool" where
  "sniff_failed_before m action =
     (m_SnifferNames m = sn_SnifferNames action \<and> m_SniffError m \<noteq> None \<and> m_SniffError m \<noteq> Some ErrNeedMoreData)"

definition override_destination :: "router_env \<Rightarrow> RuleActionSniff \<Rightarrow> InboundContext \<Rightarrow> InboundContext" where
  "override_destination R action m =
     (if sn_OverrideDestination action \<and> x_IsDomainName (q_env R) (m_Domain m)
      then m\<lparr>m_Destination := domain_destination (m_Domain m) (m_Destination m)\<rparr> else m)"

definition record_sniff :: "RuleActionSniff \<Rightarrow> sniff_error option \<Rightarrow> InboundContext \<Rightarrow> InboundContext" where
  "record_sniff action err m = m\<lparr>m_SnifferNames := sn_SnifferNames action, m_SniffError := err\<rparr>"

text \<open>The part of \<^verbatim>\<open>actionSniff\<close> for a stream: the new buffer, and the state.\<close>

definition sniff_stream :: "router_env \<Rightarrow> RuleActionSniff \<Rightarrow> match_state \<Rightarrow> bytes option \<times> match_state" where
  "sniff_stream R action st =
     (let m = ms_metadata st in
      if sn_StreamSniffers action = [] \<and> sn_PacketSniffers action \<noteq> [] then (None, st)
      else if sniff_failed_before m action then (None, st)
      else
        (let sniffers = (if sn_StreamSniffers action \<noteq> [] then sn_StreamSniffers action else defaultStreamSniffers)
         in case PeekStream (q_sniff R) (ms_buffers st) sniffers m (ms_reads st) of
              (err, m1, sniffBuffer, reads) \<Rightarrow>
                (let m2 = record_sniff action err m1;
                     m3 = (if err = None then override_destination R action m2 else m2)
                 in (if sniffBuffer \<noteq> [] then Some sniffBuffer else None,
                     st\<lparr>ms_metadata := m3, ms_reads := reads\<rparr>))))"

text \<open>
  The part for packets. \<open>peek\<close> sniffs one packet: after an incomplete QUIC client hello only the QUIC
  sniffer runs. The first loop goes over the packets that were read already, the second one reads more.
\<close>

definition quicMoreData :: "RuleActionSniff \<Rightarrow> InboundContext \<Rightarrow> bool" where
  "quicMoreData action m = (m_SnifferNames m = sn_SnifferNames action \<and> m_SniffError m = Some ErrNeedMoreData)"

definition peek :: "router_env \<Rightarrow> RuleActionSniff \<Rightarrow> InboundContext \<Rightarrow> bytes \<Rightarrow> sniff_result" where
  "peek R action m packet =
     (let sniffers = (if quicMoreData action m then [QUICClientHello]
                      else if sn_PacketSniffers action \<noteq> [] then sn_PacketSniffers action
                      else defaultPacketSniffers)
      in case PeekPacket (q_sniff R) m packet sniffers of (err, m1) \<Rightarrow> (err, record_sniff action err m1))"

text \<open>\<open>Some err\<close> ends the sniffing with this error, \<open>None\<close> means that all packets need more data.\<close>

fun peek_buffered ::
  "router_env \<Rightarrow> RuleActionSniff \<Rightarrow> InboundContext \<Rightarrow> (bytes \<times> Socksaddr) list \<Rightarrow> sniff_error option option \<times> InboundContext"
where
  "peek_buffered R action m [] = (None, m)"
| "peek_buffered R action m ((packet, _) # packets) =
     (case peek R action m packet of
        (err, m1) \<Rightarrow> if err = Some ErrNeedMoreData then peek_buffered R action m1 packets else (Some err, m1))"

text \<open>The result: the packets read, whether sniffing succeeded, and a fatal error.\<close>

fun peek_more ::
  "router_env \<Rightarrow> RuleActionSniff \<Rightarrow> InboundContext \<Rightarrow> (bytes \<times> Socksaddr) list \<Rightarrow> packet_read list \<Rightarrow>
   (bytes \<times> Socksaddr) list \<times> bool \<times> route_error option \<times> InboundContext \<times> packet_read list"
where
  "peek_more R action m packets [] = (packets, False, None, m, [])"
| "peek_more R action m packets (PacketTimeout # reads) = (packets, False, None, m, reads)"
| "peek_more R action m packets (PacketError e # reads) = (packets, False, Some (PacketReadError e), m, reads)"
| "peek_more R action m packets (PacketContextDone # reads) = (packets, False, Some ContextDone, m, reads)"
| "peek_more R action m packets (Packet packet destination # reads) =
     (case peek R action m packet of
        (err, m1) \<Rightarrow>
          if err = Some ErrNeedMoreData then peek_more R action m1 (packets @ [(packet, destination)]) reads
          else (packets @ [(packet, destination)], err = None, None, m1, reads))"

definition sniff_packets ::
  "router_env \<Rightarrow> RuleActionSniff \<Rightarrow> match_state \<Rightarrow> (bytes \<times> Socksaddr) list \<times> route_error option \<times> match_state"
where
  "sniff_packets R action st =
     (let m = ms_metadata st in
      if sn_PacketSniffers action = [] \<and> sn_StreamSniffers action \<noteq> [] then ([], None, st)
      else if sniff_failed_before m action then ([], None, st)
      else
        (case peek_buffered R action m (ms_packetBuffers st) of
           (Some err, m1) \<Rightarrow>
             ([], None, st\<lparr>ms_metadata := (if err = None then override_destination R action m1 else m1)\<rparr>)
         | (None, m1) \<Rightarrow>
             (case peek_more R action m1 (ms_packetBuffers st) (ms_packetReads st) of
                (packets, success, fatal, m2, reads) \<Rightarrow>
                  (packets, fatal,
                   st\<lparr>ms_metadata := (if success then override_destination R action m2 else m2),
                      ms_packetReads := reads\<rparr>))))"

text \<open>\<^verbatim>\<open>actionSniff\<close> together with the code of \<^verbatim>\<open>matchRule\<close> that stores the new buffers.\<close>

definition actionSniff :: "router_env \<Rightarrow> flow \<Rightarrow> RuleActionSniff \<Rightarrow> match_state \<Rightarrow> route_error option \<times> match_state" where
  "actionSniff R flow action st =
     (if sniff_Skip (ms_metadata st) \<or> m_Protocol (ms_metadata st) \<noteq> [] then (None, st)
      else case flow of
        StreamFlow \<Rightarrow>
          (case sniff_stream R action st of
             (Some newBuffer, st1) \<Rightarrow> (None, st1\<lparr>ms_buffers := ms_buffers st1 @ [newBuffer]\<rparr>)
           | (None, st1) \<Rightarrow> (None, st1))
      | PacketFlow \<Rightarrow>
          (case sniff_packets R action st of
             (newPacketBuffers, fatal, st1) \<Rightarrow>
               (fatal, st1\<lparr>ms_packetBuffers := ms_packetBuffers st1 @ newPacketBuffers\<rparr>)))"

subsection \<open>Matching the rules\<close>

fun action_route_options :: "'d RuleAction \<Rightarrow> RuleActionRouteOptions option" where
  "action_route_options (RuleActionRoute outbound opts) = Some opts"
| "action_route_options (ActionRouteOptions opts) = Some opts"
| "action_route_options (RuleActionBypass outbound opts) = (if outbound \<noteq> [] then Some opts else None)"
| "action_route_options _ = None"

text \<open>The actions that end the loop.\<close>

fun terminal :: "'d RuleAction \<Rightarrow> bool" where
  "terminal (RuleActionRoute outbound opts) = True"
| "terminal (RuleActionReject reject_method noDrop) = True"
| "terminal RuleActionHijackDNS = True"
| "terminal (RuleActionBypass outbound opts) = (outbound \<noteq> [])"
| "terminal _ = False"

text \<open>The work of the action of a matched rule: options, sniffing, resolving.\<close>

definition perform_action :: "router_env \<Rightarrow> flow \<Rightarrow> 'd RuleAction \<Rightarrow> match_state \<Rightarrow> route_error option \<times> match_state" where
  "perform_action R flow action st =
     (let st1 = (case action_route_options action of
                   Some opts \<Rightarrow> st\<lparr>ms_metadata := apply_route_options R opts (ms_metadata st)\<rparr>
                 | None \<Rightarrow> st)
      in case action of
           ActionSniff sniff \<Rightarrow> actionSniff R flow sniff st1
         | ActionResolve resolve \<Rightarrow>
             (case actionResolve R (ms_metadata st1) resolve of
                Inl e \<Rightarrow> (Some e, st1) | Inr m \<Rightarrow> (None, st1\<lparr>ms_metadata := m\<rparr>))
         | _ \<Rightarrow> (None, st1))"

text \<open>\<open>Inr (Some i)\<close>: the rule with index \<open>i\<close> is selected. A rule without an action panics.\<close>

fun match_loop ::
  "router_env \<Rightarrow> flow \<Rightarrow> nat \<Rightarrow> 'd RuleAction option Rule list \<Rightarrow> match_state \<Rightarrow> (route_error, nat option) res \<times> match_state"
where
  "match_loop R flow i [] st = (Inr None, st)"
| "match_loop R flow i (rule # rules) st =
     (case Rule_Match (q_env R) (q_store R) rule (ResetRuleCache (ms_metadata st)) of
        (matched, m) \<Rightarrow>
          (let st1 = st\<lparr>ms_metadata := m\<rparr> in
           if \<not> matched then match_loop R flow (Suc i) rules st1
           else case Rule_Action rule of
                  None \<Rightarrow> (Inl NilActionPanic, st1)
                | Some action \<Rightarrow>
                    (case perform_action R flow action st1 of
                       (Some e, st2) \<Rightarrow> (Inl e, st2)
                     | (None, st2) \<Rightarrow>
                         if terminal action then (Inr (Some i), st2)
                         else match_loop R flow (Suc i) rules st2)))"

definition matchRule ::
  "router_env \<Rightarrow> flow \<Rightarrow> 'd RuleAction option Rule list \<Rightarrow> match_state \<Rightarrow> (route_error, nat option) res \<times> match_state"
where
  "matchRule R flow rules st =
     (case prepareMatchMetadata R (ms_metadata st) of
        Inl e \<Rightarrow> (Inl e, st)
      | Inr m \<Rightarrow> match_loop R flow 0 rules (st\<lparr>ms_metadata := m\<rparr>))"

subsection \<open>Routing a stream\<close>

text \<open>The outbound of a route or bypass action, for a network.\<close>

definition named_outbound :: "router_env \<Rightarrow> string \<Rightarrow> string \<Rightarrow> (route_error, Outbound) res" where
  "named_outbound R network tag =
     (case q_Outbound R tag of
        None \<Rightarrow> Inl (OutboundNotFound tag)
      | Some outbound \<Rightarrow>
          if network \<notin> set (o_Network outbound) then Inl (NetworkNotSupported (o_Tag outbound)) else Inr outbound)"

definition default_outbound :: "router_env \<Rightarrow> string \<Rightarrow> (route_error, Outbound) res" where
  "default_outbound R network =
     (if network \<notin> set (o_Network (q_Default R)) then Inl (NetworkNotSupported (o_Tag (q_Default R)))
      else Inr (q_Default R))"

text \<open>What the selected rule demands. The flood counters of the reject actions are indexed by the rule.\<close>

datatype selection = ToOutbound Outbound | HijackDNS | SelectError route_error

definition reject_counter :: "int \<Rightarrow> string \<Rightarrow> bool \<Rightarrow> nat \<Rightarrow> (nat \<Rightarrow> int list) \<Rightarrow> reject_outcome \<times> (nat \<Rightarrow> int list)" where
  "reject_counter now reject_method noDrop i drops =
     (case RuleActionReject_Error reject_method noDrop now (drops i) of (outcome, c) \<Rightarrow> (outcome, drops(i := c)))"

definition select ::
  "router_env \<Rightarrow> string \<Rightarrow> int \<Rightarrow> 'd RuleAction option Rule list \<Rightarrow> nat option \<Rightarrow> (nat \<Rightarrow> int list) \<Rightarrow>
   selection \<times> (nat \<Rightarrow> int list)"
where
  "select R network now rules selectedRule drops =
     (let outbound = (\<lambda>r. case r of Inl e \<Rightarrow> SelectError e | Inr ob \<Rightarrow> ToOutbound ob) in
      case selectedRule of
        None \<Rightarrow> (outbound (default_outbound R network), drops)
      | Some i \<Rightarrow>
          (case Rule_Action (rules ! i) of
             Some (RuleActionRoute tag opts) \<Rightarrow> (outbound (named_outbound R network tag), drops)
           | Some (RuleActionBypass tag opts) \<Rightarrow>
               if tag = [] then (SelectError NilActionPanic, drops)
               else (outbound (named_outbound R network tag), drops)
           | Some (RuleActionReject reject_method noDrop) \<Rightarrow>
               if reject_method = RuleActionRejectMethodReply then (SelectError ReplyNotSupported, drops)
               else (case reject_counter now reject_method noDrop i drops of
                       (outcome, drops1) \<Rightarrow> (SelectError (Rejected outcome), drops1))
           | Some RuleActionHijackDNS \<Rightarrow> (HijackDNS, drops)
           | _ \<Rightarrow> (SelectError NilActionPanic, drops)))"

datatype stream_outcome =
    StreamFailed route_error
  | StreamInjected string conn InboundContext
  | StreamHijacked conn InboundContext
  | StreamRouted Outbound conn InboundContext "nat option"

definition start_state :: "InboundContext \<Rightarrow> (string, bytes) res list \<Rightarrow> packet_read list \<Rightarrow> match_state" where
  "start_state m reads packetReads =
     \<lparr>ms_metadata = m, ms_buffers = [], ms_packetBuffers = [], ms_reads = reads, ms_packetReads = packetReads\<rparr>"

text \<open>\<^verbatim>\<open>for _, buffer := range buffers { conn = bufio.NewCachedConn(conn, buffer) }\<close>.\<close>

definition cached_conn :: "bytes list \<Rightarrow> conn \<Rightarrow> conn" where
  "cached_conn buffers c = foldl CachedConn c buffers"

definition routed_metadata :: "router_env \<Rightarrow> nat option \<Rightarrow> Outbound \<Rightarrow> InboundContext \<Rightarrow> InboundContext" where
  "routed_metadata R selectedRule outbound m =
     (case selectedRule of None \<Rightarrow> m | Some i \<Rightarrow> m\<lparr>m_RouteRule := q_RuleString R i\<rparr>)
       \<lparr>m_RouteOutbound := o_Tag outbound\<rparr>"

text \<open>The detour of an inbound: \<open>injectable\<close> selects the network.\<close>

definition inbound_detour ::
  "router_env \<Rightarrow> (bool \<times> bool \<Rightarrow> bool) \<Rightarrow> InboundContext \<Rightarrow> (route_error, string \<times> InboundContext) res"
where
  "inbound_detour R injectable m =
     (if m_LastInbound m = m_InboundDetour m then Inl (RoutingLoop (m_InboundDetour m))
      else case q_Inbound R (m_InboundDetour m) of
             None \<Rightarrow> Inl (DetourNotFound (m_InboundDetour m))
           | Some kinds \<Rightarrow>
               if \<not> injectable kinds then Inl (DetourNotInjectable (m_InboundDetour m))
               else Inr (m_InboundDetour m,
                         m\<lparr>m_LastInbound := m_Inbound m, m_Inbound := m_InboundDetour m, m_InboundDetour := []\<rparr>))"

definition hijack_stream :: "router_env \<Rightarrow> conn \<Rightarrow> InboundContext \<Rightarrow> stream_outcome" where
  "hijack_stream R c m = StreamHijacked c ((searchProcessInfo R m)\<lparr>m_Destination := Socksaddr_zero\<rparr>)"

definition routeConnection ::
  "router_env \<Rightarrow> int \<Rightarrow> 'd RuleAction option Rule list \<Rightarrow> (nat \<Rightarrow> int list) \<Rightarrow> (string, bytes) res list \<Rightarrow>
   InboundContext \<Rightarrow> stream_outcome \<times> (nat \<Rightarrow> int list)"
where
  "routeConnection R now rules drops reads metadata =
     (if m_InboundDetour metadata \<noteq> [] then
        (case inbound_detour R fst metadata of
           Inl e \<Rightarrow> (StreamFailed e, drops)
         | Inr (detour, m) \<Rightarrow> (StreamInjected detour (Conn reads) m, drops))
      else
        (let m = metadata\<lparr>m_Network := NetworkTCP\<rparr> in
         if q_GlobalDestination R (sa_Fqdn (m_Destination m))
         then (StreamFailed (GlobalMultiplex (sa_Fqdn (m_Destination m))), drops)
         else if m_InboundType m = TypeTun \<and> m_Protocol m = ProtocolDNS
         then (hijack_stream R (Conn reads) m, drops)
         else
           (case matchRule R StreamFlow rules (start_state m reads []) of
              (Inl e, st) \<Rightarrow> (StreamFailed e, drops)
            | (Inr selectedRule, st) \<Rightarrow>
                (let c = cached_conn (ms_buffers st) (Conn (ms_reads st)) in
                 case select R NetworkTCP now rules selectedRule drops of
                   (SelectError e, drops1) \<Rightarrow> (StreamFailed e, drops1)
                 | (HijackDNS, drops1) \<Rightarrow> (hijack_stream R c (ms_metadata st), drops1)
                 | (ToOutbound outbound, drops1) \<Rightarrow>
                     (let m1 = routed_metadata R selectedRule outbound (ms_metadata st);
                          c1 = foldl (\<lambda>c tracker. TrackedConn tracker c m1 selectedRule outbound) c [0..<q_trackers R]
                      in (StreamRouted outbound c1 m1 selectedRule, drops1))))))"

subsection \<open>Routing packets\<close>

datatype packet_outcome =
    PacketsFailed route_error
  | PacketsInjected string packet_conn InboundContext
  | PacketsHijacked packet_conn "(bytes \<times> Socksaddr) list" InboundContext
  | PacketsRouted Outbound packet_conn InboundContext "nat option"

definition cached_packet_conn :: "(bytes \<times> Socksaddr) list \<Rightarrow> packet_conn \<Rightarrow> packet_conn" where
  "cached_packet_conn packets c = foldl (\<lambda>c (data, destination). CachedPacketConn c data destination) c packets"

definition routePacketConnection ::
  "router_env \<Rightarrow> int \<Rightarrow> 'd RuleAction option Rule list \<Rightarrow> (nat \<Rightarrow> int list) \<Rightarrow> packet_read list \<Rightarrow>
   InboundContext \<Rightarrow> packet_outcome \<times> (nat \<Rightarrow> int list)"
where
  "routePacketConnection R now rules drops reads metadata =
     (if m_InboundDetour metadata \<noteq> [] then
        (case inbound_detour R snd metadata of
           Inl e \<Rightarrow> (PacketsFailed e, drops)
         | Inr (detour, m) \<Rightarrow> (PacketsInjected detour (PacketConn reads) m, drops))
      else
        (let m = metadata\<lparr>m_Network := NetworkUDP\<rparr> in
         if m_InboundType m = TypeTun \<and> m_Protocol m = ProtocolDNS
         then (PacketsHijacked (PacketConn reads) [] (searchProcessInfo R m), drops)
         else
           (case matchRule R PacketFlow rules (start_state m [] reads) of
              (Inl e, st) \<Rightarrow> (PacketsFailed e, drops)
            | (Inr selectedRule, st) \<Rightarrow>
                (let c = PacketConn (ms_packetReads st) in
                 case select R NetworkUDP now rules selectedRule drops of
                   (SelectError e, drops1) \<Rightarrow> (PacketsFailed e, drops1)
                 | (HijackDNS, drops1) \<Rightarrow>
                     (PacketsHijacked c (ms_packetBuffers st) (searchProcessInfo R (ms_metadata st)), drops1)
                 | (ToOutbound outbound, drops1) \<Rightarrow>
                     (let m1 = routed_metadata R selectedRule outbound (ms_metadata st);
                          c1 = cached_packet_conn (ms_packetBuffers st) c;
                          c2 = foldl (\<lambda>c tracker. TrackedPacketConn tracker c m1 selectedRule outbound) c1
                                 [0..<q_trackers R];
                          c3 = (if m_FakeIP m1 then FakeIPNATPacketConn c2 (m_OriginDestination m1) (m_Destination m1)
                                else c2)
                      in (PacketsRouted outbound c3 m1 selectedRule, drops1))))))"

subsection \<open>Decisions before a connection is accepted\<close>

record PreMatchResult =
  pr_Action :: PreMatchAction
  pr_Outbound :: "Outbound option"
  pr_Destination :: "AddrPort option"
  pr_UDPTimeout :: int

definition pre_match :: "PreMatchAction \<Rightarrow> PreMatchResult" where
  "pre_match action = \<lparr>pr_Action = action, pr_Outbound = None, pr_Destination = None, pr_UDPTimeout = 0\<rparr>"

text \<open>Timeouts in nanoseconds.\<close>

definition PortProtocols :: "16 word \<Rightarrow> string" where
  "PortProtocols port =
     (if port = 53 then ''dns'' else if port = 123 then ''ntp'' else if port = 3478 then ''stun''
      else if port = 443 then ''quic'' else [])"

definition ProtocolTimeouts :: "string \<Rightarrow> int" where
  "ProtocolTimeouts protocol =
     (if protocol = ''dns'' \<or> protocol = ''ntp'' \<or> protocol = ''stun'' then 10 * 1000000000
      else if protocol = ''quic'' \<or> protocol = ''dtls'' then 30 * 1000000000
      else 0)"

text \<open>At most eight groups are followed. \<open>None\<close>: the outbound a group has selected does not exist.\<close>

fun follow_groups :: "router_env \<Rightarrow> nat \<Rightarrow> Outbound \<Rightarrow> Outbound option" where
  "follow_groups R 0 outbound = Some outbound"
| "follow_groups R (Suc n) outbound =
     (case o_Now outbound of
        None \<Rightarrow> Some outbound
      | Some now \<Rightarrow> (case q_Outbound R now of None \<Rightarrow> None | Some next \<Rightarrow> follow_groups R n next))"

definition udp_flow_timeout :: "InboundContext \<Rightarrow> int" where
  "udp_flow_timeout m =
     (if m_Network m = NetworkUDP then
        (if m_UDPTimeout m > 0 then m_UDPTimeout m
         else (let protocol = (if m_Protocol m = [] then PortProtocols (sa_Port (m_Destination m)) else m_Protocol m)
               in if protocol \<noteq> [] then ProtocolTimeouts protocol else 0))
      else 0)"

text \<open>The last part of \<^verbatim>\<open>preMatchFlow\<close>, for a flow outbound with the method \<open>flow\<close>.\<close>

definition flow_result ::
  "router_env \<Rightarrow> InboundContext \<Rightarrow> Socksaddr \<Rightarrow> Outbound \<Rightarrow> (string \<Rightarrow> addr \<Rightarrow> PreMatchAction) \<Rightarrow> PreMatchResult"
where
  "flow_result R m packetDestination outbound flow =
     (let flowAction = flow (m_Network m) (sa_Addr (m_Destination m));
          result = \<lparr>pr_Action = PreMatchFlow, pr_Outbound = Some outbound, pr_Destination = None,
                    pr_UDPTimeout = udp_flow_timeout m\<rparr>
      in if flowAction \<noteq> PreMatchFlow then (pre_match flowAction)\<lparr>pr_Outbound := Some outbound\<rparr>
         else if x_IsDomain (q_env R) (m_Destination m) then
           (if \<not> m_FakeIP m then pre_match PreMatchContinue
            else
              (case filter (\<lambda>a. addr_Is4 a = x_IsIPv4 (q_env R) packetDestination) (m_DestinationAddresses m) of
                 [] \<Rightarrow> pre_match PreMatchReject
               | newDestination # _ \<Rightarrow>
                   if \<not> addr_IsValid newDestination then pre_match PreMatchReject
                   else
                     (let flowAction1 = flow (m_Network m) newDestination
                      in if flowAction1 \<noteq> PreMatchFlow then (pre_match flowAction1)\<lparr>pr_Outbound := Some outbound\<rparr>
                         else result\<lparr>pr_Destination := Some (newDestination, sa_Port (m_Destination m))\<rparr>)))
         else if m_Destination m \<noteq> packetDestination
         then result\<lparr>pr_Destination := Some (sa_AddrPort (m_Destination m))\<rparr>
         else result)"

definition preMatchFlow :: "router_env \<Rightarrow> InboundContext \<Rightarrow> Socksaddr \<Rightarrow> string \<Rightarrow> PreMatchResult" where
  "preMatchFlow R m packetDestination outboundTag =
     (case (if outboundTag = [] then Some (q_Default R) else q_Outbound R outboundTag) of
        None \<Rightarrow> pre_match PreMatchContinue
      | Some first \<Rightarrow>
          (case follow_groups R 8 first of
             None \<Rightarrow> pre_match PreMatchContinue
           | Some outbound \<Rightarrow>
               if m_Network m \<notin> set (o_Network outbound) then pre_match PreMatchContinue
               else (case o_PreMatchFlow outbound of
                       None \<Rightarrow> pre_match PreMatchContinue
                     | Some flow \<Rightarrow> flow_result R m packetDestination outbound flow)))"

text \<open>Sniffing the first packet: the result when the rules are left, or the metadata to go on with.\<close>

definition pre_match_sniff :: "router_env \<Rightarrow> bytes \<Rightarrow> RuleActionSniff \<Rightarrow> InboundContext \<Rightarrow> (PreMatchResult, InboundContext) res" where
  "pre_match_sniff R firstPacket action m =
     (if m_Network m = NetworkICMP then Inr m
      else if m_Network m \<noteq> NetworkUDP \<or> firstPacket = [] then Inl (pre_match PreMatchContinue)
      else if sniff_Skip m \<or> m_Protocol m \<noteq> [] then Inr m
      else if sn_PacketSniffers action = [] \<and> sn_StreamSniffers action \<noteq> [] then Inr m
      else if m_SnifferNames m = sn_SnifferNames action \<and> m_SniffError m \<noteq> None then Inr m
      else
        (let sniffers = (if sn_PacketSniffers action = [] then defaultPacketSniffers else sn_PacketSniffers action)
         in case PeekPacket (q_sniff R) m firstPacket sniffers of
              (err, m1) \<Rightarrow>
                (let m2 = record_sniff action err m1
                 in if err = Some ErrNeedMoreData then Inl (pre_match PreMatchContinue)
                    else if err \<noteq> None then Inr m2
                    else Inr (override_destination R action m2))))"

text \<open>\<open>Inl\<close> is the panic of an unknown reject method.\<close>

fun pre_match_loop ::
  "router_env \<Rightarrow> int \<Rightarrow> bytes \<Rightarrow> Socksaddr \<Rightarrow> nat \<Rightarrow> 'd RuleAction option Rule list \<Rightarrow> (nat \<Rightarrow> int list) \<Rightarrow>
   InboundContext \<Rightarrow> (route_error, PreMatchResult) res \<times> (nat \<Rightarrow> int list)"
where
  "pre_match_loop R now firstPacket packetDestination i [] drops m = (Inr (preMatchFlow R m packetDestination []), drops)"
| "pre_match_loop R now firstPacket packetDestination i (rule # rules) drops m =
     (case Rule_Match (q_env R) (q_store R) rule (ResetRuleCache m) of
        (matched, m1) \<Rightarrow>
          if \<not> matched then pre_match_loop R now firstPacket packetDestination (Suc i) rules drops m1
          else case Rule_Action rule of
             Some (ActionSniff action) \<Rightarrow>
               (case pre_match_sniff R firstPacket action m1 of
                  Inl result \<Rightarrow> (Inr result, drops)
                | Inr m2 \<Rightarrow> pre_match_loop R now firstPacket packetDestination (Suc i) rules drops m2)
           | Some (ActionRouteOptions opts) \<Rightarrow>
               pre_match_loop R now firstPacket packetDestination (Suc i) rules drops (applyRouteOptionsOverride R m1 opts)
           | Some (RuleActionRoute tag opts) \<Rightarrow>
               (Inr (preMatchFlow R (applyRouteOptionsOverride R m1 opts) packetDestination tag), drops)
           | Some (RuleActionBypass tag opts) \<Rightarrow>
               (let m2 = applyRouteOptionsOverride R m1 opts
                in if tag = [] then
                     (if x_IsDomain (q_env R) (m_Destination m2) \<or> m_Destination m2 \<noteq> packetDestination
                      then (Inr (pre_match PreMatchContinue), drops) else (Inr (pre_match PreMatchBypass), drops))
                   else (Inr (preMatchFlow R m2 packetDestination tag), drops))
           | Some (RuleActionReject reject_method noDrop) \<Rightarrow>
               (case reject_counter now reject_method noDrop i drops of
                  (outcome, drops1) \<Rightarrow>
                    (case outcome of
                       RejectPanic _ \<Rightarrow> Inl (Rejected outcome)
                     | RejectDrop \<Rightarrow> Inr (pre_match PreMatchDrop)
                     | _ \<Rightarrow> Inr (pre_match PreMatchReject), drops1))
           | Some RuleActionHijackDNS \<Rightarrow>
               (Inr (pre_match (if m_Network m1 \<noteq> NetworkUDP then PreMatchContinue else PreMatchHijackDNS)), drops)
           | Some (ActionResolve action) \<Rightarrow>
               (case actionResolve R m1 action of
                  Inl e \<Rightarrow> (Inr (pre_match PreMatchReject), drops)
                | Inr m2 \<Rightarrow> pre_match_loop R now firstPacket packetDestination (Suc i) rules drops m2)
           | Some (RuleActionDirect d) \<Rightarrow> (Inr (pre_match PreMatchContinue), drops)
           | None \<Rightarrow> (Inr (pre_match PreMatchContinue), drops))"

definition PreMatch ::
  "router_env \<Rightarrow> int \<Rightarrow> 'd RuleAction option Rule list \<Rightarrow> (nat \<Rightarrow> int list) \<Rightarrow> InboundContext \<Rightarrow> bytes \<Rightarrow>
   (route_error, PreMatchResult) res \<times> (nat \<Rightarrow> int list)"
where
  "PreMatch R now rules drops metadata firstPacket =
     (let m = metadata\<lparr>m_PreMatch := True\<rparr> in
      case prepareMatchMetadata R m of
        Inl e \<Rightarrow> (Inr (pre_match PreMatchContinue), drops)
      | Inr m1 \<Rightarrow> pre_match_loop R now firstPacket (m_Destination m) 0 rules drops m1)"

subsection \<open>The verdict for a flow of the tun interface\<close>

text \<open>The protocol numbers of the packet library, and \<^verbatim>\<open>M.SocksaddrFromNetIP\<close>.\<close>

record flow_lib =
  h_TCP :: "8 word"
  h_UDP :: "8 word"
  h_ICMPv4 :: "8 word"
  h_ICMPv6 :: "8 word"
  h_SocksaddrFromNetIP :: "AddrPort \<Rightarrow> Socksaddr"

datatype flow_action = ActionAccept | ActionFlow | ActionReject | ActionDrop | ActionBypass | ActionHijackDNS

record FlowVerdict =
  fv_Action :: flow_action
  fv_Port :: "Outbound option"
  fv_Destination :: "AddrPort option"
  fv_UDPTimeout :: int

definition flow_verdict :: "flow_action \<Rightarrow> FlowVerdict" where
  "flow_verdict action = \<lparr>fv_Action = action, fv_Port = None, fv_Destination = None, fv_UDPTimeout = 0\<rparr>"

definition network_name :: "flow_lib \<Rightarrow> 8 word \<Rightarrow> string option" where
  "network_name H network =
     (if network = h_TCP H then Some NetworkTCP
      else if network = h_UDP H then Some NetworkUDP
      else if network = h_ICMPv4 H \<or> network = h_ICMPv6 H then Some NetworkICMP
      else None)"

definition flow_metadata :: "flow_lib \<Rightarrow> string \<Rightarrow> string \<Rightarrow> string \<Rightarrow> AddrPort \<Rightarrow> AddrPort \<Rightarrow> InboundContext" where
  "flow_metadata H inbound inboundType networkName source destination =
     (let port = (\<lambda>a. if networkName = NetworkICMP then a\<lparr>sa_Port := 0\<rparr> else a)
      in InboundContext_zero\<lparr>m_Inbound := inbound, m_InboundType := inboundType, m_Network := networkName,
           m_Source := port (h_SocksaddrFromNetIP H source),
           m_Destination := port (h_SocksaddrFromNetIP H destination)\<rparr>)"

definition verdict_of :: "string \<Rightarrow> AddrPort \<Rightarrow> PreMatchResult \<Rightarrow> FlowVerdict" where
  "verdict_of networkName destination result =
     (case pr_Action result of
        PreMatchFlow \<Rightarrow>
          (case pr_Outbound result of
             None \<Rightarrow> flow_verdict ActionAccept
           | Some outbound \<Rightarrow>
               if \<not> o_IsPort outbound then flow_verdict ActionAccept
               else
                 \<lparr>fv_Action = ActionFlow, fv_Port = Some outbound,
                  fv_Destination =
                    (case pr_Destination result of
                       None \<Rightarrow> None
                     | Some (address, port) \<Rightarrow>
                         if \<not> addr_IsValid address then None
                         else Some (address, if networkName = NetworkICMP then snd destination else port)),
                  fv_UDPTimeout = pr_UDPTimeout result\<rparr>)
      | PreMatchReject \<Rightarrow> flow_verdict ActionReject
      | PreMatchDrop \<Rightarrow> flow_verdict ActionDrop
      | PreMatchBypass \<Rightarrow> flow_verdict ActionBypass
      | PreMatchHijackDNS \<Rightarrow> flow_verdict ActionHijackDNS
      | PreMatchContinue \<Rightarrow> flow_verdict ActionAccept)"

definition JudgeFlow ::
  "router_env \<Rightarrow> flow_lib \<Rightarrow> int \<Rightarrow> 'd RuleAction option Rule list \<Rightarrow> (nat \<Rightarrow> int list) \<Rightarrow> string \<Rightarrow> string \<Rightarrow>
   8 word \<Rightarrow> AddrPort \<Rightarrow> AddrPort \<Rightarrow> bytes \<Rightarrow> (route_error, FlowVerdict) res \<times> (nat \<Rightarrow> int list)"
where
  "JudgeFlow R H now rules drops inbound inboundType network source destination firstPacket =
     (case network_name H network of
        None \<Rightarrow> (Inr (flow_verdict ActionAccept), drops)
      | Some networkName \<Rightarrow>
          (case PreMatch R now rules drops (flow_metadata H inbound inboundType networkName source destination) firstPacket of
             (Inl e, drops1) \<Rightarrow> (Inl e, drops1)
           | (Inr result, drops1) \<Rightarrow> (Inr (verdict_of networkName destination result), drops1)))"

end
