(* ===== verification/FakeIP_Conn.thy ===== *)
theory FakeIP_Conn
  imports Inbound_Context
begin

text \<open>
  The packet connection that translates a fake destination address (route/fakeip\_conn.go): packets to the
  fake address are sent to the domain behind it, replies get the fake address as their source, and
  addresses that the client used directly are left alone.

  The map of direct destinations is a set of addresses. The library functions \<^verbatim>\<open>M.SocksaddrFrom\<close>,
  \<^verbatim>\<open>M.SocksaddrFromNet\<close> and \<^verbatim>\<open>Socksaddr.UDPAddr\<close> are parameters. A read of the inner connection is given
  by its result, a write by the destination that is passed on.
\<close>

record fakeIPNATPacketConn =
  fn_origin :: Socksaddr
  fn_destination :: Socksaddr
  fn_directDestinations :: "addr set"

definition newFakeIPNATPacketConn :: "Socksaddr \<Rightarrow> Socksaddr \<Rightarrow> fakeIPNATPacketConn" where
  "newFakeIPNATPacketConn origin destination =
     \<lparr>fn_origin = origin, fn_destination = destination, fn_directDestinations = {}\<rparr>"

definition rewriteReadDestination :: "fakeIPNATPacketConn \<Rightarrow> Socksaddr \<Rightarrow> Socksaddr \<times> fakeIPNATPacketConn" where
  "rewriteReadDestination c destination =
     (if sa_Addr destination = sa_Addr (fn_origin c) then
        (\<lparr>sa_Addr = sa_Addr (fn_destination c), sa_Port = sa_Port destination, sa_Fqdn = sa_Fqdn (fn_destination c)\<rparr>, c)
      else if addr_IsValid (sa_Addr destination) then
        (destination, c\<lparr>fn_directDestinations := insert (sa_Addr destination) (fn_directDestinations c)\<rparr>)
      else (destination, c))"

definition rewriteWriteDestination :: "fakeIPNATPacketConn \<Rightarrow> Socksaddr \<Rightarrow> Socksaddr" where
  "rewriteWriteDestination c destination =
     (if addr_IsValid (sa_Addr destination) \<and> sa_Addr destination \<in> fn_directDestinations c then destination
      else \<lparr>sa_Addr = sa_Addr (fn_origin c), sa_Port = sa_Port destination, sa_Fqdn = []\<rparr>)"

text \<open>
  \<^verbatim>\<open>ReadPacket\<close>, \<^verbatim>\<open>WaitReadPacket\<close> and \<^verbatim>\<open>WaitReadConnectedPackets\<close> rewrite the destination of what the
  inner connection has read, a packet or a batch with one destination.
\<close>

definition nat_ReadPacket ::
  "fakeIPNATPacketConn \<Rightarrow> ('e, 'p \<times> Socksaddr) res \<Rightarrow> ('e, 'p \<times> Socksaddr) res \<times> fakeIPNATPacketConn"
where
  "nat_ReadPacket c read =
     (case read of
        Inl e \<Rightarrow> (Inl e, c)
      | Inr (packet, destination) \<Rightarrow>
          (case rewriteReadDestination c destination of (destination1, c1) \<Rightarrow> (Inr (packet, destination1), c1)))"

text \<open>\<^verbatim>\<open>ReadFrom\<close>, with the address types of the standard library.\<close>

definition nat_ReadFrom ::
  "('a \<Rightarrow> Socksaddr) \<Rightarrow> (Socksaddr \<Rightarrow> 'a) \<Rightarrow> fakeIPNATPacketConn \<Rightarrow> ('e, 'p \<times> 'a) res \<Rightarrow>
   ('e, 'p \<times> 'a) res \<times> fakeIPNATPacketConn"
where
  "nat_ReadFrom socksaddrFromNet udpAddr c read =
     (case read of
        Inl e \<Rightarrow> (Inl e, c)
      | Inr (packet, a) \<Rightarrow>
          (case rewriteReadDestination c (socksaddrFromNet a) of (destination, c1) \<Rightarrow> (Inr (packet, udpAddr destination), c1)))"

text \<open>\<^verbatim>\<open>WaitReadPackets\<close>: a batch with one destination for each packet.\<close>

fun rewrite_reads :: "fakeIPNATPacketConn \<Rightarrow> Socksaddr list \<Rightarrow> Socksaddr list \<times> fakeIPNATPacketConn" where
  "rewrite_reads c [] = ([], c)"
| "rewrite_reads c (destination # destinations) =
     (case rewriteReadDestination c destination of
        (d, c1) \<Rightarrow> (case rewrite_reads c1 destinations of (ds, c2) \<Rightarrow> (d # ds, c2)))"

definition nat_WaitReadPackets ::
  "fakeIPNATPacketConn \<Rightarrow> ('e, 'p list \<times> Socksaddr list) res \<Rightarrow> ('e, 'p list \<times> Socksaddr list) res \<times> fakeIPNATPacketConn"
where
  "nat_WaitReadPackets c read =
     (case read of
        Inl e \<Rightarrow> (Inl e, c)
      | Inr (packets, destinations) \<Rightarrow>
          (case rewrite_reads c destinations of (ds, c1) \<Rightarrow> (Inr (packets, ds), c1)))"

text \<open>The packets and destinations passed to the inner connection; \<open>None\<close> is \<^verbatim>\<open>os.ErrInvalid\<close>.\<close>

definition nat_WritePacket :: "fakeIPNATPacketConn \<Rightarrow> 'p \<Rightarrow> Socksaddr \<Rightarrow> 'p \<times> Socksaddr" where
  "nat_WritePacket c packet destination = (packet, rewriteWriteDestination c destination)"

definition nat_WriteTo ::
  "('a \<Rightarrow> Socksaddr) \<Rightarrow> (Socksaddr \<Rightarrow> 'a) \<Rightarrow> fakeIPNATPacketConn \<Rightarrow> 'p \<Rightarrow> 'a \<Rightarrow> 'p \<times> 'a"
where
  "nat_WriteTo socksaddrFromNet udpAddr c packet a = (packet, udpAddr (rewriteWriteDestination c (socksaddrFromNet a)))"

definition nat_WritePacketBatch ::
  "fakeIPNATPacketConn \<Rightarrow> 'p list \<Rightarrow> Socksaddr list \<Rightarrow> ('p list \<times> Socksaddr list) option"
where
  "nat_WritePacketBatch c packets destinations =
     (if packets = [] \<or> length packets \<noteq> length destinations then None
      else Some (packets, map (rewriteWriteDestination c) destinations))"

definition nat_UpdateDestination ::
  "(addr \<Rightarrow> 16 word \<Rightarrow> Socksaddr) \<Rightarrow> fakeIPNATPacketConn \<Rightarrow> addr \<Rightarrow> fakeIPNATPacketConn"
where
  "nat_UpdateDestination socksaddrFrom c destinationAddress =
     c\<lparr>fn_destination := socksaddrFrom destinationAddress (sa_Port (fn_destination c))\<rparr>"

subsection \<open>A connection in use\<close>

text \<open>
  The operations on a connection, in the order in which they happen: packets of the client that are read,
  replies that are written to it, the update of the destination after the outbound has resolved it.
\<close>

datatype nat_event = ClientPacket Socksaddr | Reply Socksaddr | Update addr

text \<open>The state and the destination that leaves the connection, for one event.\<close>

fun nat_step :: "(addr \<Rightarrow> 16 word \<Rightarrow> Socksaddr) \<Rightarrow> nat_event \<Rightarrow> fakeIPNATPacketConn \<Rightarrow> Socksaddr option \<times> fakeIPNATPacketConn" where
  "nat_step socksaddrFrom (ClientPacket destination) c =
     (case rewriteReadDestination c destination of (d, c1) \<Rightarrow> (Some d, c1))"
| "nat_step socksaddrFrom (Reply source) c = (Some (rewriteWriteDestination c source), c)"
| "nat_step socksaddrFrom (Update address) c = (None, nat_UpdateDestination socksaddrFrom c address)"

definition nat_run :: "(addr \<Rightarrow> 16 word \<Rightarrow> Socksaddr) \<Rightarrow> nat_event list \<Rightarrow> fakeIPNATPacketConn \<Rightarrow> fakeIPNATPacketConn" where
  "nat_run socksaddrFrom events c = fold (\<lambda>e c. snd (nat_step socksaddrFrom e c)) events c"

lemma nat_run_simps [simp]:
  "nat_run socksaddrFrom [] c = c"
  "nat_run socksaddrFrom (e # es) c = nat_run socksaddrFrom es (snd (nat_step socksaddrFrom e c))"
  "nat_run socksaddrFrom (es @ es') c = nat_run socksaddrFrom es' (nat_run socksaddrFrom es c)"
  by (simp_all add: nat_run_def)

text \<open>The addresses other than the fake one that the client has sent packets to.\<close>

definition sent_to :: "addr \<Rightarrow> nat_event list \<Rightarrow> addr set" where
  "sent_to origin events =
     {sa_Addr d | d. ClientPacket d \<in> set events \<and> addr_IsValid (sa_Addr d) \<and> sa_Addr d \<noteq> origin}"

lemma sent_to_simps [simp]:
  "sent_to origin [] = {}"
  "sent_to origin (Reply d # es) = sent_to origin es"
  "sent_to origin (Update a # es) = sent_to origin es"
  "sent_to origin (ClientPacket d # es) =
     (if addr_IsValid (sa_Addr d) \<and> sa_Addr d \<noteq> origin then insert (sa_Addr d) (sent_to origin es)
      else sent_to origin es)"
  by (auto simp: sent_to_def)

text \<open>The recorded addresses are exactly these; the fake address never changes.\<close>

lemma nat_run_invariant:
  "fn_origin (nat_run socksaddrFrom events c) = fn_origin c"
  "fn_directDestinations (nat_run socksaddrFrom events c) = fn_directDestinations c \<union> sent_to (sa_Addr (fn_origin c)) events"
proof (induction events arbitrary: c)
  case (Cons e es)
  { case 1 show ?case using Cons.IH(1) by (cases e) (simp_all add: rewriteReadDestination_def nat_UpdateDestination_def) }
  { case 2 show ?case using Cons.IH(2) by (cases e) (auto simp: rewriteReadDestination_def nat_UpdateDestination_def) }
qed simp_all

lemma nat_run_new:
  "fn_origin (nat_run socksaddrFrom events (newFakeIPNATPacketConn origin destination)) = origin"
  "fn_directDestinations (nat_run socksaddrFrom events (newFakeIPNATPacketConn origin destination)) = sent_to (sa_Addr origin) events"
  by (simp_all add: nat_run_invariant newFakeIPNATPacketConn_def)

text \<open>The destination behind the fake address is the last update.\<close>

fun current_destination :: "(addr \<Rightarrow> 16 word \<Rightarrow> Socksaddr) \<Rightarrow> Socksaddr \<Rightarrow> nat_event list \<Rightarrow> Socksaddr" where
  "current_destination socksaddrFrom d [] = d"
| "current_destination socksaddrFrom d (Update address # es) =
     current_destination socksaddrFrom (socksaddrFrom address (sa_Port d)) es"
| "current_destination socksaddrFrom d (_ # es) = current_destination socksaddrFrom d es"

lemma nat_run_destination: "fn_destination (nat_run socksaddrFrom events c) = current_destination socksaddrFrom (fn_destination c) events"
proof (induction events arbitrary: c)
  case (Cons e es) then show ?case by (cases e) (simp_all add: rewriteReadDestination_def nat_UpdateDestination_def)
qed simp

lemma rewrite_reads_run:
  "rewrite_reads c ds = (ds', c') \<Longrightarrow> length ds' = length ds \<and> c' = nat_run socksaddrFrom (map ClientPacket ds) c"
proof (induction ds arbitrary: c ds' c')
  case (Cons d ds)
  obtain d1 c1 where 1: "rewriteReadDestination c d = (d1, c1)" by fastforce
  obtain ds1 c2 where 2: "rewrite_reads c1 ds = (ds1, c2)" by fastforce
  show ?case using Cons.prems Cons.IH [OF 2] by (auto simp: 1 2)
qed simp

lemma rewrite_reads_nth:
  "rewrite_reads c ds = (ds', c') \<Longrightarrow> i < length ds \<Longrightarrow>
   ds' ! i = fst (rewriteReadDestination (nat_run socksaddrFrom (map ClientPacket (take i ds)) c) (ds ! i))"
proof (induction ds arbitrary: c ds' c' i)
  case (Cons d ds)
  obtain d1 c1 where 1: "rewriteReadDestination c d = (d1, c1)" by fastforce
  obtain ds1 c2 where 2: "rewrite_reads c1 ds = (ds1, c2)" by fastforce
  show ?case using Cons.prems Cons.IH [OF 2] by (cases i) (auto simp: 1 2)
qed simp

text \<open>
  (C21) At any time, after any packets of the client, replies and updates of the destination: a packet of the
  client to the fake address goes to the current destination and keeps its port, any other packet is left
  alone; a reply keeps its source exactly when the client has sent a packet to this address before, and else
  gets the fake address.
\<close>

theorem fakeip_nat_translation:
  "let c = nat_run socksaddrFrom events (newFakeIPNATPacketConn origin destination);
       current = current_destination socksaddrFrom destination events
   in fst (rewriteReadDestination c d) =
        (if sa_Addr d = sa_Addr origin
         then \<lparr>sa_Addr = sa_Addr current, sa_Port = sa_Port d, sa_Fqdn = sa_Fqdn current\<rparr> else d) \<and>
      rewriteWriteDestination c source =
        (if addr_IsValid (sa_Addr source) \<and> sa_Addr source \<in> sent_to (sa_Addr origin) events
         then source else \<lparr>sa_Addr = sa_Addr origin, sa_Port = sa_Port source, sa_Fqdn = []\<rparr>)"
  by (simp add: rewriteReadDestination_def rewriteWriteDestination_def nat_run_new nat_run_destination Let_def)
    (simp add: newFakeIPNATPacketConn_def)

end
