(* ===== verification/Sniff_Properties.thy ===== *)
theory Sniff_Properties
  imports Sniff
begin

unbundle bit_operations_syntax

text \<open>
  Properties of the sniffers: a verdict is not revised when more data arrives, and some ways in which
  sniffing depends on how the data is split.
\<close>

subsection \<open>Verdicts on a growing stream\<close>

text \<open>\<^verbatim>\<open>rw.SkipN\<close> skips bytes that are there, \<^verbatim>\<open>ReadFullFrom\<close> reads as many bytes as are there.\<close>

definition sniff_laws :: "sniff_lib \<Rightarrow> bool" where
  "sniff_laws X \<longleftrightarrow>
     (\<forall>n data. sl_SkipN X n data = (if n \<le> length data then Some (drop n data) else None)) \<and>
     (\<forall>n data. sl_ReadFullFrom X n data = (take n data, n \<le> length data))"

definition verdict :: "sniff_result \<Rightarrow> sniff_error option \<times> string" where
  "verdict r = (fst r, m_Protocol (snd r))"

lemma verdict_simps [simp]:
  "verdict (found protocol m) = (None, protocol)" "verdict (fails e m) = (Some e, m_Protocol m)"
  "verdict (err, m) = (err, m_Protocol m)"
  by (simp_all add: verdict_def found_def fails_def)

text \<open>A function of the data whose verdicts, other than the wish for more data, do not change.\<close>

definition stable :: "(bytes \<Rightarrow> sniff_result) \<Rightarrow> bool" where
  "stable f \<longleftrightarrow> (\<forall>data extra. fst (f data) \<noteq> Some ErrNeedMoreData \<longrightarrow> verdict (f (data @ extra)) = verdict (f data))"

lemma stable_expect:
  assumes "stable f"
  shows "stable (\<lambda>data. expect w ok f m data)"
  using assms by (auto simp: stable_def expect_def ReadFull_def fails_def split: if_splits)

lemma stable_const: "stable (\<lambda>_. r)"
  by (simp add: stable_def)

lemma stable_skip:
  assumes "sniff_laws X" "stable f"
  shows "stable (\<lambda>data. case sl_SkipN X n data of None \<Rightarrow> fails ErrNeedMoreData m | Some rest \<Rightarrow> f rest)"
  using assms by (auto simp: stable_def sniff_laws_def fails_def)

lemma stable_RDP: "sniff_laws X \<Longrightarrow> stable (sniff_RDP X m)"
  unfolding sniff_RDP_def by (intro stable_expect stable_skip stable_const)

lemma prefix_mismatch:
  assumes "take n data \<noteq> take (length (take n data)) header"
  shows "take n (data @ extra) \<noteq> take (length (take n (data @ extra))) header"
proof
  assume eq: "take n (data @ extra) = take (length (take n (data @ extra))) header"
  have "take (length (take n data)) (take n (data @ extra)) = take n data" by (simp add: take_append min_def)
  moreover have "take (length (take n data)) (take (length (take n (data @ extra))) header) =
      take (length (take n data)) header" by (simp add: min_def)
  ultimately show False using assms eq by metis
qed

lemma ssh_prefix: "string_bytes ''SSH-2.0-'' = [83, 83, 72, 45, 50, 46, 48, 45]"
  by (simp add: string_bytes_def)

text \<open>After the prefix the slice of the line does not panic.\<close>

lemma ReadLine_cases:
  fixes data
  defines "line \<equiv> takeWhile (\<lambda>b. b \<noteq> 10) (take 4096 data)"
  shows "ReadLine data = line \<or> last line = 13 \<and> ReadLine data = butlast line"
  unfolding ReadLine_def line_def Let_def by auto

lemma ReadLine_SSH: "8 \<le> length (ReadLine (string_bytes ''SSH-2.0-'' @ rest))"
proof -
  define p :: bytes where "p = string_bytes ''SSH-2.0-''"
  define l where "l = takeWhile (\<lambda>b. b \<noteq> 10) (take 4088 rest)"
  have line: "takeWhile (\<lambda>b. b \<noteq> 10) (take 4096 (p @ rest)) = p @ l" by (simp add: p_def l_def ssh_prefix)
  have p: "length p = 8" "last p \<noteq> 13" by (simp_all add: p_def ssh_prefix)
  have "8 \<le> length (butlast (p @ l))" if "last (p @ l) = 13"
    using that p by (cases l rule: rev_cases) simp_all
  then show ?thesis using ReadLine_cases [of "p @ rest"] p(1) unfolding line by (fold p_def) auto
qed

lemma stable_SSH: "stable (sniff_SSH m)"
proof -
  let ?p = "string_bytes ''SSH-2.0-''"
  have "verdict (sniff_SSH m (data @ extra)) = verdict (sniff_SSH m data)"
    if decided: "fst (sniff_SSH m data) \<noteq> Some ErrNeedMoreData" for data extra
  proof (cases "take 8 data = take (length (take 8 data)) ?p")
    case False
    then show ?thesis using prefix_mismatch [OF False, of extra] by (simp add: sniff_SSH_def Let_def)
  next
    case True
    then have len: "8 \<le> length data" using decided by (auto simp: sniff_SSH_def Let_def fails_def split: if_splits)
    then have "take 8 data = ?p" using True by (simp add: ssh_prefix)
    then obtain rest where rest: "data = ?p @ rest" by (metis append_take_drop_id)
    have p: "length ?p = 8" by (simp add: ssh_prefix)
    have "verdict (sniff_SSH m (?p @ r)) = (None, ProtocolSSH)" for r
      using ReadLine_SSH [of r] p by (simp add: sniff_SSH_def Let_def)
    then show ?thesis by (simp add: rest)
  qed
  then show ?thesis by (simp add: stable_def)
qed

lemma query_header_invalid_append: "query_header_invalid data \<Longrightarrow> query_header_invalid (data @ extra)"
proof -
  have nth: "(data @ extra) ! i = data ! i" if "i < length data" for i using that by (simp add: nth_append)
  assume "query_header_invalid data"
  then consider "length data > 2" "data ! 2 AND 0x80 \<noteq> 0" | "length data > 5" "data ! 4 = 0" "data ! 5 = 0"
    | i where "i \<in> set [6..<10]" "length data > i" "data ! i \<noteq> 0"
    unfolding query_header_invalid_def Let_def list_ex_iff by blast
  then show ?thesis
  proof cases
    case 1 then show ?thesis unfolding query_header_invalid_def Let_def by (simp add: nth)
  next
    case 2 then show ?thesis unfolding query_header_invalid_def Let_def by (simp add: nth)
  next
    case (3 i)
    then have "list_ex (\<lambda>i. length (data @ extra) > i \<and> (data @ extra) ! i \<noteq> 0) [6..<10]"
      unfolding list_ex_iff by (intro bexI [of _ i]) (simp_all add: nth)
    then show ?thesis unfolding query_header_invalid_def Let_def by blast
  qed
qed

lemma stable_StreamDomainNameQuery:
  assumes "sniff_laws X"
  shows "stable (sniff_StreamDomainNameQuery X m)"
proof -
  have "verdict (sniff_StreamDomainNameQuery X m (data @ extra)) = verdict (sniff_StreamDomainNameQuery X m data)"
    if decided: "fst (sniff_StreamDomainNameQuery X m data) \<noteq> Some ErrNeedMoreData" for data extra
  proof -
    have "2 \<le> length data"
      using decided by (auto simp: sniff_StreamDomainNameQuery_def read_be_def ReadFull_def fails_def split: if_splits)
    then obtain h rest where h: "data = h @ rest" "length h = 2" by (metis append_take_drop_id length_take min.absorb2)
    let ?len = "be_value h :: 16 word"
    have read: "read_be 2 data = Inr (?len, rest)" "read_be 2 (data @ extra) = Inr (?len, rest @ extra)"
      using h read_be_append [of h 2] by simp_all
    show ?thesis
    proof (cases "query_header_invalid (take (unat ?len) rest)")
      case True
      then have "query_header_invalid (take (unat ?len) (rest @ extra))"
        using query_header_invalid_append by (simp add: take_append)
      then show ?thesis using True read assms by (simp add: sniff_StreamDomainNameQuery_def sniff_laws_def)
    next
      case False
      then have "?len < 12 \<or> unat ?len \<le> length rest"
        using decided read assms
        by (auto simp: sniff_StreamDomainNameQuery_def sniff_laws_def fails_def split: if_splits)
      then show ?thesis using read assms by (auto simp: sniff_StreamDomainNameQuery_def sniff_laws_def)
    qed
  qed
  then show ?thesis by (simp add: stable_def)
qed

lemma bittorrent_header: "string_bytes ''BitTorrent protocol'' =
    [66, 105, 116, 84, 111, 114, 114, 101, 110, 116, 32, 112, 114, 111, 116, 111, 99, 111, 108]"
  by (simp add: string_bytes_def)

text \<open>With all data in one buffer.\<close>

lemma BitTorrent_one_buffer:
  "sniff_BitTorrent m [data] =
     (case data of
        [] \<Rightarrow> fails ErrNeedMoreData m
      | first # rest \<Rightarrow>
          if first \<noteq> 19 then fails invalid m
          else if take 19 rest \<noteq> take (length (take 19 rest)) (string_bytes ''BitTorrent protocol'') then fails invalid m
          else if length rest < 19 then fails ErrNeedMoreData m
          else found ProtocolBitTorrent m)"
  by (cases data) (auto simp: sniff_BitTorrent_def read_once_def Let_def)

lemma stable_BitTorrent: "stable (\<lambda>data. sniff_BitTorrent m [data])"
proof -
  let ?h = "string_bytes ''BitTorrent protocol''"
  have "verdict (sniff_BitTorrent m [data @ extra]) = verdict (sniff_BitTorrent m [data])"
    if decided: "fst (sniff_BitTorrent m [data]) \<noteq> Some ErrNeedMoreData" for data extra
  proof (cases data)
    case Nil then show ?thesis using decided by (simp add: BitTorrent_one_buffer fails_def)
  next
    case (Cons first rest)
    show ?thesis
    proof (cases "take 19 rest = take (length (take 19 rest)) ?h")
      case True
      then have "first \<noteq> 19 \<or> 19 \<le> length rest"
        using decided Cons by (auto simp: BitTorrent_one_buffer fails_def split: if_splits)
      then show ?thesis using Cons by (auto simp: BitTorrent_one_buffer)
    next
      case False
      then show ?thesis using prefix_mismatch [OF False, of extra] Cons by (simp add: BitTorrent_one_buffer)
    qed
  qed
  then show ?thesis by (simp add: stable_def)
qed

text \<open>
  (C23) The sniffers for BitTorrent, SSH, RDP and DNS over a stream do not revise a verdict: when one of them
  has accepted or rejected the data read so far, which is in one buffer, it gives the same verdict on more
  data.
\<close>

theorem stream_verdict_final:
  assumes "sniff_laws X" "sniffer \<in> {BitTorrent, SSH, RDP, StreamDomainNameQuery}"
    and "fst (run_StreamSniffer X sniffer m [data]) \<noteq> Some ErrNeedMoreData"
  shows "verdict (run_StreamSniffer X sniffer m [data @ extra]) = verdict (run_StreamSniffer X sniffer m [data])"
  using assms stable_BitTorrent [of m] stable_SSH [of m] stable_RDP [of X m] stable_StreamDomainNameQuery [of X m]
  by (auto simp: run_StreamSniffer_def stable_def)

definition sample_sniff_lib :: sniff_lib where
  "sample_sniff_lib =
     \<lparr>sl_SkipN = (\<lambda>n data. if n \<le> length data then Some (drop n data) else None),
      sl_ReadFullFrom = (\<lambda>n data. (take n data, n \<le> length data)),
      sl_Unpack = (\<lambda>_. Inl ''short''), sl_ReadRequest = (\<lambda>_. Inl (False, ''malformed'')),
      sl_HostAddrString = id, sl_ClientHello = (\<lambda>_. Inl (False, ''no TLS'')),
      sl_QUICClientHello = (\<lambda>m _. (Some (ErrOther ''no QUIC''), m))\<rparr>"

theorem stream_verdict_final_witness:
  "verdict (run_StreamSniffer sample_sniff_lib SSH InboundContext_zero [string_bytes ''SSH-2.0-'' @ [79, 112]]) =
   verdict (run_StreamSniffer sample_sniff_lib SSH InboundContext_zero [string_bytes ''SSH-2.0-''])"
proof (rule stream_verdict_final)
  show "sniff_laws sample_sniff_lib" by (simp add: sniff_laws_def sample_sniff_lib_def)
  show "fst (run_StreamSniffer sample_sniff_lib SSH InboundContext_zero [string_bytes ''SSH-2.0-'']) \<noteq> Some ErrNeedMoreData"
    by (simp add: run_StreamSniffer_def sniff_SSH_def ssh_prefix ReadLine_def Let_def)
qed simp

subsection \<open>Split data\<close>

text \<open>
  The header of BitTorrent in two buffers is not recognised: the sniffer asks for more data although it has
  the complete header.
\<close>

theorem bittorrent_split_buffers:
  "fst (sniff_BitTorrent m [19 # string_bytes ''BitTorrent'', string_bytes '' protocol'']) = Some ErrNeedMoreData \<and>
   fst (sniff_BitTorrent m [19 # string_bytes ''BitTorrent'' @ string_bytes '' protocol'']) = None"
  by (simp add: sniff_BitTorrent_def read_once_def string_bytes_def fails_def found_def Let_def)

text \<open>The version line of an SSH client is cut where the first read ended.\<close>

theorem ssh_client_truncated:
  "m_Client (snd (sniff_SSH m (string_bytes ''SSH-2.0-Open''))) = ''Open'' \<and>
   m_Client (snd (sniff_SSH m (string_bytes ''SSH-2.0-OpenSSH_9'' @ [10]))) = ''OpenSSH_9''"
  by (simp add: sniff_SSH_def ReadLine_def string_bytes_def bytes_string_def Let_def char_of_eq_iff)

text \<open>
  A DNS response, or a query without a question, ends the search without a protocol: the sniffers after the
  DNS one are not asked, although the packet sniffer succeeded in nothing.
\<close>

theorem dns_response_hides_protocol:
  assumes "sl_Unpack X packet = Inr msg" "h_Response msg"
  shows "PeekPacket X m packet (DomainNameQuery # sniffers) = (None, m)"
  using assms by (simp add: PeekPacket_def run_PacketSniffer_def sniff_DomainNameQuery_def)

end
