(* ===== verification/Router_Properties.thy ===== *)
theory Router_Properties
  imports Router FakeIP_Conn Sniff_Properties Rule_Frame FakeIP_Properties Rule_Properties
begin

text \<open>
  Properties of the router: which rule decides, which outbound a connection gets, what sniffing does to
  the data of a connection, and the way of a FakeIP address from the answer of the DNS transport to the
  packets of a connection.
\<close>

subsection \<open>The deciding rule\<close>

lemma match_loop_append:
  "match_loop R flow i (xs @ ys) st =
     (case match_loop R flow i xs st of
        (Inr None, st1) \<Rightarrow> match_loop R flow (i + length xs) ys st1 | r \<Rightarrow> r)"
proof (induction xs arbitrary: i st)
  case (Cons rule xs)
  show ?case by (simp add: Cons.IH Let_def split: prod.split option.split sum.split)
qed simp

lemma match_loop_selected:
  assumes "match_loop R flow i rules st = (Inr (Some k), st')"
  shows "i \<le> k \<and> k < i + length rules \<and> (\<exists>action. Rule_Action (rules ! (k - i)) = Some action \<and> terminal action) \<and>
         fst (match_loop R flow i (take (k - i) rules) st) = Inr None"
  using assms
proof (induction rules arbitrary: i st)
  case (Cons rule rules)
  obtain matched m where match: "Rule_Match (q_env R) (q_store R) rule (ResetRuleCache (ms_metadata st)) = (matched, m)"
    by fastforce
  let ?st1 = "st\<lparr>ms_metadata := m\<rparr>"
  have later: ?case
    if rest: "match_loop R flow (Suc i) rules st2 = (Inr (Some k), st')"
      and skip: "\<And>rs. match_loop R flow i (rule # rs) st = match_loop R flow (Suc i) rs st2" for st2
  proof -
    note IH = Cons.IH [OF rest]
    then have "k - i = Suc (k - Suc i)" by auto
    then show ?thesis using IH by (auto simp: skip simp del: match_loop.simps)
  qed
  show ?case
  proof (cases matched)
    case False
    then show ?thesis using Cons.prems match by (intro later [of ?st1]) simp_all
  next
    case True
    then obtain action where action: "Rule_Action rule = Some action"
      using Cons.prems match by (cases "Rule_Action rule") auto
    obtain e st2 where perform: "perform_action R flow action ?st1 = (e, st2)" by fastforce
    have e: "e = None" using Cons.prems match True action perform by (cases e) auto
    show ?thesis
    proof (cases "terminal action")
      case True
      then have "k = i" using Cons.prems match \<open>matched\<close> action perform e by simp
      then show ?thesis using action True by simp
    next
      case False
      then show ?thesis using Cons.prems match \<open>matched\<close> action perform e by (intro later [of st2]) simp_all
    qed
  qed
qed simp

text \<open>
  (C2) The first matching rule with a final action decides: when the router selects a rule, this rule has a
  final action, the rules before it alone select none, and the rules after it have no influence, neither on
  the selection nor on the metadata and the data read so far.
\<close>

theorem first_final_rule_decides:
  assumes "matchRule R flow rules st = (Inr (Some i), st')"
  shows "i < length rules \<and> (\<exists>action. Rule_Action (rules ! i) = Some action \<and> terminal action) \<and>
         fst (matchRule R flow (take i rules) st) = Inr None \<and>
         matchRule R flow (take (Suc i) rules @ others) st = (Inr (Some i), st')"
proof -
  obtain m where m: "prepareMatchMetadata R (ms_metadata st) = Inr m"
    using assms by (cases "prepareMatchMetadata R (ms_metadata st)") (auto simp: matchRule_def)
  let ?st = "st\<lparr>ms_metadata := m\<rparr>"
  have loop: "match_loop R flow 0 rules ?st = (Inr (Some i), st')" using assms m by (simp add: matchRule_def)
  note sel = match_loop_selected [OF loop]
  have "match_loop R flow 0 (take (Suc i) rules) ?st = (Inr (Some i), st')"
  proof -
    let ?r = "match_loop R flow 0 (take (Suc i) rules) ?st"
    have len: "length (take (Suc i) rules) = Suc i" using sel by simp
    have split: "(case ?r of (Inr None, st1) \<Rightarrow> match_loop R flow (Suc i) (drop (Suc i) rules) st1 | r \<Rightarrow> r) =
        (Inr (Some i), st')"
      using match_loop_append [of R flow 0 "take (Suc i) rules" "drop (Suc i) rules" ?st] loop
      by (simp only: append_take_drop_id len add_0)
    show ?thesis
    proof (cases "fst ?r = Inr None")
      case True
      then have "match_loop R flow (Suc i) (drop (Suc i) rules) (snd ?r) = (Inr (Some i), st')"
        using split by (cases ?r) simp
      then show ?thesis using match_loop_selected by fastforce
    next
      case False
      then show ?thesis using split by (cases ?r) (auto split: sum.splits option.splits)
    qed
  qed
  then show ?thesis using sel m by (simp add: matchRule_def match_loop_append)
qed

subsection \<open>The outbound of a connection\<close>

text \<open>The outbound \<open>ob\<close> is what the selected rule, or the lack of one, demands for the network.\<close>

definition demanded ::
  "router_env \<Rightarrow> string \<Rightarrow> 'd RuleAction option Rule list \<Rightarrow> nat option \<Rightarrow> Outbound \<Rightarrow> bool"
where
  "demanded R network rules selected ob \<longleftrightarrow>
     network \<in> set (o_Network ob) \<and>
     (case selected of
        None \<Rightarrow> ob = q_Default R
      | Some i \<Rightarrow>
          i < length rules \<and>
          (\<exists>tag opts. (Rule_Action (rules ! i) = Some (RuleActionRoute tag opts) \<or>
                       Rule_Action (rules ! i) = Some (RuleActionBypass tag opts) \<and> tag \<noteq> []) \<and>
                      q_Outbound R tag = Some ob))"

lemma named_outbound_Inr:
  "named_outbound R network tag = Inr ob \<longleftrightarrow> q_Outbound R tag = Some ob \<and> network \<in> set (o_Network ob)"
  by (auto simp: named_outbound_def split: option.splits if_splits)

lemma default_outbound_Inr:
  "default_outbound R network = Inr ob \<longleftrightarrow> ob = q_Default R \<and> network \<in> set (o_Network ob)"
  by (auto simp: default_outbound_def)

lemma select_outbound:
  assumes "select R network now rules selected drops = (ToOutbound ob, drops')"
    and "\<And>i. selected = Some i \<Longrightarrow> i < length rules"
  shows "drops' = drops \<and> demanded R network rules selected ob"
proof (cases selected)
  case None
  then show ?thesis using assms(1)
    by (auto simp: select_def demanded_def default_outbound_Inr split: sum.splits)
next
  case (Some i)
  have i: "i < length rules" using assms(2) [OF Some] .
  show ?thesis
  proof (cases "Rule_Action (rules ! i)")
    case None
    then show ?thesis using assms(1) Some by (simp add: select_def)
  next
    case action: (Some a)
    then show ?thesis using assms(1) Some i
      by (cases a)
        (auto simp: select_def demanded_def named_outbound_Inr Let_def split: sum.splits if_splits prod.splits)
  qed
qed

lemma matchRule_index: "matchRule R flow rules st = (Inr (Some i), st') \<Longrightarrow> i < length rules"
  by (auto simp: matchRule_def split: sum.splits dest: match_loop_selected)

lemma routed_stream_cases:
  assumes "routeConnection R now rules drops reads m = (StreamRouted ob c m' selected, drops')"
  obtains st where "m_InboundDetour m = []"
    "matchRule R StreamFlow rules (start_state (m\<lparr>m_Network := NetworkTCP\<rparr>) reads []) = (Inr selected, st)"
    "select R NetworkTCP now rules selected drops = (ToOutbound ob, drops')"
    "m' = routed_metadata R selected ob (ms_metadata st)"
    "c = foldl (\<lambda>c tracker. TrackedConn tracker c m' selected ob)
           (cached_conn (ms_buffers st) (Conn (ms_reads st))) [0..<q_trackers R]"
proof -
  have detour: "m_InboundDetour m = []"
    using assms by (auto simp: routeConnection_def split: if_splits sum.splits)
  let ?m = "m\<lparr>m_Network := NetworkTCP\<rparr>"
  obtain r st where match: "matchRule R StreamFlow rules (start_state ?m reads []) = (r, st)" by fastforce
  obtain sel where r: "r = Inr sel"
    using assms detour match
    by (cases r) (auto simp: routeConnection_def Let_def hijack_stream_def split: if_splits)
  obtain x drops1 where sl: "select R NetworkTCP now rules sel drops = (x, drops1)" by fastforce
  have "x = ToOutbound ob \<and> drops1 = drops' \<and> selected = sel \<and> m' = routed_metadata R sel ob (ms_metadata st) \<and>
      c = foldl (\<lambda>c tracker. TrackedConn tracker c m' sel ob)
            (cached_conn (ms_buffers st) (Conn (ms_reads st))) [0..<q_trackers R]"
    using assms detour match r sl
    by (cases x) (auto simp: routeConnection_def Let_def hijack_stream_def split: if_splits)
  then show ?thesis using that [OF detour] match r sl by auto
qed

lemma routed_packets_cases:
  assumes "routePacketConnection R now rules drops reads m = (PacketsRouted ob c m' selected, drops')"
  obtains st where "m_InboundDetour m = []"
    "matchRule R PacketFlow rules (start_state (m\<lparr>m_Network := NetworkUDP\<rparr>) [] reads) = (Inr selected, st)"
    "select R NetworkUDP now rules selected drops = (ToOutbound ob, drops')"
    "m' = routed_metadata R selected ob (ms_metadata st)"
    "\<exists>c'. c = (if m_FakeIP m' then FakeIPNATPacketConn c' (m_OriginDestination m') (m_Destination m') else c')"
proof -
  have detour: "m_InboundDetour m = []"
    using assms by (auto simp: routePacketConnection_def split: if_splits sum.splits)
  let ?m = "m\<lparr>m_Network := NetworkUDP\<rparr>"
  obtain r st where match: "matchRule R PacketFlow rules (start_state ?m [] reads) = (r, st)" by fastforce
  obtain sel where r: "r = Inr sel"
    using assms detour match by (cases r) (auto simp: routePacketConnection_def Let_def split: if_splits)
  obtain x drops1 where sl: "select R NetworkUDP now rules sel drops = (x, drops1)" by fastforce
  have x: "x = ToOutbound ob \<and> drops1 = drops' \<and> selected = sel \<and> m' = routed_metadata R sel ob (ms_metadata st)"
    using assms detour match r sl
    by (cases x) (auto simp: routePacketConnection_def Let_def split: if_splits)
  have "\<exists>c'. c = (if m_FakeIP m' then FakeIPNATPacketConn c' (m_OriginDestination m') (m_Destination m') else c')"
    using assms detour match r sl x by (auto simp: routePacketConnection_def Let_def split: if_splits)
  then show ?thesis using that [OF detour] match r sl x by auto
qed

text \<open>
  (C14) A stream that is routed goes to the outbound of the action of the selected rule, found under its tag,
  or to the default outbound when no rule was selected; the outbound supports TCP, the metadata names it, and
  the connection had no detour. The same holds for packets and UDP.
\<close>

theorem outbound_demanded:
  "(routeConnection R now rules drops reads m = (StreamRouted ob c m' selected, drops') \<longrightarrow>
      m_InboundDetour m = [] \<and> drops' = drops \<and> demanded R NetworkTCP rules selected ob \<and> m_RouteOutbound m' = o_Tag ob) \<and>
   (routePacketConnection R now rules drops packetReads m = (PacketsRouted ob pc m' selected, drops') \<longrightarrow>
      m_InboundDetour m = [] \<and> drops' = drops \<and> demanded R NetworkUDP rules selected ob \<and> m_RouteOutbound m' = o_Tag ob)"
proof (intro conjI impI)
  assume "routeConnection R now rules drops reads m = (StreamRouted ob c m' selected, drops')"
  then obtain st where st: "m_InboundDetour m = []"
    "matchRule R StreamFlow rules (start_state (m\<lparr>m_Network := NetworkTCP\<rparr>) reads []) = (Inr selected, st)"
    "select R NetworkTCP now rules selected drops = (ToOutbound ob, drops')"
    "m' = routed_metadata R selected ob (ms_metadata st)" by (rule routed_stream_cases)
  have idx: "i < length rules" if "selected = Some i" for i using matchRule_index st(2) that by blast
  show "m_InboundDetour m = []" "m_RouteOutbound m' = o_Tag ob" using st by (simp_all add: routed_metadata_def)
  show "drops' = drops" "demanded R NetworkTCP rules selected ob" using select_outbound [OF st(3) idx] by simp_all
next
  assume "routePacketConnection R now rules drops packetReads m = (PacketsRouted ob pc m' selected, drops')"
  then obtain st where st: "m_InboundDetour m = []"
    "matchRule R PacketFlow rules (start_state (m\<lparr>m_Network := NetworkUDP\<rparr>) [] packetReads) = (Inr selected, st)"
    "select R NetworkUDP now rules selected drops = (ToOutbound ob, drops')"
    "m' = routed_metadata R selected ob (ms_metadata st)" by (rule routed_packets_cases)
  have idx: "i < length rules" if "selected = Some i" for i using matchRule_index st(2) that by blast
  show "m_InboundDetour m = []" "m_RouteOutbound m' = o_Tag ob" using st by (simp_all add: routed_metadata_def)
  show "drops' = drops" "demanded R NetworkUDP rules selected ob" using select_outbound [OF st(3) idx] by simp_all
qed

subsection \<open>The data of a stream\<close>

text \<open>The data that arrives on a connection.\<close>

definition payload :: "(string, bytes) res list \<Rightarrow> bytes" where
  "payload reads = concat (map (case_sum (\<lambda>_. []) id) reads)"

lemma payload_simps [simp]:
  "payload [] = []" "payload (Inl e # reads) = payload reads" "payload (Inr data # reads) = data @ payload reads"
  by (simp_all add: payload_def)

lemma PeekStream_loop_payload:
  "PeekStream_loop X buffers sniffers buffer err first m reads = (err', m', buffer', reads') \<Longrightarrow>
   buffer' @ payload reads' = buffer @ payload reads"
proof (induction X buffers sniffers buffer err first m reads rule: PeekStream_loop.induct)
  case (3 X buffers sniffers buffer sniffError first m data reads)
  then show ?case by (auto split: prod.splits option.splits if_splits)
qed (auto split: if_splits)

lemma sniff_stream_payload:
  assumes "sniff_stream R action st = (newBuffer, st')"
  shows "(case newBuffer of Some b \<Rightarrow> b | None \<Rightarrow> []) @ payload (ms_reads st') = payload (ms_reads st) \<and>
         ms_buffers st' = ms_buffers st"
proof -
  let ?sniffers = "if sn_StreamSniffers action \<noteq> [] then sn_StreamSniffers action else defaultStreamSniffers"
  obtain err m1 b reads where peek: "PeekStream (q_sniff R) (ms_buffers st) ?sniffers (ms_metadata st) (ms_reads st) = (err, m1, b, reads)"
    by (metis prod_cases4)
  then have "b @ payload reads = payload (ms_reads st)"
    using PeekStream_loop_payload by (fastforce simp: PeekStream_def)
  then show ?thesis using assms peek by (auto simp: sniff_stream_def Let_def split: if_splits)
qed

text \<open>The data of a connection: in the buffers and still to be read.\<close>

definition stream_data :: "match_state \<Rightarrow> bytes" where
  "stream_data st = concat (ms_buffers st) @ payload (ms_reads st)"

fun is_sniff :: "'d RuleAction option \<Rightarrow> bool" where
  "is_sniff (Some (ActionSniff action)) = True"
| "is_sniff _ = False"

definition sniff_rules :: "'d RuleAction option Rule list \<Rightarrow> nat" where
  "sniff_rules rules = length (filter (is_sniff \<circ> Rule_Action) rules)"

lemma actionSniff_stream:
  assumes "actionSniff R StreamFlow action st = (e, st')"
  shows "stream_data st' = stream_data st \<and> length (ms_buffers st') \<le> Suc (length (ms_buffers st))"
proof -
  obtain b st1 where s: "sniff_stream R action st = (b, st1)" by fastforce
  show ?thesis using assms s sniff_stream_payload [OF s]
    by (auto simp: actionSniff_def stream_data_def split: if_splits option.splits)
qed

lemma perform_action_stream:
  assumes "perform_action R StreamFlow action st = (e, st')"
  shows "stream_data st' = stream_data st \<and>
         length (ms_buffers st') \<le> length (ms_buffers st) + (if is_sniff (Some action) then 1 else 0)"
proof -
  define st1 where "st1 = (case action_route_options action of
      Some opts \<Rightarrow> st\<lparr>ms_metadata := apply_route_options R opts (ms_metadata st)\<rparr> | None \<Rightarrow> st)"
  have st1: "stream_data st1 = stream_data st" "ms_buffers st1 = ms_buffers st"
    by (auto simp: st1_def stream_data_def split: option.split)
  have run: "(case action of ActionSniff sniff \<Rightarrow> actionSniff R StreamFlow sniff st1
      | ActionResolve resolve \<Rightarrow> (case actionResolve R (ms_metadata st1) resolve of
          Inl e \<Rightarrow> (Some e, st1) | Inr m \<Rightarrow> (None, st1\<lparr>ms_metadata := m\<rparr>))
      | _ \<Rightarrow> (None, st1)) = (e, st')"
    using assms by (simp add: perform_action_def st1_def [symmetric] Let_def)
  show ?thesis
  proof (cases action)
    case (ActionSniff sniff)
    then show ?thesis using run actionSniff_stream [of R sniff st1 e st'] st1 by simp
  next
    case (ActionResolve resolve)
    then show ?thesis using run st1 by (auto simp: stream_data_def split: sum.splits)
  qed (use run st1 in auto)
qed

lemma match_loop_stream:
  assumes "match_loop R StreamFlow i rules st = (r, st')"
  shows "stream_data st' = stream_data st \<and> length (ms_buffers st') \<le> length (ms_buffers st) + sniff_rules rules"
  using assms
proof (induction rules arbitrary: i st)
  case Nil then show ?case by simp
next
  case (Cons rule rules)
  obtain matched m where match: "Rule_Match (q_env R) (q_store R) rule (ResetRuleCache (ms_metadata st)) = (matched, m)"
    by fastforce
  let ?st1 = "st\<lparr>ms_metadata := m\<rparr>"
  have st1: "stream_data ?st1 = stream_data st" by (simp add: stream_data_def)
  have count: "sniff_rules (rule # rules) = (if is_sniff (Rule_Action rule) then 1 else 0) + sniff_rules rules"
    by (simp add: sniff_rules_def)
  show ?case
  proof (cases "\<exists>action. matched \<and> Rule_Action rule = Some action")
    case True
    then obtain action where action: matched "Rule_Action rule = Some action" by blast
    obtain e st2 where p: "perform_action R StreamFlow action ?st1 = (e, st2)" by fastforce
    note perform = perform_action_stream [OF p]
    show ?thesis
    proof (cases "e = None \<and> \<not> terminal action")
      case True
      then have "match_loop R StreamFlow (Suc i) rules st2 = (r, st')" using Cons.prems match action p by simp
      from Cons.IH [OF this] show ?thesis using perform st1 count action by simp
    next
      case False
      then have "st' = st2" using Cons.prems match action p by (auto split: option.splits)
      then show ?thesis using perform st1 count action by simp
    qed
  next
    case False
    then have "match_loop R StreamFlow (Suc i) rules ?st1 = (r, st') \<or> st' = ?st1"
      using Cons.prems match by (cases matched) (auto simp: Let_def)
    then show ?thesis using Cons.IH [of "Suc i" ?st1] st1 count by auto
  qed
qed

text \<open>
  What reading from a connection gives: \<^verbatim>\<open>bufio.NewCachedConn\<close> puts its buffer before the connection, and
  the wrapper of a connection tracker passes the data on.
\<close>

definition stream_laws :: "(conn \<Rightarrow> bytes) \<Rightarrow> bool" where
  "stream_laws stream \<longleftrightarrow>
     (\<forall>reads. stream (Conn reads) = payload reads) \<and>
     (\<forall>c buffer. stream (CachedConn c buffer) = buffer @ stream c) \<and>
     (\<forall>i c m s ob. stream (TrackedConn i c m s ob) = stream c)"

lemma stream_cached: "stream_laws stream \<Longrightarrow> stream (cached_conn buffers c) = concat (rev buffers) @ stream c"
  unfolding cached_conn_def by (induction buffers arbitrary: c) (simp_all add: stream_laws_def)

lemma stream_tracked: "stream_laws stream \<Longrightarrow> stream (foldl (\<lambda>c t. TrackedConn t c m s ob) c ts) = stream c"
  by (induction ts arbitrary: c) (simp_all add: stream_laws_def)

text \<open>
  (C12) With at most one sniff action among the rules, the outbound gets exactly the data that arrives from the
  client, in order: what sniffing has read is put back.
\<close>

theorem sniffed_stream_unchanged:
  assumes "stream_laws stream" "sniff_rules rules \<le> 1"
    and "routeConnection R now rules drops reads m = (StreamRouted ob c m' selected, drops')"
  shows "stream c = payload reads"
proof -
  obtain st where st: "matchRule R StreamFlow rules (start_state (m\<lparr>m_Network := NetworkTCP\<rparr>) reads []) = (Inr selected, st)"
    "c = foldl (\<lambda>c tracker. TrackedConn tracker c m' selected ob)
           (cached_conn (ms_buffers st) (Conn (ms_reads st))) [0..<q_trackers R]"
    using assms(3) by (rule routed_stream_cases)
  then have data: "stream_data st = payload reads \<and> length (ms_buffers st) \<le> sniff_rules rules"
    using match_loop_stream by (fastforce simp: matchRule_def start_state_def stream_data_def split: sum.splits)
  then have "length (ms_buffers st) \<le> 1" using assms(2) by simp
  then have "rev (ms_buffers st) = ms_buffers st" by (cases "ms_buffers st") auto
  then show ?thesis
    using data assms(1) by (simp add: st(2) stream_tracked stream_cached stream_data_def) (simp add: stream_laws_def)
qed

subsection \<open>FakeIP connections\<close>

text \<open>What no rule and no sniffer changes: whether the destination is a FakeIP address, and which one.\<close>

definition kept :: "InboundContext \<Rightarrow> bool \<times> Socksaddr" where
  "kept m = (m_FakeIP m, m_OriginDestination m)"

text \<open>The QUIC sniffer sets nothing but the fields a sniffer sets.\<close>

definition quic_law :: "sniff_lib \<Rightarrow> bool" where
  "quic_law X \<longleftrightarrow> (\<forall>m packet. kept (snd (sl_QUICClientHello X m packet)) = kept m)"

lemma kept_LetI: "kept e = k \<Longrightarrow> (\<And>x. kept x = k \<Longrightarrow> kept (f x) = k) \<Longrightarrow> kept (Let e f) = k"
  by (simp add: Let_def)

lemma kept_ifI: "kept a = k \<Longrightarrow> kept b = k \<Longrightarrow> kept (if c then a else b) = k"
  by simp

lemma kept_applyRouteOptionsOverride: "kept (applyRouteOptionsOverride R m opts) = kept m"
  unfolding applyRouteOptionsOverride_def
  by (intro kept_LetI kept_ifI) (simp_all add: kept_def)

lemma kept_apply_route_options: "kept (apply_route_options R opts m) = kept m"
  unfolding apply_route_options_def Let_def [of "x_sa_IsValid _ _"]
  by (intro kept_LetI kept_ifI) (simp_all add: kept_def kept_applyRouteOptionsOverride [unfolded kept_def])

lemma kept_simps [simp]:
  "kept (m\<lparr>m_Protocol := p\<rparr>) = kept m" "kept (m\<lparr>m_Domain := d\<rparr>) = kept m" "kept (m\<lparr>m_Client := x\<rparr>) = kept m"
  "kept (m\<lparr>m_SnifferNames := n\<rparr>) = kept m" "kept (m\<lparr>m_SniffError := e\<rparr>) = kept m"
  "kept (m\<lparr>m_Destination := a\<rparr>) = kept m" "kept (m\<lparr>m_DestinationAddresses := as\<rparr>) = kept m"
  "kept (m\<lparr>m_Network := nw\<rparr>) = kept m" "kept (m\<lparr>m_DeferredIPCIDRMatchGroups := g\<rparr>) = kept m"
  "kept (m\<lparr>m_RouteRule := rr\<rparr>) = kept m" "kept (m\<lparr>m_RouteOutbound := ro\<rparr>) = kept m"
  by (simp_all add: kept_def)

lemma kept_found [simp]: "kept (snd (found protocol m)) = kept m" "kept (snd (fails e m)) = kept m"
  by (simp_all add: found_def fails_def)

lemma kept_DomainNameQuery [simp]: "kept (snd (sniff_DomainNameQuery X m packet)) = kept m"
  by (simp add: sniff_DomainNameQuery_def split: sum.split)

lemma kept_run_PacketSniffer: "quic_law X \<Longrightarrow> kept (snd (run_PacketSniffer X s m packet)) = kept m"
  by (cases s)
    (simp_all add: run_PacketSniffer_def quic_law_def sniff_STUNMessage_def sniff_UTP_def sniff_UDPTracker_def
      sniff_DTLSRecord_def sniff_NTP_def Let_def split: option.split)

lemma kept_expect: "(\<And>rest. kept (snd (f rest)) = kept m) \<Longrightarrow> kept (snd (expect w ok f m data)) = kept m"
  by (simp add: expect_def split: sum.split prod.split)

lemma kept_RDP: "kept (snd (sniff_RDP X m data)) = kept m"
  unfolding sniff_RDP_def by (intro kept_expect) (simp add: kept_expect split: option.split)

lemma kept_run_StreamSniffer: "kept (snd (run_StreamSniffer X s m chunks)) = kept m"
  by (cases s)
    (simp_all add: run_StreamSniffer_def sniff_TLSClientHello_def sniff_HTTPHost_def sniff_StreamDomainNameQuery_def
      sniff_BitTorrent_def sniff_SSH_def kept_RDP Let_def split: sum.split prod.split list.split)

lemma kept_try_sniffers:
  "(\<And>s m. kept (snd (run s m)) = kept m) \<Longrightarrow> kept (snd (try_sniffers run ss errs m)) = kept m"
proof (induction ss arbitrary: errs m)
  case (Cons s ss)
  obtain e m1 where "run s m = (e, m1)" by fastforce
  then show ?case using Cons.IH [of "errs @ [the e]" m1] Cons.prems [of s m] Cons.prems by (cases e) simp_all
qed simp

lemma kept_PeekPacket: "quic_law X \<Longrightarrow> kept (snd (PeekPacket X m packet ss)) = kept m"
  by (simp add: PeekPacket_def kept_try_sniffers kept_run_PacketSniffer)

lemma kept_PeekStream_loop: "kept (fst (snd (PeekStream_loop X buffers ss buffer err first m reads))) = kept m"
proof (induction X buffers ss buffer err first m reads rule: PeekStream_loop.induct)
  case (3 X buffers ss buffer err first m data reads)
  obtain e m1 where t: "try_sniffers (\<lambda>s m. run_StreamSniffer X s m (buffers @ [buffer @ data])) ss [] m = (e, m1)"
    by fastforce
  have "kept m1 = kept m"
    using kept_try_sniffers [of "\<lambda>s m. run_StreamSniffer X s m (buffers @ [buffer @ data])" ss "[]" m] t
    by (simp add: kept_run_StreamSniffer)
  then show ?case using "3.IH" [OF t [symmetric]] t by (cases e) simp_all
qed simp_all

lemma kept_record_sniff [simp]: "kept (record_sniff action err m) = kept m"
  by (simp add: record_sniff_def)

lemma kept_override_destination [simp]: "kept (override_destination R action m) = kept m"
  by (simp add: override_destination_def)

lemma kept_sniff_stream: "kept (ms_metadata (snd (sniff_stream R action st))) = kept (ms_metadata st)"
proof -
  let ?sniffers = "if sn_StreamSniffers action \<noteq> [] then sn_StreamSniffers action else defaultStreamSniffers"
  obtain err m1 b reads where peek:
      "PeekStream (q_sniff R) (ms_buffers st) ?sniffers (ms_metadata st) (ms_reads st) = (err, m1, b, reads)"
    by (metis prod_cases4)
  then have "kept m1 = kept (ms_metadata st)"
    using kept_PeekStream_loop [of "q_sniff R" "ms_buffers st" ?sniffers "[]" None True "ms_metadata st" "ms_reads st"]
    by (simp add: PeekStream_def)
  then show ?thesis using peek by (simp add: sniff_stream_def Let_def)
qed

lemma kept_peek: "quic_law (q_sniff R) \<Longrightarrow> kept (snd (peek R action m packet)) = kept m"
  using kept_PeekPacket [of "q_sniff R" m packet] by (simp add: peek_def Let_def split_beta)

lemma kept_peek_buffered: "quic_law (q_sniff R) \<Longrightarrow> kept (snd (peek_buffered R action m packets)) = kept m"
proof (induction packets arbitrary: m)
  case (Cons p packets)
  obtain data dest where p: "p = (data, dest)" by fastforce
  obtain e m1 where e: "peek R action m data = (e, m1)" by fastforce
  have "kept m1 = kept m" using kept_peek [OF Cons.prems, of action m data] e by simp
  then show ?case using Cons.IH [OF Cons.prems, of m1] p e by simp
qed simp

lemma kept_peek_more:
  "quic_law (q_sniff R) \<Longrightarrow> kept (fst (snd (snd (snd (peek_more R action m packets reads))))) = kept m"
proof (induction R action m packets reads rule: peek_more.induct)
  case (5 R action m packets packet destination reads)
  obtain e m1 where e: "peek R action m packet = (e, m1)" by fastforce
  have "kept m1 = kept m" using kept_peek [OF "5.prems", of action m packet] e by simp
  then show ?case using "5.IH" [OF e [symmetric]] "5.prems" e by simp
qed simp_all

lemma kept_sniff_packets:
  assumes "quic_law (q_sniff R)"
  shows "kept (ms_metadata (snd (snd (sniff_packets R action st)))) = kept (ms_metadata st)"
proof -
  obtain r m1 where b: "peek_buffered R action (ms_metadata st) (ms_packetBuffers st) = (r, m1)" by fastforce
  obtain ps ok e m2 reads where p: "peek_more R action m1 (ms_packetBuffers st) (ms_packetReads st) = (ps, ok, e, m2, reads)"
    by (metis prod_cases5)
  have "kept m1 = kept (ms_metadata st)" "kept m2 = kept m1"
    using kept_peek_buffered [OF assms, of action "ms_metadata st" "ms_packetBuffers st"] b
      kept_peek_more [OF assms, of action m1 "ms_packetBuffers st" "ms_packetReads st"] p by simp_all
  then show ?thesis using b p by (cases r) (simp_all add: sniff_packets_def Let_def)
qed

lemma kept_actionSniff:
  "quic_law (q_sniff R) \<Longrightarrow> kept (ms_metadata (snd (actionSniff R flow action st))) = kept (ms_metadata st)"
  using kept_sniff_stream [of R action st] kept_sniff_packets [of R action st]
  by (cases flow) (auto simp: actionSniff_def split: prod.split option.split)

lemma kept_perform_action:
  assumes "quic_law (q_sniff R)"
  shows "kept (ms_metadata (snd (perform_action R flow action st))) = kept (ms_metadata st)"
  using kept_actionSniff [OF assms]
  by (cases action)
    (auto simp: perform_action_def Let_def kept_apply_route_options actionResolve_def split: option.split sum.split)

lemma kept_Rule_Match: "kept (snd (Rule_Match E S rule (ResetRuleCache m))) = kept m"
  using Rule_Match_framed [of E S rule "ResetRuleCache m"]
  by (auto simp: framed_def ResetRuleCache_def ResetRuleMatchCache_def kept_def)

lemma kept_match_loop:
  assumes "quic_law (q_sniff R)"
  shows "kept (ms_metadata (snd (match_loop R flow i rules st))) = kept (ms_metadata st)"
proof (induction rules arbitrary: i st)
  case (Cons rule rules)
  obtain matched m where match: "Rule_Match (q_env R) (q_store R) rule (ResetRuleCache (ms_metadata st)) = (matched, m)"
    by fastforce
  let ?st1 = "st\<lparr>ms_metadata := m\<rparr>"
  have m: "kept m = kept (ms_metadata st)" using kept_Rule_Match [of "q_env R" "q_store R" rule "ms_metadata st"] match by simp
  show ?case
  proof (cases "matched \<and> Rule_Action rule \<noteq> None")
    case True
    then obtain action where action: matched "Rule_Action rule = Some action" by blast
    obtain e st2 where p: "perform_action R flow action ?st1 = (e, st2)" by fastforce
    have "kept (ms_metadata st2) = kept m" using kept_perform_action [OF assms, of flow action ?st1] p by simp
    then show ?thesis using Cons.IH [of "Suc i" st2] match action p m by (cases e) simp_all
  next
    case False
    then show ?thesis using Cons.IH [of "Suc i" ?st1] match m by (cases matched) simp_all
  qed
qed simp

lemma created_address:
  assumes "fakeip_reachable r4 r6 s" "range_ok False r4" "range_ok True r6"
    and "Store_Create memory_methods domain isIPv6 s = (Inr address, s')"
  shows "addr_IsValid address" "Store_Contains s' address" "Store_Lookup memory_methods s' address = Some domain"
proof -
  note ok = reachable_pool(1) [OF assms(1-3)]
  note ok' = mem.Create_ok [OF ok assms(4)] and b = mem.Create_binding [OF ok assms(4)]
  have u: "prefix_IsValid (mem.pool isIPv6 s')" "usable (mem.pool isIPv6 s') address"
    using ok' b unfolding mem.store_ok_def by metis+
  then show "addr_IsValid address" by (simp add: usable_def addr_like_def)
  have "pool_ok (mem.pool isIPv6 s')" using mem.store_ok_pool [OF ok', of isIPv6] u(1) by (simp add: mem.pool_state_def)
  then have "prefix_Contains (mem.pool isIPv6 s') address" using u(2) by (rule usable_contained)
  then show "Store_Contains s' address" by (auto simp: Store_Contains_def mem.pool_def split: if_splits)
  show "Store_Lookup memory_methods s' address = Some domain"
    using b mem.bindings_family [OF ok' b] by (simp add: mem.Lookup_iff [OF ok'])
qed

lemma searchProcessInfo_destination [simp]:
  "m_Destination (searchProcessInfo R m) = m_Destination m" "m_Destination (find_neighbor R m) = m_Destination m"
  by (simp_all add: searchProcessInfo_def find_neighbor_def Let_def split: option.split sum.split)

text \<open>A destination in the FakeIP range becomes the domain it stands for.\<close>

lemma prepare_fakeip:
  assumes "q_FakeIP R = Some (contains, lookup)" "addr_IsValid (sa_Addr (m_Destination m))"
    and "contains (sa_Addr (m_Destination m))" "lookup (sa_Addr (m_Destination m)) = Some domain" "domain \<noteq> []"
  shows "\<exists>m1. prepareMatchMetadata R m = Inr m1 \<and> kept m1 = (True, m_Destination m) \<and>
           m_Destination m1 = domain_destination domain (m_Destination m)"
  using assms
  by (simp add: prepareMatchMetadata_def find_domain_def set_ip_version_def kept_def Let_def)

lemma matchRule_kept:
  assumes "quic_law (q_sniff R)" "prepareMatchMetadata R (ms_metadata st) = Inr m1"
    and "matchRule R flow rules st = (r, st')"
  shows "kept (ms_metadata st') = kept m1"
  using kept_match_loop [OF assms(1), of flow 0 rules "st\<lparr>ms_metadata := m1\<rparr>"] assms(2,3)
  by (simp add: matchRule_def)

text \<open>
  (C4) From the DNS answer to the packets: when the FakeIP store has given an address for a domain and packets
  to this address are routed, the rules see the domain and the port as the destination, the connection is
  translated with the address as its origin, and whatever the client sends and the remote side answers, every
  reply reaches the client with the address as its source or with one the client has itself sent packets to.
\<close>

theorem fakeip_packets_translated:
  assumes "fakeip_reachable r4 r6 s" "range_ok False r4" "range_ok True r6"
    and "Store_Create memory_methods domain isIPv6 s = (Inr address, s')" "domain \<noteq> []"
    and "q_FakeIP R = Some (Store_Contains s', Store_Lookup memory_methods s')" "quic_law (q_sniff R)"
    and "sa_Addr (m_Destination m) = address"
    and "routePacketConnection R now rules drops reads m = (PacketsRouted ob c m' selected, drops')"
  shows "(\<exists>m1. prepareMatchMetadata R (m\<lparr>m_Network := NetworkUDP\<rparr>) = Inr m1 \<and>
            m_Destination m1 = \<lparr>sa_Addr = AddrZero, sa_Port = sa_Port (m_Destination m), sa_Fqdn = domain\<rparr>) \<and>
         (\<exists>c'. c = FakeIPNATPacketConn c' (m_Destination m) (m_Destination m')) \<and>
         sa_Addr (rewriteWriteDestination
             (nat_run socksaddrFrom events (newFakeIPNATPacketConn (m_Destination m) (m_Destination m'))) source)
           \<in> insert address (sent_to address events)"
proof -
  let ?m = "m\<lparr>m_Network := NetworkUDP\<rparr>"
  note addr = created_address [OF assms(1-4)]
  obtain m1 where m1: "prepareMatchMetadata R ?m = Inr m1" "kept m1 = (True, m_Destination m)"
      "m_Destination m1 = domain_destination domain (m_Destination m)"
    using prepare_fakeip [OF assms(6), of ?m domain] addr assms(5,8) by auto
  obtain st where st: "matchRule R PacketFlow rules (start_state ?m [] reads) = (Inr selected, st)"
      "m' = routed_metadata R selected ob (ms_metadata st)"
      "\<exists>c'. c = (if m_FakeIP m' then FakeIPNATPacketConn c' (m_OriginDestination m') (m_Destination m') else c')"
    using assms(9) by (rule routed_packets_cases)
  have "kept (ms_metadata st) = (True, m_Destination m)"
    using matchRule_kept [OF assms(7) _ st(1), of m1] m1(1,2) by (simp add: start_state_def)
  then have "kept m' = (True, m_Destination m)" using st(2) by (simp add: routed_metadata_def split: option.split)
  then have "\<exists>c'. c = FakeIPNATPacketConn c' (m_Destination m) (m_Destination m')" using st(3) by (simp add: kept_def)
  moreover have "sa_Addr (rewriteWriteDestination
        (nat_run socksaddrFrom events (newFakeIPNATPacketConn (m_Destination m) (m_Destination m'))) source)
      \<in> insert address (sent_to address events)"
    using assms(8) by (simp add: rewriteWriteDestination_def nat_run_new)
  ultimately show ?thesis using m1(1,3) by (simp add: domain_destination_def)
qed

subsection \<open>Samples and witnesses\<close>

definition sample_outbound :: "string \<Rightarrow> Outbound" where
  "sample_outbound tag =
     \<lparr>o_Tag = tag, o_Network = [NetworkTCP, NetworkUDP], o_Now = None, o_PreMatchFlow = None, o_IsPort = False\<rparr>"

definition sample_router :: router_env where
  "sample_router =
     \<lparr>q_env = sample_env, q_store = (\<lambda>_. []), q_sniff = sample_sniff_lib, q_findProcessInfoCached = None,
      q_MyInterfaceAddress = [], q_Interfaces = [], q_neighborResolver = None, q_FakeIP = None,
      q_LookupReverseMapping = (\<lambda>_. None), q_Transport = (\<lambda>_. False), q_Lookup = (\<lambda>_ _ _. Inr []),
      q_Outbound = (\<lambda>tag. if tag = ''proxy'' then Some (sample_outbound ''proxy'') else None),
      q_Default = sample_outbound ''direct'', q_Inbound = (\<lambda>_. None), q_GlobalDestination = (\<lambda>_. False),
      q_RuleString = (\<lambda>_. ''rule''), q_trackers = 1\<rparr>"

definition sample_route_options :: RuleActionRouteOptions where
  "sample_route_options =
     \<lparr>ro_OverrideAddress = Socksaddr_zero, ro_OverridePort = 0, ro_NetworkStrategy = None, ro_NetworkType = [],
      ro_FallbackNetworkType = [], ro_FallbackDelay = 0, ro_UDPDisableDomainUnmapping = False, ro_UDPConnect = False,
      ro_UDPTimeout = 0, ro_TLSFragment = False, ro_TLSFragmentFallbackDelay = 0, ro_TLSRecordFragment = False,
      ro_TLSSpoof = [], ro_TLSSpoofMethod = 0\<rparr>"

definition ssh_sniff :: RuleActionSniff where
  "ssh_sniff = \<lparr>sn_SnifferNames = [''ssh''], sn_StreamSniffers = [SSH], sn_PacketSniffers = [], sn_Timeout = 0,
                sn_OverrideDestination = False\<rparr>"

definition sniff_rule :: "unit RuleAction option Rule" where
  "sniff_rule = DefaultRule empty_rule (Some (ActionSniff ssh_sniff))"

definition proxy_rule :: "unit RuleAction option Rule" where
  "proxy_rule = DefaultRule empty_rule (Some (RuleActionRoute ''proxy'' sample_route_options))"

definition sample_connection :: InboundContext where
  "sample_connection = InboundContext_zero\<lparr>m_Destination := \<lparr>sa_Addr = Addr4 0xC6120002, sa_Port = 22, sa_Fqdn = []\<rparr>\<rparr>"

text \<open>The bytes SSH and, after a timeout, two more.\<close>

definition sample_reads :: "(string, bytes) res list" where
  "sample_reads = [Inr [83, 83, 72], Inl ''timeout'', Inr [45, 50]]"

text \<open>An instance of the laws about connections.\<close>

primrec conn_stream :: "conn \<Rightarrow> bytes" where
  "conn_stream (Conn reads) = payload reads"
| "conn_stream (CachedConn c buffer) = buffer @ conn_stream c"
| "conn_stream (TrackedConn i c m s ob) = conn_stream c"

lemma conn_stream_laws: "stream_laws conn_stream"
  by (simp add: stream_laws_def)

theorem first_final_rule_decides_witness:
  "fst (matchRule sample_router StreamFlow [sniff_rule] (start_state sample_connection sample_reads [])) = Inr None \<and>
   fst (matchRule sample_router StreamFlow [sniff_rule, proxy_rule, sniff_rule]
     (start_state sample_connection sample_reads [])) = Inr (Some 1)"
proof -
  let ?st = "start_state sample_connection sample_reads []"
  have "fst (matchRule sample_router StreamFlow [sniff_rule, proxy_rule] ?st) = Inr (Some 1)" by code_simp
  then obtain st' where "matchRule sample_router StreamFlow [sniff_rule, proxy_rule] ?st = (Inr (Some 1), st')"
    by (metis prod.collapse)
  from first_final_rule_decides [OF this, of "[sniff_rule]"] show ?thesis by simp
qed

lemma sample_routed:
  "case fst (routeConnection sample_router 0 [sniff_rule, proxy_rule] (\<lambda>_. []) sample_reads sample_connection) of
     StreamRouted ob c m' selected \<Rightarrow> conn_stream c = [83, 83, 72, 45, 50] | _ \<Rightarrow> False"
  by code_simp

theorem outbound_demanded_witness:
  "\<exists>ob c m' selected drops'.
     routeConnection sample_router 0 [sniff_rule, proxy_rule] (\<lambda>_. []) sample_reads sample_connection =
       (StreamRouted ob c m' selected, drops') \<and>
     demanded sample_router NetworkTCP [sniff_rule, proxy_rule] selected ob"
proof -
  obtain ob c m' selected drops' where
    routed: "routeConnection sample_router 0 [sniff_rule, proxy_rule] (\<lambda>_. []) sample_reads sample_connection =
      (StreamRouted ob c m' selected, drops')"
    using sample_routed
    by (cases "routeConnection sample_router 0 [sniff_rule, proxy_rule] (\<lambda>_. []) sample_reads sample_connection")
      (auto split: stream_outcome.splits)
  then show ?thesis using outbound_demanded by blast
qed

theorem sniffed_stream_unchanged_witness:
  "\<exists>ob c m' selected drops'.
     routeConnection sample_router 0 [sniff_rule, proxy_rule] (\<lambda>_. []) sample_reads sample_connection =
       (StreamRouted ob c m' selected, drops') \<and>
     conn_stream c = payload sample_reads"
proof -
  obtain ob c m' selected drops' where
    routed: "routeConnection sample_router 0 [sniff_rule, proxy_rule] (\<lambda>_. []) sample_reads sample_connection =
      (StreamRouted ob c m' selected, drops')"
    using sample_routed
    by (cases "routeConnection sample_router 0 [sniff_rule, proxy_rule] (\<lambda>_. []) sample_reads sample_connection")
      (auto split: stream_outcome.splits)
  moreover have "sniff_rules [sniff_rule, proxy_rule] \<le> 1"
    by (simp add: sniff_rules_def sniff_rule_def proxy_rule_def)
  ultimately show ?thesis using sniffed_stream_unchanged [OF conn_stream_laws] by blast
qed

text \<open>
  With two sniff actions the data that the first one has read is delivered after that of the second one: the
  client sends 83, 83, 72, 45, 50.
\<close>

theorem sniffed_twice_reordered:
  "case fst (routeConnection sample_router 0 [sniff_rule, sniff_rule, proxy_rule] (\<lambda>_. []) sample_reads sample_connection) of
     StreamRouted ob c m' selected \<Rightarrow> conn_stream c = [45, 50, 83, 83, 72] | _ \<Rightarrow> False"
  by code_simp

definition sample_fakeip_store :: "MemoryStorage Store" where
  "sample_fakeip_store = snd (Store_Create memory_methods ''a.example'' False sample_store)"

definition sample_fakeip_router :: router_env where
  "sample_fakeip_router = sample_router\<lparr>q_FakeIP :=
     Some (Store_Contains sample_fakeip_store, Store_Lookup memory_methods sample_fakeip_store)\<rparr>"

lemma sample_fakeip_routed:
  "case fst (routePacketConnection sample_fakeip_router 0 [proxy_rule] (\<lambda>_. []) [] sample_connection) of
     PacketsRouted ob c m' selected \<Rightarrow> True | _ \<Rightarrow> False"
  by code_simp

theorem fakeip_packets_translated_witness:
  "\<exists>ob c m' selected drops'.
     routePacketConnection sample_fakeip_router 0 [proxy_rule] (\<lambda>_. []) [] sample_connection =
       (PacketsRouted ob c m' selected, drops') \<and>
     (\<exists>c'. c = FakeIPNATPacketConn c' (m_Destination sample_connection) (m_Destination m'))"
proof -
  obtain ob c m' selected drops' where
    routed: "routePacketConnection sample_fakeip_router 0 [proxy_rule] (\<lambda>_. []) [] sample_connection =
      (PacketsRouted ob c m' selected, drops')"
    using sample_fakeip_routed
    by (cases "routePacketConnection sample_fakeip_router 0 [proxy_rule] (\<lambda>_. []) [] sample_connection")
      (auto split: packet_outcome.splits)
  obtain s' where "Store_Create memory_methods ''a.example'' False sample_store = (Inr (Addr4 0xC6120002), s')"
    using sample_created by blast
  then have created: "Store_Create memory_methods ''a.example'' False sample_store = (Inr (Addr4 0xC6120002), sample_fakeip_store)"
    by (simp add: sample_fakeip_store_def)
  have quic: "quic_law (q_sniff sample_fakeip_router)"
    by (simp add: quic_law_def sample_fakeip_router_def sample_router_def sample_sniff_lib_def)
  have fakeip: "q_FakeIP sample_fakeip_router =
      Some (Store_Contains sample_fakeip_store, Store_Lookup memory_methods sample_fakeip_store)"
    by (simp add: sample_fakeip_router_def)
  have dest: "sa_Addr (m_Destination sample_connection) = Addr4 0xC6120002" by (simp add: sample_connection_def)
  have "''a.example'' \<noteq> []" by simp
  then have "\<exists>c'. c = FakeIPNATPacketConn c' (m_Destination sample_connection) (m_Destination m')"
    using fakeip_packets_translated [OF sample_reachable sample_ranges created _ fakeip quic dest routed] by simp
  then show ?thesis using routed by metis
qed

text \<open>
  Packets that wait for the rest of a QUIC client hello: a second sniff action stores them once more, and the
  first packet of the client is delivered twice.
\<close>

definition quic_router :: router_env where
  "quic_router = sample_router\<lparr>q_sniff := sample_sniff_lib\<lparr>sl_QUICClientHello := (\<lambda>m _. (Some ErrNeedMoreData, m))\<rparr>\<rparr>"

definition quic_rule :: "unit RuleAction option Rule" where
  "quic_rule = DefaultRule empty_rule (Some (ActionSniff
     \<lparr>sn_SnifferNames = [''quic''], sn_StreamSniffers = [], sn_PacketSniffers = [QUICClientHello], sn_Timeout = 0,
      sn_OverrideDestination = False\<rparr>))"

theorem sniffed_packets_duplicated:
  "map fst (ms_packetBuffers (snd (matchRule quic_router PacketFlow [quic_rule, quic_rule]
     (start_state sample_connection [] [Packet [1] Socksaddr_zero, PacketTimeout, Packet [2] Socksaddr_zero])))) =
   [[1], [1], [2]]"
  by code_simp

end
