(* ===== verification/Connection_Manager.thy ===== *)
theory Connection_Manager
  imports Router
begin

text \<open>
  The connection manager (route/conn.go): dialing the destination of a routed connection, wrapping the
  connection to it, the first write of a handshake, and the two goroutines that copy the two directions.

  The goroutines are a step relation, one step for each effect on the state they share: the flag \<open>done\<close>,
  the two connections and the calls of \<^verbatim>\<open>onClose\<close>. What dialing, writing and copying return is arbitrary.
\<close>

subsection \<open>Setting up a stream\<close>

datatype dial_call = DialSerialNetwork Socksaddr "addr list" | DialContext Socksaddr

text \<open>A connection to the destination, with the wrappers of \<^verbatim>\<open>tf.NewConn\<close> and \<^verbatim>\<open>tlsspoof.NewConn\<close>.\<close>

datatype remote_conn =
    RemoteConn dial_call
  | FragmentConn remote_conn bool bool int
  | SpoofConn remote_conn int string

definition dial_choice :: "router_env \<Rightarrow> InboundContext \<Rightarrow> dial_call" where
  "dial_choice R m =
     (if m_DestinationAddresses m \<noteq> [] \<or> x_IsIP (q_env R) (m_Destination m)
      then DialSerialNetwork (m_Destination m) (m_DestinationAddresses m)
      else DialContext (m_Destination m))"

text \<open>
  The error of a write, and whether it is one that the handshake ignores: an invalid argument, an exceeded
  deadline, the end of the stream or a timeout.
\<close>

datatype write_error = WriteError string bool

text \<open>
  \<^verbatim>\<open>kickWriteHandshake\<close>: \<open>need\<close> is \<^verbatim>\<open>N.NeedHandshakeForWrite\<close> of the destination, \<open>cached\<close> the payload that
  the source holds, \<open>write\<close> what writing returns. The result: whether the connection is given up, the flag
  and the calls of \<^verbatim>\<open>onClose\<close>. Giving up closes the source and the destination as well, always both, so that
  the first component stands for the two calls of \<^verbatim>\<open>Close\<close> too; deadlines and counters are not modelled.
\<close>

definition kickWriteHandshake ::
  "bool \<Rightarrow> bool \<Rightarrow> bytes option \<Rightarrow> (bytes \<Rightarrow> write_error option) \<Rightarrow> bool \<Rightarrow> bool \<times> bool \<times> string list"
where
  "kickWriteHandshake need serverFirst cached write done_flag =
     (if \<not> need then (False, done_flag, [])
      else
        (let wrotePayload = (\<not> serverFirst \<and> cached \<noteq> None);
             payload = (if serverFirst then [] else (case cached of Some b \<Rightarrow> b | None \<Rightarrow> []))
         in case write payload of
              None \<Rightarrow> (False, done_flag, [])
            | Some (WriteError e ignorable) \<Rightarrow>
                if \<not> wrotePayload \<and> ignorable then (False, done_flag, [])
                else (True, True, if done_flag then [] else [e])))"

text \<open>
  What the calls of \<^verbatim>\<open>NewConnection\<close> return: dialing, reporting the handshake to the client, setting up the
  spoofed client hello, and for both directions (upload first) the need for a handshake write, the cached
  payload and the write.
\<close>

record setup_env =
  su_Dial :: "dial_call \<Rightarrow> string option"
  su_ReportHandshake :: "string option"
  su_Spoof :: "remote_conn \<Rightarrow> int \<Rightarrow> string \<Rightarrow> string option"
  su_Kick :: "bool \<Rightarrow> bool \<times> bytes option \<times> (bytes \<Rightarrow> write_error option)"

text \<open>
  The outcome: the handshake with the client failed (\<^verbatim>\<open>N.CloseOnHandshakeFailure\<close> closes the connection and
  calls \<^verbatim>\<open>onClose\<close>), a handshake write failed (with the calls of \<^verbatim>\<open>onClose\<close>), or the copying begins.
\<close>

datatype setup_outcome = HandshakeFailure string | KickFailure "string list" | StartCopy remote_conn bool

definition wrap_remote :: "InboundContext \<Rightarrow> remote_conn \<Rightarrow> remote_conn" where
  "wrap_remote m c =
     (if m_TLSFragment m \<or> m_TLSRecordFragment m
      then FragmentConn c (m_TLSFragment m) (m_TLSRecordFragment m) (m_TLSFragmentFallbackDelay m) else c)"

definition spoof_remote :: "setup_env \<Rightarrow> InboundContext \<Rightarrow> remote_conn \<Rightarrow> (string, remote_conn) res" where
  "spoof_remote U m c =
     (if m_TLSSpoof m \<noteq> [] then
        (case su_Spoof U c (m_TLSSpoofMethod m) (m_TLSSpoof m) of
           Some e \<Rightarrow> Inl e | None \<Rightarrow> Inr (SpoofConn c (m_TLSSpoofMethod m) (m_TLSSpoof m)))
      else Inr c)"

definition kick :: "setup_env \<Rightarrow> InboundContext \<Rightarrow> bool \<Rightarrow> bool \<Rightarrow> bool \<times> bool \<times> string list" where
  "kick U m direction done_flag =
     (case su_Kick U direction of
        (need, cached, write) \<Rightarrow> kickWriteHandshake need (sniff_Skip m) cached write done_flag)"

definition NewConnection :: "router_env \<Rightarrow> setup_env \<Rightarrow> InboundContext \<Rightarrow> setup_outcome" where
  "NewConnection R U m =
     (let call = dial_choice R m in
      case su_Dial U call of
        Some e \<Rightarrow> HandshakeFailure e
      | None \<Rightarrow>
          (case su_ReportHandshake U of
             Some e \<Rightarrow> HandshakeFailure e
           | None \<Rightarrow>
               (case spoof_remote U m (wrap_remote m (RemoteConn call)) of
                  Inl e \<Rightarrow> HandshakeFailure e
                | Inr remote \<Rightarrow>
                    (case kick U m False False of
                       (True, done1, calls1) \<Rightarrow> KickFailure calls1
                     | (False, done1, calls1) \<Rightarrow>
                         (case kick U m True done1 of
                            (True, done2, calls2) \<Rightarrow> KickFailure (calls1 @ calls2)
                          | (False, done2, calls2) \<Rightarrow> StartCopy remote done2)))))"

subsection \<open>Copying both directions of a stream\<close>

text \<open>
  A direction is \<open>False\<close> for the upload, from the client's connection (\<open>False\<close>) to the remote one (\<open>True\<close>),
  and \<open>True\<close> for the download. \<open>duplex\<close> tells which connection can be closed for writing alone.
\<close>

datatype copy_pc = Copying | CopyEnded "string option" | Swapped bool "string option" | Exited

record copy_state =
  cs_done :: bool
  cs_pc :: "bool \<Rightarrow> copy_pc"
  cs_closed :: "bool \<Rightarrow> bool"
  cs_closeWrite :: "bool \<Rightarrow> bool"
  cs_onClose :: "string option list"

definition copy_start :: "bool \<Rightarrow> copy_state" where
  "copy_start done_flag =
     \<lparr>cs_done = done_flag, cs_pc = (\<lambda>_. Copying), cs_closed = (\<lambda>_. False), cs_closeWrite = (\<lambda>_. False), cs_onClose = []\<rparr>"

abbreviation at :: "bool \<Rightarrow> copy_pc \<Rightarrow> copy_state \<Rightarrow> copy_state" where
  "at d pc s \<equiv> s\<lparr>cs_pc := (cs_pc s)(d := pc)\<rparr>"

abbreviation close_both :: "copy_state \<Rightarrow> copy_state" where
  "close_both s \<equiv> s\<lparr>cs_closed := (\<lambda>_. True)\<rparr>"

text \<open>\<^verbatim>\<open>connectionCopy\<close>.\<close>

inductive copy_step :: "(bool \<Rightarrow> bool) \<Rightarrow> copy_state \<Rightarrow> copy_state \<Rightarrow> bool" for duplex where
  copy_error: "cs_pc s d = Copying \<Longrightarrow> copy_step duplex s (at d (CopyEnded (Some e)) (close_both s))"
| close_write: "cs_pc s d = Copying \<Longrightarrow> duplex (\<not> d) \<Longrightarrow>
    copy_step duplex s (at d (CopyEnded None) (s\<lparr>cs_closeWrite := (cs_closeWrite s)(\<not> d := True)\<rparr>))"
| close_write_error: "cs_pc s d = Copying \<Longrightarrow> duplex (\<not> d) \<Longrightarrow>
    copy_step duplex s (at d (CopyEnded (Some e)) (close_both s))"
| close_destination: "cs_pc s d = Copying \<Longrightarrow> \<not> duplex (\<not> d) \<Longrightarrow>
    copy_step duplex s (at d (CopyEnded None) (s\<lparr>cs_closed := (cs_closed s)(\<not> d := True)\<rparr>))"
| swap: "cs_pc s d = CopyEnded e \<Longrightarrow> copy_step duplex s (at d (Swapped (cs_done s) e) (s\<lparr>cs_done := True\<rparr>))"
| second: "cs_pc s d = Swapped True e \<Longrightarrow>
    copy_step duplex s (at d Exited (close_both (s\<lparr>cs_onClose := cs_onClose s @ [e]\<rparr>)))"
| first: "cs_pc s d = Swapped False e \<Longrightarrow> copy_step duplex s (at d Exited s)"

text \<open>\<^verbatim>\<open>packetConnectionCopy\<close>: the first direction that ends calls \<^verbatim>\<open>onClose\<close>, each closes both connections.\<close>

inductive packet_copy_step :: "copy_state \<Rightarrow> copy_state \<Rightarrow> bool" where
  packet_end: "cs_pc s d = Copying \<Longrightarrow> packet_copy_step s (at d (CopyEnded e) s)"
| packet_swap: "cs_pc s d = CopyEnded e \<Longrightarrow>
    packet_copy_step s (at d (Swapped (cs_done s) e) (s\<lparr>cs_done := True\<rparr>))"
| packet_first: "cs_pc s d = Swapped False e \<Longrightarrow>
    packet_copy_step s (at d Exited (close_both (s\<lparr>cs_onClose := cs_onClose s @ [e]\<rparr>)))"
| packet_second: "cs_pc s d = Swapped True e \<Longrightarrow> packet_copy_step s (at d Exited (close_both s))"

inductive_cases copy_stepE: "copy_step duplex s s'"
inductive_cases packet_copy_stepE: "packet_copy_step s s'"

subsection \<open>Packet connections\<close>

datatype packet_dial =
    PacketDialSerialNetwork Socksaddr "addr list"
  | PacketDialSerial Socksaddr "addr list"
  | PacketDialContext Socksaddr
  | ListenSerialNetworkPacket Socksaddr "addr list"
  | ListenPacketWithDestination Socksaddr
  | ListenPacket Socksaddr

text \<open>Whether the outbound is a parallel dialer, and whether it can listen with a destination.\<close>

definition packet_dial_choice :: "router_env \<Rightarrow> bool \<Rightarrow> bool \<Rightarrow> InboundContext \<Rightarrow> packet_dial" where
  "packet_dial_choice R isParallelDialer withDestination m =
     (let destination = m_Destination m; addresses = m_DestinationAddresses m in
      if m_UDPConnect m then
        (if addresses \<noteq> [] then
           (if isParallelDialer then PacketDialSerialNetwork destination addresses else PacketDialSerial destination addresses)
         else if x_IsIP (q_env R) destination then
           (if isParallelDialer then PacketDialSerialNetwork destination addresses else PacketDialContext destination)
         else PacketDialContext destination)
      else if addresses \<noteq> [] then ListenSerialNetworkPacket destination addresses
      else if withDestination then ListenPacketWithDestination destination
      else ListenPacket destination)"

text \<open>With a connected socket, the address it is connected to if it is not the destination.\<close>

definition connected_address :: "addr \<Rightarrow> InboundContext \<Rightarrow> addr" where
  "connected_address connRemoteAddr m =
     (if connRemoteAddr \<noteq> sa_Addr (m_Destination m) then connRemoteAddr else AddrZero)"

text \<open>The translation of addresses between the client and the remote connection.\<close>

datatype packet_nat =
    NoNAT
  | UpdateDestination addr
  | UnidirectionalNAT Socksaddr Socksaddr
  | BidirectionalNAT Socksaddr Socksaddr
  | DestinationNAT Socksaddr Socksaddr

definition route_original_nat :: "router_env \<Rightarrow> InboundContext \<Rightarrow> packet_nat" where
  "route_original_nat R m =
     (if x_sa_IsValid (q_env R) (m_RouteOriginalDestination m) \<and> m_RouteOriginalDestination m \<noteq> m_Destination m
      then DestinationNAT (m_Destination m) (m_RouteOriginalDestination m) else NoNAT)"

definition packet_nat_choice ::
  "router_env \<Rightarrow> (addr \<Rightarrow> 16 word \<Rightarrow> Socksaddr) \<Rightarrow> bool \<Rightarrow> addr \<Rightarrow> InboundContext \<Rightarrow> packet_nat"
where
  "packet_nat_choice R socksaddrFrom isNATConn destinationAddress m =
     (if addr_IsValid destinationAddress then
        (let originDestination = (if x_sa_IsValid (q_env R) (m_RouteOriginalDestination m)
                                  then m_RouteOriginalDestination m else m_Destination m);
             destination = socksaddrFrom destinationAddress (sa_Port (m_Destination m))
         in if isNATConn then UpdateDestination destinationAddress
            else if m_Destination m \<noteq> destination then
              (if m_UDPDisableDomainUnmapping m then UnidirectionalNAT destination originDestination
               else BidirectionalNAT destination originDestination)
            else route_original_nat R m)
      else route_original_nat R m)"

text \<open>The idle timeout of the connection; zero is none.\<close>

definition packet_timeout :: "InboundContext \<Rightarrow> int" where
  "packet_timeout m =
     (if m_UDPTimeout m > 0 then m_UDPTimeout m
      else (let protocol = (if m_Protocol m = [] then PortProtocols (sa_Port (m_Destination m)) else m_Protocol m)
            in if protocol \<noteq> [] then ProtocolTimeouts protocol else 0))"

end
