(* ===== verification/Connection_Properties.thy ===== *)
theory Connection_Properties
  imports Connection_Manager Router_Properties
begin

text \<open>
  Properties of the connection manager: whatever the two goroutines of a connection do in whatever order,
  \<^verbatim>\<open>onClose\<close> is called exactly once and both connections end up closed.
\<close>

subsection \<open>The end of a direction\<close>

text \<open>Before the swap of the flag, and after a swap that found it unset.\<close>

definition running :: "copy_pc \<Rightarrow> bool" where
  "running pc \<longleftrightarrow> pc = Copying \<or> (\<exists>e. pc = CopyEnded e)"

definition first_out :: "copy_pc \<Rightarrow> bool" where
  "first_out pc \<longleftrightarrow> (\<exists>e. pc = Swapped False e)"

definition second_out :: "copy_pc \<Rightarrow> bool" where
  "second_out pc \<longleftrightarrow> (\<exists>e. pc = Swapped True e)"

lemma pc_cases: "running pc \<or> first_out pc \<or> second_out pc \<or> pc = Exited"
  by (cases pc) (auto simp: running_def first_out_def second_out_def)

lemma pc_simps [simp]:
  "running Copying" "running (CopyEnded e)" "\<not> running (Swapped b e)" "\<not> running Exited"
  "first_out (Swapped b e) \<longleftrightarrow> \<not> b" "\<not> first_out Copying" "\<not> first_out (CopyEnded e)" "\<not> first_out Exited"
  "second_out (Swapped b e) \<longleftrightarrow> b" "\<not> second_out Copying" "\<not> second_out (CopyEnded e)" "\<not> second_out Exited"
  by (auto simp: running_def first_out_def second_out_def)

text \<open>The steps left to a direction.\<close>

fun steps_left :: "copy_pc \<Rightarrow> nat" where
  "steps_left Copying = 3"
| "steps_left (CopyEnded e) = 2"
| "steps_left (Swapped b e) = 1"
| "steps_left Exited = 0"

definition copy_measure :: "copy_state \<Rightarrow> nat" where
  "copy_measure s = steps_left (cs_pc s False) + steps_left (cs_pc s True)"

lemma copy_step_measure: "copy_step duplex s s' \<Longrightarrow> copy_measure s = Suc (copy_measure s')"
  by (induction rule: copy_step.induct) (auto simp: copy_measure_def)

lemma packet_copy_step_measure: "packet_copy_step s s' \<Longrightarrow> copy_measure s = Suc (copy_measure s')"
  by (induction rule: packet_copy_step.induct) (auto simp: copy_measure_def)

lemma relpowp_measure:
  assumes "\<And>s s'. r s s' \<Longrightarrow> copy_measure s = Suc (copy_measure s')"
  shows "(r ^^ n) s s' \<Longrightarrow> copy_measure s = n + copy_measure s'"
proof (induction n arbitrary: s')
  case (Suc n)
  then obtain t where "(r ^^ n) s t" "r t s'" by auto
  then show ?case using Suc.IH [of t] assms [of t s'] by simp
qed simp

lemma copy_step_progress: "cs_pc s d \<noteq> Exited \<Longrightarrow> \<exists>s'. copy_step duplex s s'"
proof (cases "cs_pc s d")
  case Copying then show ?thesis using copy_error [of s d duplex] by blast
next
  case (CopyEnded e) then show ?thesis using swap [of s d e duplex] by blast
next
  case (Swapped b e)
  then show ?thesis using second [of s d e duplex] first [of s d e duplex] by (cases b) auto
qed simp

lemma packet_copy_step_progress: "cs_pc s d \<noteq> Exited \<Longrightarrow> \<exists>s'. packet_copy_step s s'"
proof (cases "cs_pc s d")
  case Copying then show ?thesis using packet_end [of s d] by blast
next
  case (CopyEnded e) then show ?thesis using packet_swap [of s d e] by blast
next
  case (Swapped b e)
  then show ?thesis using packet_first [of s d e] packet_second [of s d e] by (cases b) auto
qed simp

subsection \<open>Streams\<close>

text \<open>The calls that were made, by the state of the direction \<open>d\<close> and of the other one.\<close>

definition stream_phase :: "copy_state \<Rightarrow> bool \<Rightarrow> bool" where
  "stream_phase s d \<longleftrightarrow>
     (let a = cs_pc s d; b = cs_pc s (\<not> d) in
      (running a \<and> running b \<and> \<not> cs_done s \<and> cs_onClose s = []) \<or>
      (running a \<and> (first_out b \<or> b = Exited) \<and> cs_done s \<and> cs_onClose s = []) \<or>
      (second_out a \<and> (first_out b \<or> b = Exited) \<and> cs_done s \<and> cs_onClose s = []) \<or>
      (a = Exited \<and> (first_out b \<or> b = Exited) \<and> cs_done s \<and> length (cs_onClose s) = 1 \<and> (\<forall>x. cs_closed s x)))"

definition stream_ok :: "copy_state \<Rightarrow> bool" where
  "stream_ok s \<longleftrightarrow> stream_phase s False \<or> stream_phase s True"

lemma stream_okI: "stream_phase s d \<Longrightarrow> stream_ok s"
  by (cases d) (auto simp: stream_ok_def)

lemma stream_ok_start: "stream_ok (copy_start False)"
  by (simp add: stream_ok_def stream_phase_def copy_start_def)

lemma stream_phase_step:
  assumes "copy_step duplex s s'" "stream_phase s d"
  shows "stream_ok s'"
  using assms(1)
proof (cases rule: copy_step.cases)
  case (copy_error x e)
  then show ?thesis using assms(2) by (intro stream_okI [of _ d]; cases "x = d") (auto simp: stream_phase_def Let_def)
next
  case (close_write x)
  then show ?thesis using assms(2) by (intro stream_okI [of _ d]; cases "x = d") (auto simp: stream_phase_def Let_def)
next
  case (close_write_error x e)
  then show ?thesis using assms(2) by (intro stream_okI [of _ d]; cases "x = d") (auto simp: stream_phase_def Let_def)
next
  case (close_destination x)
  then show ?thesis using assms(2) by (intro stream_okI [of _ d]; cases "x = d") (auto simp: stream_phase_def Let_def)
next
  case (swap x e)
  show ?thesis
  proof (cases "cs_done s")
    case True
    then show ?thesis using swap assms(2) by (intro stream_okI [of _ d]; cases "x = d") (auto simp: stream_phase_def Let_def)
  next
    case False
    then show ?thesis using swap assms(2) by (intro stream_okI [of _ "\<not> x"]; cases "x = d") (auto simp: stream_phase_def Let_def)
  qed
next
  case (second x e)
  then show ?thesis using assms(2) by (intro stream_okI [of _ d]; cases "x = d") (auto simp: stream_phase_def Let_def)
next
  case (first x e)
  then show ?thesis using assms(2) by (intro stream_okI [of _ d]; cases "x = d") (auto simp: stream_phase_def Let_def)
qed

lemma stream_ok_reachable: "(copy_step duplex)\<^sup>*\<^sup>* (copy_start False) s \<Longrightarrow> stream_ok s"
proof (induction rule: rtranclp_induct)
  case base show ?case by (rule stream_ok_start)
next
  case (step s s') then show ?case using stream_phase_step unfolding stream_ok_def by blast
qed

lemma stream_exited:
  assumes "(copy_step duplex)\<^sup>*\<^sup>* (copy_start False) s" "\<nexists>s'. copy_step duplex s s'"
  shows "length (cs_onClose s) = 1" "cs_closed s x"
proof -
  have "cs_pc s False = Exited" "cs_pc s True = Exited" using copy_step_progress assms(2) by metis+
  then have "length (cs_onClose s) = 1 \<and> (\<forall>x. cs_closed s x)"
    using stream_ok_reachable [OF assms(1)] by (simp add: stream_ok_def stream_phase_def)
  then show "length (cs_onClose s) = 1" "cs_closed s x" by simp_all
qed

lemma stream_called:
  assumes "(copy_step duplex)\<^sup>*\<^sup>* (copy_start False) s" "cs_onClose s \<noteq> []"
  shows "length (cs_onClose s) = 1" "\<not> running (cs_pc s d)"
proof -
  have "length (cs_onClose s) = 1 \<and> \<not> running (cs_pc s x) \<and> \<not> running (cs_pc s (\<not> x))" if "stream_phase s x" for x
    using that assms(2) by (cases "cs_pc s (\<not> x)") (auto simp: stream_phase_def)
  then show "length (cs_onClose s) = 1" "\<not> running (cs_pc s d)"
    using stream_ok_reachable [OF assms(1)] by (cases d; fastforce simp: stream_ok_def)+
qed

subsection \<open>Packets\<close>

definition packet_phase :: "copy_state \<Rightarrow> bool \<Rightarrow> bool" where
  "packet_phase s d \<longleftrightarrow>
     (let a = cs_pc s d; b = cs_pc s (\<not> d); called = (length (cs_onClose s) = 1 \<and> (\<forall>x. cs_closed s x)) in
      (running a \<and> running b \<and> \<not> cs_done s \<and> cs_onClose s = []) \<or>
      (cs_done s \<and> first_out b \<and> (running a \<or> second_out a \<or> a = Exited) \<and> cs_onClose s = []) \<or>
      (cs_done s \<and> b = Exited \<and> (running a \<or> second_out a \<or> a = Exited) \<and> called))"

definition packet_ok :: "copy_state \<Rightarrow> bool" where
  "packet_ok s \<longleftrightarrow> packet_phase s False \<or> packet_phase s True"

lemma packet_okI: "packet_phase s d \<Longrightarrow> packet_ok s"
  by (cases d) (auto simp: packet_ok_def)

lemma packet_ok_start: "packet_ok (copy_start False)"
  by (simp add: packet_ok_def packet_phase_def copy_start_def)

lemma packet_phase_step:
  assumes "packet_copy_step s s'" "packet_phase s d"
  shows "packet_ok s'"
  using assms(1)
proof (cases rule: packet_copy_step.cases)
  case (packet_end x e)
  then show ?thesis using assms(2) by (intro packet_okI [of _ d]; cases "x = d") (auto simp: packet_phase_def Let_def)
next
  case (packet_swap x e)
  show ?thesis
  proof (cases "cs_done s")
    case True
    then show ?thesis using packet_swap assms(2)
      by (intro packet_okI [of _ d]; cases "x = d") (auto simp: packet_phase_def Let_def)
  next
    case False
    then show ?thesis using packet_swap assms(2)
      by (intro packet_okI [of _ "\<not> x"]; cases "x = d") (auto simp: packet_phase_def Let_def)
  qed
next
  case (packet_first x e)
  then show ?thesis using assms(2) by (intro packet_okI [of _ d]; cases "x = d") (auto simp: packet_phase_def Let_def)
next
  case (packet_second x e)
  then show ?thesis using assms(2) by (intro packet_okI [of _ d]; cases "x = d") (auto simp: packet_phase_def Let_def)
qed

lemma packet_ok_reachable: "packet_copy_step\<^sup>*\<^sup>* (copy_start False) s \<Longrightarrow> packet_ok s"
proof (induction rule: rtranclp_induct)
  case base show ?case by (rule packet_ok_start)
next
  case (step s s') then show ?case using packet_phase_step unfolding packet_ok_def by blast
qed

lemma packet_exited:
  assumes "packet_copy_step\<^sup>*\<^sup>* (copy_start False) s" "\<nexists>s'. packet_copy_step s s'"
  shows "length (cs_onClose s) = 1" "cs_closed s x"
proof -
  have "cs_pc s False = Exited" "cs_pc s True = Exited" using packet_copy_step_progress assms(2) by metis+
  then have "length (cs_onClose s) = 1 \<and> (\<forall>x. cs_closed s x)"
    using packet_ok_reachable [OF assms(1)] by (simp add: packet_ok_def packet_phase_def)
  then show "length (cs_onClose s) = 1" "cs_closed s x" by simp_all
qed

subsection \<open>Setting up\<close>

lemma kick_False: "kick U m direction False = (stop, done1, calls) \<Longrightarrow> length calls = (if stop then 1 else 0) \<and> done1 = stop"
  by (cases "su_Kick U direction")
    (auto simp: kick_def kickWriteHandshake_def Let_def split: if_splits option.splits write_error.splits)

lemma NewConnection_outcome:
  "case NewConnection R U m of
     HandshakeFailure e \<Rightarrow> True | KickFailure calls \<Rightarrow> length calls = 1 | StartCopy remote done1 \<Rightarrow> \<not> done1"
proof -
  obtain stop1 done1 calls1 where k1: "kick U m False False = (stop1, done1, calls1)" by (metis prod_cases3)
  obtain stop2 done2 calls2 where k2: "kick U m True False = (stop2, done2, calls2)" by (metis prod_cases3)
  show ?thesis using kick_False [OF k1] kick_False [OF k2]
    by (auto simp: NewConnection_def Let_def k1 k2 split: option.split sum.split bool.split)
qed

text \<open>
  (C13) Handling a routed stream calls \<^verbatim>\<open>onClose\<close> exactly once. A failure to open the connection is left to
  \<^verbatim>\<open>CloseOnHandshakeFailure\<close>, and when the handshake with the first write fails, \<^verbatim>\<open>onClose\<close> is called once. Else
  both directions are copied, and in every interleaving of the two goroutines at most six steps are taken,
  \<^verbatim>\<open>onClose\<close> is not called before both directions have ended, and when no step is left it was called exactly
  once and both connections are closed.
\<close>

theorem stream_on_close_once:
  "case NewConnection R U m of
     HandshakeFailure e \<Rightarrow> True
   | KickFailure calls \<Rightarrow> length calls = 1
   | StartCopy remote done1 \<Rightarrow>
       (\<forall>n s. (copy_step duplex ^^ n) (copy_start done1) s \<longrightarrow>
          n \<le> 6 \<and> (cs_onClose s \<noteq> [] \<longrightarrow> \<not> running (cs_pc s False) \<and> \<not> running (cs_pc s True)) \<and>
          ((\<nexists>s'. copy_step duplex s s') \<longrightarrow> length (cs_onClose s) = 1 \<and> cs_closed s False \<and> cs_closed s True))"
proof (cases "NewConnection R U m")
  case (StartCopy remote done1)
  then have d: "done1 = False" using NewConnection_outcome [of R U m] by simp
  have "n \<le> 6 \<and> (cs_onClose s \<noteq> [] \<longrightarrow> \<not> running (cs_pc s False) \<and> \<not> running (cs_pc s True)) \<and>
        ((\<nexists>s'. copy_step duplex s s') \<longrightarrow> length (cs_onClose s) = 1 \<and> cs_closed s False \<and> cs_closed s True)"
    if run: "(copy_step duplex ^^ n) (copy_start False) s" for n s
  proof -
    have reach: "(copy_step duplex)\<^sup>*\<^sup>* (copy_start False) s" using run by (rule relpowp_imp_rtranclp)
    have "copy_measure (copy_start False) = n + copy_measure s"
      using relpowp_measure [of "copy_step duplex", OF copy_step_measure run] .
    then have "n \<le> 6" by (simp add: copy_measure_def copy_start_def)
    then show ?thesis using stream_called [OF reach] stream_exited [OF reach] by blast
  qed
  then show ?thesis using StartCopy d by simp
qed (use NewConnection_outcome [of R U m] in simp_all)

text \<open>
  For a packet connection, in every interleaving of the two goroutines at most six steps are taken, and
  when no step is left \<^verbatim>\<open>onClose\<close> was called exactly once and both connections are closed.
\<close>

theorem packet_on_close_once:
  assumes "(packet_copy_step ^^ n) (copy_start False) s"
  shows "n \<le> 6 \<and> length (cs_onClose s) \<le> 1 \<and>
         ((\<nexists>s'. packet_copy_step s s') \<longrightarrow> length (cs_onClose s) = 1 \<and> cs_closed s False \<and> cs_closed s True)"
proof -
  have reach: "packet_copy_step\<^sup>*\<^sup>* (copy_start False) s" using assms by (rule relpowp_imp_rtranclp)
  have "copy_measure (copy_start False) = n + copy_measure s"
    using relpowp_measure [of packet_copy_step, OF packet_copy_step_measure assms] .
  then have "n \<le> 6" by (simp add: copy_measure_def copy_start_def)
  moreover have "length (cs_onClose s) \<le> 1"
    using packet_ok_reachable [OF reach] by (auto simp: packet_ok_def packet_phase_def Let_def)
  ultimately show ?thesis using packet_exited [OF reach] by blast
qed

subsection \<open>Witnesses\<close>

text \<open>Every run can be continued to its end.\<close>

lemma run_to_end:
  assumes measure: "\<And>s s'. r s s' \<Longrightarrow> copy_measure s = Suc (copy_measure s')"
    and progress: "\<And>s d. cs_pc s d \<noteq> Exited \<Longrightarrow> \<exists>s'. r s s'"
  shows "copy_measure s = n \<Longrightarrow> \<exists>s'. (r ^^ n) s s' \<and> (\<nexists>s''. r s' s'')"
proof (induction n arbitrary: s)
  case 0
  then have "\<nexists>s''. r s s''" using measure by fastforce
  then show ?case by auto
next
  case (Suc n)
  have "\<exists>d. cs_pc s d \<noteq> Exited"
  proof (rule ccontr)
    assume "\<not> ?thesis"
    then have "cs_pc s False = Exited" "cs_pc s True = Exited" by auto
    then show False using Suc.prems by (simp add: copy_measure_def)
  qed
  then obtain t where t: "r s t" using progress by blast
  then have "copy_measure t = n" using measure [OF t] Suc.prems by simp
  from Suc.IH [OF this] obtain s' where "(r ^^ n) t s'" "\<nexists>s''. r s' s''" by blast
  then show ?case using relpowp_Suc_I2 [of r s t n s'] t by blast
qed

definition sample_setup :: setup_env where
  "sample_setup =
     \<lparr>su_Dial = (\<lambda>_. None), su_ReportHandshake = None, su_Spoof = (\<lambda>_ _ _. None), su_Kick = (\<lambda>_. (False, None, (\<lambda>_. None)))\<rparr>"

lemma sample_setup_copies: "\<exists>remote. NewConnection sample_router sample_setup sample_connection = StartCopy remote False"
  by (simp add: NewConnection_def sample_setup_def kick_def kickWriteHandshake_def spoof_remote_def sample_connection_def
      InboundContext_zero_def Let_def)

theorem stream_on_close_once_witness:
  "\<exists>remote s. NewConnection sample_router sample_setup sample_connection = StartCopy remote False \<and>
     (copy_step (\<lambda>_. True) ^^ 6) (copy_start False) s \<and>
     length (cs_onClose s) = 1 \<and> cs_closed s False \<and> cs_closed s True"
proof -
  obtain remote where remote: "NewConnection sample_router sample_setup sample_connection = StartCopy remote False"
    using sample_setup_copies ..
  have "copy_measure (copy_start False) = 6" by (simp add: copy_measure_def copy_start_def)
  then obtain s where "(copy_step (\<lambda>_. True) ^^ 6) (copy_start False) s" "\<nexists>s'. copy_step (\<lambda>_. True) s s'"
    using run_to_end [of "copy_step (\<lambda>_. True)"] copy_step_measure copy_step_progress by metis
  then show ?thesis
    using stream_on_close_once [where R = sample_router and U = sample_setup and m = sample_connection
        and duplex = "\<lambda>_. True"] remote by fastforce
qed

theorem packet_on_close_once_witness:
  "\<exists>s. (packet_copy_step ^^ 6) (copy_start False) s \<and> length (cs_onClose s) = 1 \<and> cs_closed s False \<and> cs_closed s True"
proof -
  have "copy_measure (copy_start False) = 6" by (simp add: copy_measure_def copy_start_def)
  then obtain s where s: "(packet_copy_step ^^ 6) (copy_start False) s" "\<nexists>s'. packet_copy_step s s'"
    using run_to_end [of packet_copy_step] packet_copy_step_measure packet_copy_step_progress by metis
  then show ?thesis using packet_on_close_once [OF s(1)] by blast
qed

end
