(* ===== verification/Adapter_Manager.thy ===== *)
theory Adapter_Manager
  imports Lifecycle "HOL-Library.AList"
begin

text \<open>
  The managers of inbounds, endpoints and services (adapter/inbound/manager.go, adapter/endpoint/manager.go,
  adapter/service/manager.go) and the part they share with the outbound manager: starting an adapter of the
  old or the new life cycle (adapter/lifecycle\_legacy.go), the list of adapters in the order of their
  creation and the map from tags to adapters.

  An adapter is its identity (the pointer that the code compares), type, tag, the tags of its
  dependencies, and what its life cycle methods return. The calls of these methods are recorded as a list
  of events. The map is an association list with distinct keys.
\<close>

subsection \<open>Adapters\<close>

text \<open>The methods an adapter has; for each the error it returns.\<close>

record starter =
  st_Lifecycle :: "(StartStage \<Rightarrow> string option) option"
  st_PreStart :: "string option option"
  st_Start :: "string option option"
  st_PostStart :: "string option option"

definition LegacyStart :: "starter \<Rightarrow> StartStage \<Rightarrow> string option" where
  "LegacyStart s stage =
     (case st_Lifecycle s of
        Some start \<Rightarrow> start stage
      | None \<Rightarrow>
          (case stage of
             StartStateInitialize \<Rightarrow> (case st_PreStart s of Some err \<Rightarrow> err | None \<Rightarrow> None)
           | StartStateStart \<Rightarrow> (case st_Start s of Some err \<Rightarrow> err | None \<Rightarrow> None)
           | StartStateStarted \<Rightarrow> (case st_PostStart s of Some err \<Rightarrow> err | None \<Rightarrow> None)
           | StartStatePostStart \<Rightarrow> None))"

record adapter =
  a_id :: nat
  a_Type :: string
  a_Tag :: string
  a_Dependencies :: "string list"
  a_starter :: starter
  a_Close :: "string option"

datatype event = Started nat StartStage | Closed nat

datatype manager_error =
    AlreadyStarted
  | StartFailed StartStage string string
  | CloseFailed string string
  | CreateFailed string
  | ErrInvalid
  | InvalidIndexPanic
  | DefaultOutboundNotFound string
  | FallbackFailed string
  | CircularDependency "string list" string
  | DependencyNotFound string string
  | NilOutboundPanic
  | DependedBy string "string list"

text \<open>Starting one adapter through all stages, and all adapters at one stage.\<close>

fun start_stages :: "adapter \<Rightarrow> StartStage list \<Rightarrow> manager_error option \<times> event list" where
  "start_stages a [] = (None, [])"
| "start_stages a (stage # stages) =
     (case LegacyStart (a_starter a) stage of
        Some err \<Rightarrow> (Some (StartFailed stage (a_Tag a) err), [Started (a_id a) stage])
      | None \<Rightarrow> (case start_stages a stages of (e, evs) \<Rightarrow> (e, Started (a_id a) stage # evs)))"

fun start_all :: "StartStage \<Rightarrow> adapter list \<Rightarrow> manager_error option \<times> event list" where
  "start_all stage [] = (None, [])"
| "start_all stage (a # as) =
     (case LegacyStart (a_starter a) stage of
        Some err \<Rightarrow> (Some (StartFailed stage (a_Tag a) err), [Started (a_id a) stage])
      | None \<Rightarrow> (case start_all stage as of (e, evs) \<Rightarrow> (e, Started (a_id a) stage # evs)))"

text \<open>\<^verbatim>\<open>append(xs[:index], xs[index+1:]...)\<close> for the adapter with this identity; \<open>None\<close> if there is none.\<close>

fun remove_adapter :: "nat \<Rightarrow> adapter list \<Rightarrow> adapter list option" where
  "remove_adapter i [] = None"
| "remove_adapter i (a # as) =
     (if a_id a = i then Some as else map_option (\<lambda>as'. a # as') (remove_adapter i as))"

subsection \<open>The manager\<close>

record manager =
  am_started :: bool
  am_stage :: StartStage
  am_list :: "adapter list"
  am_byTag :: "(string \<times> adapter) list"

definition NewManager :: manager where
  "NewManager = \<lparr>am_started = False, am_stage = StartStateInitialize, am_list = [], am_byTag = []\<rparr>"

definition Manager_Start :: "StartStage \<Rightarrow> manager \<Rightarrow> manager_error option \<times> manager \<times> event list" where
  "Manager_Start stage m =
     (if am_started m \<and> am_stage m \<ge> stage then (Some AlreadyStarted, m, [])
      else (case start_all stage (am_list m) of
              (e, evs) \<Rightarrow> (e, m\<lparr>am_started := True, am_stage := stage\<rparr>, evs)))"

text \<open>The endpoints are started by the outbound manager.\<close>

definition Endpoint_Start :: "StartStage \<Rightarrow> manager \<Rightarrow> manager_error option \<times> manager \<times> event list" where
  "Endpoint_Start stage m =
     (if am_started m \<and> am_stage m \<ge> stage then (Some AlreadyStarted, m, [])
      else if stage = StartStateStart then (None, m\<lparr>am_started := True, am_stage := stage\<rparr>, [])
      else (case start_all stage (am_list m) of
              (e, evs) \<Rightarrow> (e, m\<lparr>am_started := True, am_stage := stage\<rparr>, evs)))"

text \<open>The errors of the adapters are collected but not returned.\<close>

definition Manager_Close :: "manager \<Rightarrow> manager_error option \<times> manager \<times> event list" where
  "Manager_Close m =
     (if \<not> am_started m then (None, m, [])
      else (None, m\<lparr>am_started := False, am_list := []\<rparr>, map (Closed \<circ> a_id) (am_list m)))"

definition Manager_Get :: "manager \<Rightarrow> string \<Rightarrow> adapter option" where
  "Manager_Get m tag = map_of (am_byTag m) tag"

text \<open>An inbound may also be an endpoint.\<close>

definition Inbound_Get :: "manager \<Rightarrow> manager \<Rightarrow> string \<Rightarrow> adapter option" where
  "Inbound_Get endpoint m tag =
     (case Manager_Get m tag of Some a \<Rightarrow> Some a | None \<Rightarrow> Manager_Get endpoint tag)"

definition Manager_Remove :: "string \<Rightarrow> manager \<Rightarrow> manager_error option \<times> manager \<times> event list" where
  "Manager_Remove tag m =
     (case map_of (am_byTag m) tag of
        None \<Rightarrow> (Some ErrInvalid, m, [])
      | Some a \<Rightarrow>
          (let m1 = m\<lparr>am_byTag := AList.delete tag (am_byTag m)\<rparr> in
           case remove_adapter (a_id a) (am_list m) of
             None \<Rightarrow> (Some InvalidIndexPanic, m1, [])
           | Some as \<Rightarrow>
               if am_started m
               then (map_option (CloseFailed (a_Tag a)) (a_Close a), m1\<lparr>am_list := as\<rparr>, [Closed (a_id a)])
               else (None, m1\<lparr>am_list := as\<rparr>, [])))"

text \<open>\<^verbatim>\<open>Create\<close>; \<open>created\<close> is what the registry returns for the tag and the options.\<close>

definition Manager_Create :: "(string, adapter) res \<Rightarrow> string \<Rightarrow> manager \<Rightarrow> manager_error option \<times> manager \<times> event list" where
  "Manager_Create created tag m =
     (case created of
        Inl err \<Rightarrow> (Some (CreateFailed err), m, [])
      | Inr a \<Rightarrow>
          (case (if am_started m then start_stages a ListStartStages else (None, [])) of
             (Some e, evs) \<Rightarrow> (Some e, m, evs)
           | (None, evs) \<Rightarrow>
               (let added = (\<lambda>as. m\<lparr>am_list := as @ [a], am_byTag := AList.update tag a (am_byTag m)\<rparr>) in
                case map_of (am_byTag m) tag of
                  None \<Rightarrow> (None, added (am_list m), evs)
                | Some existing \<Rightarrow>
                    (let evs1 = evs @ (if am_started m then [Closed (a_id existing)] else []) in
                     case (if am_started m then a_Close existing else None) of
                       Some err \<Rightarrow> (Some (CloseFailed (a_Tag existing) err), m, evs1)
                     | None \<Rightarrow>
                         (case remove_adapter (a_id existing) (am_list m) of
                            None \<Rightarrow> (Some InvalidIndexPanic, m, evs1)
                          | Some as \<Rightarrow> (None, added as, evs1))))))"

subsection \<open>The list and the map agree\<close>

definition registry_ok :: "adapter list \<Rightarrow> (string \<times> adapter) list \<Rightarrow> bool" where
  "registry_ok as byTag \<longleftrightarrow>
     distinct (map fst byTag) \<and> distinct (map a_id as) \<and> set as = snd ` set byTag \<and>
     (\<forall>p \<in> set byTag. a_Tag (snd p) = fst p)"

lemma remove_adapter_Some:
  assumes "remove_adapter i as = Some as'"
  shows "\<exists>a xs ys. as = xs @ a # ys \<and> as' = xs @ ys \<and> a_id a = i"
  using assms
proof (induction as arbitrary: as')
  case (Cons a as)
  show ?case
  proof (cases "a_id a = i")
    case True
    then have "a # as = [] @ a # as \<and> as' = [] @ as \<and> a_id a = i" using Cons.prems by simp
    then show ?thesis by blast
  next
    case False
    then obtain as'' where 1: "remove_adapter i as = Some as''" and 2: "as' = a # as''" using Cons.prems by auto
    from Cons.IH [OF 1] obtain b xs ys where "as = xs @ b # ys" "as'' = xs @ ys" "a_id b = i" by blast
    then have "a # as = (a # xs) @ b # ys \<and> as' = (a # xs) @ ys \<and> a_id b = i" using 2 by simp
    then show ?thesis by blast
  qed
qed simp

lemma remove_adapter_None: "remove_adapter i as = None \<longleftrightarrow> i \<notin> a_id ` set as"
  by (induction as) auto

lemma remove_adapter_member:
  assumes "distinct (map a_id as)" "a \<in> set as"
  shows "\<exists>as'. remove_adapter (a_id a) as = Some as' \<and> distinct (map a_id as') \<and> set as' = set as - {a}"
proof -
  obtain as' where r: "remove_adapter (a_id a) as = Some as'"
    using assms(2) remove_adapter_None [of "a_id a" as] by fastforce
  obtain b xs ys where split: "as = xs @ b # ys" "as' = xs @ ys" "a_id b = a_id a"
    using remove_adapter_Some [OF r] by blast
  have "b = a" using assms split by (metis in_set_conv_decomp inj_onD distinct_map)
  then show ?thesis using assms(1) r split by auto
qed

lemma registry_ok_empty [simp]: "registry_ok [] []"
  by (simp add: registry_ok_def)

lemma registry_ok_lookup:
  assumes "registry_ok as byTag" "map_of byTag tag = Some a"
  shows "a \<in> set as" "a_Tag a = tag"
proof -
  have p: "(tag, a) \<in> set byTag" using map_of_SomeD [OF assms(2)] .
  show "a \<in> set as" using assms(1) imageI [OF p, of snd] by (simp add: registry_ok_def)
  show "a_Tag a = tag" using assms(1) p by (auto simp: registry_ok_def)
qed

lemma registry_ok_find:
  assumes "registry_ok as byTag" "a \<in> set as"
  shows "map_of byTag (a_Tag a) = Some a"
proof -
  obtain tag where p: "(tag, a) \<in> set byTag" using assms by (auto simp: registry_ok_def)
  have "a_Tag a = tag" using assms(1) p by (auto simp: registry_ok_def)
  then show ?thesis using assms(1) p by (simp add: registry_ok_def)
qed

text \<open>Tags are unique.\<close>

lemma registry_ok_distinct_tags:
  assumes "registry_ok as byTag"
  shows "distinct (map a_Tag as)"
proof -
  have "inj_on a_Tag (set as)"
    by (intro inj_onI) (metis assms registry_ok_find option.inject)
  moreover have "distinct as" using assms by (simp add: registry_ok_def distinct_map)
  ultimately show ?thesis by (simp add: distinct_map)
qed

lemma set_delete: "set (AList.delete k xs) = {p \<in> set xs. fst p \<noteq> k}"
  by (auto simp: AList.delete_eq)

lemma set_update_new: "map_of xs k = None \<Longrightarrow> set (AList.update k v xs) = insert (k, v) (set xs)"
  by (induction xs) (auto split: if_splits)

lemma set_update_old:
  "distinct (map fst xs) \<Longrightarrow> map_of xs k = Some v' \<Longrightarrow>
   set (AList.update k v xs) = insert (k, v) {p \<in> set xs. fst p \<noteq> k}"
  by (induction xs) (force split: if_splits)+

text \<open>Removing the adapter of a tag, and adding an adapter, keep the agreement.\<close>

lemma registry_ok_remove:
  assumes ok: "registry_ok as byTag" and a: "map_of byTag tag = Some a"
  shows "\<exists>as'. remove_adapter (a_id a) as = Some as' \<and> registry_ok as' (AList.delete tag byTag) \<and> set as' = set as - {a}"
proof -
  have mem: "a \<in> set as" using registry_ok_lookup [OF assms] by simp
  obtain as' where r: "remove_adapter (a_id a) as = Some as'" "distinct (map a_id as')" "set as' = set as - {a}"
    using remove_adapter_member [of as a] ok mem by (auto simp: registry_ok_def)
  have "snd ` {p \<in> set byTag. fst p \<noteq> tag} = set as - {a}"
  proof -
    have "fst p = tag \<longleftrightarrow> snd p = a" if "p \<in> set byTag" for p
      using that ok registry_ok_lookup [OF assms] a
      by (metis map_of_is_SomeI option.inject prod.collapse registry_ok_def)
    then have "snd ` {p \<in> set byTag. fst p \<noteq> tag} = snd ` set byTag - {a}" by blast
    then show ?thesis using ok by (simp add: registry_ok_def)
  qed
  then have "registry_ok as' (AList.delete tag byTag)"
    using ok r by (auto simp: registry_ok_def set_delete distinct_delete)
  then show ?thesis using r by blast
qed

lemma registry_ok_add:
  assumes ok: "registry_ok as byTag" and new: "map_of byTag tag = None"
    and a: "a_Tag a = tag" "a_id a \<notin> a_id ` set as"
  shows "registry_ok (as @ [a]) (AList.update tag a byTag)"
  using ok a new
  by (auto simp: registry_ok_def set_update_new distinct_update)

lemma registry_ok_replace:
  assumes ok: "registry_ok as byTag" and old: "map_of byTag tag = Some b"
    and a: "a_Tag a = tag" "a_id a \<notin> a_id ` set as"
  shows "\<exists>as'. remove_adapter (a_id b) as = Some as' \<and> set as' = set as - {b} \<and>
           registry_ok (as' @ [a]) (AList.update tag a byTag)"
proof -
  obtain as' where r: "remove_adapter (a_id b) as = Some as'" "set as' = set as - {b}"
      and ok': "registry_ok as' (AList.delete tag byTag)"
    using registry_ok_remove [OF ok old] by blast
  have "set (AList.update tag a byTag) = insert (tag, a) (set (AList.delete tag byTag))"
    using ok old by (simp add: set_update_old set_delete registry_ok_def)
  moreover have "a_id a \<notin> a_id ` set as'" using a(2) r(2) by blast
  moreover have "distinct (map fst (AList.update tag a byTag))"
    using ok by (simp add: registry_ok_def distinct_update)
  ultimately have "registry_ok (as' @ [a]) (AList.update tag a byTag)"
    using ok' a(1) unfolding registry_ok_def by simp
  then show ?thesis using r by blast
qed

end
