(* ===== verification/Outbound_Manager.thy ===== *)
theory Outbound_Manager
  imports Adapter_Manager
begin

text \<open>
  The outbound manager (adapter/outbound/manager.go): starting outbounds and endpoints in the order of
  their dependencies, the default outbound, creating, replacing and removing outbounds while the program
  runs, and the record of which outbound depends on which.

  The endpoint manager is the \<open>manager\<close> of the previous theory. The set of started tags is a list
  without duplicates, since the code compares its size.
\<close>

subsection \<open>State\<close>

record outbound_manager =
  om_defaultTag :: string
  om_started :: bool
  om_stage :: StartStage
  om_outbounds :: "adapter list"
  om_outboundByTag :: "(string \<times> adapter) list"
  om_dependByTag :: "string \<Rightarrow> string list"
  om_defaultOutbound :: "adapter option"

definition NewOutboundManager :: "string \<Rightarrow> outbound_manager" where
  "NewOutboundManager defaultTag =
     \<lparr>om_defaultTag = defaultTag, om_started = False, om_stage = StartStateInitialize, om_outbounds = [],
      om_outboundByTag = [], om_dependByTag = (\<lambda>_. []), om_defaultOutbound = None\<rparr>"

subsection \<open>Starting in the order of dependencies\<close>

text \<open>What \<^verbatim>\<open>startOutbounds\<close> calls on one outbound: \<^verbatim>\<open>Start(stage)\<close>, \<^verbatim>\<open>Start()\<close>, or nothing.\<close>

definition start_outbound :: "adapter \<Rightarrow> string option" where
  "start_outbound a =
     (case st_Lifecycle (a_starter a) of
        Some start \<Rightarrow> start StartStateStart
      | None \<Rightarrow> (case st_Start (a_starter a) of Some err \<Rightarrow> err | None \<Rightarrow> None))"

text \<open>
  One pass over the outbounds: the started tags, whether one was started in this pass, and the outbounds
  started so far in order.
\<close>

fun start_pass ::
  "adapter list \<Rightarrow> string list \<Rightarrow> bool \<Rightarrow> adapter list \<Rightarrow> (manager_error, string list \<times> bool) res \<times> adapter list"
where
  "start_pass [] started canContinue trace = (Inr (started, canContinue), trace)"
| "start_pass (a # as) started canContinue trace =
     (if a_Tag a \<in> set started then start_pass as started canContinue trace
      else if list_ex (\<lambda>dependency. dependency \<notin> set started) (a_Dependencies a)
      then start_pass as started canContinue trace
      else (case start_outbound a of
              Some err \<Rightarrow> (Inl (StartFailed StartStateStart (a_Tag a) err), trace @ [a])
            | None \<Rightarrow> start_pass as (a_Tag a # started) True (trace @ [a])))"

text \<open>The search for the reason when no outbound can be started.\<close>

function lintOutbound :: "(string \<times> adapter) list \<Rightarrow> string list \<Rightarrow> string list \<Rightarrow> adapter \<Rightarrow> manager_error" where
  "lintOutbound byTag started oTree oCurrent =
     (let problemOutboundTag = (case find (\<lambda>it. it \<notin> set started) (a_Dependencies oCurrent) of
                                  Some it \<Rightarrow> it | None \<Rightarrow> [])
      in if problemOutboundTag \<in> set oTree then CircularDependency oTree problemOutboundTag
         else (case map_of byTag problemOutboundTag of
                 None \<Rightarrow> DependencyNotFound problemOutboundTag (a_Tag oCurrent)
               | Some problemOutbound \<Rightarrow> lintOutbound byTag started (oTree @ [problemOutboundTag]) problemOutbound))"
  by pat_completeness auto

termination
proof (relation "measure (\<lambda>(byTag, started, oTree, oCurrent). card (fst ` set byTag - set oTree))")
  fix byTag :: "(string \<times> adapter) list" and started oTree oCurrent problem p
  assume "problem \<notin> set oTree" and p: "map_of byTag problem = Some p"
  have "problem \<in> fst ` set byTag" using map_of_SomeD [OF p] by force
  then have "fst ` set byTag - set (oTree @ [problem]) \<subset> fst ` set byTag - set oTree"
    using \<open>problem \<notin> set oTree\<close> by auto
  then show "((byTag, started, oTree @ [problem], p), byTag, started, oTree, oCurrent)
      \<in> measure (\<lambda>(byTag, started, oTree, oCurrent). card (fst ` set byTag - set oTree))"
    by (simp add: psubset_card_mono)
qed simp

text \<open>A pass only adds tags of outbounds that were not started.\<close>

lemma start_pass_grows:
  assumes "start_pass as started cont trace = (Inr (started', cont'), trace')"
  shows "\<exists>new. started' = rev (map a_Tag new) @ started \<and> trace' = trace @ new \<and> set new \<subseteq> set as \<and>
           (cont' \<longleftrightarrow> cont \<or> new \<noteq> []) \<and> distinct (map a_Tag new) \<and> set (map a_Tag new) \<inter> set started = {}"
  using assms
proof (induction as arbitrary: started cont trace)
  case (Cons a as)
  show ?case
  proof (cases "a_Tag a \<in> set started \<or> list_ex (\<lambda>d. d \<notin> set started) (a_Dependencies a)")
    case True
    then have "start_pass as started cont trace = (Inr (started', cont'), trace')"
      using Cons.prems by (auto split: if_splits)
    from Cons.IH [OF this] obtain new where "started' = rev (map a_Tag new) @ started" "trace' = trace @ new"
      "set new \<subseteq> set as" "cont' \<longleftrightarrow> cont \<or> new \<noteq> []" "distinct (map a_Tag new)"
      "set (map a_Tag new) \<inter> set started = {}" by blast
    then show ?thesis by (intro exI [of _ new]) auto
  next
    case False
    then have "start_pass as (a_Tag a # started) True (trace @ [a]) = (Inr (started', cont'), trace')"
      using Cons.prems by (auto split: option.splits)
    from Cons.IH [OF this] obtain new where
      "started' = rev (map a_Tag new) @ a_Tag a # started" "trace' = (trace @ [a]) @ new" "set new \<subseteq> set as" cont'
      "distinct (map a_Tag new)" "set (map a_Tag new) \<inter> set (a_Tag a # started) = {}" by auto
    then show ?thesis using False by (intro exI [of _ "a # new"]) auto
  qed
qed simp

function start_loop ::
  "(string \<times> adapter) list \<Rightarrow> adapter list \<Rightarrow> string list \<Rightarrow> adapter list \<Rightarrow> manager_error option \<times> adapter list"
where
  "start_loop byTag as started trace =
     (case start_pass as started False trace of
        (Inl e, trace1) \<Rightarrow> (Some e, trace1)
      | (Inr (started1, canContinue), trace1) \<Rightarrow>
          if length started1 = length as then (None, trace1)
          else if canContinue then start_loop byTag as started1 trace1
          else (case find (\<lambda>it. a_Tag it \<notin> set started1) as of
                  None \<Rightarrow> (Some NilOutboundPanic, trace1)
                | Some current \<Rightarrow> (Some (lintOutbound byTag started1 [a_Tag current] current), trace1)))"
  by pat_completeness auto

termination
proof (relation "measure (\<lambda>(byTag, as, started, trace). card (a_Tag ` set as - set started))")
  fix byTag as started trace p trace1 y started1 canContinue
  assume *: "(p, trace1) = start_pass as started False trace" "p = Inr y" "(started1, canContinue) = y"
    "canContinue"
  then have "start_pass as started False trace = (Inr (started1, True), trace1)" by simp
  from start_pass_grows [OF this] obtain new where new: "started1 = rev (map a_Tag new) @ started"
    "set new \<subseteq> set as" "new \<noteq> []" "set (map a_Tag new) \<inter> set started = {}" by auto
  then obtain a where "a \<in> set new" by (cases new) auto
  then have "a_Tag a \<in> a_Tag ` set as - set started" "a_Tag a \<in> set started1" using new by auto
  then have "a_Tag ` set as - set started1 \<subset> a_Tag ` set as - set started" using new(1) by auto
  then show "((byTag, as, started1, trace1), byTag, as, started, trace)
      \<in> measure (\<lambda>(byTag, as, started, trace). card (a_Tag ` set as - set started))"
    by (simp add: psubset_card_mono)
qed simp

definition startOutbounds :: "(string \<times> adapter) list \<Rightarrow> adapter list \<Rightarrow> manager_error option \<times> adapter list" where
  "startOutbounds byTag as = start_loop byTag as [] []"

subsection \<open>Operations\<close>

text \<open>The default outbound and the outbounds before \<^verbatim>\<open>startOutbounds\<close> is called.\<close>

definition prepare_default ::
  "manager \<Rightarrow> (string, adapter) res \<Rightarrow> outbound_manager \<Rightarrow> (manager_error, outbound_manager) res"
where
  "prepare_default endpoint fallback m =
     bindE (if om_defaultTag m \<noteq> [] \<and> om_defaultOutbound m = None then
              (case Manager_Get endpoint (om_defaultTag m) of
                 None \<Rightarrow> Inl (DefaultOutboundNotFound (om_defaultTag m))
               | Some e \<Rightarrow> Inr (m\<lparr>om_defaultOutbound := Some e\<rparr>))
            else Inr m)
       (\<lambda>m1. if om_defaultOutbound m1 = None then
               (case fallback of
                  Inl err \<Rightarrow> Inl (FallbackFailed err)
                | Inr direct \<Rightarrow>
                    Inr (m1\<lparr>om_outbounds := om_outbounds m1 @ [direct],
                            om_outboundByTag := AList.update (a_Tag direct) direct (om_outboundByTag m1),
                            om_defaultOutbound := Some direct\<rparr>))
             else Inr m1)"

definition Outbound_Start ::
  "manager \<Rightarrow> (string, adapter) res \<Rightarrow> StartStage \<Rightarrow> outbound_manager \<Rightarrow>
   manager_error option \<times> outbound_manager \<times> event list"
where
  "Outbound_Start endpoint fallback stage m =
     (if om_started m \<and> om_stage m \<ge> stage then (Some AlreadyStarted, m, [])
      else
        (let m1 = m\<lparr>om_started := True, om_stage := stage\<rparr> in
         if stage = StartStateStart then
           (case prepare_default endpoint fallback m1 of
              Inl e \<Rightarrow> (Some e, m1, [])
            | Inr m2 \<Rightarrow>
                (case startOutbounds (om_outboundByTag m2) (om_outbounds m2 @ am_list endpoint) of
                   (e, trace) \<Rightarrow> (e, m2, map (\<lambda>a. Started (a_id a) StartStateStart) trace)))
         else (case start_all stage (om_outbounds m1) of (e, evs) \<Rightarrow> (e, m1, evs))))"

definition Outbound_Close :: "outbound_manager \<Rightarrow> manager_error option \<times> outbound_manager \<times> event list" where
  "Outbound_Close m =
     (if \<not> om_started m then (None, m, [])
      else (None, m\<lparr>om_started := False, om_outbounds := []\<rparr>, map (Closed \<circ> a_id) (om_outbounds m)))"

definition Outbound_Get :: "manager \<Rightarrow> outbound_manager \<Rightarrow> string \<Rightarrow> adapter option" where
  "Outbound_Get endpoint m tag =
     (case map_of (om_outboundByTag m) tag of Some a \<Rightarrow> Some a | None \<Rightarrow> Manager_Get endpoint tag)"

definition Outbound_Default :: "outbound_manager \<Rightarrow> adapter option" where
  "Outbound_Default m = om_defaultOutbound m"

text \<open>The loop over the dependencies of a removed outbound, and of a created one.\<close>

definition forget_dependency :: "string \<Rightarrow> string \<Rightarrow> (string \<Rightarrow> string list) \<Rightarrow> string \<Rightarrow> string list" where
  "forget_dependency tag dependency dependBy =
     (if length (dependBy dependency) = 1 then dependBy(dependency := [])
      else dependBy(dependency := filter (\<lambda>it. it \<noteq> tag) (dependBy dependency)))"

definition record_dependency :: "string \<Rightarrow> string \<Rightarrow> (string \<Rightarrow> string list) \<Rightarrow> string \<Rightarrow> string list" where
  "record_dependency tag dependency dependBy = dependBy(dependency := dependBy dependency @ [tag])"

definition same_adapter :: "adapter option \<Rightarrow> adapter \<Rightarrow> bool" where
  "same_adapter x a = (map_option a_id x = Some (a_id a))"

definition Outbound_Remove :: "string \<Rightarrow> outbound_manager \<Rightarrow> manager_error option \<times> outbound_manager \<times> event list" where
  "Outbound_Remove tag m =
     (case map_of (om_outboundByTag m) tag of
        None \<Rightarrow> (Some ErrInvalid, m, [])
      | Some outbound \<Rightarrow>
          (let m1 = m\<lparr>om_outboundByTag := AList.delete tag (om_outboundByTag m)\<rparr> in
           case remove_adapter (a_id outbound) (om_outbounds m) of
             None \<Rightarrow> (Some InvalidIndexPanic, m1, [])
           | Some as \<Rightarrow>
               (let m2 = m1\<lparr>om_outbounds := as\<rparr>;
                    m3 = (if same_adapter (om_defaultOutbound m) outbound
                          then m2\<lparr>om_defaultOutbound := (case as of [] \<Rightarrow> None | a # _ \<Rightarrow> Some a)\<rparr> else m2)
                in if om_dependByTag m tag \<noteq> [] then (Some (DependedBy tag (om_dependByTag m tag)), m3, [])
                   else
                     (let m4 = m3\<lparr>om_dependByTag := fold (forget_dependency tag) (a_Dependencies outbound) (om_dependByTag m3)\<rparr>
                      in if om_started m
                         then (map_option (CloseFailed tag) (a_Close outbound), m4, [Closed (a_id outbound)])
                         else (None, m4, [])))))"

definition Outbound_Create ::
  "(string, adapter) res \<Rightarrow> string \<Rightarrow> outbound_manager \<Rightarrow> manager_error option \<times> outbound_manager \<times> event list"
where
  "Outbound_Create created tag m =
     (if tag = [] then (Some ErrInvalid, m, [])
      else case created of
        Inl err \<Rightarrow> (Some (CreateFailed err), m, [])
      | Inr outbound \<Rightarrow>
          (case (if om_started m then start_stages outbound ListStartStages else (None, [])) of
             (Some e, evs) \<Rightarrow> (Some e, m, evs)
           | (None, evs) \<Rightarrow>
               (let added = (\<lambda>as.
                      m\<lparr>om_outbounds := as @ [outbound],
                        om_outboundByTag := AList.update tag outbound (om_outboundByTag m),
                        om_dependByTag := fold (record_dependency tag) (a_Dependencies outbound) (om_dependByTag m),
                        om_defaultOutbound :=
                          (if tag = om_defaultTag m \<or> (om_defaultTag m = [] \<and> om_defaultOutbound m = None)
                           then Some outbound else om_defaultOutbound m)\<rparr>)
                in case map_of (om_outboundByTag m) tag of
                     None \<Rightarrow> (None, added (om_outbounds m), evs)
                   | Some existing \<Rightarrow>
                       (let evs1 = evs @ (if om_started m then [Closed (a_id existing)] else []) in
                        case (if om_started m then a_Close existing else None) of
                          Some err \<Rightarrow> (Some (CloseFailed (a_Tag existing) err), m, evs1)
                        | None \<Rightarrow>
                            (case remove_adapter (a_id existing) (om_outbounds m) of
                               None \<Rightarrow> (Some InvalidIndexPanic, m, evs1)
                             | Some as \<Rightarrow> (None, added as, evs1))))))"

end
