(* ===== verification/Outbound_Order.thy ===== *)
theory Outbound_Order
  imports Outbound_Manager "HOL-Library.Multiset"
begin

text \<open>
  Lemmas on \<open>startOutbounds\<close>: it starts the outbounds in an order in which every outbound comes after its
  dependencies whenever there is such an order, and the errors it reports otherwise are true.
\<close>

subsection \<open>The order\<close>

text \<open>Every adapter of the list comes after its dependencies, those in \<open>S\<close> being given.\<close>

fun deps_before :: "string set \<Rightarrow> adapter list \<Rightarrow> bool" where
  "deps_before S [] = True"
| "deps_before S (a # as) = (set (a_Dependencies a) \<subseteq> S \<and> deps_before (insert (a_Tag a) S) as)"

lemma deps_before_append:
  "deps_before S (xs @ ys) \<longleftrightarrow> deps_before S xs \<and> deps_before (a_Tag ` set xs \<union> S) ys"
  by (induction xs arbitrary: S) simp_all

lemma start_pass_order:
  assumes "start_pass as started cont trace = (Inr (started', cont'), trace')"
  shows "\<exists>new. trace' = trace @ new \<and> deps_before (set started) new"
  using assms
proof (induction as arbitrary: started cont trace)
  case (Cons a as)
  show ?case
  proof (cases "a_Tag a \<in> set started \<or> list_ex (\<lambda>d. d \<notin> set started) (a_Dependencies a)")
    case True
    then show ?thesis using Cons by (auto split: if_splits)
  next
    case False
    then have "start_pass as (a_Tag a # started) True (trace @ [a]) = (Inr (started', cont'), trace')"
      using Cons.prems by (auto split: option.splits)
    from Cons.IH [OF this] obtain new where "trace' = (trace @ [a]) @ new" "deps_before (set (a_Tag a # started)) new"
      by blast
    then show ?thesis using False by (intro exI [of _ "a # new"]) (auto simp: list_ex_iff)
  qed
qed simp

text \<open>A pass that starts nothing: every outbound is started or waits for a dependency.\<close>

lemma start_pass_stuck:
  assumes "start_pass as started False trace = (Inr (started', False), trace')"
  shows "started' = started \<and> trace' = trace \<and>
         (\<forall>a\<in>set as. a_Tag a \<in> set started \<or> (\<exists>d\<in>set (a_Dependencies a). d \<notin> set started))"
  using assms
proof (induction as)
  case (Cons a as)
  show ?case
  proof (cases "a_Tag a \<in> set started \<or> list_ex (\<lambda>d. d \<notin> set started) (a_Dependencies a)")
    case True
    then have "start_pass as started False trace = (Inr (started', False), trace')"
      using Cons.prems by (auto split: if_splits)
    from Cons.IH [OF this] show ?thesis using True by (auto simp: list_ex_iff)
  next
    case False
    then have "start_pass as (a_Tag a # started) True (trace @ [a]) = (Inr (started', False), trace')"
      using Cons.prems by (auto split: option.splits)
    from start_pass_grows [OF this] show ?thesis by auto
  qed
qed simp

lemma start_pass_succeeds:
  "\<forall>a\<in>set as. start_outbound a = None \<Longrightarrow>
   \<exists>started' cont' trace'. start_pass as started cont trace = (Inr (started', cont'), trace')"
  by (induction as arbitrary: started cont trace) auto

lemma start_pass_error:
  "start_pass as started cont trace = (Inl e, trace') \<Longrightarrow>
   \<exists>a\<in>set as. \<exists>err. start_outbound a = Some err \<and> e = StartFailed StartStateStart (a_Tag a) err"
  by (induction as arbitrary: started cont trace) (auto split: if_splits option.splits)

text \<open>What one pass gives, together.\<close>

lemma start_pass_facts:
  assumes "start_pass as started False trace = (Inr (started', cont'), trace')"
  obtains new where "started' = rev (map a_Tag new) @ started" "trace' = trace @ new" "set new \<subseteq> set as"
    "cont' \<longleftrightarrow> new \<noteq> []" "distinct (map a_Tag new)" "a_Tag ` set new \<inter> set started = {}" "deps_before (set started) new"
proof -
  obtain new where new: "started' = rev (map a_Tag new) @ started" "trace' = trace @ new" "set new \<subseteq> set as"
    "cont' \<longleftrightarrow> new \<noteq> []" "distinct (map a_Tag new)" "set (map a_Tag new) \<inter> set started = {}"
    using start_pass_grows [OF assms] by blast
  moreover have "deps_before (set started) new" using start_pass_order [OF assms] new(2) by auto
  ultimately show ?thesis using that by simp
qed

declare start_loop.simps [simp del] lintOutbound.simps [simp del]

lemma start_loop_success:
  assumes "start_loop byTag as started trace = (None, trace')"
  shows "\<exists>new. trace' = trace @ new \<and> deps_before (set started) new \<and> set new \<subseteq> set as \<and>
           distinct (map a_Tag new) \<and> a_Tag ` set new \<inter> set started = {} \<and>
           length started + length new = length as"
  using assms
proof (induction byTag as started trace rule: start_loop.induct)
  case (1 byTag as started trace)
  obtain started1 cont trace1 where pass: "start_pass as started False trace = (Inr (started1, cont), trace1)"
    using "1.prems" by (cases "start_pass as started False trace"; cases "fst (start_pass as started False trace)")
      (auto simp: start_loop.simps [of byTag as started])
  obtain new where new: "started1 = rev (map a_Tag new) @ started" "trace1 = trace @ new" "set new \<subseteq> set as"
    "distinct (map a_Tag new)" "a_Tag ` set new \<inter> set started = {}" "deps_before (set started) new"
    using start_pass_facts [OF pass] by metis
  show ?case
  proof (cases "length started1 = length as")
    case True
    then have "trace' = trace1" using "1.prems" pass by (simp add: start_loop.simps [of byTag as started])
    then show ?thesis using True new by (intro exI [of _ new]) auto
  next
    case False
    then have cont and loop: "start_loop byTag as started1 trace1 = (None, trace')"
      using "1.prems" pass by (auto simp: start_loop.simps [of byTag as started] split: if_splits option.splits)
    obtain more where more: "trace' = trace1 @ more" "deps_before (set started1) more" "set more \<subseteq> set as"
      "distinct (map a_Tag more)" "a_Tag ` set more \<inter> set started1 = {}" "length started1 + length more = length as"
      using "1.IH" [OF pass [symmetric] refl refl False \<open>cont\<close> loop] by blast
    then show ?thesis using new more by (intro exI [of _ "new @ more"]) (auto simp: deps_before_append Un_commute)
  qed
qed

subsection \<open>Success\<close>

lemma set_eq_of_distinct_tags:
  assumes "distinct (map a_Tag as)" "distinct (map a_Tag new)" "set new \<subseteq> set as" "length new = length as"
  shows "mset new = mset as"
proof -
  have d: "distinct as" "distinct new" using assms by (simp_all add: distinct_map)
  then have "set new = set as"
    using assms by (intro card_subset_eq) (simp_all add: distinct_card)
  then show ?thesis using d by (simp add: set_eq_iff_mset_eq_distinct)
qed

lemma startOutbounds_order:
  assumes "distinct (map a_Tag as)" "startOutbounds byTag as = (None, trace)"
  shows "mset trace = mset as" "deps_before {} trace"
proof -
  obtain new where "trace = [] @ new" "deps_before (set []) new" "set new \<subseteq> set as" "distinct (map a_Tag new)"
    "length ([] :: string list) + length new = length as"
    using start_loop_success [of byTag as "[]" "[]" trace] assms(2) by (auto simp: startOutbounds_def)
  then show "mset trace = mset as" "deps_before {} trace"
    using set_eq_of_distinct_tags [OF assms(1)] by auto
qed

text \<open>When nothing can be started any more but an order exists, everything is started.\<close>

lemma all_started:
  assumes order: "mset order = mset as" "deps_before {} order"
    and stuck: "\<forall>a\<in>set as. a_Tag a \<in> set started \<or> (\<exists>d\<in>set (a_Dependencies a). d \<notin> set started)"
  shows "a_Tag ` set as \<subseteq> set started"
proof -
  have "a_Tag ` set xs \<subseteq> set started" if "order = xs @ ys" for xs ys
    using that
  proof (induction xs arbitrary: ys rule: rev_induct)
    case (snoc x xs)
    have xs: "a_Tag ` set xs \<subseteq> set started" using snoc.IH [of "x # ys"] snoc.prems by simp
    have "set (a_Dependencies x) \<subseteq> a_Tag ` set xs" using order(2) snoc.prems by (simp add: deps_before_append)
    moreover have "x \<in> set as" using order(1) snoc.prems by (metis in_set_conv_decomp append_assoc mset_eq_setD append_Cons append_Nil)
    ultimately have "a_Tag x \<in> set started" using stuck xs by blast
    then show ?case using xs by simp
  qed simp
  from this [of order "[]"] show ?thesis using mset_eq_setD [OF order(1)] by simp
qed

lemma start_loop_complete:
  assumes "distinct (map a_Tag as)" "\<forall>a\<in>set as. start_outbound a = None"
    and "mset order = mset as" "deps_before {} order"
    and "distinct started" "set started \<subseteq> a_Tag ` set as"
  shows "\<exists>trace'. start_loop byTag as started trace = (None, trace')"
  using assms
proof (induction byTag as started trace rule: start_loop.induct)
  case (1 byTag as started trace)
  obtain started1 cont trace1 where pass: "start_pass as started False trace = (Inr (started1, cont), trace1)"
    using start_pass_succeeds [OF "1.prems"(2)] by metis
  obtain new where new: "started1 = rev (map a_Tag new) @ started" "set new \<subseteq> set as" "cont \<longleftrightarrow> new \<noteq> []"
    "distinct (map a_Tag new)" "a_Tag ` set new \<inter> set started = {}"
    using start_pass_facts [OF pass] by metis
  have started1: "distinct started1" "set started1 \<subseteq> a_Tag ` set as" using new "1.prems"(5,6) by auto
  show ?case
  proof (cases "length started1 = length as")
    case True
    then show ?thesis using pass by (simp add: start_loop.simps [of byTag as started])
  next
    case False
    have cont
    proof (rule ccontr)
      assume "\<not> cont"
      then have "a_Tag ` set as \<subseteq> set started1"
        using all_started [OF "1.prems"(3,4)] start_pass_stuck [of as started trace started1 trace1] pass by simp
      then have "set started1 = a_Tag ` set as" using started1 by blast
      then have "length started1 = length (map a_Tag as)"
        using started1(1) "1.prems"(1) by (metis distinct_card set_map)
      then show False using False by simp
    qed
    then show ?thesis
      using "1.IH" [OF pass [symmetric] refl refl False \<open>cont\<close> "1.prems"(1-4) started1] pass False
      by (simp add: start_loop.simps [of byTag as started])
  qed
qed

subsection \<open>Errors\<close>

text \<open>\<open>t\<close> depends on \<open>u\<close>.\<close>

definition depends :: "adapter list \<Rightarrow> (string \<times> string) set" where
  "depends as = {(a_Tag a, u) | a u. a \<in> set as \<and> u \<in> set (a_Dependencies a)}"

text \<open>A chain of tags, each depending on the next.\<close>

fun dep_chain :: "adapter list \<Rightarrow> string list \<Rightarrow> bool" where
  "dep_chain as (t # u # ts) = ((t, u) \<in> depends as \<and> dep_chain as (u # ts))"
| "dep_chain as _ = True"

lemma dep_chain_snoc:
  "dep_chain as (ts @ [t, u]) \<longleftrightarrow> dep_chain as (ts @ [t]) \<and> (t, u) \<in> depends as"
proof (induction ts)
  case (Cons x ts) then show ?case by (cases ts) auto
qed simp

lemma dep_chain_path:
  "dep_chain as (t # ts @ [u]) \<Longrightarrow> (t, u) \<in> (depends as)\<^sup>+"
  by (induction ts arbitrary: t) (auto intro: trancl_into_trancl2)

lemma dep_chain_suffix: "dep_chain as (xs @ ys) \<Longrightarrow> dep_chain as ys"
proof (induction xs)
  case (Cons x xs) then show ?case by (cases "xs @ ys") auto
qed simp

definition waiting :: "adapter list \<Rightarrow> string list \<Rightarrow> bool" where
  "waiting as started \<longleftrightarrow> (\<forall>a\<in>set as. a_Tag a \<in> set started \<or> (\<exists>d\<in>set (a_Dependencies a). d \<notin> set started))"

text \<open>The map holds outbounds of the list under their tags.\<close>

definition tags_of :: "adapter list \<Rightarrow> (string \<times> adapter) list \<Rightarrow> bool" where
  "tags_of as byTag \<longleftrightarrow> list_all (\<lambda>(t, a). a \<in> set as \<and> a_Tag a = t) byTag"

lemma tags_ofD: "tags_of as byTag \<Longrightarrow> map_of byTag t = Some a \<Longrightarrow> a \<in> set as \<and> a_Tag a = t"
  by (auto simp: tags_of_def list_all_iff dest: map_of_SomeD)

lemma lint_step:
  assumes "waiting as started" "a \<in> set as" "a_Tag a \<notin> set started"
  obtains d where "find (\<lambda>it. it \<notin> set started) (a_Dependencies a) = Some d"
    "d \<in> set (a_Dependencies a)" "d \<notin> set started"
proof -
  have "\<exists>d\<in>set (a_Dependencies a). d \<notin> set started" using assms by (auto simp: waiting_def)
  then obtain d where d: "find (\<lambda>it. it \<notin> set started) (a_Dependencies a) = Some d"
    by (metis (mono_tags, lifting) find_None_iff not_None_eq)
  then have "d \<in> set (a_Dependencies a) \<and> d \<notin> set started"
    by (auto simp: find_Some_iff)
  then show ?thesis using that d by blast
qed

text \<open>The reported cycle is one; a dependency reported as missing is no outbound.\<close>

lemma lintOutbound_sound:
  assumes "waiting as started" and byTag: "tags_of as byTag"
    and "oCurrent \<in> set as" "a_Tag oCurrent \<notin> set started" "dep_chain as (oTree @ [a_Tag oCurrent])"
  shows "(\<exists>ts p. lintOutbound byTag started (oTree @ [a_Tag oCurrent]) oCurrent = CircularDependency ts p \<and>
            (p, p) \<in> (depends as)\<^sup>+) \<or>
         (\<exists>d t. lintOutbound byTag started (oTree @ [a_Tag oCurrent]) oCurrent = DependencyNotFound d t \<and>
            (t, d) \<in> depends as \<and> map_of byTag d = None)"
  using assms(3-5)
proof (induction "card (fst ` set byTag - set (oTree @ [a_Tag oCurrent]))" arbitrary: oTree oCurrent rule: less_induct)
  case less
  let ?tree = "oTree @ [a_Tag oCurrent]"
  obtain d where d: "find (\<lambda>it. it \<notin> set started) (a_Dependencies oCurrent) = Some d"
      "d \<in> set (a_Dependencies oCurrent)" "d \<notin> set started"
    using lint_step [OF assms(1) less.prems(1,2)] .
  have edge: "(a_Tag oCurrent, d) \<in> depends as" using d(2) less.prems(1) by (auto simp: depends_def)
  have chain: "dep_chain as (?tree @ [d])" using less.prems(3) edge by (simp add: dep_chain_snoc)
  consider (cycle) "d \<in> set ?tree" | (missing) "d \<notin> set ?tree" "map_of byTag d = None"
    | (further) p where "d \<notin> set ?tree" "map_of byTag d = Some p" by (cases "map_of byTag d") auto
  then show ?case
  proof cases
    case cycle
    then obtain xs ys where split: "?tree = xs @ d # ys" by (meson split_list)
    have "dep_chain as ((xs @ d # ys) @ [d])" using chain by (simp only: split)
    then have "dep_chain as (d # ys @ [d])" using dep_chain_suffix [of as xs "d # ys @ [d]"] by simp
    then have "(d, d) \<in> (depends as)\<^sup>+" by (rule dep_chain_path)
    then show ?thesis using cycle d(1) by (simp add: lintOutbound.simps [of byTag started ?tree])
  next
    case missing
    then show ?thesis using d(1) edge by (simp add: lintOutbound.simps [of byTag started ?tree])
  next
    case (further p)
    have p: "p \<in> set as" "a_Tag p = d" using tags_ofD [OF byTag further(2)] by auto
    have "d \<in> fst ` set byTag" using map_of_SomeD [OF further(2)] by force
    then have "fst ` set byTag - set (?tree @ [a_Tag p]) \<subset> fst ` set byTag - set ?tree" using further(1) p(2) by auto
    then have "card (fst ` set byTag - set (?tree @ [a_Tag p])) < card (fst ` set byTag - set ?tree)"
      by (simp add: psubset_card_mono)
    from less.hyps [OF this p(1)] show ?thesis
      using further d chain p(2) by (simp add: lintOutbound.simps [of byTag started ?tree])
  qed
qed

end
