(* ===== verification/Outbound_Properties.thy ===== *)
theory Outbound_Properties
  imports Outbound_Order
begin

text \<open>
  Properties of the outbound manager: starting in the order of dependencies, the agreement of its list and
  its map in every reachable state, and what removing and replacing outbounds do to the rest of the state.
\<close>

subsection \<open>Starting\<close>

lemma start_loop_error:
  assumes "distinct (map a_Tag as)" and byTag: "tags_of as byTag"
    and "distinct started" "set started \<subseteq> a_Tag ` set as"
    and "start_loop byTag as started trace = (Some e, trace')"
  shows "(\<exists>a\<in>set as. \<exists>err. start_outbound a = Some err \<and> e = StartFailed StartStateStart (a_Tag a) err) \<or>
         (\<exists>ts p. e = CircularDependency ts p \<and> (p, p) \<in> (depends as)\<^sup>+) \<or>
         (\<exists>d t. e = DependencyNotFound d t \<and> (t, d) \<in> depends as \<and> map_of byTag d = None)"
  using assms
proof (induction byTag as started trace rule: start_loop.induct)
  case (1 byTag as started trace)
  obtain r trace1 where pass: "start_pass as started False trace = (r, trace1)" by fastforce
  show ?case
  proof (cases r)
    case (Inl e')
    then have "e' = e" using "1.prems"(5) pass by (simp add: start_loop.simps [of byTag as started])
    then show ?thesis using start_pass_error [of as started False trace e'] pass Inl by blast
  next
    case (Inr y)
    obtain started1 cont where y: "y = (started1, cont)" by fastforce
    have pass': "start_pass as started False trace = (Inr (started1, cont), trace1)" using pass Inr y by simp
    obtain new where new: "started1 = rev (map a_Tag new) @ started" "set new \<subseteq> set as"
      "distinct (map a_Tag new)" "a_Tag ` set new \<inter> set started = {}"
      using start_pass_facts [OF pass'] by metis
    have started1: "distinct started1" "set started1 \<subseteq> a_Tag ` set as" using new "1.prems"(3,4) by auto
    have len: "length started1 \<noteq> length as"
      using "1.prems"(5) pass' by (auto simp: start_loop.simps [of byTag as started])
    show ?thesis
    proof (cases cont)
      case True
      then have "start_loop byTag as started1 trace1 = (Some e, trace')"
        using "1.prems"(5) pass' len by (simp add: start_loop.simps [of byTag as started])
      from "1.IH" [OF pass [symmetric] Inr y [symmetric] len True "1.prems"(1,2) started1 this] show ?thesis by simp
    next
      case False
      then have stuck: "waiting as started1"
        using start_pass_stuck [of as started trace started1 trace1] pass' by (simp add: waiting_def)
      have "\<exists>a\<in>set as. a_Tag a \<notin> set started1"
      proof (rule ccontr)
        assume "\<not> ?thesis"
        then have "set started1 = set (map a_Tag as)" using started1 by auto
        then show False using len started1(1) "1.prems"(1) by (metis distinct_card length_map)
      qed
      then obtain current where current: "find (\<lambda>it. a_Tag it \<notin> set started1) as = Some current"
        by (metis (mono_tags, lifting) find_None_iff not_None_eq)
      then have mem: "current \<in> set as" "a_Tag current \<notin> set started1" by (auto simp: find_Some_iff)
      have "e = lintOutbound byTag started1 ([] @ [a_Tag current]) current"
        using "1.prems"(5) pass' len False current by (simp add: start_loop.simps [of byTag as started])
      then show ?thesis using lintOutbound_sound [OF stuck "1.prems"(2) mem, of "[]"] by auto
    qed
  qed
qed

text \<open>A map that agrees with the outbounds holds nothing but outbounds that are started.\<close>

lemma registry_tags_of: "registry_ok outbounds byTag \<Longrightarrow> tags_of (outbounds @ endpoints) byTag"
  by (force simp: tags_of_def registry_ok_def list_all_iff)

text \<open>
  (C5) Starting the outbounds, which the map of the manager holds by their tags, and the endpoints, all with distinct
  tags: if it succeeds, every one of them was started exactly once and after all its dependencies. If it fails, the error
  is true: an outbound or endpoint failed to start, or the reported tag depends on itself along a chain of dependencies,
  or the reported dependency is a dependency of the reported tag and no outbound has it as its tag. In particular it always
  ends. Endpoints are not in the map, so a dependency that is reported as not found may be an endpoint.
\<close>

theorem start_outbounds_sound:
  assumes "distinct (map a_Tag (outbounds @ endpoints))" and "registry_ok outbounds byTag"
  shows "case startOutbounds byTag (outbounds @ endpoints) of
           (None, trace) \<Rightarrow> mset trace = mset (outbounds @ endpoints) \<and> deps_before {} trace
         | (Some e, trace) \<Rightarrow>
             (\<exists>a\<in>set (outbounds @ endpoints). \<exists>err.
                start_outbound a = Some err \<and> e = StartFailed StartStateStart (a_Tag a) err) \<or>
             (\<exists>ts p. e = CircularDependency ts p \<and> (p, p) \<in> (depends (outbounds @ endpoints))\<^sup>+) \<or>
             (\<exists>d t. e = DependencyNotFound d t \<and> (t, d) \<in> depends (outbounds @ endpoints) \<and> d \<notin> a_Tag ` set outbounds)"
proof (cases "startOutbounds byTag (outbounds @ endpoints)")
  case (Pair result trace)
  have missing: "map_of byTag d = None \<Longrightarrow> d \<notin> a_Tag ` set outbounds" for d
    using registry_ok_find [OF assms(2)] by fastforce
  show ?thesis
  proof (cases result)
    case None
    then show ?thesis using startOutbounds_order [OF assms(1), of byTag] Pair by simp
  next
    case (Some e)
    then show ?thesis
      using start_loop_error [OF assms(1) registry_tags_of [OF assms(2)], of "[]" "[]"] Pair missing
      by (auto simp: startOutbounds_def)
  qed
qed

text \<open>
  (C11) If the outbounds and endpoints can be put into an order in which each comes after its dependencies,
  and each of them starts without an error, then starting them succeeds.
\<close>

theorem start_outbounds_complete:
  assumes "distinct (map a_Tag as)" and "mset order = mset as" "deps_before {} order"
    and "list_all (\<lambda>a. start_outbound a = None) as"
  shows "\<exists>trace. startOutbounds byTag as = (None, trace)"
  using start_loop_complete [of as order "[]" byTag "[]"] assms by (auto simp: startOutbounds_def list_all_iff)

subsection \<open>Registered outbounds\<close>

text \<open>
  The list and the map agree, and without a configured default the first outbound is the default one.
\<close>

definition outbounds_ok :: "outbound_manager \<Rightarrow> bool" where
  "outbounds_ok m \<longleftrightarrow> registry_ok (om_outbounds m) (om_outboundByTag m) \<and>
     (om_defaultTag m = [] \<and> om_defaultOutbound m = None \<longrightarrow> om_outbounds m = [])"

lemma outbounds_ok_new: "outbounds_ok (NewOutboundManager tag)"
  by (simp add: outbounds_ok_def NewOutboundManager_def)

lemma start_stages_no_panic: "fst (start_stages a ss) \<noteq> Some InvalidIndexPanic"
  by (induction ss) (auto split: option.splits prod.splits)

lemma outbounds_ok_create:
  assumes ok: "outbounds_ok m" and created: "\<And>a. created = Inr a \<Longrightarrow> a_Tag a = tag \<and> a_id a \<notin> a_id ` set (om_outbounds m)"
    and run: "Outbound_Create created tag m = (e, m', evs)"
  shows "outbounds_ok m' \<and> e \<noteq> Some InvalidIndexPanic"
proof (cases "tag = []")
  case True
  then show ?thesis using ok run by (auto simp: Outbound_Create_def)
next
  case tag: False
  show ?thesis
  proof (cases created)
    case (Inl err)
    then show ?thesis using ok run tag by (auto simp: Outbound_Create_def)
  next
  case a: (Inr a)
  note fresh = created [OF a]
  obtain e1 evs1 where start: "(if om_started m then start_stages a ListStartStages else (None, [])) = (e1, evs1)"
    by fastforce
  have panic: "e1 \<noteq> Some InvalidIndexPanic"
    using start start_stages_no_panic [of a ListStartStages] by (auto split: if_splits)
  show ?thesis
  proof (cases e1)
    case (Some e2)
    then show ?thesis using ok run a tag start panic by (auto simp: Outbound_Create_def)
  next
    case None
    show ?thesis
    proof (cases "map_of (om_outboundByTag m) tag")
      case old: None
      then show ?thesis
        using ok run a tag start None fresh
          registry_ok_add [of "om_outbounds m" "om_outboundByTag m" tag a]
        by (auto simp: Outbound_Create_def outbounds_ok_def Let_def split: if_splits)
    next
      case old: (Some b)
      obtain as' where "remove_adapter (a_id b) (om_outbounds m) = Some as'"
          "registry_ok (as' @ [a]) (AList.update tag a (om_outboundByTag m))"
        using registry_ok_replace [of "om_outbounds m" "om_outboundByTag m" tag b a] ok old fresh
        by (auto simp: outbounds_ok_def)
      then show ?thesis
        using ok run a tag start None old registry_ok_lookup [of "om_outbounds m" "om_outboundByTag m" tag b]
        by (auto simp: Outbound_Create_def outbounds_ok_def Let_def split: option.splits if_splits)
    qed
  qed
  qed
qed

lemma outbounds_ok_remove:
  assumes ok: "outbounds_ok m" and run: "Outbound_Remove tag m = (e, m', evs)"
  shows "outbounds_ok m' \<and> e \<noteq> Some InvalidIndexPanic"
proof (cases "map_of (om_outboundByTag m) tag")
  case None
  then show ?thesis using ok run by (auto simp: Outbound_Remove_def)
next
  case (Some a)
  obtain as' where r: "remove_adapter (a_id a) (om_outbounds m) = Some as'"
      "registry_ok as' (AList.delete tag (om_outboundByTag m))" "set as' = set (om_outbounds m) - {a}"
    using registry_ok_remove [of "om_outbounds m" "om_outboundByTag m" tag a] ok Some by (auto simp: outbounds_ok_def)
  have mem: "a \<in> set (om_outbounds m)"
    using registry_ok_lookup [of "om_outbounds m" "om_outboundByTag m" tag a] ok Some by (simp add: outbounds_ok_def)
  have run': "e = fst (Outbound_Remove tag m)" "m' = fst (snd (Outbound_Remove tag m))" using run by simp_all
  have m': "om_outbounds m' = as'" "om_outboundByTag m' = AList.delete tag (om_outboundByTag m)"
      "om_defaultTag m' = om_defaultTag m"
      "om_defaultOutbound m' = (if same_adapter (om_defaultOutbound m) a
         then (case as' of [] \<Rightarrow> None | a # _ \<Rightarrow> Some a) else om_defaultOutbound m)"
      "e \<noteq> Some InvalidIndexPanic"
    unfolding run' Outbound_Remove_def by (simp_all add: Some r(1) Let_def)
  have "om_outbounds m' = []" if "om_defaultTag m' = []" "om_defaultOutbound m' = None"
  proof (cases "same_adapter (om_defaultOutbound m) a")
    case True
    then show ?thesis using that(2) m'(1,4) by (cases as') simp_all
  next
    case False
    then have "om_outbounds m = []" using that m'(3,4) ok by (simp add: outbounds_ok_def)
    then show ?thesis using mem by simp
  qed
  then show ?thesis using r(2) m' by (simp add: outbounds_ok_def)
qed

text \<open>The fallback outbound is only created when there is no other.\<close>

lemma outbounds_ok_prepare:
  assumes ok: "outbounds_ok m" and run: "prepare_default endpoint fallback m = Inr m'"
  shows "outbounds_ok m' \<and> om_defaultOutbound m' \<noteq> None"
proof (cases "om_defaultOutbound m")
  case (Some a)
  then show ?thesis using ok run by (auto simp: prepare_default_def outbounds_ok_def)
next
  case None
  show ?thesis
  proof (cases "om_defaultTag m = []")
    case True
    then have empty: "om_outbounds m = []" "om_outboundByTag m = []"
      using ok None by (auto simp: outbounds_ok_def registry_ok_def)
    obtain direct where "fallback = Inr direct" using run None True by (cases fallback) (auto simp: prepare_default_def)
    then show ?thesis using run None True empty by (auto simp: prepare_default_def outbounds_ok_def registry_ok_def)
  next
    case False
    then show ?thesis using ok run None by (auto simp: prepare_default_def outbounds_ok_def split: option.splits)
  qed
qed

lemma start_all_no_panic: "fst (start_all stage as) \<noteq> Some InvalidIndexPanic"
  by (induction as) (auto split: option.splits prod.splits)

lemma start_pass_no_panic: "fst (start_pass as started cont trace) \<noteq> Inl InvalidIndexPanic"
  using start_pass_error [of as started cont trace InvalidIndexPanic]
  by (cases "start_pass as started cont trace") auto

lemma lintOutbound_no_panic: "lintOutbound byTag started oTree oCurrent \<noteq> InvalidIndexPanic"
  by (induction byTag started oTree oCurrent rule: lintOutbound.induct)
    (simp add: lintOutbound.simps Let_def split: option.split)

lemma start_loop_no_panic: "fst (start_loop byTag as started trace) \<noteq> Some InvalidIndexPanic"
proof (induction byTag as started trace rule: start_loop.induct)
  case (1 byTag as started trace)
  show ?case
    using "1.IH" start_pass_no_panic [of as started False trace] lintOutbound_no_panic
    by (cases "start_pass as started False trace")
      (auto simp: start_loop.simps [of byTag as started] split: sum.splits option.splits)
qed

lemma outbounds_ok_start:
  assumes ok: "outbounds_ok m" and run: "Outbound_Start endpoint fallback stage m = (e, m', evs)"
  shows "outbounds_ok m' \<and> e \<noteq> Some InvalidIndexPanic"
proof -
  let ?m1 = "m\<lparr>om_started := True, om_stage := stage\<rparr>"
  have ok1: "outbounds_ok ?m1" using ok by (simp add: outbounds_ok_def)
  have prepare: "prepare_default endpoint fallback ?m1 \<noteq> Inl InvalidIndexPanic"
    by (auto simp: prepare_default_def bindE_def split: if_splits option.splits sum.splits)
  show ?thesis
    using run ok ok1 outbounds_ok_prepare [OF ok1] prepare start_all_no_panic [of stage "om_outbounds m"]
      start_loop_no_panic [of _ _ "[]" "[]"]
    by (auto simp: Outbound_Start_def Let_def startOutbounds_def split: if_splits sum.splits prod.splits)
      (metis fst_conv)+
qed

subsection \<open>A manager that was closed\<close>

text \<open>
  \<open>Close\<close> empties the list and keeps the map. What still holds after that, whatever is called then: the listed outbounds
  are in the map under their tags.
\<close>

definition listed_ok :: "outbound_manager \<Rightarrow> bool" where
  "listed_ok m \<longleftrightarrow>
     distinct (map a_id (om_outbounds m)) \<and>
     (\<forall>a\<in>set (om_outbounds m). map_of (om_outboundByTag m) (a_Tag a) = Some a) \<and>
     (om_defaultTag m = [] \<and> om_defaultOutbound m = None \<longrightarrow> om_outbounds m = [])"

lemma outbounds_listed: "outbounds_ok m \<Longrightarrow> listed_ok m"
  using registry_ok_find by (auto simp: outbounds_ok_def listed_ok_def registry_ok_def)

lemma listed_tags: "listed_ok m \<Longrightarrow> distinct (map a_Tag (om_outbounds m))"
  unfolding listed_ok_def distinct_map inj_on_def by (metis option.inject)

lemma listed_close: "listed_ok m \<Longrightarrow> Outbound_Close m = (e, m', evs) \<Longrightarrow> listed_ok m'"
  by (auto simp: Outbound_Close_def listed_ok_def split: if_splits)

text \<open>Taking an outbound out of the list.\<close>

lemma remove_adapter_facts:
  assumes "distinct (map a_id as)" "remove_adapter i as = Some as'"
  shows "distinct (map a_id as')" "set as' \<subseteq> set as" "\<forall>a\<in>set as'. a_id a \<noteq> i"
  using remove_adapter_Some [OF assms(2)] assms(1) by (auto simp: image_iff) metis+

lemma listed_remove:
  assumes ok: "listed_ok m" and run: "Outbound_Remove tag m = (e, m', evs)"
  shows "listed_ok m'"
proof (cases "map_of (om_outboundByTag m) tag")
  case None
  then show ?thesis using ok run by (auto simp: Outbound_Remove_def)
next
  case (Some a)
  have run': "m' = fst (snd (Outbound_Remove tag m))" using run by simp
  have gone: "a_Tag b \<noteq> tag" if "b \<in> set (om_outbounds m)" "a_id b \<noteq> a_id a" for b
    using ok Some that by (auto simp: listed_ok_def)
  show ?thesis
  proof (cases "remove_adapter (a_id a) (om_outbounds m)")
    case none: None
    have "a_id b \<noteq> a_id a" if "b \<in> set (om_outbounds m)" for b
      using none that ok remove_adapter_member [of "om_outbounds m" b] by (auto simp: listed_ok_def)
    then show ?thesis unfolding run' using ok Some none gone
      by (auto simp: Outbound_Remove_def listed_ok_def Let_def AList.delete_conv')
  next
    case as: (Some as)
    note f = remove_adapter_facts [OF _ as]
    have "om_outbounds m' = as" "om_outboundByTag m' = AList.delete tag (om_outboundByTag m)" "om_defaultTag m' = om_defaultTag m"
      "om_defaultOutbound m' = (if same_adapter (om_defaultOutbound m) a
         then (case as of [] \<Rightarrow> None | a # _ \<Rightarrow> Some a) else om_defaultOutbound m)"
      unfolding run' Outbound_Remove_def by (simp_all add: Some as Let_def)
    moreover have "\<forall>b\<in>set as. a_Tag b \<noteq> tag \<and> map_of (om_outboundByTag m) (a_Tag b) = Some b"
      using f ok gone by (auto simp: listed_ok_def)
    moreover have "om_outbounds m = [] \<Longrightarrow> as = []" using as by simp
    ultimately show ?thesis using ok f(1)
      by (auto simp: listed_ok_def AList.delete_conv' split: if_splits list.splits)
  qed
qed

lemma listed_create:
  assumes ok: "listed_ok m" and created: "\<And>a. created = Inr a \<Longrightarrow> a_Tag a = tag \<and> a_id a \<notin> a_id ` set (om_outbounds m)"
    and run: "Outbound_Create created tag m = (e, m', evs)"
  shows "listed_ok m'"
proof (cases "m' = m")
  case False
  then obtain a where a: "created = Inr a" using run by (cases created) (auto simp: Outbound_Create_def split: if_splits)
  have "\<exists>as. (as = om_outbounds m \<and> map_of (om_outboundByTag m) tag = None \<or>
         (\<exists>old. map_of (om_outboundByTag m) tag = Some old \<and> remove_adapter (a_id old) (om_outbounds m) = Some as)) \<and>
       om_outbounds m' = as @ [a] \<and> om_outboundByTag m' = AList.update tag a (om_outboundByTag m) \<and>
       om_defaultTag m' = om_defaultTag m \<and> (om_defaultTag m = [] \<longrightarrow> om_defaultOutbound m' \<noteq> None)"
    using run False a
    by (auto simp: Outbound_Create_def Let_def split: if_splits option.splits prod.splits)
  then obtain as where as: "as = om_outbounds m \<and> map_of (om_outboundByTag m) tag = None \<or>
         (\<exists>old. map_of (om_outboundByTag m) tag = Some old \<and> remove_adapter (a_id old) (om_outbounds m) = Some as)"
    and m': "om_outbounds m' = as @ [a]" "om_outboundByTag m' = AList.update tag a (om_outboundByTag m)"
       "om_defaultTag m' = om_defaultTag m" "om_defaultTag m = [] \<longrightarrow> om_defaultOutbound m' \<noteq> None" by blast
  have "distinct (map a_id as) \<and> set as \<subseteq> set (om_outbounds m) \<and> (\<forall>b\<in>set as. a_Tag b \<noteq> tag)"
    using as
  proof
    assume "as = om_outbounds m \<and> map_of (om_outboundByTag m) tag = None"
    then show ?thesis using ok by (auto simp: listed_ok_def)
  next
    assume "\<exists>old. map_of (om_outboundByTag m) tag = Some old \<and> remove_adapter (a_id old) (om_outbounds m) = Some as"
    then obtain old where old: "map_of (om_outboundByTag m) tag = Some old" "remove_adapter (a_id old) (om_outbounds m) = Some as"
      by blast
    have "distinct (map a_id (om_outbounds m))" using ok by (simp add: listed_ok_def)
    note f = remove_adapter_facts [OF this old(2)]
    have "a_Tag b \<noteq> tag" if "b \<in> set as" for b
      using that f(2,3) old(1) ok unfolding listed_ok_def by (metis option.inject subsetD)
    then show ?thesis using f by blast
  qed
  then show ?thesis using m' ok created [OF a] by (auto simp: listed_ok_def update_conv')
qed (use ok in simp)

lemma listed_start:
  assumes ok: "listed_ok m" and run: "Outbound_Start endpoint fallback stage m = (e, m', evs)"
  shows "listed_ok m'"
proof -
  let ?m1 = "m\<lparr>om_started := True, om_stage := stage\<rparr>"
  have ok1: "listed_ok ?m1" using ok by (simp add: listed_ok_def)
  have "listed_ok m2" if "prepare_default endpoint fallback ?m1 = Inr m2" for m2
    using that ok1
    by (auto simp: prepare_default_def bindE_def listed_ok_def update_conv'
        split: if_splits option.splits sum.splits)
  then show ?thesis using run ok ok1
    by (auto simp: Outbound_Start_def Let_def split: if_splits sum.splits prod.splits)
qed

subsection \<open>Reachable states\<close>

text \<open>
  The states of a manager that is created, started, changed at run time and closed, and whether it was closed. A created
  outbound has the tag it was asked for and is a new object.
\<close>

inductive outbound_reachable :: "manager \<Rightarrow> string \<Rightarrow> bool \<Rightarrow> outbound_manager \<Rightarrow> bool" for endpoint defaultTag where
  new: "outbound_reachable endpoint defaultTag False (NewOutboundManager defaultTag)"
| create: "outbound_reachable endpoint defaultTag closed m \<Longrightarrow>
     (case created of Inl _ \<Rightarrow> True | Inr a \<Rightarrow> a_Tag a = tag \<and> a_id a \<notin> a_id ` set (om_outbounds m)) \<Longrightarrow>
     Outbound_Create created tag m = (e, m', evs) \<Longrightarrow> outbound_reachable endpoint defaultTag closed m'"
| remove: "outbound_reachable endpoint defaultTag closed m \<Longrightarrow> Outbound_Remove tag m = (e, m', evs) \<Longrightarrow>
     outbound_reachable endpoint defaultTag closed m'"
| start: "outbound_reachable endpoint defaultTag closed m \<Longrightarrow> Outbound_Start endpoint fallback stage m = (e, m', evs) \<Longrightarrow>
     outbound_reachable endpoint defaultTag closed m'"
| close: "outbound_reachable endpoint defaultTag closed m \<Longrightarrow> Outbound_Close m = (e, m', evs) \<Longrightarrow>
     outbound_reachable endpoint defaultTag True m'"

text \<open>Replacing finds the old outbound in the list, whatever the registry returns.\<close>

lemma create_no_panic:
  assumes "outbounds_ok m"
  shows "fst (Outbound_Create created tag m) \<noteq> Some InvalidIndexPanic"
proof (cases "map_of (om_outboundByTag m) tag")
  case None
  then show ?thesis using start_stages_no_panic [of _ ListStartStages]
    by (auto simp: Outbound_Create_def Let_def split: sum.split prod.split option.split) (metis fst_conv)+
next
  case (Some old)
  obtain as where "remove_adapter (a_id old) (om_outbounds m) = Some as"
    using registry_ok_remove [OF _ Some] assms by (auto simp: outbounds_ok_def)
  then show ?thesis using Some start_stages_no_panic [of _ ListStartStages]
    by (auto simp: Outbound_Create_def Let_def split: sum.split prod.split option.split) (metis fst_conv)+
qed

lemma outbound_reachable_create:
  assumes "outbound_reachable endpoint defaultTag closed m"
    and "case created of Inl _ \<Rightarrow> True | Inr a \<Rightarrow> a_Tag a = tag \<and> a_id a \<notin> a_id ` set (om_outbounds m)"
  shows "outbound_reachable endpoint defaultTag closed (fst (snd (Outbound_Create created tag m)))"
  using create [OF assms, of _ "fst (snd (Outbound_Create created tag m))"] by (metis prod.collapse)

lemma outbound_reachable_invariant:
  "outbound_reachable endpoint defaultTag closed m \<Longrightarrow> listed_ok m \<and> (\<not> closed \<longrightarrow> outbounds_ok m)"
proof (induction rule: outbound_reachable.induct)
  case new show ?case using outbounds_ok_new outbounds_listed by blast
next
  case (create closed m created tag e m' evs)
  then show ?case using outbounds_ok_create [of m created tag e m' evs] listed_create [of m created tag e m' evs]
    by (cases created) auto
next
  case (remove closed m tag e m' evs) then show ?case using outbounds_ok_remove listed_remove by blast
next
  case (start closed m fallback stage e m' evs) then show ?case using outbounds_ok_start listed_start by blast
next
  case (close closed m e m' evs) then show ?case using listed_close by blast
qed

lemma outbound_reachable_ok: "outbound_reachable endpoint defaultTag False m \<Longrightarrow> outbounds_ok m"
  using outbound_reachable_invariant by blast

text \<open>
  (C19) In every state an outbound manager can reach, no two listed outbounds share a tag, and looking up the tag of a listed
  outbound gives this outbound. As long as the manager has not been closed, every tag that is found without the help of the
  endpoints also belongs to a listed outbound, and neither removing nor replacing an outbound can fail with the internal
  error about its index; closing empties the list but not the map, so that both are possible afterwards.
\<close>

theorem outbound_registry_consistent:
  assumes "outbound_reachable endpoint defaultTag closed m"
  shows "distinct (map a_Tag (om_outbounds m)) \<and>
         list_all (\<lambda>a. Outbound_Get endpoint m (a_Tag a) = Some a) (om_outbounds m) \<and>
         (\<not> closed \<longrightarrow>
            list_all (\<lambda>(tag, a). a \<in> set (om_outbounds m) \<and> a_Tag a = tag) (om_outboundByTag m) \<and>
            fst (Outbound_Remove tag m) \<noteq> Some InvalidIndexPanic \<and>
            fst (Outbound_Create created tag m) \<noteq> Some InvalidIndexPanic)"
proof -
  have listed: "listed_ok m" using outbound_reachable_invariant [OF assms] by simp
  then have "list_all (\<lambda>a. Outbound_Get endpoint m (a_Tag a) = Some a) (om_outbounds m)"
    by (simp add: list_all_iff Outbound_Get_def listed_ok_def)
  moreover have "list_all (\<lambda>(tag, a). a \<in> set (om_outbounds m) \<and> a_Tag a = tag) (om_outboundByTag m) \<and>
      fst (Outbound_Remove tag m) \<noteq> Some InvalidIndexPanic \<and> fst (Outbound_Create created tag m) \<noteq> Some InvalidIndexPanic"
    if "\<not> closed"
  proof -
    have ok: "outbounds_ok m" using outbound_reachable_invariant [OF assms] that by simp
    have "list_all (\<lambda>(tag, a). a \<in> set (om_outbounds m) \<and> a_Tag a = tag) (om_outboundByTag m)"
      using ok by (force simp: list_all_iff registry_ok_def outbounds_ok_def)
    then show ?thesis using outbounds_ok_remove [OF ok] create_no_panic [OF ok] by (cases "Outbound_Remove tag m") auto
  qed
  ultimately show ?thesis using listed_tags [OF listed] by blast
qed

subsection \<open>Removing and replacing\<close>

text \<open>
  Removing an outbound that others depend on returns an error, but the outbound is gone from the list
  and from the map all the same, and it is not closed.
\<close>

theorem remove_error_still_removes:
  assumes "outbound_reachable endpoint defaultTag False m" "map_of (om_outboundByTag m) tag = Some a"
    and "om_dependByTag m tag \<noteq> []"
  shows "case Outbound_Remove tag m of (e, m', evs) \<Rightarrow>
           e = Some (DependedBy tag (om_dependByTag m tag)) \<and> map_of (om_outboundByTag m') tag = None \<and>
           a \<notin> set (om_outbounds m') \<and> evs = []"
proof -
  have reg: "registry_ok (om_outbounds m) (om_outboundByTag m)"
    using outbound_reachable_ok [OF assms(1)] by (simp add: outbounds_ok_def)
  obtain as' where "remove_adapter (a_id a) (om_outbounds m) = Some as'" "set as' = set (om_outbounds m) - {a}"
    using registry_ok_remove [OF reg assms(2)] by blast
  then show ?thesis using assms(2,3) by (simp add: Outbound_Remove_def Let_def AList.delete_conv')
qed

text \<open>
  Replacing the default outbound of a manager without a configured default tag: the old outbound is closed
  and no longer registered but stays the default one.
\<close>

theorem replaced_default_is_stale:
  assumes "outbound_reachable endpoint [] False m" "om_started m" "om_defaultTag m = []"
    and "map_of (om_outboundByTag m) tag = Some old" "om_defaultOutbound m = Some old" "a_Close old = None"
    and "tag \<noteq> []" "a_Tag a = tag" "a_id a \<notin> a_id ` set (om_outbounds m)"
    and "fst (start_stages a ListStartStages) = None"
  shows "case Outbound_Create (Inr a) tag m of (e, m', evs) \<Rightarrow>
           e = None \<and> Closed (a_id old) \<in> set evs \<and> om_defaultOutbound m' = Some old \<and> old \<notin> set (om_outbounds m')"
proof -
  have reg: "registry_ok (om_outbounds m) (om_outboundByTag m)"
    using outbound_reachable_ok [OF assms(1)] by (simp add: outbounds_ok_def)
  obtain as' where as': "remove_adapter (a_id old) (om_outbounds m) = Some as'" "set as' = set (om_outbounds m) - {old}"
    using registry_ok_replace [OF reg assms(4,8,9)] by blast
  have "old \<in> set (om_outbounds m)" using registry_ok_lookup [OF reg assms(4)] by simp
  then have "old \<noteq> a" using assms(9) by auto
  then show ?thesis using assms as'
    by (cases "start_stages a ListStartStages") (simp add: Outbound_Create_def Let_def)
qed

subsection \<open>Witnesses\<close>

definition sample_starter :: starter where
  "sample_starter = \<lparr>st_Lifecycle = None, st_PreStart = None, st_Start = Some None, st_PostStart = None\<rparr>"

definition sample_adapter :: "nat \<Rightarrow> string \<Rightarrow> string list \<Rightarrow> adapter" where
  "sample_adapter i tag deps =
     \<lparr>a_id = i, a_Type = ''direct'', a_Tag = tag, a_Dependencies = deps, a_starter = sample_starter, a_Close = None\<rparr>"

definition sample_outbounds :: "adapter list" where
  "sample_outbounds = [sample_adapter 1 ''auto'' [''proxy''], sample_adapter 2 ''proxy'' [''direct''], sample_adapter 3 ''direct'' []]"

lemmas sample_defs = sample_outbounds_def sample_adapter_def sample_starter_def

definition sample_byTag :: "(string \<times> adapter) list" where
  "sample_byTag = map (\<lambda>a. (a_Tag a, a)) sample_outbounds"

definition sample_endpoints :: "adapter list" where
  "sample_endpoints = [sample_adapter 4 ''wireguard'' [''tailscale'']]"

theorem start_outbounds_sound_witness:
  "registry_ok sample_outbounds sample_byTag \<and>
   (\<exists>trace d t. startOutbounds sample_byTag (sample_outbounds @ sample_endpoints) = (Some (DependencyNotFound d t), trace) \<and>
      (t, d) \<in> depends (sample_outbounds @ sample_endpoints) \<and> d \<notin> a_Tag ` set sample_outbounds)"
proof -
  have d: "distinct (map a_Tag (sample_outbounds @ sample_endpoints))" and t: "registry_ok sample_outbounds sample_byTag"
    by (simp_all add: sample_defs sample_byTag_def sample_endpoints_def registry_ok_def)
  have "fst (startOutbounds sample_byTag (sample_outbounds @ sample_endpoints)) =
      Some (DependencyNotFound ''tailscale'' ''wireguard'')" by code_simp
  then obtain trace where "startOutbounds sample_byTag (sample_outbounds @ sample_endpoints) =
      (Some (DependencyNotFound ''tailscale'' ''wireguard''), trace)" by (metis fst_conv surj_pair)
  then show ?thesis using start_outbounds_sound [OF d t] t by auto
qed

theorem start_outbounds_complete_witness:
  "deps_before {} (rev sample_outbounds) \<and> (\<exists>trace. startOutbounds [] sample_outbounds = (None, trace))"
proof -
  have "distinct (map a_Tag sample_outbounds)" "mset (rev sample_outbounds) = mset sample_outbounds"
    "deps_before {} (rev sample_outbounds)" "list_all (\<lambda>a. start_outbound a = None) sample_outbounds"
    by (simp_all add: sample_defs start_outbound_def)
  then show ?thesis using start_outbounds_complete [of sample_outbounds "rev sample_outbounds" "[]"] by simp
qed

definition sample_manager :: outbound_manager where
  "sample_manager =
     fst (snd (Outbound_Create (Inr (sample_adapter 2 ''proxy'' [''direct''])) ''proxy''
       (fst (snd (Outbound_Create (Inr (sample_adapter 1 ''direct'' [])) ''direct'' (NewOutboundManager []))))))"

lemma sample_manager_reachable: "outbound_reachable NewManager [] False sample_manager"
  unfolding sample_manager_def
  by (intro outbound_reachable_create new)
    (simp_all add: sample_defs NewOutboundManager_def Outbound_Create_def Let_def)

lemma sample_manager_eval:
  "om_outbounds sample_manager = [sample_adapter 1 ''direct'' [], sample_adapter 2 ''proxy'' [''direct'']]"
  "om_outboundByTag sample_manager =
     [(''direct'', sample_adapter 1 ''direct'' []), (''proxy'', sample_adapter 2 ''proxy'' [''direct''])]"
  "om_dependByTag sample_manager ''direct'' = [''proxy'']"
  by (simp_all add: sample_manager_def Outbound_Create_def NewOutboundManager_def Let_def sample_adapter_def
      record_dependency_def)

theorem outbound_registry_consistent_witness:
  "outbound_reachable NewManager [] False sample_manager \<and> distinct (map a_Tag (om_outbounds sample_manager)) \<and>
   fst (Outbound_Remove ''proxy'' sample_manager) \<noteq> Some InvalidIndexPanic"
  using outbound_registry_consistent [OF sample_manager_reachable, of "''proxy''"] sample_manager_reachable by simp

theorem remove_error_still_removes_witness:
  "case Outbound_Remove ''direct'' sample_manager of (e, m', evs) \<Rightarrow>
     e = Some (DependedBy ''direct'' [''proxy'']) \<and> map_of (om_outboundByTag m') ''direct'' = None \<and> evs = []"
  using remove_error_still_removes [OF sample_manager_reachable, of "''direct''" "sample_adapter 1 ''direct'' []"]
  by (auto simp: sample_manager_eval)

end
