(* ===== verification/Outbound_Group.thy ===== *)
theory Outbound_Group
  imports Outbound_Order "HOL-Library.Word"
begin

text \<open>
  Groups of outbounds (protocol/group/selector.go, protocol/group/urltest.go): a selector, whose member is
  chosen by the user, and a URL test group, which chooses the member with the lowest measured delay.

  Delays are 16-bit numbers of milliseconds. The outbound manager is the function \<open>outbound\<close> from tags,
  \<open>now\<close> gives the selected tag of an outbound that is a group, \<open>networks\<close> the networks of an outbound.
  Measuring, the ticker of the test loop and the interruption of connections are not modelled; that an
  interruption is requested is an effect.
\<close>

subsection \<open>Selector\<close>

record Selector =
  se_Tag :: string
  se_tags :: "string list"
  se_defaultTag :: string
  se_outbounds :: "string \<rightharpoonup> adapter"
  se_selected :: "adapter option"
  se_interruptExternalConnections :: bool

datatype group_error =
    MissingTags
  | MemberNotFound nat string
  | GroupDefaultNotFound string
  | IntervalTooLong
  | MissingHistory
  | MissingSupportedOutbound
  | UnknownNetwork string

datatype select_effect = StoreSelected string string | Interrupt bool | OnProxySelected string string | NotifyUpdated

definition NewSelector :: "string \<Rightarrow> string list \<Rightarrow> string \<Rightarrow> bool \<Rightarrow> (group_error, Selector) res" where
  "NewSelector tag tags defaultTag interrupt =
     (if tags = [] then Inl MissingTags
      else Inr \<lparr>se_Tag = tag, se_tags = tags, se_defaultTag = defaultTag, se_outbounds = Map.empty,
                se_selected = None, se_interruptExternalConnections = interrupt\<rparr>)"

definition Selector_Network :: "(adapter \<Rightarrow> string list) \<Rightarrow> Selector \<Rightarrow> string list" where
  "Selector_Network networks s =
     (case se_selected s of None \<Rightarrow> [''tcp'', ''udp''] | Some selected \<Rightarrow> networks selected)"

text \<open>The members are looked up; the index of the first that is missing is reported.\<close>

fun load_members :: "(string \<Rightarrow> adapter option) \<Rightarrow> nat \<Rightarrow> string list \<Rightarrow> (string \<rightharpoonup> adapter) \<Rightarrow> (group_error, string \<rightharpoonup> adapter) res" where
  "load_members outbound i [] members = Inr members"
| "load_members outbound i (tag # tags) members =
     (case outbound tag of
        None \<Rightarrow> Inl (MemberNotFound i tag)
      | Some detour \<Rightarrow> load_members outbound (Suc i) tags (members(tag \<mapsto> detour)))"

text \<open>\<open>cached\<close> is \<^verbatim>\<open>cacheFile.LoadSelected\<close> where there is a cache file.\<close>

definition Selector_Start ::
  "(string \<Rightarrow> adapter option) \<Rightarrow> (string \<Rightarrow> string) option \<Rightarrow> Selector \<Rightarrow> (group_error, Selector) res"
where
  "Selector_Start outbound cached s =
     bindE (load_members outbound 0 (se_tags s) (se_outbounds s)) (\<lambda>members.
       let s1 = s\<lparr>se_outbounds := members\<rparr>;
           stored = (if se_Tag s = [] then None
                     else (case cached of
                             None \<Rightarrow> None
                           | Some load \<Rightarrow> if load (se_Tag s) \<noteq> [] then members (load (se_Tag s)) else None))
       in case stored of
            Some detour \<Rightarrow> Inr (s1\<lparr>se_selected := Some detour\<rparr>)
          | None \<Rightarrow>
              if se_defaultTag s \<noteq> [] then
                (case members (se_defaultTag s) of
                   None \<Rightarrow> Inl (GroupDefaultNotFound (se_defaultTag s))
                 | Some detour \<Rightarrow> Inr (s1\<lparr>se_selected := Some detour\<rparr>))
              else Inr (s1\<lparr>se_selected := members (hd (se_tags s))\<rparr>))"

definition Selector_Now :: "Selector \<Rightarrow> string" where
  "Selector_Now s = (case se_selected s of None \<Rightarrow> hd (se_tags s) | Some selected \<Rightarrow> a_Tag selected)"

text \<open>The flags: whether there is a cache file, a callback of the application, a history of tests.\<close>

definition SelectOutbound :: "bool \<Rightarrow> bool \<Rightarrow> bool \<Rightarrow> string \<Rightarrow> Selector \<Rightarrow> bool \<times> Selector \<times> select_effect list" where
  "SelectOutbound cacheFile callback history tag s =
     (case se_outbounds s tag of
        None \<Rightarrow> (False, s, [])
      | Some detour \<Rightarrow>
          (let s1 = s\<lparr>se_selected := Some detour\<rparr> in
           if same_adapter (se_selected s) detour then (True, s1, [])
           else (True, s1,
                 (if se_Tag s \<noteq> [] \<and> cacheFile then [StoreSelected (se_Tag s) tag] else []) @
                 [Interrupt (se_interruptExternalConnections s)] @
                 (if callback then [OnProxySelected (se_Tag s) tag] else []) @
                 (if history then [NotifyUpdated] else []))))"

subsection \<open>The real outbound behind a group\<close>

text \<open>The loop may run forever when groups contain each other; \<open>None\<close> is that case.\<close>

partial_function (option) RealTag_loop ::
  "(adapter \<Rightarrow> string option) \<Rightarrow> (string \<Rightarrow> adapter option) \<Rightarrow> string \<Rightarrow> adapter \<Rightarrow> string option"
where
  "RealTag_loop now outbound tag detour =
     (case now detour of
        None \<Rightarrow> Some tag
      | Some tag1 \<Rightarrow>
          (case outbound tag1 of None \<Rightarrow> Some tag1 | Some detour1 \<Rightarrow> RealTag_loop now outbound tag1 detour1))"

definition RealTag :: "(adapter \<Rightarrow> string option) \<Rightarrow> (string \<Rightarrow> adapter option) \<Rightarrow> adapter \<Rightarrow> string option" where
  "RealTag now outbound detour = RealTag_loop now outbound (a_Tag detour) detour"

subsection \<open>URL test\<close>

record URLTestGroup =
  ug_outbounds :: "adapter list"
  ug_interval :: int
  ug_tolerance :: "16 word"
  ug_idleTimeout :: int
  ug_selectedOutboundTCP :: "adapter option"
  ug_selectedOutboundUDP :: "adapter option"
  ug_interruptExternalConnections :: bool

definition NewURLTest :: "string list \<Rightarrow> (group_error, string list) res" where
  "NewURLTest tags = (if tags = [] then Inl MissingTags else Inr tags)"

text \<open>Durations are in nanoseconds; the defaults are three and thirty minutes.\<close>

definition NewURLTestGroup ::
  "bool \<Rightarrow> adapter list \<Rightarrow> int \<Rightarrow> 16 word \<Rightarrow> int \<Rightarrow> bool \<Rightarrow> (group_error, URLTestGroup) res"
where
  "NewURLTestGroup history outbounds interval0 tolerance0 idleTimeout0 interrupt =
     (let interval = (if interval0 = 0 then 180 * 1000000000 else interval0);
          tolerance = (if tolerance0 = 0 then 50 else tolerance0);
          idleTimeout = (if idleTimeout0 = 0 then 1800 * 1000000000 else idleTimeout0)
      in if interval > idleTimeout then Inl IntervalTooLong
         else if \<not> history then Inl MissingHistory
         else Inr \<lparr>ug_outbounds = outbounds, ug_interval = interval, ug_tolerance = tolerance,
                   ug_idleTimeout = idleTimeout, ug_selectedOutboundTCP = None, ug_selectedOutboundUDP = None,
                   ug_interruptExternalConnections = interrupt\<rparr>)"

fun url_members :: "(string \<Rightarrow> adapter option) \<Rightarrow> nat \<Rightarrow> string list \<Rightarrow> (group_error, adapter list) res" where
  "url_members outbound i [] = Inr []"
| "url_members outbound i (tag # tags) =
     (case outbound tag of
        None \<Rightarrow> Inl (MemberNotFound i tag)
      | Some detour \<Rightarrow> bindE (url_members outbound (Suc i) tags) (\<lambda>rest. Inr (detour # rest)))"

definition URLTest_Start ::
  "(string \<Rightarrow> adapter option) \<Rightarrow> bool \<Rightarrow> string list \<Rightarrow> int \<Rightarrow> 16 word \<Rightarrow> int \<Rightarrow> bool \<Rightarrow> (group_error, URLTestGroup) res"
where
  "URLTest_Start outbound history tags interval tolerance idleTimeout interrupt =
     bindE (url_members outbound 0 tags) (\<lambda>outbounds.
       NewURLTestGroup history outbounds interval tolerance idleTimeout interrupt)"

definition URLTest_Now :: "URLTestGroup \<Rightarrow> string" where
  "URLTest_Now g =
     (case ug_selectedOutboundTCP g of
        Some a \<Rightarrow> a_Tag a
      | None \<Rightarrow> (case ug_selectedOutboundUDP g of Some a \<Rightarrow> a_Tag a | None \<Rightarrow> []))"

text \<open>
  \<^verbatim>\<open>Select\<close>. \<open>delay\<close> is the delay in the history of the real outbound behind an outbound, if there is one.
  The sum of a delay and the tolerance is a 16-bit number.
\<close>

fun select_loop ::
  "(adapter \<Rightarrow> string list) \<Rightarrow> (adapter \<Rightarrow> 16 word option) \<Rightarrow> string \<Rightarrow> 16 word \<Rightarrow> adapter list \<Rightarrow>
   16 word \<Rightarrow> adapter option \<Rightarrow> 16 word \<times> adapter option"
where
  "select_loop networks delay network tolerance [] minDelay minOutbound = (minDelay, minOutbound)"
| "select_loop networks delay network tolerance (detour # detours) minDelay minOutbound =
     (if network \<notin> set (networks detour) then select_loop networks delay network tolerance detours minDelay minOutbound
      else (case delay detour of
              None \<Rightarrow> select_loop networks delay network tolerance detours minDelay minOutbound
            | Some d \<Rightarrow>
                if minDelay = 0 \<or> minDelay > d + tolerance
                then select_loop networks delay network tolerance detours d (Some detour)
                else select_loop networks delay network tolerance detours minDelay minOutbound))"

definition selected_for :: "string \<Rightarrow> URLTestGroup \<Rightarrow> adapter option" where
  "selected_for network g =
     (if network = ''tcp'' then ug_selectedOutboundTCP g
      else if network = ''udp'' then ug_selectedOutboundUDP g else None)"

definition URLTestGroup_Select ::
  "(adapter \<Rightarrow> string list) \<Rightarrow> (adapter \<Rightarrow> 16 word option) \<Rightarrow> string \<Rightarrow> URLTestGroup \<Rightarrow> adapter option \<times> bool"
where
  "URLTestGroup_Select networks delay network g =
     (let start = (case selected_for network g of
                     None \<Rightarrow> (0, None)
                   | Some selected \<Rightarrow>
                       (case delay selected of None \<Rightarrow> (0, None) | Some d \<Rightarrow> (d, Some selected)))
      in case select_loop networks delay network (ug_tolerance g) (ug_outbounds g) (fst start) (snd start) of
           (_, Some minOutbound) \<Rightarrow> (Some minOutbound, True)
         | (_, None) \<Rightarrow> (find (\<lambda>detour. network \<in> set (networks detour)) (ug_outbounds g), False))"

text \<open>The delay of an outbound in the history, by the tag of the real outbound behind it.\<close>

definition history_delay ::
  "(adapter \<Rightarrow> string option) \<Rightarrow> (string \<Rightarrow> adapter option) \<Rightarrow> (string \<Rightarrow> 16 word option) \<Rightarrow> adapter \<Rightarrow> 16 word option option"
where
  "history_delay now outbound history a = map_option history (RealTag now outbound a)"

text \<open>\<^verbatim>\<open>performUpdateCheck\<close>: the new state, and whether existing connections are interrupted.\<close>

definition update_selected :: "adapter option \<times> bool \<Rightarrow> adapter option \<Rightarrow> bool \<times> adapter option" where
  "update_selected result selected =
     (case result of
        (Some outbound, exists) \<Rightarrow>
          if selected = None \<or> (exists \<and> \<not> same_adapter selected outbound)
          then (selected \<noteq> None, Some outbound) else (False, selected)
      | (None, _) \<Rightarrow> (False, selected))"

definition performUpdateCheck ::
  "(adapter \<Rightarrow> string list) \<Rightarrow> (adapter \<Rightarrow> 16 word option) \<Rightarrow> URLTestGroup \<Rightarrow> URLTestGroup \<times> select_effect list"
where
  "performUpdateCheck networks delay g =
     (case update_selected (URLTestGroup_Select networks delay ''tcp'' g) (ug_selectedOutboundTCP g) of
        (updated1, tcp) \<Rightarrow>
          (let g1 = g\<lparr>ug_selectedOutboundTCP := tcp\<rparr> in
           case update_selected (URLTestGroup_Select networks delay ''udp'' g1) (ug_selectedOutboundUDP g1) of
             (updated2, udp) \<Rightarrow>
               (g1\<lparr>ug_selectedOutboundUDP := udp\<rparr>,
                if updated1 \<or> updated2 then [Interrupt (ug_interruptExternalConnections g)] else [])))"

text \<open>
  The outbound that dials a connection of a network; \<open>networkName\<close> is \<^verbatim>\<open>N.NetworkName\<close>. \<^verbatim>\<open>Select\<close> is called with
  the network itself.
\<close>

definition dial_outbound ::
  "(string \<Rightarrow> string) \<Rightarrow> (adapter \<Rightarrow> string list) \<Rightarrow> (adapter \<Rightarrow> 16 word option) \<Rightarrow> string \<Rightarrow> URLTestGroup \<Rightarrow>
   (group_error, adapter) res"
where
  "dial_outbound networkName networks delay network g =
     (if networkName network \<noteq> ''tcp'' \<and> networkName network \<noteq> ''udp'' then Inl (UnknownNetwork network)
      else (case selected_for (networkName network) g of
              Some a \<Rightarrow> Inr a
            | None \<Rightarrow>
                (case fst (URLTestGroup_Select networks delay network g) of
                   Some a \<Rightarrow> Inr a | None \<Rightarrow> Inl MissingSupportedOutbound)))"

end
