(* ===== verification/Group_Properties.thy ===== *)
theory Group_Properties
  imports Outbound_Group
begin

text \<open>
  Properties of outbound groups: the choice of a URL test group, when it changes, and that following
  groups to a real outbound ends.
\<close>

subsection \<open>The choice of a URL test group\<close>

text \<open>The candidates for a network: members that support it and have a measured delay.\<close>

definition candidate :: "(adapter \<Rightarrow> string list) \<Rightarrow> (adapter \<Rightarrow> 16 word option) \<Rightarrow> string \<Rightarrow> adapter \<Rightarrow> 16 word \<Rightarrow> bool" where
  "candidate networks delay network a d \<longleftrightarrow> network \<in> set (networks a) \<and> delay a = Some d"

text \<open>No candidate has a delay of zero, and no sum of a delay and the tolerance overflows.\<close>

definition delays_ok ::
  "(adapter \<Rightarrow> string list) \<Rightarrow> (adapter \<Rightarrow> 16 word option) \<Rightarrow> string \<Rightarrow> 16 word \<Rightarrow> adapter list \<Rightarrow> bool"
where
  "delays_ok networks delay network tolerance as \<longleftrightarrow>
     (\<forall>a\<in>set as. \<forall>d. candidate networks delay network a d \<longrightarrow> d \<noteq> 0 \<and> unat d + unat tolerance < 2 ^ 16)"

lemma less_sum_unat:
  fixes d t m :: "16 word"
  assumes "unat d + unat t < 2 ^ 16"
  shows "m > d + t \<longleftrightarrow> unat m > unat d + unat t"
  using assms by (simp add: word_less_nat_alt unat_word_ariths)

text \<open>The state of the loop: nothing yet, or an outbound with its delay.\<close>

definition min_ok :: "(adapter \<Rightarrow> 16 word option) \<Rightarrow> 16 word \<Rightarrow> adapter option \<Rightarrow> bool" where
  "min_ok delay minDelay minOutbound \<longleftrightarrow>
     (case minOutbound of None \<Rightarrow> minDelay = 0 | Some b \<Rightarrow> minDelay \<noteq> 0 \<and> delay b = Some minDelay)"

text \<open>A member is taken exactly when it is a candidate that is faster by more than the tolerance.\<close>

definition taken ::
  "(adapter \<Rightarrow> string list) \<Rightarrow> (adapter \<Rightarrow> 16 word option) \<Rightarrow> string \<Rightarrow> 16 word \<Rightarrow> 16 word \<Rightarrow> adapter \<Rightarrow> 16 word \<Rightarrow> bool"
where
  "taken networks delay network tolerance minDelay a d \<longleftrightarrow>
     candidate networks delay network a d \<and> (minDelay = 0 \<or> minDelay > d + tolerance)"

lemma select_loop_taken:
  "taken networks delay network tolerance minDelay a d \<Longrightarrow>
   select_loop networks delay network tolerance (a # as) minDelay minOutbound =
   select_loop networks delay network tolerance as d (Some a)"
  by (simp add: taken_def candidate_def)

lemma select_loop_passed:
  "\<nexists>d. taken networks delay network tolerance minDelay a d \<Longrightarrow>
   select_loop networks delay network tolerance (a # as) minDelay minOutbound =
   select_loop networks delay network tolerance as minDelay minOutbound"
  by (simp add: taken_def candidate_def split: option.split)

declare select_loop.simps(2) [simp del]

lemma delays_okD:
  assumes "delays_ok networks delay network tolerance as" "a \<in> set as" "candidate networks delay network a d"
  shows "d \<noteq> 0" "unat d + unat tolerance < 2 ^ 16"
  using assms unfolding delays_ok_def by blast+

lemma delays_ok_Cons: "delays_ok networks delay network tolerance (a # as) \<Longrightarrow> delays_ok networks delay network tolerance as"
  by (simp add: delays_ok_def)

lemma min_ok_taken:
  assumes "delays_ok networks delay network tolerance as" "a \<in> set as" "taken networks delay network tolerance minDelay a d"
  shows "min_ok delay d (Some a)"
  using delays_okD [OF assms(1,2), of d] assms(3) by (simp add: min_ok_def taken_def candidate_def)

lemma select_loop_invariant:
  assumes "delays_ok networks delay network tolerance as" "min_ok delay minDelay minOutbound"
    and "select_loop networks delay network tolerance as minDelay minOutbound = (d', r)"
  shows "min_ok delay d' r \<and> (minOutbound \<noteq> None \<longrightarrow> r \<noteq> None \<and> unat d' \<le> unat minDelay) \<and>
         (r = minOutbound \<or> (\<exists>b. r = Some b \<and> b \<in> set as \<and> network \<in> set (networks b)))"
  using assms
proof (induction as arbitrary: minDelay minOutbound)
  case Nil then show ?case by simp
next
  case (Cons a as)
  note ok = delays_ok_Cons [OF Cons.prems(1)]
  show ?case
  proof (cases "\<exists>d. taken networks delay network tolerance minDelay a d")
    case True
    then obtain d where d: "taken networks delay network tolerance minDelay a d" ..
    have step: "select_loop networks delay network tolerance as d (Some a) = (d', r)"
      using Cons.prems(3) select_loop_taken [OF d] by simp
    have cand: "candidate networks delay network a d" using d by (simp add: taken_def)
    have "unat d \<le> unat minDelay" if "minOutbound \<noteq> None"
    proof -
      have "minDelay \<noteq> 0" using Cons.prems(2) that by (auto simp: min_ok_def)
      then show ?thesis
        using d less_sum_unat [OF delays_okD(2) [OF Cons.prems(1) _ cand], of minDelay] by (simp add: taken_def)
    qed
    then show ?thesis
      using Cons.IH [OF ok min_ok_taken [OF Cons.prems(1) _ d] step] cand by (auto simp: candidate_def)
  next
    case False
    then have "select_loop networks delay network tolerance as minDelay minOutbound = (d', r)"
      using Cons.prems(3) select_loop_passed [of networks delay network tolerance minDelay a as minOutbound] by simp
    from Cons.IH [OF ok Cons.prems(2) this] show ?thesis by auto
  qed
qed

lemma select_loop_fastest:
  assumes "delays_ok networks delay network tolerance as" "min_ok delay minDelay minOutbound"
    and "select_loop networks delay network tolerance as minDelay minOutbound = (d', r)"
    and "x \<in> set as" "candidate networks delay network x dx"
  shows "r \<noteq> None \<and> unat d' \<le> unat dx + unat tolerance"
  using assms
proof (induction as arbitrary: minDelay minOutbound)
  case (Cons a as)
  note ok = delays_ok_Cons [OF Cons.prems(1)]
  show ?case
  proof (cases "\<exists>d. taken networks delay network tolerance minDelay a d")
    case True
    then obtain d where d: "taken networks delay network tolerance minDelay a d" ..
    have step: "select_loop networks delay network tolerance as d (Some a) = (d', r)"
      using Cons.prems(3) select_loop_taken [OF d] by simp
    note min_a = min_ok_taken [OF Cons.prems(1) _ d]
    show ?thesis
    proof (cases "x = a")
      case True
      then have "dx = d" using d Cons.prems(5) by (simp add: taken_def candidate_def)
      then show ?thesis using select_loop_invariant [OF ok min_a step] by auto
    next
      case False
      then show ?thesis using Cons.IH [OF ok min_a step _ Cons.prems(5)] Cons.prems(4) by simp
    qed
  next
    case False
    then have step: "select_loop networks delay network tolerance as minDelay minOutbound = (d', r)"
      using Cons.prems(3) select_loop_passed [of networks delay network tolerance minDelay a as minOutbound] by simp
    show ?thesis
    proof (cases "x = a")
      case True
      then have "minDelay \<noteq> 0" "\<not> minDelay > dx + tolerance" using False Cons.prems(5) by (auto simp: taken_def)
      moreover from this have "minOutbound \<noteq> None" using Cons.prems(2) by (cases minOutbound) (auto simp: min_ok_def)
      moreover have "unat minDelay \<le> unat dx + unat tolerance"
        using calculation(2) less_sum_unat [OF delays_okD(2) [OF Cons.prems(1,4,5)], of minDelay] by simp
      ultimately show ?thesis using select_loop_invariant [OF ok Cons.prems(2) step] by auto
    next
      case False
      then show ?thesis using Cons.IH [OF ok Cons.prems(2) step _ Cons.prems(5)] Cons.prems(4) by simp
    qed
  qed
qed simp

text \<open>
  (C20) A URL test group selects an outbound whose delay is at most the tolerance above the delay of every
  member that supports the network and was measured, provided that no delay is zero and delay and
  tolerance do not overflow together. The outbound is the one selected before or a member that supports
  the network.
\<close>

theorem urltest_selects_fastest:
  assumes "delays_ok networks delay network (ug_tolerance g) (ug_outbounds g)"
    and "\<forall>b. selected_for network g = Some b \<longrightarrow> delay b \<noteq> Some 0"
    and "a \<in> set (ug_outbounds g)" "candidate networks delay network a d"
  shows "\<exists>b d'. URLTestGroup_Select networks delay network g = (Some b, True) \<and> delay b = Some d' \<and>
           unat d' \<le> unat d + unat (ug_tolerance g) \<and>
           (selected_for network g = Some b \<or> b \<in> set (ug_outbounds g) \<and> network \<in> set (networks b))"
proof -
  define start where "start = (case selected_for network g of None \<Rightarrow> (0, None)
    | Some selected \<Rightarrow> (case delay selected of None \<Rightarrow> (0, None) | Some d \<Rightarrow> (d, Some selected)))"
  have inv: "min_ok delay (fst start) (snd start)"
    using assms(2) by (auto simp: start_def min_ok_def split: option.split)
  have sel: "snd start = None \<or> snd start = selected_for network g"
    by (auto simp: start_def split: option.split)
  obtain d' r where loop:
      "select_loop networks delay network (ug_tolerance g) (ug_outbounds g) (fst start) (snd start) = (d', r)"
    by fastforce
  note fast = select_loop_fastest [OF assms(1) inv loop assms(3,4)]
  then obtain b where b: "r = Some b" by blast
  have "URLTestGroup_Select networks delay network g = (Some b, True)"
    using loop b by (simp add: URLTestGroup_Select_def Let_def start_def [symmetric])
  then show ?thesis
    using select_loop_invariant [OF assms(1) inv loop] fast b sel by (auto simp: min_ok_def)
qed

subsection \<open>When the choice changes\<close>

text \<open>The selected outbound has a delay, and no candidate is faster by more than the tolerance.\<close>

definition settled :: "(adapter \<Rightarrow> string list) \<Rightarrow> (adapter \<Rightarrow> 16 word option) \<Rightarrow> string \<Rightarrow> URLTestGroup \<Rightarrow> bool" where
  "settled networks delay network g \<longleftrightarrow>
     (\<exists>b db. selected_for network g = Some b \<and> delay b = Some db \<and> db \<noteq> 0 \<and>
        (\<forall>a\<in>set (ug_outbounds g). \<forall>d. candidate networks delay network a d \<longrightarrow>
           unat d + unat (ug_tolerance g) < 2 ^ 16 \<and> unat db \<le> unat d + unat (ug_tolerance g)))"

lemma select_loop_keeps:
  assumes "\<forall>a\<in>set as. \<forall>d. \<not> taken networks delay network tolerance minDelay a d"
  shows "select_loop networks delay network tolerance as minDelay minOutbound = (minDelay, minOutbound)"
  using assms
proof (induction as)
  case (Cons a as)
  then show ?case using select_loop_passed [of networks delay network tolerance minDelay a as minOutbound] by simp
qed simp

lemma settled_select:
  assumes "settled networks delay network g"
  shows "\<exists>b. selected_for network g = Some b \<and> URLTestGroup_Select networks delay network g = (Some b, True)"
proof -
  obtain b db where b: "selected_for network g = Some b" "delay b = Some db" "db \<noteq> 0"
    and all: "\<forall>a\<in>set (ug_outbounds g). \<forall>d. candidate networks delay network a d \<longrightarrow>
           unat d + unat (ug_tolerance g) < 2 ^ 16 \<and> unat db \<le> unat d + unat (ug_tolerance g)"
    using assms by (auto simp: settled_def)
  have "\<forall>a\<in>set (ug_outbounds g). \<forall>d. \<not> taken networks delay network (ug_tolerance g) db a d"
    using all b(3) less_sum_unat by (fastforce simp: taken_def)
  from select_loop_keeps [OF this, of "Some b"] show ?thesis
    using b by (simp add: URLTestGroup_Select_def)
qed

text \<open>
  As long as no measured member is faster than the selected outbound by more than the tolerance, for
  TCP and for UDP, the periodic check leaves the group as it is and interrupts no connection.
\<close>

theorem urltest_keeps_selection:
  assumes "settled networks delay ''tcp'' g" "settled networks delay ''udp'' g"
  shows "performUpdateCheck networks delay g = (g, [])"
proof -
  obtain b c where sel: "ug_selectedOutboundTCP g = Some b" "URLTestGroup_Select networks delay ''tcp'' g = (Some b, True)"
      "ug_selectedOutboundUDP g = Some c" "URLTestGroup_Select networks delay ''udp'' g = (Some c, True)"
    using settled_select [OF assms(1)] settled_select [OF assms(2)] by (auto simp: selected_for_def)
  then have same: "g\<lparr>ug_selectedOutboundTCP := Some b\<rparr> = g" "g\<lparr>ug_selectedOutboundUDP := Some c\<rparr> = g" by simp_all
  show ?thesis
    by (simp add: performUpdateCheck_def update_selected_def same_adapter_def Let_def sel same)
qed

subsection \<open>Following groups\<close>

text \<open>
  When every group names one of its dependencies, or a tag that does not exist, and the outbounds are in an
  order in which each comes after its dependencies, the search for the real outbound ends.
\<close>

lemma RealTag_ends_order:
  assumes "distinct (map a_Tag order)" "deps_before {} order"
    and found: "\<forall>t d. outbound t = Some d \<longrightarrow> d \<in> set order \<and> a_Tag d = t"
    and group: "\<forall>a\<in>set order. \<forall>t. now a = Some t \<longrightarrow> t \<in> set (a_Dependencies a) \<or> outbound t = None"
    and "order = xs @ a # ys"
  shows "\<exists>t. RealTag now outbound a = Some t \<and>
           (outbound t = None \<or> (\<exists>d\<in>set order. a_Tag d = t \<and> now d = None))"
  using assms(5)
proof (induction "length xs" arbitrary: xs a ys rule: less_induct)
  case less
  show ?case
  proof (cases "now a")
    case None
    then have "RealTag now outbound a = Some (a_Tag a)" by (simp add: RealTag_def RealTag_loop.simps)
    then show ?thesis using None less.prems by auto
  next
    case group_of: (Some t)
    show ?thesis
    proof (cases "outbound t")
      case None
      then have "RealTag now outbound a = Some t" using group_of by (simp add: RealTag_def RealTag_loop.simps)
      then show ?thesis using None by simp
    next
      case (Some d)
      have d: "d \<in> set order" "a_Tag d = t" using found Some by auto
      have "t \<in> set (a_Dependencies a)" using group group_of Some less.prems by auto
      then obtain b where "b \<in> set xs" "a_Tag b = t"
        using assms(2) less.prems by (auto simp: deps_before_append)
      then have "d \<in> set xs" using d assms(1) less.prems
        by (metis (no_types, lifting) distinct_map inj_onD in_set_conv_decomp append_assoc append_Cons)
      then obtain us vs where split: "xs = us @ d # vs" by (meson split_list)
      have "RealTag now outbound a = RealTag now outbound d"
        using group_of Some d(2) by (simp add: RealTag_def RealTag_loop.simps [of now outbound _ a])
      then show ?thesis using less.hyps [of us d "vs @ a # ys"] less.prems split by simp
    qed
  qed
qed

subsection \<open>A group names one of its members\<close>

text \<open>
  A selector between its creation and its end, and a URL test group from its start on; \<open>tags\<close> are the
  members that the group was configured with, which are its dependencies too.
\<close>

inductive selector_reachable :: "(string \<Rightarrow> adapter option) \<Rightarrow> string list \<Rightarrow> Selector \<Rightarrow> bool" for outbound tags where
  new: "NewSelector tag tags defaultTag interrupt = Inr s \<Longrightarrow> selector_reachable outbound tags s"
| start: "selector_reachable outbound tags s \<Longrightarrow> Selector_Start outbound cached s = Inr s' \<Longrightarrow>
     selector_reachable outbound tags s'"
| select: "selector_reachable outbound tags s \<Longrightarrow> SelectOutbound cacheFile callback history tag s = (selected, s', effects) \<Longrightarrow>
     selector_reachable outbound tags s'"

inductive url_test_reachable :: "(string \<Rightarrow> adapter option) \<Rightarrow> string list \<Rightarrow> URLTestGroup \<Rightarrow> bool" for outbound tags where
  start: "URLTest_Start outbound history tags interval tolerance idleTimeout interrupt = Inr g \<Longrightarrow>
     url_test_reachable outbound tags g"
| update: "url_test_reachable outbound tags g \<Longrightarrow> performUpdateCheck networks delay g = (g', effects) \<Longrightarrow>
     url_test_reachable outbound tags g'"

definition named_by :: "(string \<rightharpoonup> adapter) \<Rightarrow> bool" where
  "named_by outbound \<longleftrightarrow> (\<forall>t d. outbound t = Some d \<longrightarrow> a_Tag d = t)"

definition members_ok :: "string list \<Rightarrow> (string \<rightharpoonup> adapter) \<Rightarrow> bool" where
  "members_ok tags members \<longleftrightarrow> named_by members \<and> dom members \<subseteq> set tags"

lemma load_members_ok:
  assumes "load_members outbound i ts members = Inr members'" "named_by outbound" "set ts \<subseteq> set tags"
    and "members_ok tags members"
  shows "members_ok tags members'"
  using assms
proof (induction ts arbitrary: i members)
  case (Cons t ts)
  then obtain d where d: "outbound t = Some d" "load_members outbound (Suc i) ts (members(t \<mapsto> d)) = Inr members'"
    by (auto split: option.splits)
  have "members_ok tags (members(t \<mapsto> d))"
    using Cons.prems(2-4) d(1) by (auto simp: members_ok_def named_by_def)
  then show ?case using Cons.IH [OF d(2) Cons.prems(2)] Cons.prems(3) by (meson set_subset_Cons subset_trans)
qed simp

lemma selector_reachable_ok:
  assumes "selector_reachable outbound tags s" "named_by outbound"
  shows "se_tags s = tags \<and> tags \<noteq> [] \<and> members_ok tags (se_outbounds s) \<and>
         (\<forall>d. se_selected s = Some d \<longrightarrow> a_Tag d \<in> set tags)"
  using assms(1)
proof (induction rule: selector_reachable.induct)
  case (new tag defaultTag interrupt s)
  then show ?case by (auto simp: NewSelector_def members_ok_def named_by_def split: if_splits)
next
  case (start s cached s')
  obtain members where m: "load_members outbound 0 (se_tags s) (se_outbounds s) = Inr members"
    using start.hyps(2) by (auto simp: Selector_Start_def)
  have ok: "members_ok tags members"
    using load_members_ok [OF m assms(2)] start.IH by simp
  then have tag: "a_Tag d \<in> set tags" if "members t = Some d" for t d
    using that by (auto simp: members_ok_def named_by_def)
  show ?case
    using start.hyps(2) start.IH m ok tag
    by (auto simp: Selector_Start_def Let_def split: option.splits if_splits)
next
  case (select s cacheFile callback history tag selected s' effects)
  then show ?case
    by (auto simp: SelectOutbound_def Let_def members_ok_def named_by_def split: option.splits if_splits)
qed

lemma Selector_Now_member:
  assumes "selector_reachable outbound tags s" "named_by outbound"
  shows "Selector_Now s \<in> set tags"
  using selector_reachable_ok [OF assms] by (auto simp: Selector_Now_def split: option.split)

lemma url_members_ok:
  "url_members outbound i tags = Inr as \<Longrightarrow> named_by outbound \<Longrightarrow> set (map a_Tag as) \<subseteq> set tags"
proof (induction tags arbitrary: i as)
  case (Cons t tags)
  then obtain d rest where "outbound t = Some d" "url_members outbound (Suc i) tags = Inr rest" "as = d # rest"
    by (auto split: option.splits)
  then show ?case using Cons.IH Cons.prems(2) by (fastforce simp: named_by_def)
qed simp

lemma select_loop_member:
  assumes "snd (select_loop networks delay network tolerance as minDelay minOutbound) = Some a"
  shows "a \<in> set as \<or> minOutbound = Some a"
  using assms
proof (induction as arbitrary: minDelay minOutbound)
  case (Cons b as)
  show ?case
  proof (cases "\<exists>d. taken networks delay network tolerance minDelay b d")
    case True
    then show ?thesis using Cons select_loop_taken by fastforce
  next
    case False
    then show ?thesis using Cons.IH Cons.prems select_loop_passed by fastforce
  qed
qed simp

lemma URLTestGroup_Select_member:
  assumes "fst (URLTestGroup_Select networks delay network g) = Some a"
  shows "a \<in> set (ug_outbounds g) \<or> selected_for network g = Some a"
proof -
  let ?start = "case selected_for network g of None \<Rightarrow> (0, None)
    | Some selected \<Rightarrow> (case delay selected of None \<Rightarrow> (0, None) | Some d \<Rightarrow> (d, Some selected))"
  obtain d r where l: "select_loop networks delay network (ug_tolerance g) (ug_outbounds g) (fst ?start) (snd ?start) = (d, r)"
    by fastforce
  have start: "snd ?start = Some a \<Longrightarrow> selected_for network g = Some a"
    by (auto split: option.splits)
  show ?thesis
  proof (cases r)
    case None
    then show ?thesis using assms l by (auto simp: URLTestGroup_Select_def Let_def find_Some_iff)
  next
    case (Some b)
    then have "b = a" using assms l by (simp add: URLTestGroup_Select_def Let_def)
    then show ?thesis using select_loop_member [of networks delay network "ug_tolerance g" "ug_outbounds g" "fst ?start" "snd ?start" a] l Some start by auto
  qed
qed

lemma url_test_reachable_ok:
  assumes "url_test_reachable outbound tags g" "named_by outbound"
  shows "(\<forall>a\<in>set (ug_outbounds g). a_Tag a \<in> set tags) \<and>
         (\<forall>a. ug_selectedOutboundTCP g = Some a \<or> ug_selectedOutboundUDP g = Some a \<longrightarrow> a_Tag a \<in> set tags)"
  using assms(1)
proof (induction rule: url_test_reachable.induct)
  case (start history interval tolerance idleTimeout interrupt g)
  then obtain as where "url_members outbound 0 tags = Inr as" "ug_outbounds g = as"
      "ug_selectedOutboundTCP g = None" "ug_selectedOutboundUDP g = None"
    by (auto simp: URLTest_Start_def NewURLTestGroup_def Let_def split: if_splits)
  then show ?case using url_members_ok [OF _ assms(2)] by fastforce
next
  case (update g networks delay g' effects)
  have sel: "a_Tag a \<in> set tags"
    if "fst (URLTestGroup_Select networks delay network h) = Some a" "ug_outbounds h = ug_outbounds g"
      "\<forall>b. selected_for network h = Some b \<longrightarrow> a_Tag b \<in> set tags" for network h a
    using URLTestGroup_Select_member [OF that(1)] that(2,3) update.IH by auto
  have upd: "a_Tag a \<in> set tags"
    if "snd (update_selected result selected) = Some a" "\<forall>b. selected = Some b \<longrightarrow> a_Tag b \<in> set tags"
      "\<forall>b. fst result = Some b \<longrightarrow> a_Tag b \<in> set tags" for result selected a
    using that by (auto simp: update_selected_def split: prod.splits option.splits if_splits)
  obtain u1 tcp where 1: "update_selected (URLTestGroup_Select networks delay ''tcp'' g) (ug_selectedOutboundTCP g) = (u1, tcp)"
    by fastforce
  let ?g1 = "g\<lparr>ug_selectedOutboundTCP := tcp\<rparr>"
  obtain u2 udp where 2: "update_selected (URLTestGroup_Select networks delay ''udp'' ?g1) (ug_selectedOutboundUDP ?g1) = (u2, udp)"
    by fastforce
  have g': "g' = ?g1\<lparr>ug_selectedOutboundUDP := udp\<rparr>" using update.hyps(2) 1 2 by (simp add: performUpdateCheck_def)
  have "a_Tag a \<in> set tags" if "tcp = Some a" for a
    using upd [of "URLTestGroup_Select networks delay ''tcp'' g" "ug_selectedOutboundTCP g"] sel [of "''tcp''" g] 1 that update.IH
    by (simp add: selected_for_def)
  moreover have "a_Tag a \<in> set tags" if "udp = Some a" for a
    using upd [of "URLTestGroup_Select networks delay ''udp'' ?g1" "ug_selectedOutboundUDP ?g1"] sel [of "''udp''" ?g1] 2 that update.IH
    by (simp add: selected_for_def)
  ultimately show ?case using g' update.IH by auto
qed

lemma URLTest_Now_member:
  assumes "url_test_reachable outbound tags g" "named_by outbound"
  shows "URLTest_Now g \<in> set tags \<or> URLTest_Now g = []"
  using url_test_reachable_ok [OF assms] by (auto simp: URLTest_Now_def split: option.split)

text \<open>
  (C22) After a successful start of the outbounds, the search for the real outbound behind any of them ends:
  it gives the tag of an outbound that is no group, or a tag that is not registered. A group names one of
  its members, which are its dependencies, or a tag that is not registered; selectors and URL test groups
  do so in every state they reach (\<open>Selector_Now_member\<close>, \<open>URLTest_Now_member\<close>).
\<close>

theorem real_tag_ends:
  assumes "distinct (map a_Tag as)" "startOutbounds byTag as = (None, trace)"
    and "\<forall>t d. outbound t = Some d \<longrightarrow> d \<in> set as \<and> a_Tag d = t"
    and "\<forall>a\<in>set as. \<forall>t. now a = Some t \<longrightarrow> t \<in> set (a_Dependencies a) \<or> outbound t = None"
    and "a \<in> set as"
  shows "\<exists>t. RealTag now outbound a = Some t \<and> (outbound t = None \<or> (\<exists>d\<in>set as. a_Tag d = t \<and> now d = None))"
proof -
  have mset: "mset trace = mset as" and deps: "deps_before {} trace" using startOutbounds_order [OF assms(1,2)] .
  have set: "set trace = set as" using mset_eq_setD [OF mset] .
  have "mset (map a_Tag trace) = mset (map a_Tag as)" using mset by simp
  then have dist: "distinct (map a_Tag trace)" using assms(1) by (metis mset_eq_imp_distinct_iff)
  have found: "\<forall>t d. outbound t = Some d \<longrightarrow> d \<in> set trace \<and> a_Tag d = t" using assms(3) set by simp
  have groups: "\<forall>a\<in>set trace. \<forall>t. now a = Some t \<longrightarrow> t \<in> set (a_Dependencies a) \<or> outbound t = None"
    using assms(4) set by simp
  obtain xs ys where split: "trace = xs @ a # ys" using assms(5) set by (metis split_list)
  show ?thesis using RealTag_ends_order [OF dist deps found groups split] by (simp only: set)
qed

subsection \<open>Two overflows\<close>

definition sample_member :: "nat \<Rightarrow> string \<Rightarrow> adapter" where
  "sample_member i tag =
     \<lparr>a_id = i, a_Type = ''direct'', a_Tag = tag, a_Dependencies = [],
      a_starter = \<lparr>st_Lifecycle = None, st_PreStart = None, st_Start = None, st_PostStart = None\<rparr>, a_Close = None\<rparr>"

definition sample_group :: "16 word \<Rightarrow> adapter list \<Rightarrow> adapter option \<Rightarrow> URLTestGroup" where
  "sample_group tolerance members selected =
     \<lparr>ug_outbounds = members, ug_interval = 60, ug_tolerance = tolerance, ug_idleTimeout = 60,
      ug_selectedOutboundTCP = selected, ug_selectedOutboundUDP = selected, ug_interruptExternalConnections = False\<rparr>"

text \<open>
  A member with a measured delay of zero milliseconds loses to every later member: with the delays 0 and
  900 the second one is selected.
\<close>

theorem zero_delay_loses:
  "URLTestGroup_Select (\<lambda>_. [''tcp'']) (\<lambda>a. if a_id a = 1 then Some 0 else Some 900) ''tcp''
     (sample_group 50 [sample_member 1 ''near'', sample_member 2 ''far''] (Some (sample_member 1 ''near''))) =
   (Some (sample_member 2 ''far''), True)"
  by (simp add: URLTestGroup_Select_def sample_group_def sample_member_def selected_for_def select_loop.simps)

text \<open>
  The sum of delay and tolerance wraps: with a tolerance of 64000 milliseconds an outbound with a delay of
  2000 is given up for one with a delay of 3000.
\<close>

theorem tolerance_wraps:
  "URLTestGroup_Select (\<lambda>_. [''tcp'']) (\<lambda>a. if a_id a = 1 then Some 2000 else Some 3000) ''tcp''
     (sample_group 64000 [sample_member 1 ''fast'', sample_member 2 ''slow''] (Some (sample_member 1 ''fast''))) =
   (Some (sample_member 2 ''slow''), True)"
  by (simp add: URLTestGroup_Select_def sample_group_def sample_member_def selected_for_def select_loop.simps)

subsection \<open>Witnesses\<close>

definition sample_delay :: "adapter \<Rightarrow> 16 word option" where
  "sample_delay a = (if a_id a = 1 then Some 100 else Some 300)"

definition sample_members :: "adapter list" where
  "sample_members = [sample_member 2 ''far'', sample_member 1 ''near'']"

lemma sample_candidate:
  "candidate (\<lambda>_. [''tcp'', ''udp'']) sample_delay network a d \<longleftrightarrow>
   network \<in> {''tcp'', ''udp''} \<and> d = (if a_id a = 1 then 100 else 300)"
  by (auto simp: candidate_def sample_delay_def)

theorem urltest_selects_fastest_witness:
  "\<exists>b d'. URLTestGroup_Select (\<lambda>_. [''tcp'', ''udp'']) sample_delay ''tcp'' (sample_group 50 sample_members None) = (Some b, True) \<and>
     sample_delay b = Some d' \<and> unat d' \<le> 150"
proof -
  have 1: "delays_ok (\<lambda>_. [''tcp'', ''udp'']) sample_delay ''tcp'' (ug_tolerance (sample_group 50 sample_members None))
      (ug_outbounds (sample_group 50 sample_members None))"
    by (simp add: delays_ok_def sample_candidate sample_group_def)
  have 2: "\<forall>b. selected_for ''tcp'' (sample_group 50 sample_members None) = Some b \<longrightarrow> sample_delay b \<noteq> Some 0"
    by (simp add: selected_for_def sample_group_def)
  have 3: "sample_member 1 ''near'' \<in> set (ug_outbounds (sample_group 50 sample_members None))"
    by (simp add: sample_group_def sample_members_def)
  have 4: "candidate (\<lambda>_. [''tcp'', ''udp'']) sample_delay ''tcp'' (sample_member 1 ''near'') 100"
    by (simp add: sample_candidate sample_member_def)
  show ?thesis using urltest_selects_fastest [OF 1 2 3 4] by (auto simp: sample_group_def)
qed

theorem urltest_keeps_selection_witness:
  "performUpdateCheck (\<lambda>_. [''tcp'', ''udp'']) sample_delay
     (sample_group 200 sample_members (Some (sample_member 2 ''far''))) =
   (sample_group 200 sample_members (Some (sample_member 2 ''far'')), [])"
proof -
  have "settled (\<lambda>_. [''tcp'', ''udp'']) sample_delay network (sample_group 200 sample_members (Some (sample_member 2 ''far'')))"
    if "network = ''tcp'' \<or> network = ''udp''" for network
    using that
    by (auto simp: settled_def selected_for_def sample_group_def sample_candidate sample_delay_def sample_member_def)
  then show ?thesis using urltest_keeps_selection by blast
qed

definition sample_tree :: "adapter list" where
  "sample_tree = [(sample_member 1 ''auto'')\<lparr>a_Dependencies := [''near'']\<rparr>, sample_member 2 ''near'']"

definition sample_now :: "adapter \<Rightarrow> string option" where
  "sample_now a = (if a_Tag a = ''auto'' then Some ''near'' else None)"

definition sample_lookup :: "string \<Rightarrow> adapter option" where
  "sample_lookup t = map_of (map (\<lambda>a. (a_Tag a, a)) sample_tree) t"

lemma sample_tree_started: "\<exists>trace. startOutbounds [] sample_tree = (None, trace)"
  by (simp add: startOutbounds_def start_loop.simps sample_tree_def sample_member_def start_outbound_def)

theorem real_tag_ends_witness:
  "\<exists>t. RealTag sample_now sample_lookup (hd sample_tree) = Some t \<and>
     (sample_lookup t = None \<or> (\<exists>d\<in>set sample_tree. a_Tag d = t \<and> sample_now d = None))"
proof -
  obtain trace where 1: "startOutbounds [] sample_tree = (None, trace)" using sample_tree_started by blast
  have 2: "distinct (map a_Tag sample_tree)" by (simp add: sample_tree_def sample_member_def)
  have 3: "\<forall>t d. sample_lookup t = Some d \<longrightarrow> d \<in> set sample_tree \<and> a_Tag d = t"
    by (auto simp: sample_lookup_def sample_tree_def sample_member_def split: if_splits)
  have 4: "\<forall>a\<in>set sample_tree. \<forall>t. sample_now a = Some t \<longrightarrow> t \<in> set (a_Dependencies a) \<or> sample_lookup t = None"
    by (simp add: sample_now_def sample_tree_def sample_member_def)
  have 5: "hd sample_tree \<in> set sample_tree" by (simp add: sample_tree_def)
  show ?thesis using real_tag_ends [OF 2 1 3 4 5] .
qed

end
