(* ===== verification/DNS_Query.thy ===== *)
theory DNS_Query
  imports Rule_Action Codec
begin

text \<open>
  What the DNS client and the DNS router share: records and their times to live (dns/client.go), the client
  subnet option of a message (dns/extension\_edns0\_subnet.go), the options of a query and the transports
  (adapter/dns.go), and the errors.

  The library miekg/dns is a parameter where the code calls its functions. A duration or a time is an
  integer number of nanoseconds.
\<close>

unbundle bit_operations_syntax

subsection \<open>Records\<close>

definition TypeSOA :: "16 word" where "TypeSOA = 6"
definition TypeOPT :: "16 word" where "TypeOPT = 41"
definition EDNS0SUBNET :: "16 word" where "EDNS0SUBNET = 8"
definition EDNS0PADDING :: "16 word" where "EDNS0PADDING = 12"
definition RcodeFormatError :: int where "RcodeFormatError = 1"
definition RcodeNameError :: int where "RcodeNameError = 3"
definition RcodeRefused :: int where "RcodeRefused = 5"

fun RR_type :: "RR \<Rightarrow> 16 word" where
  "RR_type (RR_A _) = TypeA"
| "RR_type (RR_AAAA _) = TypeAAAA"
| "RR_type (RR_HTTPS _) = TypeHTTPS"
| "RR_type (RR_SOA _ _) = TypeSOA"
| "RR_type (RR_OPT _) = TypeOPT"
| "RR_type (RR_Other t _) = t"

definition is_OPT :: "dns_Record \<Rightarrow> bool" where
  "is_OPT r = (RR_type (rr_Data r) = TypeOPT)"

definition message_records :: "dns_Message \<Rightarrow> dns_Record list" where
  "message_records msg = h_Answer msg @ h_Ns msg @ h_Extra msg"

text \<open>The message as the routing metadata carries it.\<close>

definition metadata_message :: "dns_Message \<Rightarrow> dns_Msg" where
  "metadata_message msg =
     \<lparr>msg_Rcode = h_Rcode msg, msg_Answer = map rr_Data (h_Answer msg), msg_Ns = map rr_Data (h_Ns msg),
      msg_Extra = map rr_Data (h_Extra msg)\<rparr>"

subsection \<open>Times to live\<close>

fun extractNegativeTTL_loop :: "dns_Record list \<Rightarrow> 32 word option" where
  "extractNegativeTTL_loop [] = None"
| "extractNegativeTTL_loop (r # rs) =
     (case rr_Data r of
        RR_SOA minimum _ \<Rightarrow> Some (if rr_Ttl r < minimum then rr_Ttl r else minimum)
      | _ \<Rightarrow> extractNegativeTTL_loop rs)"

definition extractNegativeTTL :: "dns_Message \<Rightarrow> 32 word option" where
  "extractNegativeTTL response = extractNegativeTTL_loop (h_Ns response)"

definition ttl_step :: "dns_Record \<Rightarrow> 32 word \<Rightarrow> 32 word" where
  "ttl_step r timeToLive =
     (if is_OPT r then timeToLive
      else if timeToLive = 0 \<or> rr_Ttl r > 0 \<and> rr_Ttl r < timeToLive then rr_Ttl r
      else timeToLive)"

definition computeTimeToLive :: "dns_Message \<Rightarrow> 32 word" where
  "computeTimeToLive response =
     (case (if h_Answer response = [] then extractNegativeTTL response else None) of
        Some soaTTL \<Rightarrow> soaTTL
      | None \<Rightarrow> fold ttl_step (message_records response) 0)"

definition set_ttl :: "32 word \<Rightarrow> dns_Record \<Rightarrow> dns_Record" where
  "set_ttl timeToLive r = (if is_OPT r then r else r\<lparr>rr_Ttl := timeToLive\<rparr>)"

definition normalizeTTL :: "dns_Message \<Rightarrow> 32 word \<Rightarrow> dns_Message" where
  "normalizeTTL response timeToLive =
     response\<lparr>h_Answer := map (set_ttl timeToLive) (h_Answer response),
              h_Ns := map (set_ttl timeToLive) (h_Ns response),
              h_Extra := map (set_ttl timeToLive) (h_Extra response)\<rparr>"

subsection \<open>Client subnet\<close>

fun edns0_Option :: "edns0 \<Rightarrow> 16 word" where
  "edns0_Option (EDNS0_SUBNET _ _ _ _) = EDNS0SUBNET"
| "edns0_Option (EDNS0_Other code _) = code"

text \<open>The first subnet option of the OPT records, with its netmask and address.\<close>

fun first_subnet :: "edns0 list \<Rightarrow> (8 word \<times> bytes) option" where
  "first_subnet [] = None"
| "first_subnet (EDNS0_SUBNET _ netmask _ address # _) = Some (netmask, address)"
| "first_subnet (EDNS0_Other _ _ # options) = first_subnet options"

fun records_subnet :: "dns_Record list \<Rightarrow> (8 word \<times> bytes) option" where
  "records_subnet [] = None"
| "records_subnet (r # rs) =
     (case rr_Data r of
        RR_OPT options \<Rightarrow> (case first_subnet options of Some s \<Rightarrow> Some s | None \<Rightarrow> records_subnet rs)
      | _ \<Rightarrow> records_subnet rs)"

definition clientSubnetFromMessage :: "dns_Message \<Rightarrow> prefix" where
  "clientSubnetFromMessage message =
     (case records_subnet (h_Extra message) of
        None \<Rightarrow> prefix_zero
      | Some (netmask, address) \<Rightarrow>
          (case AddrFromSlice address of
             None \<Rightarrow> prefix_zero
           | Some a \<Rightarrow> PrefixFrom (addr_Unmap a) (uint netmask)))"

text \<open>Every OPT record without the options of one code.\<close>

definition drop_option :: "16 word \<Rightarrow> dns_Record \<Rightarrow> dns_Record" where
  "drop_option code r =
     (case rr_Data r of
        RR_OPT options \<Rightarrow> r\<lparr>rr_Data := RR_OPT (filter (\<lambda>o1. edns0_Option o1 \<noteq> code) options)\<rparr>
      | _ \<Rightarrow> r)"

definition has_option :: "16 word \<Rightarrow> dns_Record \<Rightarrow> bool" where
  "has_option code r =
     (case rr_Data r of RR_OPT options \<Rightarrow> list_ex (\<lambda>o1. edns0_Option o1 = code) options | _ \<Rightarrow> False)"

definition removeClientSubnet :: "dns_Message \<Rightarrow> dns_Message" where
  "removeClientSubnet message =
     (if \<not> list_ex (has_option EDNS0SUBNET) (h_Extra message) then message
      else message\<lparr>h_Extra := map (drop_option EDNS0SUBNET) (h_Extra message)\<rparr>)"

text \<open>
  The loop \<open>findExists\<close>: the positions of the OPT record and of the subnet option it ends with. A failed
  type assertion sets the variable to nil, so an OPT record is forgotten when a record of another type
  follows it.
\<close>

fun subnet_index :: "nat \<Rightarrow> edns0 list \<Rightarrow> nat option" where
  "subnet_index j [] = None"
| "subnet_index j (EDNS0_SUBNET _ _ _ _ # _) = Some j"
| "subnet_index j (EDNS0_Other _ _ # options) = subnet_index (Suc j) options"

fun findExists :: "nat \<Rightarrow> nat option \<Rightarrow> dns_Record list \<Rightarrow> nat option \<times> nat option" where
  "findExists i optRecord [] = (optRecord, None)"
| "findExists i optRecord (r # rs) =
     (case rr_Data r of
        RR_OPT options \<Rightarrow>
          (case subnet_index 0 options of
             Some j \<Rightarrow> (Some i, Some j)
           | None \<Rightarrow> findExists (Suc i) (Some i) rs)
      | _ \<Rightarrow> findExists (Suc i) None rs)"

definition subnet_option :: "prefix \<Rightarrow> edns0 option \<Rightarrow> edns0" where
  "subnet_option clientSubnet old =
     (let family = (if addr_Is4 (prefix_Addr clientSubnet) then 1 else 2);
          scope = (case old of Some (EDNS0_SUBNET _ _ s _) \<Rightarrow> s | _ \<Rightarrow> 0)
      in EDNS0_SUBNET family (of_int (prefix_Bits clientSubnet)) scope (addr_AsSlice (prefix_Addr clientSubnet)))"

fun RR_options :: "RR \<Rightarrow> edns0 list" where
  "RR_options (RR_OPT options) = options"
| "RR_options _ = []"

text \<open>The original is not changed: the code works on a copy.\<close>

definition SetClientSubnet :: "dns_Message \<Rightarrow> prefix \<Rightarrow> dns_Message" where
  "SetClientSubnet message clientSubnet =
     (case findExists 0 None (h_Extra message) of
        (None, _) \<Rightarrow>
          message\<lparr>h_Extra := h_Extra message @
            [\<lparr>rr_Name = ''.'', rr_Class = 0, rr_Ttl = 0, rr_Data = RR_OPT [subnet_option clientSubnet None]\<rparr>]\<rparr>
      | (Some i, found) \<Rightarrow>
          (let r = h_Extra message ! i;
               options = RR_options (rr_Data r);
               options' = (case found of
                             None \<Rightarrow> options @ [subnet_option clientSubnet None]
                           | Some j \<Rightarrow> options[j := subnet_option clientSubnet (Some (options ! j))])
           in message\<lparr>h_Extra := (h_Extra message)[i := r\<lparr>rr_Data := RR_OPT options'\<rparr>]\<rparr>))"

subsection \<open>Queries and transports\<close>

definition DomainStrategyAsIS :: "8 word" where "DomainStrategyAsIS = 0"
definition DomainStrategyPreferIPv4 :: "8 word" where "DomainStrategyPreferIPv4 = 1"
definition DomainStrategyPreferIPv6 :: "8 word" where "DomainStrategyPreferIPv6 = 2"
definition DomainStrategyIPv4Only :: "8 word" where "DomainStrategyIPv4Only = 3"
definition DomainStrategyIPv6Only :: "8 word" where "DomainStrategyIPv6Only = 4"

text \<open>A transport: type, tag, and the entries of its environment where it depends on one.\<close>

record DNSTransport =
  t_Type :: string
  t_Tag :: string
  t_Environment :: "string list option"

record DNSQueryOptions =
  dq_Transport :: "DNSTransport option"
  dq_Strategy :: "8 word"
  dq_LookupStrategy :: "8 word"
  dq_DisableCache :: bool
  dq_DisableOptimisticCache :: bool
  dq_RewriteTTL :: "32 word option"
  dq_Timeout :: int
  dq_ClientSubnet :: prefix
  dq_RemoveClientSubnet :: bool

definition DNSQueryOptions_zero :: DNSQueryOptions where
  "DNSQueryOptions_zero = \<lparr>dq_Transport = None, dq_Strategy = 0, dq_LookupStrategy = 0, dq_DisableCache = False,
     dq_DisableOptimisticCache = False, dq_RewriteTTL = None, dq_Timeout = 0, dq_ClientSubnet = prefix_zero,
     dq_RemoveClientSubnet = False\<rparr>"

datatype dns_error =
    ErrNotCached
  | ErrResponseRejected
  | ErrResponseRejectedCached
  | RcodeError int
  | QueryLoopback string
  | QueryContextDone
  | TransportFailed string
  | GroupError "dns_error list"

text \<open>The hints of the family a strategy excludes are removed from HTTPS records.\<close>

fun keeps_hint :: "8 word \<Rightarrow> svcb_value \<Rightarrow> bool" where
  "keeps_hint strategy (SVCBIPv4Hint _) = (strategy = DomainStrategyIPv4Only)"
| "keeps_hint strategy (SVCBIPv6Hint _) = (strategy \<noteq> DomainStrategyIPv4Only)"
| "keeps_hint strategy (SVCBOther _) = True"

definition filter_hints :: "8 word \<Rightarrow> dns_Record \<Rightarrow> dns_Record" where
  "filter_hints strategy r =
     (case rr_Data r of
        RR_HTTPS vs \<Rightarrow> r\<lparr>rr_Data := RR_HTTPS (filter (keeps_hint strategy) vs)\<rparr>
      | _ \<Rightarrow> r)"

definition applyResponseOptions :: "dns_Question \<Rightarrow> dns_Message \<Rightarrow> DNSQueryOptions \<Rightarrow> 32 word \<times> dns_Message" where
  "applyResponseOptions question response options =
     (let strategy = dq_Strategy options;
          response1 =
            (if q_Qtype question = TypeHTTPS \<and> (strategy = DomainStrategyIPv4Only \<or> strategy = DomainStrategyIPv6Only)
             then response\<lparr>h_Answer := map (filter_hints strategy) (h_Answer response)\<rparr> else response);
          timeToLive = (case dq_RewriteTTL options of Some ttl \<Rightarrow> ttl | None \<Rightarrow> computeTimeToLive response1)
      in (timeToLive, normalizeTTL response1 timeToLive))"

definition stripDNSPadding :: "dns_Message \<Rightarrow> dns_Message" where
  "stripDNSPadding response = response\<lparr>h_Extra := map (drop_option EDNS0PADDING) (h_Extra response)\<rparr>"

definition sortAddresses :: "addr list \<Rightarrow> addr list \<Rightarrow> 8 word \<Rightarrow> addr list" where
  "sortAddresses response4 response6 strategy =
     (if strategy = DomainStrategyPreferIPv6 then response6 @ response4 else response4 @ response6)"

end
