(* ===== verification/DNS_Router.thy ===== *)
theory DNS_Router
  imports DNS_Query Rule_DNS
begin

text \<open>
  The DNS router (dns/router.go) outside of its legacy mode: the walk through the DNS rules, which launches
  exchanges with transports, waits for the responses that a rule needs, lets racing rules wait while later
  rules are looked at, and ends with a response or an exchange.

  Launched exchanges run concurrently. They are futures, numbered in the order of their launch. When they
  finish is a \<open>schedule\<close>: a function from the points where the walk looks at them. The schedule also says how
  an exchange that ends at some point answers, and when the context of the query is done. That futures are
  cancelled when an exchange is chosen is left to the schedule: a cancelled one may finish with an error.
\<close>

subsection \<open>State\<close>

type_synonym exchange_result = "(dns_error, dns_Message) res"

record dnsEvaluatedFuture =
  fu_tag :: string
  fu_terminal :: bool
  fu_transport :: DNSTransport
  fu_options :: DNSQueryOptions
  fu_result :: "exchange_result option"
  fu_settled :: bool

type_synonym dns_rule = "DNSRuleAction option DNSRule"

record dnsArmedRule =
  ar_rule :: dns_rule
  ar_futures :: "nat list"
  ar_anonymousFuture :: "nat option"
  ar_bindsAnonymous :: bool
  ar_options :: DNSQueryOptions

record dnsRuleWalkState =
  ws_ruleIndex :: nat
  ws_effectiveOptions :: DNSQueryOptions
  ws_anonymousFuture :: "nat option"
  ws_namedFutures :: "string \<rightharpoonup> nat"
  ws_namedResponses :: "string \<rightharpoonup> dns_Message"
  ws_namedTransports :: "string \<rightharpoonup> DNSTransport"
  ws_futures :: "dnsEvaluatedFuture list"
  ws_armedRules :: "dnsArmedRule list"
  ws_terminalFuture :: "nat option"
  ws_terminalIndex :: nat
  ws_metadata :: InboundContext
  ws_clock :: nat

datatype walk_error = RespondMissingResponse | ErrDrop | ExchangeError dns_error | ContextError | PredefinedPanic

record exchangeWithRulesResult =
  er_response :: "dns_Message option"
  er_transport :: "DNSTransport option"
  er_rejectAction :: "(string \<times> bool) option"
  er_err :: "walk_error option"

record dnsPendingExchange =
  pe_transport :: DNSTransport
  pe_options :: DNSQueryOptions
  pe_future :: "nat option"
  pe_fallback :: bool

datatype dnsWalkSuspension = Await nat | Drain | PendingExchange dnsPendingExchange

datatype walk_outcome = Finished exchangeWithRulesResult | Suspended dnsWalkSuspension

text \<open>
  The parts of the router: matching, the transports by tag, the default transport and the default strategy.
\<close>

record dns_router =
  dr_env :: env
  dr_store :: rule_store
  dr_Transport :: "string \<Rightarrow> DNSTransport option"
  dr_Default :: DNSTransport
  dr_defaultDomainStrategy :: "8 word"

record schedule =
  sc_arrivals :: "nat \<Rightarrow> nat list"
  sc_contextDone :: "nat \<Rightarrow> bool"
  sc_exchange :: "nat \<Rightarrow> DNSTransport \<Rightarrow> DNSQueryOptions \<Rightarrow> exchange_result"

definition DNSTypeFakeIP :: string where "DNSTypeFakeIP = ''fakeip''"

subsection \<open>Options\<close>

definition applyDNSRouteOptions :: "DNSQueryOptions \<Rightarrow> RuleActionDNSRouteOptions \<Rightarrow> DNSQueryOptions" where
  "applyDNSRouteOptions options routeOptions =
     (let o1 = (if do_DisableCache routeOptions then options\<lparr>dq_DisableCache := True\<rparr> else options);
          o2 = (if do_DisableOptimisticCache routeOptions then o1\<lparr>dq_DisableOptimisticCache := True\<rparr> else o1);
          o3 = (if do_RewriteTTL routeOptions \<noteq> None then o2\<lparr>dq_RewriteTTL := do_RewriteTTL routeOptions\<rparr> else o2);
          o4 = (if do_Timeout routeOptions > 0 then o3\<lparr>dq_Timeout := do_Timeout routeOptions\<rparr> else o3);
          o5 = (if prefix_IsValid (do_ClientSubnet routeOptions)
                then o4\<lparr>dq_ClientSubnet := do_ClientSubnet routeOptions, dq_RemoveClientSubnet := False\<rparr> else o4)
      in if do_RemoveClientSubnet routeOptions
         then o5\<lparr>dq_ClientSubnet := prefix_zero, dq_RemoveClientSubnet := True\<rparr> else o5)"

definition finalizeExchangeOptions :: "dns_router \<Rightarrow> DNSQueryOptions \<Rightarrow> DNSQueryOptions" where
  "finalizeExchangeOptions D options =
     (if dq_Strategy options = DomainStrategyAsIS then options\<lparr>dq_Strategy := dr_defaultDomainStrategy D\<rparr> else options)"

datatype dnsRouteStatus = RouteMissing | RouteSkipped | RouteResolved DNSTransport DNSQueryOptions

definition resolveDNSRoute ::
  "dns_router \<Rightarrow> string \<Rightarrow> RuleActionDNSRouteOptions \<Rightarrow> bool \<Rightarrow> DNSQueryOptions \<Rightarrow> dnsRouteStatus"
where
  "resolveDNSRoute D server routeOptions allowFakeIP options =
     (case dr_Transport D server of
        None \<Rightarrow> RouteMissing
      | Some transport \<Rightarrow>
          (let isFakeIP = (t_Type transport = DNSTypeFakeIP) in
           if isFakeIP \<and> \<not> allowFakeIP then RouteSkipped
           else
             (let options1 = applyDNSRouteOptions options routeOptions
              in RouteResolved transport (if isFakeIP then options1\<lparr>dq_DisableCache := True\<rparr> else options1))))"

subsection \<open>Futures\<close>

definition resolved :: "dnsRuleWalkState \<Rightarrow> nat \<Rightarrow> bool" where
  "resolved s i = (fu_result (ws_futures s ! i) \<noteq> None)"

definition view :: "dnsRuleWalkState \<Rightarrow> nat \<Rightarrow> dns_Message option" where
  "view s i = (case fu_result (ws_futures s ! i) of Some (Inr response) \<Rightarrow> Some response | _ \<Rightarrow> None)"

definition anonymousResponse :: "dnsRuleWalkState \<Rightarrow> dns_Message option" where
  "anonymousResponse s = (case ws_anonymousFuture s of None \<Rightarrow> None | Some i \<Rightarrow> view s i)"

text \<open>A future finishes once, with the answer of its transport at that time; a finished one stays as it is.\<close>

definition arrive :: "schedule \<Rightarrow> nat \<Rightarrow> nat \<times> dnsEvaluatedFuture \<Rightarrow> dnsEvaluatedFuture" where
  "arrive T t future =
     (case future of
        (i, f) \<Rightarrow>
          if i \<in> set (sc_arrivals T t) \<and> fu_result f = None
          then f\<lparr>fu_result := Some (sc_exchange T t (fu_transport f) (fu_options f))\<rparr> else f)"

definition tick :: "schedule \<Rightarrow> dnsRuleWalkState \<Rightarrow> dnsRuleWalkState" where
  "tick T s =
     s\<lparr>ws_futures := map (arrive T (ws_clock s)) (enumerate 0 (ws_futures s)), ws_clock := Suc (ws_clock s)\<rparr>"

definition launchDNSEvaluate ::
  "dns_router \<Rightarrow> string \<Rightarrow> bool \<Rightarrow> DNSTransport \<Rightarrow> DNSQueryOptions \<Rightarrow> dnsRuleWalkState \<Rightarrow> nat \<times> dnsRuleWalkState"
where
  "launchDNSEvaluate D tag terminal transport options s =
     (length (ws_futures s),
      s\<lparr>ws_futures := ws_futures s @
          [\<lparr>fu_tag = tag, fu_terminal = terminal, fu_transport = transport,
            fu_options = finalizeExchangeOptions D options, fu_result = None, fu_settled = False\<rparr>]\<rparr>)"

text \<open>One round of the loop of \<^verbatim>\<open>settleDNSFutures\<close>, and the loop.\<close>

definition settle_one :: "nat \<Rightarrow> dnsRuleWalkState \<Rightarrow> dnsRuleWalkState" where
  "settle_one i s =
     (let future = ws_futures s ! i in
      if fu_settled future \<or> \<not> resolved s i then s
      else
        (let s1 = s\<lparr>ws_futures := (ws_futures s)[i := future\<lparr>fu_settled := True\<rparr>]\<rparr> in
         if fu_tag future = [] then s1
         else s1\<lparr>ws_namedResponses := (ws_namedResponses s1)(fu_tag future := view s i),
                 ws_namedTransports := (ws_namedTransports s1)(fu_tag future \<mapsto> fu_transport future)\<rparr>))"

definition settleDNSFutures :: "dnsRuleWalkState \<Rightarrow> dnsRuleWalkState" where
  "settleDNSFutures s = fold settle_one [0..<length (ws_futures s)] s"

subsection \<open>Results\<close>

definition result_zero :: exchangeWithRulesResult where
  "result_zero = \<lparr>er_response = None, er_transport = None, er_rejectAction = None, er_err = None\<rparr>"

definition dnsRefusedResponse :: "dns_Message \<Rightarrow> dns_Message" where
  "dnsRefusedResponse message =
     \<lparr>h_Id = h_Id message, h_Response = True, h_Authoritative = False, h_RecursionDesired = False,
      h_RecursionAvailable = False, h_Rcode = RcodeRefused, h_Question = [hd (h_Question message)], h_Answer = [],
      h_Ns = [], h_Extra = []\<rparr>"

definition respond_result :: "dns_Message option \<Rightarrow> DNSTransport option \<Rightarrow> exchangeWithRulesResult" where
  "respond_result response transport =
     (case response of
        None \<Rightarrow> result_zero\<lparr>er_err := Some RespondMissingResponse\<rparr>
      | Some r \<Rightarrow> result_zero\<lparr>er_response := Some r, er_transport := transport\<rparr>)"

text \<open>The result of a reject action; with another method than the two there is none.\<close>

definition reject_result :: "dns_Message \<Rightarrow> string \<Rightarrow> bool \<Rightarrow> exchangeWithRulesResult option" where
  "reject_result message reject_method noDrop =
     (if reject_method = ''default'' then
        Some (result_zero\<lparr>er_response := Some (dnsRefusedResponse message), er_rejectAction := Some (reject_method, noDrop)\<rparr>)
      else if reject_method = ''drop'' then
        Some (result_zero\<lparr>er_rejectAction := Some (reject_method, noDrop), er_err := Some ErrDrop\<rparr>)
      else None)"

definition predefined_result ::
  "dns_Message \<Rightarrow> int \<Rightarrow> dns_Record list \<Rightarrow> dns_Record list \<Rightarrow> dns_Record list \<Rightarrow> exchangeWithRulesResult"
where
  "predefined_result message rcode answer ns extra =
     (case RuleActionPredefined_Response rcode answer ns extra message of
        None \<Rightarrow> result_zero\<lparr>er_err := Some PredefinedPanic\<rparr>
      | Some response \<Rightarrow> result_zero\<lparr>er_response := Some response\<rparr>)"

definition exchange_outcome :: "DNSTransport \<Rightarrow> exchange_result \<Rightarrow> exchangeWithRulesResult" where
  "exchange_outcome transport r =
     (case r of
        Inl e \<Rightarrow> result_zero\<lparr>er_transport := Some transport, er_err := Some (ExchangeError e)\<rparr>
      | Inr response \<Rightarrow> result_zero\<lparr>er_response := Some response, er_transport := Some transport\<rparr>)"

subsection \<open>Matching a rule\<close>

fun MatchResponseTag :: "'a DNSRule \<Rightarrow> string" where
  "MatchResponseTag (DefaultDNSRule r mr tag race a) = tag"
| "MatchResponseTag (LogicalDNSRule mode rules invert tags anon race a) = []"

definition hasBindings :: "'a DNSRule \<Rightarrow> bool" where
  "hasBindings rule = (MatchResponseTags rule \<noteq> [] \<or> MatchResponseAnonymous rule)"

definition match_metadata :: "dns_Message option \<Rightarrow> (string \<rightharpoonup> dns_Message) \<Rightarrow> InboundContext \<Rightarrow> InboundContext" where
  "match_metadata anonymous named m =
     (ResetRuleCache m)\<lparr>m_DNSResponse := map_option metadata_message anonymous,
        m_NamedDNSResponses := (\<lambda>tag. map_option metadata_message (named tag)),
        m_DestinationAddressMatchFromResponse := False\<rparr>"

definition match_rule :: "dns_router \<Rightarrow> dns_rule \<Rightarrow> dns_Message option \<Rightarrow> dnsRuleWalkState \<Rightarrow> bool \<times> dnsRuleWalkState" where
  "match_rule D rule anonymous s =
     (case DNSRule_Match (dr_env D) (dr_store D) rule (match_metadata anonymous (ws_namedResponses s) (ws_metadata s)) of
        (matched, m) \<Rightarrow> (matched, s\<lparr>ws_metadata := m\<rparr>))"

subsection \<open>Armed rules\<close>

datatype sweep_outcome = NotCommitted | Committed exchangeWithRulesResult | CommittedPending dnsPendingExchange

text \<open>The action of an armed rule that has matched.\<close>

definition armed_action :: "dns_router \<Rightarrow> dns_Message \<Rightarrow> bool \<Rightarrow> dnsArmedRule \<Rightarrow> dnsRuleWalkState \<Rightarrow> sweep_outcome" where
  "armed_action D message allowFakeIP armed s =
     (case DNSRule_Action (ar_rule armed) of
        Some RuleActionRespond \<Rightarrow>
          (let tag = MatchResponseTag (ar_rule armed) in
           if tag \<noteq> [] then Committed (respond_result (ws_namedResponses s tag) (ws_namedTransports s tag))
           else case ar_anonymousFuture armed of
                  Some i \<Rightarrow> Committed (respond_result (view s i) (Some (fu_transport (ws_futures s ! i))))
                | None \<Rightarrow>
                    (case ws_anonymousFuture s of
                       Some i \<Rightarrow> Committed (respond_result (view s i) (Some (fu_transport (ws_futures s ! i))))
                     | None \<Rightarrow> Committed (respond_result None None)))
      | Some (RuleActionDNSRoute server speculative fallback opts) \<Rightarrow>
          (case resolveDNSRoute D server opts allowFakeIP (ar_options armed) of
             RouteResolved transport options \<Rightarrow>
               CommittedPending \<lparr>pe_transport = transport, pe_options = options, pe_future = None, pe_fallback = False\<rparr>
           | _ \<Rightarrow> NotCommitted)
      | Some (DNSReject reject_method noDrop) \<Rightarrow>
          (case reject_result message reject_method noDrop of Some r \<Rightarrow> Committed r | None \<Rightarrow> NotCommitted)
      | Some (RuleActionPredefined rcode answer ns extra) \<Rightarrow>
          Committed (predefined_result message rcode answer ns extra)
      | _ \<Rightarrow> NotCommitted)"

text \<open>The loop of \<^verbatim>\<open>sweepArmedDNSRules\<close>: rules that are not ready are kept, the others are removed and tried.\<close>

fun sweep_loop ::
  "dns_router \<Rightarrow> dns_Message \<Rightarrow> bool \<Rightarrow> dnsArmedRule list \<Rightarrow> dnsArmedRule list \<Rightarrow> dnsRuleWalkState \<Rightarrow>
   sweep_outcome \<times> dnsRuleWalkState"
where
  "sweep_loop D message allowFakeIP kept [] s = (NotCommitted, s\<lparr>ws_armedRules := kept\<rparr>)"
| "sweep_loop D message allowFakeIP kept (armed # rest) s =
     (if \<not> list_all (resolved s) (ar_futures armed)
      then sweep_loop D message allowFakeIP (kept @ [armed]) rest s
      else
        (let anonymous = (if ar_bindsAnonymous armed
                          then (case ar_anonymousFuture armed of Some i \<Rightarrow> view s i | None \<Rightarrow> None)
                          else anonymousResponse s)
         in case match_rule D (ar_rule armed) anonymous s of
              (matched, s1) \<Rightarrow>
                if \<not> matched then sweep_loop D message allowFakeIP kept rest s1
                else case armed_action D message allowFakeIP armed s1 of
                       NotCommitted \<Rightarrow> sweep_loop D message allowFakeIP kept rest s1
                     | outcome \<Rightarrow> (outcome, s1\<lparr>ws_armedRules := kept @ rest\<rparr>)))"

definition sweepArmedDNSRules ::
  "dns_router \<Rightarrow> dns_Message \<Rightarrow> bool \<Rightarrow> dnsRuleWalkState \<Rightarrow> sweep_outcome \<times> dnsRuleWalkState"
where
  "sweepArmedDNSRules D message allowFakeIP s = sweep_loop D message allowFakeIP [] (ws_armedRules s) s"

subsection \<open>The walk\<close>

definition pending_named :: "dnsRuleWalkState \<Rightarrow> string list \<Rightarrow> nat list" where
  "pending_named s tags =
     List.map_filter (\<lambda>tag. case ws_namedFutures s tag of
        Some i \<Rightarrow> if resolved s i then None else Some i | None \<Rightarrow> None) tags"

definition pending_anonymous :: "dnsRuleWalkState \<Rightarrow> nat list" where
  "pending_anonymous s =
     (case ws_anonymousFuture s of Some i \<Rightarrow> if resolved s i then [] else [i] | None \<Rightarrow> [])"

definition pending_futures :: "dnsRuleWalkState \<Rightarrow> dns_rule \<Rightarrow> nat list" where
  "pending_futures s rule =
     pending_named s (MatchResponseTags rule) @ (if MatchResponseAnonymous rule then pending_anonymous s else [])"

definition arm_rule :: "dns_rule \<Rightarrow> dnsRuleWalkState \<Rightarrow> dnsRuleWalkState" where
  "arm_rule rule s =
     s\<lparr>ws_armedRules := ws_armedRules s @
         [\<lparr>ar_rule = rule, ar_futures = pending_futures s rule,
           ar_anonymousFuture = (if MatchResponseAnonymous rule then ws_anonymousFuture s else None),
           ar_bindsAnonymous = MatchResponseAnonymous rule, ar_options = ws_effectiveOptions s\<rparr>]\<rparr>"

text \<open>What a matching rule does: go on with the next rule, or stop here.\<close>

datatype rule_step = NextRule dnsRuleWalkState | Stop walk_outcome dnsRuleWalkState

definition evaluate_step ::
  "dns_router \<Rightarrow> string \<Rightarrow> string \<Rightarrow> bool \<Rightarrow> RuleActionDNSRouteOptions \<Rightarrow> dnsRuleWalkState \<Rightarrow> rule_step"
where
  "evaluate_step D server tag speculative opts s =
     (case dr_Transport D server of
        None \<Rightarrow> NextRule (if tag = [] then s\<lparr>ws_anonymousFuture := None\<rparr> else s)
      | Some transport \<Rightarrow>
          if \<not> speculative \<and> ws_armedRules s \<noteq> [] then Stop (Suspended Drain) s
          else
            (case launchDNSEvaluate D tag False transport (applyDNSRouteOptions (ws_effectiveOptions s) opts) s of
               (i, s1) \<Rightarrow>
                 NextRule (if tag = [] then s1\<lparr>ws_anonymousFuture := Some i\<rparr>
                           else s1\<lparr>ws_namedFutures := (ws_namedFutures s1)(tag \<mapsto> i)\<rparr>)))"

definition respond_step :: "dns_rule \<Rightarrow> dnsRuleWalkState \<Rightarrow> rule_step" where
  "respond_step rule s =
     (let tag = MatchResponseTag rule in
      if ws_armedRules s \<noteq> [] then Stop (Suspended Drain) s
      else if tag \<noteq> [] then Stop (Finished (respond_result (ws_namedResponses s tag) (ws_namedTransports s tag))) s
      else if \<not> hasBindings rule \<and> pending_anonymous s \<noteq> [] then Stop (Suspended (Await (hd (pending_anonymous s)))) s
      else Stop (Finished (respond_result (anonymousResponse s)
                   (map_option (\<lambda>i. fu_transport (ws_futures s ! i)) (ws_anonymousFuture s)))) s)"

definition route_step ::
  "dns_router \<Rightarrow> bool \<Rightarrow> string \<Rightarrow> bool \<Rightarrow> bool \<Rightarrow> RuleActionDNSRouteOptions \<Rightarrow> dnsRuleWalkState \<Rightarrow> rule_step"
where
  "route_step D allowFakeIP server speculative fallback opts s =
     (case resolveDNSRoute D server opts allowFakeIP (ws_effectiveOptions s) of
        RouteResolved transport options \<Rightarrow>
          if ws_armedRules s \<noteq> [] then
            Stop (Suspended Drain)
              (if speculative \<and> ws_terminalFuture s = None
               then (case launchDNSEvaluate D [] True transport options s of
                       (i, s1) \<Rightarrow> s1\<lparr>ws_terminalFuture := Some i, ws_terminalIndex := ws_ruleIndex s1\<rparr>)
               else s)
          else
            (case ws_terminalFuture s of
               Some i \<Rightarrow>
                 if ws_terminalIndex s = ws_ruleIndex s
                 then Stop (Suspended (PendingExchange
                        \<lparr>pe_transport = fu_transport (ws_futures s ! i), pe_options = DNSQueryOptions_zero,
                         pe_future = Some i, pe_fallback = False\<rparr>)) s
                 else Stop (Suspended (PendingExchange
                        \<lparr>pe_transport = transport, pe_options = options, pe_future = None, pe_fallback = fallback\<rparr>)) s
             | None \<Rightarrow>
                 Stop (Suspended (PendingExchange
                        \<lparr>pe_transport = transport, pe_options = options, pe_future = None, pe_fallback = fallback\<rparr>)) s)
      | _ \<Rightarrow> NextRule s)"

definition action_step :: "dns_router \<Rightarrow> dns_Message \<Rightarrow> bool \<Rightarrow> dns_rule \<Rightarrow> dnsRuleWalkState \<Rightarrow> rule_step" where
  "action_step D message allowFakeIP rule s =
     (case DNSRule_Action rule of
        None \<Rightarrow> NextRule s
      | Some (ActionDNSRouteOptions opts) \<Rightarrow>
          NextRule (s\<lparr>ws_effectiveOptions := applyDNSRouteOptions (ws_effectiveOptions s) opts\<rparr>)
      | Some (RuleActionEvaluate server tag speculative opts) \<Rightarrow> evaluate_step D server tag speculative opts s
      | Some RuleActionRespond \<Rightarrow> respond_step rule s
      | Some (RuleActionDNSRoute server speculative fallback opts) \<Rightarrow>
          route_step D allowFakeIP server speculative fallback opts s
      | Some (DNSReject reject_method noDrop) \<Rightarrow>
          if ws_armedRules s \<noteq> [] then Stop (Suspended Drain) s
          else (case reject_result message reject_method noDrop of Some r \<Rightarrow> Stop (Finished r) s | None \<Rightarrow> NextRule s)
      | Some (RuleActionPredefined rcode answer ns extra) \<Rightarrow>
          if ws_armedRules s \<noteq> [] then Stop (Suspended Drain) s
          else Stop (Finished (predefined_result message rcode answer ns extra)) s)"

text \<open>
  One rule of the walk. The clock ticks before the futures are settled, and between settling and looking for
  unfinished futures.
\<close>

definition rule_round :: "dns_router \<Rightarrow> schedule \<Rightarrow> dns_Message \<Rightarrow> bool \<Rightarrow> dns_rule \<Rightarrow> dnsRuleWalkState \<Rightarrow> rule_step" where
  "rule_round D T message allowFakeIP rule s0 =
     (let s = (if hasBindings rule then tick T (settleDNSFutures (tick T s0)) else tick T s0) in
      if hasBindings rule \<and> DNSRule_Race rule then
        (let s1 = arm_rule rule s in
         if pending_futures s rule \<noteq> [] then NextRule s1
         else case sweepArmedDNSRules D message allowFakeIP s1 of
                (NotCommitted, s2) \<Rightarrow> NextRule s2
              | (Committed r, s2) \<Rightarrow> Stop (Finished r) s2
              | (CommittedPending p, s2) \<Rightarrow> Stop (Suspended (PendingExchange p)) (s2\<lparr>ws_armedRules := []\<rparr>))
      else if hasBindings rule \<and> pending_futures s rule \<noteq> [] then Stop (Suspended (Await (hd (pending_futures s rule)))) s
      else
        (case match_rule D rule (anonymousResponse s) s of
           (matched, s1) \<Rightarrow> if matched then action_step D message allowFakeIP rule s1 else NextRule s1))"

text \<open>\<open>walk_rules\<close> goes over the rules from the index of the state on.\<close>

fun walk_rules :: "dns_router \<Rightarrow> schedule \<Rightarrow> dns_Message \<Rightarrow> bool \<Rightarrow> dns_rule list \<Rightarrow> dnsRuleWalkState \<Rightarrow> walk_outcome \<times> dnsRuleWalkState" where
  "walk_rules D T message allowFakeIP [] s =
     (if ws_armedRules s \<noteq> [] then (Suspended Drain, s)
      else (Suspended (PendingExchange
              \<lparr>pe_transport = dr_Default D, pe_options = ws_effectiveOptions s, pe_future = None, pe_fallback = False\<rparr>), s))"
| "walk_rules D T message allowFakeIP (rule # rules) s =
     (case rule_round D T message allowFakeIP rule s of
        NextRule s1 \<Rightarrow> walk_rules D T message allowFakeIP rules (s1\<lparr>ws_ruleIndex := Suc (ws_ruleIndex s1)\<rparr>)
      | Stop outcome s1 \<Rightarrow> (outcome, s1))"

definition walkDNSRules ::
  "dns_router \<Rightarrow> schedule \<Rightarrow> dns_Message \<Rightarrow> bool \<Rightarrow> dns_rule list \<Rightarrow> dnsRuleWalkState \<Rightarrow> walk_outcome \<times> dnsRuleWalkState"
where
  "walkDNSRules D T message allowFakeIP rules s =
     walk_rules D T message allowFakeIP (drop (ws_ruleIndex s) rules) s"

subsection \<open>Waiting and finishing\<close>

text \<open>Waiting for the future of a pending exchange; \<open>None\<close> when the fuel does not last.\<close>

fun wait_future :: "nat \<Rightarrow> schedule \<Rightarrow> nat \<Rightarrow> dnsRuleWalkState \<Rightarrow> (exchangeWithRulesResult \<times> dnsRuleWalkState) option" where
  "wait_future 0 T i s = None"
| "wait_future (Suc fuel) T i s =
     (case fu_result (ws_futures s ! i) of
        Some r \<Rightarrow> Some (exchange_outcome (fu_transport (ws_futures s ! i)) r, s)
      | None \<Rightarrow>
          if sc_contextDone T (ws_clock s) then Some (result_zero\<lparr>er_err := Some ContextError\<rparr>, s)
          else wait_future fuel T i (tick T s))"

definition finishPendingExchange ::
  "nat \<Rightarrow> dns_router \<Rightarrow> schedule \<Rightarrow> dnsPendingExchange \<Rightarrow> dnsRuleWalkState \<Rightarrow>
   (exchangeWithRulesResult \<times> dnsRuleWalkState) option"
where
  "finishPendingExchange fuel D T pending s =
     (case pe_future pending of
        Some i \<Rightarrow> wait_future fuel T i s
      | None \<Rightarrow>
          Some (exchange_outcome (pe_transport pending)
                  (sc_exchange T (ws_clock s) (pe_transport pending) (finalizeExchangeOptions D (pe_options pending))),
                tick T s))"

definition failed_result :: "exchangeWithRulesResult \<Rightarrow> bool" where
  "failed_result r =
     (er_err r \<noteq> None \<or> (case er_response r of Some response \<Rightarrow> h_Rcode response \<noteq> RcodeSuccess | None \<Rightarrow> False))"

definition must_wait :: "dnsWalkSuspension option \<Rightarrow> dnsRuleWalkState \<Rightarrow> bool" where
  "must_wait suspension s =
     (case suspension of
        Some (Await i) \<Rightarrow> \<not> resolved s i
      | Some Drain \<Rightarrow> ws_armedRules s \<noteq> []
      | _ \<Rightarrow> False)"

text \<open>
  The loop of \<^verbatim>\<open>resumeExchangeWithRules\<close>. Waiting for \<^verbatim>\<open>state.wake\<close> is a tick of the clock; waking up without a
  finished future does no harm.
\<close>

fun resume ::
  "nat \<Rightarrow> dns_router \<Rightarrow> schedule \<Rightarrow> dns_Message \<Rightarrow> bool \<Rightarrow> dns_rule list \<Rightarrow> dnsWalkSuspension option \<Rightarrow> dnsRuleWalkState \<Rightarrow>
   exchangeWithRulesResult option"
where
  "resume 0 D T message allowFakeIP rules suspension s = None"
| "resume (Suc fuel) D T message allowFakeIP rules suspension s =
     (case sweepArmedDNSRules D message allowFakeIP (tick T (settleDNSFutures s)) of
        (Committed r, s1) \<Rightarrow> Some r
      | (CommittedPending p, s1) \<Rightarrow> map_option fst (finishPendingExchange fuel D T p s1)
      | (NotCommitted, s1) \<Rightarrow>
          (case suspension of
             Some (PendingExchange p) \<Rightarrow>
               (case finishPendingExchange fuel D T p s1 of
                  None \<Rightarrow> None
                | Some (r, s2) \<Rightarrow>
                    if pe_fallback p \<and> \<not> sc_contextDone T (ws_clock s2) \<and> failed_result r
                    then resume fuel D T message allowFakeIP rules None (s2\<lparr>ws_ruleIndex := Suc (ws_ruleIndex s2)\<rparr>)
                    else Some r)
           | _ \<Rightarrow>
               if must_wait suspension s1 then
                 (if sc_contextDone T (ws_clock s1) then Some (result_zero\<lparr>er_err := Some ContextError\<rparr>)
                  else resume fuel D T message allowFakeIP rules suspension (tick T s1))
               else
                 (case walkDNSRules D T message allowFakeIP rules s1 of
                    (Finished r, s2) \<Rightarrow> Some r
                  | (Suspended suspension', s2) \<Rightarrow>
                      resume fuel D T message allowFakeIP rules (Some suspension') s2)))"

definition walk_start :: "DNSQueryOptions \<Rightarrow> InboundContext \<Rightarrow> dnsRuleWalkState" where
  "walk_start options m =
     \<lparr>ws_ruleIndex = 0, ws_effectiveOptions = options, ws_anonymousFuture = None, ws_namedFutures = Map.empty,
      ws_namedResponses = Map.empty, ws_namedTransports = Map.empty, ws_futures = [], ws_armedRules = [],
      ws_terminalFuture = None, ws_terminalIndex = 0, ws_metadata = m, ws_clock = 0\<rparr>"

definition exchangeWithRules ::
  "nat \<Rightarrow> dns_router \<Rightarrow> schedule \<Rightarrow> dns_rule list \<Rightarrow> dns_Message \<Rightarrow> DNSQueryOptions \<Rightarrow> bool \<Rightarrow> InboundContext \<Rightarrow>
   exchangeWithRulesResult option"
where
  "exchangeWithRules fuel D T rules message options allowFakeIP m =
     (case walkDNSRules D T message allowFakeIP rules (walk_start options m) of
        (Finished r, s) \<Rightarrow> Some r
      | (Suspended suspension, s) \<Rightarrow> resume fuel D T message allowFakeIP rules (Some suspension) s)"

end
