(* ===== verification/DNS_Walk.thy ===== *)
theory DNS_Walk
  imports DNS_Router
begin

text \<open>
  Lemmas on the walk of the DNS router: what settling, ticking and sweeping change, that every index of a future
  in the state is valid, and that the walk makes progress between two waits.
\<close>

subsection \<open>Futures over time\<close>

lemma tick_simps [simp]:
  "length (ws_futures (tick T s)) = length (ws_futures s)"
  "ws_ruleIndex (tick T s) = ws_ruleIndex s"
  "ws_effectiveOptions (tick T s) = ws_effectiveOptions s"
  "ws_anonymousFuture (tick T s) = ws_anonymousFuture s"
  "ws_namedFutures (tick T s) = ws_namedFutures s"
  "ws_namedResponses (tick T s) = ws_namedResponses s"
  "ws_namedTransports (tick T s) = ws_namedTransports s"
  "ws_armedRules (tick T s) = ws_armedRules s"
  "ws_terminalFuture (tick T s) = ws_terminalFuture s"
  "ws_terminalIndex (tick T s) = ws_terminalIndex s"
  "ws_metadata (tick T s) = ws_metadata s"
  "ws_clock (tick T s) = Suc (ws_clock s)"
  by (simp_all add: tick_def)

lemma tick_nth:
  "i < length (ws_futures s) \<Longrightarrow> ws_futures (tick T s) ! i =
     arrive T (ws_clock s) (i, ws_futures s ! i)"
  by (simp add: tick_def nth_enumerate_eq)

definition unresolved :: "dnsRuleWalkState \<Rightarrow> nat set" where
  "unresolved s = {i. i < length (ws_futures s) \<and> fu_result (ws_futures s ! i) = None}"

lemma finite_unresolved [simp]: "finite (unresolved s)"
  by (simp add: unresolved_def)

lemma resolved_unresolved: "i < length (ws_futures s) \<Longrightarrow> resolved s i \<longleftrightarrow> i \<notin> unresolved s"
  by (simp add: resolved_def unresolved_def)

lemma unresolved_tick:
  "unresolved (tick T s) = unresolved s - set (sc_arrivals T (ws_clock s))"
  by (auto simp: unresolved_def tick_nth arrive_def split: if_splits)

subsection \<open>Settling\<close>

lemma settle_one_simps [simp]:
  "length (ws_futures (settle_one i s)) = length (ws_futures s)"
  "ws_ruleIndex (settle_one i s) = ws_ruleIndex s"
  "ws_effectiveOptions (settle_one i s) = ws_effectiveOptions s"
  "ws_anonymousFuture (settle_one i s) = ws_anonymousFuture s"
  "ws_namedFutures (settle_one i s) = ws_namedFutures s"
  "ws_armedRules (settle_one i s) = ws_armedRules s"
  "ws_terminalFuture (settle_one i s) = ws_terminalFuture s"
  "ws_terminalIndex (settle_one i s) = ws_terminalIndex s"
  "ws_metadata (settle_one i s) = ws_metadata s"
  "ws_clock (settle_one i s) = ws_clock s"
  by (simp_all add: settle_one_def Let_def)

lemma settle_one_results [simp]: "fu_result (ws_futures (settle_one i s) ! j) = fu_result (ws_futures s ! j)"
  by (cases "i < length (ws_futures s)") (auto simp: settle_one_def Let_def nth_list_update list_update_beyond)

lemma settle_fold_simps [simp]:
  "length (ws_futures (fold settle_one is s)) = length (ws_futures s)"
  "ws_ruleIndex (fold settle_one is s) = ws_ruleIndex s"
  "ws_effectiveOptions (fold settle_one is s) = ws_effectiveOptions s"
  "ws_anonymousFuture (fold settle_one is s) = ws_anonymousFuture s"
  "ws_namedFutures (fold settle_one is s) = ws_namedFutures s"
  "ws_armedRules (fold settle_one is s) = ws_armedRules s"
  "ws_terminalFuture (fold settle_one is s) = ws_terminalFuture s"
  "ws_terminalIndex (fold settle_one is s) = ws_terminalIndex s"
  "ws_metadata (fold settle_one is s) = ws_metadata s"
  "ws_clock (fold settle_one is s) = ws_clock s"
  "fu_result (ws_futures (fold settle_one is s) ! j) = fu_result (ws_futures s ! j)"
  by (induction "is" arbitrary: s) simp_all

lemma settle_simps [simp]:
  "length (ws_futures (settleDNSFutures s)) = length (ws_futures s)"
  "ws_ruleIndex (settleDNSFutures s) = ws_ruleIndex s"
  "ws_effectiveOptions (settleDNSFutures s) = ws_effectiveOptions s"
  "ws_anonymousFuture (settleDNSFutures s) = ws_anonymousFuture s"
  "ws_namedFutures (settleDNSFutures s) = ws_namedFutures s"
  "ws_armedRules (settleDNSFutures s) = ws_armedRules s"
  "ws_terminalFuture (settleDNSFutures s) = ws_terminalFuture s"
  "ws_terminalIndex (settleDNSFutures s) = ws_terminalIndex s"
  "ws_metadata (settleDNSFutures s) = ws_metadata s"
  "ws_clock (settleDNSFutures s) = ws_clock s"
  "fu_result (ws_futures (settleDNSFutures s) ! j) = fu_result (ws_futures s ! j)"
  by (simp_all add: settleDNSFutures_def)

lemma unresolved_settle [simp]: "unresolved (settleDNSFutures s) = unresolved s"
  by (simp add: unresolved_def)

subsection \<open>Matching and sweeping\<close>

lemma match_rule_simps:
  assumes "match_rule D rule anonymous s = (matched, s')"
  shows "\<exists>m. s' = s\<lparr>ws_metadata := m\<rparr>"
  using assms by (auto simp: match_rule_def split: prod.splits)

text \<open>Sweeping changes the armed rules and the metadata only, and keeps exactly the rules that are not ready.\<close>

lemma sweep_loop_state:
  assumes "sweep_loop D message f kept armed s = (outcome, s')"
  shows "\<exists>as m. s' = s\<lparr>ws_armedRules := as, ws_metadata := m\<rparr> \<and> set as \<subseteq> set kept \<union> set armed \<and>
           (outcome = NotCommitted \<longrightarrow> as = kept @ filter (\<lambda>a. \<not> list_all (resolved s) (ar_futures a)) armed)"
  using assms
proof (induction armed arbitrary: kept s)
  case Nil
  then show ?case by (auto intro!: exI [of _ "ws_metadata s"])
next
  case (Cons a armed)
  show ?case
  proof (cases "list_all (resolved s) (ar_futures a)")
    case False
    then show ?thesis using Cons.IH [of "kept @ [a]" s] Cons.prems by auto
  next
    case True
    let ?anon = "if ar_bindsAnonymous a then (case ar_anonymousFuture a of Some i \<Rightarrow> view s i | None \<Rightarrow> None) else anonymousResponse s"
    obtain matched s1 where m: "match_rule D (ar_rule a) ?anon s = (matched, s1)" by fastforce
    then obtain m1 where s1: "s1 = s\<lparr>ws_metadata := m1\<rparr>" using match_rule_simps by blast
    have res: "resolved s1 = resolved s" by (simp add: s1 resolved_def fun_eq_iff)
    show ?thesis
    proof (cases "matched \<and> armed_action D message f a s1 \<noteq> NotCommitted")
      case True
      then have "outcome = armed_action D message f a s1" "s' = s1\<lparr>ws_armedRules := kept @ armed\<rparr>"
        using Cons.prems m \<open>list_all (resolved s) (ar_futures a)\<close>
        by (cases "armed_action D message f a s1"; simp)+
      then show ?thesis using True
        by (intro exI [of _ "kept @ armed"] exI [of _ m1]) (auto simp: s1)
    next
      case False
      then have "sweep_loop D message f kept armed s1 = (outcome, s')"
        using Cons.prems m \<open>list_all (resolved s) (ar_futures a)\<close> by (auto split: if_splits)
      from Cons.IH [OF this] show ?thesis using \<open>list_all (resolved s) (ar_futures a)\<close> by (auto simp: res) (auto simp: s1)
    qed
  qed
qed

lemma sweep_state:
  assumes "sweepArmedDNSRules D message f s = (outcome, s')"
  obtains as m where "s' = s\<lparr>ws_armedRules := as, ws_metadata := m\<rparr>" "set as \<subseteq> set (ws_armedRules s)"
    "outcome = NotCommitted \<Longrightarrow> as = filter (\<lambda>a. \<not> list_all (resolved s) (ar_futures a)) (ws_armedRules s)"
  using sweep_loop_state [of D message f "[]" "ws_armedRules s" s outcome s'] assms
  by (auto simp: sweepArmedDNSRules_def)

subsection \<open>Valid states\<close>

definition valid_future :: "dnsRuleWalkState \<Rightarrow> nat option \<Rightarrow> bool" where
  "valid_future s i \<longleftrightarrow> (\<forall>j. i = Some j \<longrightarrow> j < length (ws_futures s))"

definition wf_walk :: "dnsRuleWalkState \<Rightarrow> bool" where
  "wf_walk s \<longleftrightarrow>
     valid_future s (ws_anonymousFuture s) \<and> valid_future s (ws_terminalFuture s) \<and>
     (\<forall>tag. valid_future s (ws_namedFutures s tag)) \<and>
     (\<forall>a\<in>set (ws_armedRules s). \<forall>i\<in>set (ar_futures a). i < length (ws_futures s))"

text \<open>Two states that differ in the time only: futures may have finished, and the metadata may have changed.\<close>

definition quiet :: "dnsRuleWalkState \<Rightarrow> dnsRuleWalkState \<Rightarrow> bool" where
  "quiet s s' \<longleftrightarrow>
     ws_ruleIndex s' = ws_ruleIndex s \<and> ws_anonymousFuture s' = ws_anonymousFuture s \<and>
     ws_namedFutures s' = ws_namedFutures s \<and> ws_armedRules s' = ws_armedRules s \<and>
     ws_terminalFuture s' = ws_terminalFuture s \<and> length (ws_futures s') = length (ws_futures s) \<and>
     unresolved s' \<subseteq> unresolved s"

lemma quiet_refl [simp]: "quiet s s"
  by (simp add: quiet_def)

lemma quiet_trans [trans]: "quiet s s' \<Longrightarrow> quiet s' s'' \<Longrightarrow> quiet s s''"
  by (auto simp: quiet_def)

lemma quiet_tick [simp]: "quiet s (tick T s)"
  by (auto simp: quiet_def unresolved_tick)

lemma quiet_settle [simp]: "quiet s (settleDNSFutures s)"
  by (simp add: quiet_def)

lemma quiet_metadata [simp]: "quiet s (s\<lparr>ws_metadata := m\<rparr>)"
  by (simp add: quiet_def unresolved_def)

lemma quiet_match: "match_rule D rule anonymous s = (matched, s') \<Longrightarrow> quiet s s'"
  using match_rule_simps by (metis quiet_metadata)

lemma quiet_wf: "quiet s s' \<Longrightarrow> wf_walk s \<Longrightarrow> wf_walk s'"
  by (simp add: quiet_def wf_walk_def valid_future_def)

lemma wf_armed_subset:
  "wf_walk s \<Longrightarrow> set as \<subseteq> set (ws_armedRules s) \<Longrightarrow> wf_walk (s\<lparr>ws_armedRules := as, ws_metadata := m\<rparr>)"
  by (auto simp: wf_walk_def valid_future_def)

text \<open>A suspension waits for something that has not happened yet.\<close>

definition susp_ok :: "dnsWalkSuspension \<Rightarrow> dnsRuleWalkState \<Rightarrow> bool" where
  "susp_ok suspension s =
     (case suspension of
        Await i \<Rightarrow> i \<in> unresolved s
      | Drain \<Rightarrow> ws_armedRules s \<noteq> []
      | PendingExchange p \<Rightarrow> valid_future s (pe_future p))"

text \<open>Stopping at a rule: no rule is armed there, and at most the exchange of a final rule is launched.\<close>

definition stop_ok :: "walk_outcome \<Rightarrow> dnsRuleWalkState \<Rightarrow> dnsRuleWalkState \<Rightarrow> bool" where
  "stop_ok outcome s s' \<longleftrightarrow>
     wf_walk s' \<and> ws_ruleIndex s' = ws_ruleIndex s \<and>
     (outcome = Suspended Drain \<longrightarrow> ws_armedRules s \<noteq> []) \<and>
     (\<forall>x. outcome = Suspended x \<longrightarrow> ws_armedRules s' \<noteq> [] \<longrightarrow> ws_armedRules s \<noteq> []) \<and>
     (ws_terminalFuture s' = ws_terminalFuture s \<and> unresolved s' \<subseteq> unresolved s \<or>
      ws_terminalFuture s = None \<and> ws_terminalFuture s' \<noteq> None) \<and>
     (\<forall>x. outcome = Suspended x \<longrightarrow> susp_ok x s')"

lemma stop_ok_quiet: "quiet s s1 \<Longrightarrow> stop_ok outcome s1 s' \<Longrightarrow> stop_ok outcome s s'"
  by (auto simp: stop_ok_def quiet_def)

lemma stop_ok_same:
  assumes "wf_walk s" "\<And>x. outcome = Suspended x \<Longrightarrow> susp_ok x s"
  shows "stop_ok outcome s s"
  using assms by (auto simp: stop_ok_def susp_ok_def)

lemma launch_wf:
  assumes "launchDNSEvaluate D tag terminal transport options s = (i, s')" "wf_walk s"
  shows "wf_walk s'" "i < length (ws_futures s')" "ws_ruleIndex s' = ws_ruleIndex s"
    "ws_armedRules s' = ws_armedRules s"
  using assms by (auto simp: launchDNSEvaluate_def wf_walk_def valid_future_def less_Suc_eq split: option.splits)

lemma pending_anonymous_unresolved:
  "wf_walk s \<Longrightarrow> i \<in> set (pending_anonymous s) \<Longrightarrow> i \<in> unresolved s"
  by (auto simp: pending_anonymous_def wf_walk_def valid_future_def resolved_def unresolved_def
      split: option.splits if_splits)

lemma pending_named_unresolved:
  assumes "wf_walk s" "i \<in> set (pending_named s tags)"
  shows "i \<in> unresolved s"
proof -
  obtain tag where t: "ws_namedFutures s tag = Some i" "\<not> resolved s i"
    using assms(2) by (auto simp: pending_named_def map_filter_def split: option.splits if_splits)
  moreover have "i < length (ws_futures s)"
    using assms(1) t(1) by (auto simp: wf_walk_def valid_future_def dest: spec [of _ tag])
  ultimately show ?thesis by (simp add: resolved_unresolved)
qed

lemma pending_futures_unresolved: "wf_walk s \<Longrightarrow> i \<in> set (pending_futures s rule) \<Longrightarrow> i \<in> unresolved s"
  using pending_named_unresolved pending_anonymous_unresolved
  by (auto simp: pending_futures_def split: if_splits)

subsection \<open>One rule\<close>

definition next_ok :: "dnsRuleWalkState \<Rightarrow> dnsRuleWalkState \<Rightarrow> bool" where
  "next_ok s s' \<longleftrightarrow> wf_walk s' \<and> ws_ruleIndex s' = ws_ruleIndex s"

definition step_ok :: "dnsRuleWalkState \<Rightarrow> rule_step \<Rightarrow> bool" where
  "step_ok s st = (case st of NextRule s' \<Rightarrow> next_ok s s' | Stop outcome s' \<Rightarrow> stop_ok outcome s s')"

lemma step_ok_quiet: "quiet s s1 \<Longrightarrow> step_ok s1 st \<Longrightarrow> step_ok s st"
  using stop_ok_quiet by (auto simp: step_ok_def next_ok_def quiet_def split: rule_step.splits)

lemma evaluate_step_ok:
  assumes "wf_walk s"
  shows "step_ok s (evaluate_step D server tag speculative opts s)"
proof (cases "dr_Transport D server")
  case None
  then show ?thesis using assms
    by (auto simp: evaluate_step_def step_ok_def next_ok_def wf_walk_def valid_future_def)
next
  case (Some transport)
  obtain i s1 where l: "launchDNSEvaluate D tag False transport (applyDNSRouteOptions (ws_effectiveOptions s) opts) s = (i, s1)"
    by fastforce
  note w = launch_wf [OF l assms]
  show ?thesis using Some l w stop_ok_same [OF assms, of "Suspended Drain"] assms
    by (auto simp: evaluate_step_def step_ok_def next_ok_def susp_ok_def)
      (auto simp: wf_walk_def valid_future_def)
qed

lemma respond_step_ok:
  assumes "wf_walk s"
  shows "step_ok s (respond_step rule s)"
proof -
  have "pending_anonymous s \<noteq> [] \<Longrightarrow> hd (pending_anonymous s) \<in> unresolved s"
    using pending_anonymous_unresolved [OF assms] by simp
  then show ?thesis
    by (auto simp: respond_step_def step_ok_def Let_def susp_ok_def intro!: stop_ok_same [OF assms])
qed

lemma route_step_ok:
  assumes "wf_walk s"
  shows "step_ok s (route_step D f server speculative fallback opts s)"
proof (cases "resolveDNSRoute D server opts f (ws_effectiveOptions s)")
  case (RouteResolved transport options)
  obtain i s1 where l: "launchDNSEvaluate D [] True transport options s = (i, s1)" by fastforce
  note w = launch_wf [OF l assms]
  have launched: "stop_ok (Suspended Drain) s (s1\<lparr>ws_terminalFuture := Some i, ws_terminalIndex := ws_ruleIndex s1\<rparr>)"
    if "ws_armedRules s \<noteq> []" "ws_terminalFuture s = None"
    using w that by (auto simp: stop_ok_def susp_ok_def) (auto simp: wf_walk_def valid_future_def)
  show ?thesis
    using RouteResolved l launched assms
    by (auto simp: route_step_def step_ok_def susp_ok_def wf_walk_def valid_future_def split: option.splits
        intro!: stop_ok_same)
qed (use assms in \<open>simp_all add: route_step_def step_ok_def next_ok_def\<close>)

lemma action_step_ok:
  assumes "wf_walk s"
  shows "step_ok s (action_step D message f rule s)"
proof (cases "DNSRule_Action rule")
  case None
  then show ?thesis using assms by (simp add: action_step_def step_ok_def next_ok_def)
next
  case (Some action)
  have "wf_walk (s\<lparr>ws_effectiveOptions := opts\<rparr>)" for opts
    using assms by (simp add: wf_walk_def valid_future_def)
  then show ?thesis
    using Some assms evaluate_step_ok respond_step_ok route_step_ok
    by (cases action)
      (auto simp: action_step_def step_ok_def next_ok_def susp_ok_def split: option.splits intro!: stop_ok_same)
qed

lemma arm_rule_wf: "wf_walk s \<Longrightarrow> wf_walk (arm_rule rule s)"
  using pending_futures_unresolved [of s _ rule]
  by (auto simp: arm_rule_def wf_walk_def valid_future_def unresolved_def)

lemma sweep_wf:
  assumes "sweepArmedDNSRules D message f s = (outcome, s')" "wf_walk s"
  shows "wf_walk s'" "ws_ruleIndex s' = ws_ruleIndex s" "ws_terminalFuture s' = ws_terminalFuture s"
    "unresolved s' = unresolved s" "length (ws_futures s') = length (ws_futures s)" "ws_clock s' = ws_clock s"
    "ws_armedRules s' \<noteq> [] \<Longrightarrow> ws_armedRules s \<noteq> []"
proof -
  obtain as m where s': "s' = s\<lparr>ws_armedRules := as, ws_metadata := m\<rparr>" "set as \<subseteq> set (ws_armedRules s)"
    using sweep_state [OF assms(1)] by metis
  show "wf_walk s'" unfolding s'(1) by (rule wf_armed_subset [OF assms(2) s'(2)])
  show "ws_ruleIndex s' = ws_ruleIndex s" "ws_terminalFuture s' = ws_terminalFuture s" "unresolved s' = unresolved s"
    "length (ws_futures s') = length (ws_futures s)" "ws_clock s' = ws_clock s"
    "ws_armedRules s' \<noteq> [] \<Longrightarrow> ws_armedRules s \<noteq> []"
    using s' by (auto simp: unresolved_def)
qed

lemma race_round_ok:
  assumes "wf_walk s" "sweepArmedDNSRules D message f (arm_rule rule s) = (CommittedPending p, s')"
    and "pe_future p = None"
  shows "stop_ok (Suspended (PendingExchange p)) s (s'\<lparr>ws_armedRules := []\<rparr>)"
proof -
  note w = sweep_wf [OF assms(2) arm_rule_wf [OF assms(1)]]
  have "unresolved (s'\<lparr>ws_armedRules := []\<rparr>) = unresolved s" using w by (simp add: unresolved_def arm_rule_def)
  then show ?thesis
    using w assms(3) by (simp add: stop_ok_def susp_ok_def arm_rule_def wf_walk_def valid_future_def)
qed

text \<open>An armed rule never commits to a launched exchange.\<close>

lemma armed_action_pending: "armed_action D message f armed s = CommittedPending p \<Longrightarrow> pe_future p = None"
  by (auto simp: armed_action_def Let_def split: option.splits DNSRuleAction.splits dnsRouteStatus.splits if_splits)

lemma sweep_loop_pending:
  "sweep_loop D message f kept armed s = (CommittedPending p, s') \<Longrightarrow> pe_future p = None"
proof (induction armed arbitrary: kept s)
  case (Cons a armed)
  then show ?case
    by (auto simp: Let_def armed_action_pending split: if_splits prod.splits sweep_outcome.splits)
qed simp

lemma sweep_pending: "sweepArmedDNSRules D message f s = (CommittedPending p, s') \<Longrightarrow> pe_future p = None"
  by (simp add: sweepArmedDNSRules_def sweep_loop_pending)

lemma rule_round_ok:
  assumes "wf_walk s0"
  shows "step_ok s0 (rule_round D T message f rule s0)"
proof -
  define s where "s = (if hasBindings rule then tick T (settleDNSFutures (tick T s0)) else tick T s0)"
  have q: "quiet s0 s"
    using quiet_trans [OF quiet_tick quiet_trans [OF quiet_settle quiet_tick]] by (simp add: s_def)
  have w: "wf_walk s" using quiet_wf [OF q assms] .
  obtain outcome s2 where sw: "sweepArmedDNSRules D message f (arm_rule rule s) = (outcome, s2)" by fastforce
  note sweep = sweep_wf [OF sw arm_rule_wf [OF w]]
  obtain matched s1 where m: "match_rule D rule (anonymousResponse s) s = (matched, s1)" by fastforce
  have q1: "quiet s s1" using quiet_match [OF m] .
  note w1 = quiet_wf [OF q1 w]
  have fin: "stop_ok (Finished r) s s2" for r
    using sweep by (simp add: stop_ok_def arm_rule_def unresolved_def)
  have armed: "next_ok s (arm_rule rule s)" using arm_rule_wf [OF w] by (simp add: next_ok_def arm_rule_def)
  have race: "step_ok s (case sweepArmedDNSRules D message f (arm_rule rule s) of
                (NotCommitted, s2) \<Rightarrow> NextRule s2
              | (Committed r, s2) \<Rightarrow> Stop (Finished r) s2
              | (CommittedPending p, s2) \<Rightarrow> Stop (Suspended (PendingExchange p)) (s2\<lparr>ws_armedRules := []\<rparr>))"
    using sw sweep fin race_round_ok [OF w] sweep_pending
    by (cases outcome) (auto simp: step_ok_def next_ok_def arm_rule_def)
  have await: "pending_futures s rule \<noteq> [] \<Longrightarrow> stop_ok (Suspended (Await (hd (pending_futures s rule)))) s s"
    using pending_futures_unresolved [OF w, of _ rule] by (intro stop_ok_same [OF w]) (auto simp: susp_ok_def)
  have act: "step_ok s (if matched then action_step D message f rule s1 else NextRule s1)"
    using step_ok_quiet [OF q1 action_step_ok [OF w1]] q1 w1 by (auto simp: step_ok_def next_ok_def quiet_def)
  have "step_ok s (rule_round D T message f rule s0)"
    using race await act armed m unfolding rule_round_def s_def [symmetric]
    by (auto simp: Let_def step_ok_def)
  then show ?thesis by (rule step_ok_quiet [OF q])
qed

subsection \<open>A walk over the rules\<close>

text \<open>
  A walk keeps the state valid and never goes back; where it stops at the rule it started from, it has neither armed a rule
  nor launched more than the exchange of a final rule.
\<close>

definition walk_ok :: "nat \<Rightarrow> walk_outcome \<Rightarrow> dnsRuleWalkState \<Rightarrow> dnsRuleWalkState \<Rightarrow> bool" where
  "walk_ok n outcome s s' \<longleftrightarrow>
     wf_walk s' \<and> ws_ruleIndex s \<le> ws_ruleIndex s' \<and> ws_ruleIndex s' \<le> ws_ruleIndex s + n \<and>
     (\<forall>x. outcome = Suspended x \<longrightarrow> susp_ok x s') \<and>
     (\<forall>p. outcome = Suspended (PendingExchange p) \<longrightarrow> pe_fallback p \<longrightarrow> ws_ruleIndex s' < ws_ruleIndex s + n) \<and>
     (ws_ruleIndex s' = ws_ruleIndex s \<longrightarrow> stop_ok outcome s s')"

lemma walk_rules_ok:
  assumes "walk_rules D T message f rules s = (outcome, s')" "wf_walk s"
  shows "walk_ok (length rules) outcome s s'"
  using assms
proof (induction rules arbitrary: s)
  case Nil
  then show ?case
    by (auto simp: walk_ok_def susp_ok_def valid_future_def intro!: stop_ok_same split: if_splits)
next
  case (Cons rule rules)
  note step = rule_round_ok [OF Cons.prems(2), of D T message f rule]
  show ?case
  proof (cases "rule_round D T message f rule s")
    case (NextRule s1)
    let ?s = "s1\<lparr>ws_ruleIndex := Suc (ws_ruleIndex s1)\<rparr>"
    have "wf_walk ?s" "ws_ruleIndex s1 = ws_ruleIndex s"
      using step NextRule by (simp_all add: step_ok_def next_ok_def wf_walk_def valid_future_def)
    then have "walk_ok (length rules) outcome ?s s'"
      using Cons.IH [of ?s] Cons.prems NextRule by simp
    then show ?thesis using \<open>ws_ruleIndex s1 = ws_ruleIndex s\<close> by (auto simp: walk_ok_def)
  next
    case (Stop outcome' s1)
    then show ?thesis using step Cons.prems by (auto simp: step_ok_def walk_ok_def stop_ok_def)
  qed
qed

lemma walk_ok:
  assumes "walkDNSRules D T message f rules s = (outcome, s')" "wf_walk s"
  shows "walk_ok (length rules - ws_ruleIndex s) outcome s s'"
  using walk_rules_ok [of D T message f "drop (ws_ruleIndex s) rules"] assms by (simp add: walkDNSRules_def)

subsection \<open>More fuel gives the same result\<close>

lemma wait_future_mono: "wait_future n T i s = Some r \<Longrightarrow> n \<le> m \<Longrightarrow> wait_future m T i s = Some r"
proof (induction n arbitrary: m s)
  case (Suc n)
  then obtain m' where m: "m = Suc m'" "n \<le> m'" by (cases m) auto
  show ?case
  proof (cases "fu_result (ws_futures s ! i) = None \<and> \<not> sc_contextDone T (ws_clock s)")
    case True
    then have "wait_future n T i (tick T s) = Some r" using Suc.prems(1) by simp
    from Suc.IH [OF this m(2)] show ?thesis using True by (simp add: m(1))
  next
    case False
    then show ?thesis using Suc.prems(1) by (auto simp: m(1) split: option.splits)
  qed
qed simp

lemma finishPendingExchange_mono:
  "finishPendingExchange n D T p s = Some r \<Longrightarrow> n \<le> m \<Longrightarrow> finishPendingExchange m D T p s = Some r"
  by (cases "pe_future p") (auto simp: finishPendingExchange_def intro: wait_future_mono)

lemma resume_mono:
  "resume n D T message f rules suspension s = Some r \<Longrightarrow> n \<le> m \<Longrightarrow> resume m D T message f rules suspension s = Some r"
proof (induction n arbitrary: m suspension s)
  case (Suc n)
  then obtain m' where m: "m = Suc m'" "n \<le> m'" by (cases m) auto
  obtain outcome s1 where sw: "sweepArmedDNSRules D message f (tick T (settleDNSFutures s)) = (outcome, s1)" by fastforce
  note IH = Suc.IH [OF _ m(2)]
  note fin = finishPendingExchange_mono [OF _ m(2)]
  show ?case
  proof (cases outcome)
    case NotCommitted
    show ?thesis
    proof (cases "\<exists>p. suspension = Some (PendingExchange p)")
      case True
      then obtain p where p: "suspension = Some (PendingExchange p)" by blast
      then obtain r2 s2 where "finishPendingExchange n D T p s1 = Some (r2, s2)"
        using Suc.prems(1) sw NotCommitted by (auto split: option.splits)
      then show ?thesis using Suc.prems(1) sw NotCommitted p fin IH by (auto simp: m(1) split: if_splits)
    next
      case False
      then show ?thesis using Suc.prems(1) sw NotCommitted
        by (auto simp: m(1) IH split: option.splits dnsWalkSuspension.splits if_splits prod.splits walk_outcome.splits)
    qed
  qed (use Suc.prems(1) sw fin in \<open>auto simp: m(1)\<close>)
qed simp

subsection \<open>Exchanges that return\<close>

text \<open>Every launched exchange returns: whatever the time, the answer of a future is still to come or has come.\<close>

definition exchanges_return :: "schedule \<Rightarrow> bool" where
  "exchanges_return T \<longleftrightarrow> (\<forall>i n. \<exists>t\<ge>n. i \<in> set (sc_arrivals T t))"

definition next_arrival :: "schedule \<Rightarrow> dnsRuleWalkState \<Rightarrow> nat" where
  "next_arrival T s = (LEAST d. \<exists>i\<in>unresolved s. i \<in> set (sc_arrivals T (ws_clock s + d)))"

lemma unresolved_tick_subset: "unresolved (tick T s) \<subseteq> unresolved s"
  by (auto simp: unresolved_tick)

lemma tick_progress:
  assumes "exchanges_return T" "unresolved s \<noteq> {}"
  shows "unresolved (tick T s) \<subset> unresolved s \<or>
         unresolved (tick T s) = unresolved s \<and> next_arrival T (tick T s) < next_arrival T s"
proof -
  let ?P = "\<lambda>t. \<exists>i\<in>unresolved s. i \<in> set (sc_arrivals T t)"
  obtain i t where "i \<in> unresolved s" "t \<ge> ws_clock s" "i \<in> set (sc_arrivals T t)"
    using assms by (auto simp: exchanges_return_def) blast
  then have "?P (ws_clock s + (t - ws_clock s))" by auto
  then have P: "?P (ws_clock s + next_arrival T s)" unfolding next_arrival_def by (rule LeastI)
  show ?thesis
  proof (cases "next_arrival T s")
    case 0
    then obtain j where "j \<in> unresolved s" "j \<in> set (sc_arrivals T (ws_clock s))" using P by auto
    then have "j \<notin> unresolved (tick T s)" by (auto simp: unresolved_tick)
    then show ?thesis using unresolved_tick_subset [of T s] \<open>j \<in> unresolved s\<close> by blast
  next
    case (Suc d)
    show ?thesis
    proof (cases "unresolved (tick T s) = unresolved s")
      case True
      have "?P (ws_clock (tick T s) + d)" using P Suc by simp
      then have "next_arrival T (tick T s) \<le> d" unfolding next_arrival_def True by (rule Least_le)
      then show ?thesis using True Suc by simp
    qed (use unresolved_tick_subset in blast)
  qed
qed

lemma wait_future_returns:
  assumes "exchanges_return T" "i < length (ws_futures s)"
  shows "\<exists>n r. wait_future n T i s = Some r"
  using assms(2)
proof (induction s rule: measure_induct_rule [of "\<lambda>s. LEAST d. i \<in> set (sc_arrivals T (ws_clock s + d))"])
  case (less s)
  let ?d = "\<lambda>s. LEAST d. i \<in> set (sc_arrivals T (ws_clock s + d))"
  obtain t where "t \<ge> ws_clock s" "i \<in> set (sc_arrivals T t)"
    using assms(1) by (auto simp: exchanges_return_def)
  then have "i \<in> set (sc_arrivals T (ws_clock s + (t - ws_clock s)))" by auto
  then have P: "i \<in> set (sc_arrivals T (ws_clock s + ?d s))" by (rule LeastI)
  show ?case
  proof (cases "?d s")
    case 0
    then have "i \<notin> unresolved (tick T s)" using P by (auto simp: unresolved_tick)
    then obtain r where "fu_result (ws_futures (tick T s) ! i) = Some r" using less.prems by (auto simp: unresolved_def)
    then have "\<exists>r. wait_future (Suc (Suc 0)) T i s = Some r" by (simp split: option.splits)
    then show ?thesis by blast
  next
    case (Suc d)
    then have "i \<in> set (sc_arrivals T (ws_clock (tick T s) + d))" using P by simp
    then have "?d (tick T s) < ?d s" using Suc Least_le [of _ d] by (metis (no_types, lifting) le_imp_less_Suc)
    then obtain n r where "wait_future n T i (tick T s) = Some r" using less by fastforce
    then have "\<exists>r. wait_future (Suc n) T i s = Some r" by (simp split: option.splits)
    then show ?thesis by blast
  qed
qed

lemma finishPendingExchange_returns:
  assumes "exchanges_return T" "valid_future s (pe_future p)"
  shows "\<exists>n r. finishPendingExchange n D T p s = Some r"
  using wait_future_returns [OF assms(1)] assms(2)
  by (cases "pe_future p") (auto simp: finishPendingExchange_def valid_future_def)

lemma wait_future_quiet: "wait_future n T i s = Some (r, s') \<Longrightarrow> quiet s s'"
proof (induction n arbitrary: s)
  case (Suc n)
  then show ?case using quiet_trans [OF quiet_tick] by (auto split: option.splits if_splits)
qed simp

lemma finishPendingExchange_quiet: "finishPendingExchange n D T p s = Some (r, s') \<Longrightarrow> quiet s s'"
  by (cases "pe_future p") (auto simp: finishPendingExchange_def intro: wait_future_quiet)

subsection \<open>The measure of a suspended walk\<close>

definition resumable :: "dns_rule list \<Rightarrow> dnsWalkSuspension option \<Rightarrow> dnsRuleWalkState \<Rightarrow> bool" where
  "resumable rules suspension s \<longleftrightarrow>
     wf_walk s \<and> ws_ruleIndex s \<le> length rules \<and>
     (\<forall>i. suspension = Some (Await i) \<longrightarrow> i < length (ws_futures s)) \<and>
     (\<forall>p. suspension = Some (PendingExchange p) \<longrightarrow>
        valid_future s (pe_future p) \<and> (pe_fallback p \<longrightarrow> ws_ruleIndex s < length rules))"

text \<open>A suspension that the next round of the loop leaves.\<close>

definition idle :: "dnsWalkSuspension option \<Rightarrow> dnsRuleWalkState \<Rightarrow> bool" where
  "idle suspension s =
     (case suspension of
        None \<Rightarrow> True
      | Some (Await i) \<Rightarrow> i \<notin> unresolved s
      | Some Drain \<Rightarrow> ws_armedRules s = []
      | Some (PendingExchange p) \<Rightarrow> False)"

text \<open>
  What a round of \<^const>\<open>resume\<close> brings down: the rules ahead, whether rules are armed, whether a final exchange may still be
  launched, the exchanges that have not returned, whether the walk is about to go on, and the time until the next answer.
\<close>

definition walk_measure ::
  "schedule \<Rightarrow> dns_rule list \<Rightarrow> dnsWalkSuspension option \<times> dnsRuleWalkState \<Rightarrow> nat \<times> nat \<times> nat \<times> nat \<times> nat \<times> nat"
where
  "walk_measure T rules =
     (\<lambda>(suspension, s).
        (length rules - ws_ruleIndex s, of_bool (ws_armedRules s \<noteq> []), of_bool (ws_terminalFuture s = None),
         card (unresolved s), of_bool (idle suspension s), next_arrival T s))"

definition walk_less :: "((nat \<times> nat \<times> nat \<times> nat \<times> nat \<times> nat) \<times> (nat \<times> nat \<times> nat \<times> nat \<times> nat \<times> nat)) set" where
  "walk_less = less_than <*lex*> less_than <*lex*> less_than <*lex*> less_than <*lex*> less_than <*lex*> less_than"

lemma wf_walk_less: "wf walk_less"
  unfolding walk_less_def by (intro wf_lex_prod wf_less_than)

text \<open>The round up to the sweep.\<close>

lemma swept_quiet:
  assumes "sweepArmedDNSRules D message f (tick T (settleDNSFutures s)) = (NotCommitted, s1)" "resumable rules suspension s"
  shows "resumable rules suspension s1" "ws_ruleIndex s1 = ws_ruleIndex s" "ws_terminalFuture s1 = ws_terminalFuture s"
    "unresolved s1 \<subseteq> unresolved s" "ws_armedRules s1 \<noteq> [] \<Longrightarrow> ws_armedRules s \<noteq> []"
    "unresolved s1 = unresolved s \<Longrightarrow> unresolved s \<noteq> {} \<Longrightarrow> exchanges_return T \<Longrightarrow> next_arrival T s1 < next_arrival T s"
    "ws_armedRules s1 \<noteq> [] \<Longrightarrow> unresolved s1 \<noteq> {}"
proof -
  let ?s = "tick T (settleDNSFutures s)"
  have q: "quiet s ?s" using quiet_trans [OF quiet_settle quiet_tick] .
  have w: "wf_walk ?s" using quiet_wf [OF q] assms(2) by (simp add: resumable_def)
  obtain as m where s1: "s1 = ?s\<lparr>ws_armedRules := as, ws_metadata := m\<rparr>"
    and as: "as = filter (\<lambda>a. \<not> list_all (resolved ?s) (ar_futures a)) (ws_armedRules ?s)"
    using sweep_state [OF assms(1)] by metis
  have u: "unresolved s1 = unresolved ?s" by (simp add: s1 unresolved_def)
  have "wf_walk s1" using sweep_wf(1) [OF assms(1) w] .
  then show "resumable rules suspension s1" using assms(2) by (auto simp: resumable_def s1 valid_future_def)
  show "ws_ruleIndex s1 = ws_ruleIndex s" "ws_terminalFuture s1 = ws_terminalFuture s"
    "ws_armedRules s1 \<noteq> [] \<Longrightarrow> ws_armedRules s \<noteq> []" by (auto simp: s1 as)
  show "unresolved s1 \<subseteq> unresolved s" using q u by (simp add: quiet_def)
  have "next_arrival T (settleDNSFutures s) = next_arrival T s" "next_arrival T s1 = next_arrival T ?s"
    by (simp_all add: next_arrival_def u) (simp add: s1)
  then show "next_arrival T s1 < next_arrival T s"
    if "unresolved s1 = unresolved s" "unresolved s \<noteq> {}" "exchanges_return T"
    using tick_progress [OF that(3), of "settleDNSFutures s"] that u by auto
  show "unresolved s1 \<noteq> {}" if armed: "ws_armedRules s1 \<noteq> []"
  proof -
    obtain a where a: "a \<in> set as" using armed by (cases as) (auto simp: s1)
    then obtain i where "i \<in> set (ar_futures a)" "\<not> resolved ?s i" "a \<in> set (ws_armedRules ?s)"
      by (auto simp: as list_all_iff)
    then have "i \<in> unresolved ?s" using w by (auto simp: wf_walk_def unresolved_def resolved_def)
    then show ?thesis using u by blast
  qed
qed

text \<open>Waiting.\<close>

lemma wait_decreases:
  assumes "sweepArmedDNSRules D message f (tick T (settleDNSFutures s)) = (NotCommitted, s1)" "resumable rules suspension s"
    and "exchanges_return T" "must_wait suspension s1"
  shows "(walk_measure T rules (suspension, tick T s1), walk_measure T rules (suspension, s)) \<in> walk_less"
    "resumable rules suspension (tick T s1)"
proof -
  note q = swept_quiet [OF assms(1,2)]
  show "resumable rules suspension (tick T s1)"
    using q(1) quiet_wf [OF quiet_tick] by (auto simp: resumable_def valid_future_def)
  have ne: "unresolved s1 \<noteq> {}"
    using assms(4) q(1,7) resolved_unresolved [of _ s1]
    by (auto simp: must_wait_def resumable_def split: option.splits dnsWalkSuspension.splits)
  have sub: "unresolved (tick T s1) \<subseteq> unresolved s" using q(4) unresolved_tick_subset by blast
  show "(walk_measure T rules (suspension, tick T s1), walk_measure T rules (suspension, s)) \<in> walk_less"
  proof (cases "unresolved (tick T s1) = unresolved s \<and> (ws_armedRules s1 = [] \<longrightarrow> ws_armedRules s = [])")
    case False
    then have "card (unresolved (tick T s1)) < card (unresolved s) \<or> ws_armedRules s1 = [] \<and> ws_armedRules s \<noteq> []"
      using psubset_card_mono [OF finite_unresolved] sub by blast
    then show ?thesis using q(2,3,5) by (auto simp: walk_measure_def walk_less_def)
  next
    case True
    then have u: "unresolved s1 = unresolved s" using q(4) unresolved_tick_subset [of T s1] by blast
    have "next_arrival T (tick T s1) < next_arrival T s"
      using tick_progress [OF assms(3) ne] q(6) [OF u _ assms(3)] True u ne by auto
    moreover have "idle suspension (tick T s1) = idle suspension s"
      using True q(5) by (auto simp: idle_def split: option.splits dnsWalkSuspension.splits)
    ultimately show ?thesis using True q(2,3,5) by (auto simp: walk_measure_def walk_less_def)
  qed
qed

text \<open>Walking on.\<close>

lemma walk_decreases:
  assumes "sweepArmedDNSRules D message f (tick T (settleDNSFutures s)) = (NotCommitted, s1)" "resumable rules suspension s"
    and "\<not> must_wait suspension s1" "\<forall>p. suspension \<noteq> Some (PendingExchange p)"
    and "walkDNSRules D T message f rules s1 = (Suspended suspension', s2)"
  shows "(walk_measure T rules (Some suspension', s2), walk_measure T rules (suspension, s)) \<in> walk_less"
    "resumable rules (Some suspension') s2"
proof -
  note q = swept_quiet [OF assms(1,2)]
  have ok: "walk_ok (length rules - ws_ruleIndex s1) (Suspended suspension') s1 s2"
    using walk_ok [OF assms(5)] q(1) by (simp add: resumable_def)
  then show "resumable rules (Some suspension') s2"
    using q(1) by (auto simp: resumable_def walk_ok_def susp_ok_def unresolved_def)
  have idle': "\<not> idle (Some suspension') s2"
    using ok by (auto simp: walk_ok_def susp_ok_def idle_def split: dnsWalkSuspension.splits)
  have idle: "idle suspension s \<or> card (unresolved s1) < card (unresolved s) \<or> ws_armedRules s1 = [] \<and> ws_armedRules s \<noteq> []"
    using assms(3,4) q(1,4) resolved_unresolved [of _ s1] psubset_card_mono [OF finite_unresolved, of "unresolved s1" s]
    by (fastforce simp: must_wait_def idle_def resumable_def split: option.splits dnsWalkSuspension.splits)
  show "(walk_measure T rules (Some suspension', s2), walk_measure T rules (suspension, s)) \<in> walk_less"
  proof (cases "ws_ruleIndex s2 = ws_ruleIndex s1")
    case False
    then show ?thesis using ok q(1,2) by (auto simp: walk_ok_def resumable_def walk_measure_def walk_less_def)
  next
    case True
    then have st: "stop_ok (Suspended suspension') s1 s2" using ok by (simp add: walk_ok_def)
    show ?thesis
    proof (cases "ws_terminalFuture s2 = ws_terminalFuture s1")
      case False
      then show ?thesis using st q(2,3,5) by (auto simp: stop_ok_def walk_measure_def walk_less_def)
    next
      case same: True
      then have "card (unresolved s2) \<le> card (unresolved s1)" "card (unresolved s1) \<le> card (unresolved s)"
        using st q(4) by (auto simp: stop_ok_def intro: card_mono [OF finite_unresolved])
      then show ?thesis using st q(2,3,5) idle idle' same by (auto simp: stop_ok_def walk_measure_def walk_less_def)
    qed
  qed
qed

subsection \<open>The walk comes to an end\<close>

lemma pending_returns:
  assumes "exchanges_return T" "sweepArmedDNSRules D message f (tick T (settleDNSFutures s)) = (NotCommitted, s1)"
    and "resumable rules (Some (PendingExchange p)) s"
    and goes_on: "\<And>s2. pe_fallback p \<Longrightarrow> ws_ruleIndex s2 = Suc (ws_ruleIndex s) \<Longrightarrow> resumable rules None s2 \<Longrightarrow>
           \<exists>n r. resume n D T message f rules None s2 = Some r"
  shows "\<exists>n r. resume n D T message f rules (Some (PendingExchange p)) s = Some r"
proof -
  note q = swept_quiet [OF assms(2,3)]
  have "valid_future s1 (pe_future p)" using q(1) by (simp add: resumable_def)
  then obtain n r s2 where fin: "finishPendingExchange n D T p s1 = Some (r, s2)"
    using finishPendingExchange_returns [OF assms(1)] by (metis surj_pair)
  let ?s = "s2\<lparr>ws_ruleIndex := Suc (ws_ruleIndex s2)\<rparr>"
  show ?thesis
  proof (cases "pe_fallback p \<and> \<not> sc_contextDone T (ws_clock s2) \<and> failed_result r")
    case False
    then have "resume (Suc n) D T message f rules (Some (PendingExchange p)) s = Some r" using assms(2) fin by auto
    then show ?thesis by blast
  next
    case True
    have w: "wf_walk s2" and "ws_ruleIndex s2 = ws_ruleIndex s"
      using finishPendingExchange_quiet [OF fin] quiet_wf [OF finishPendingExchange_quiet [OF fin]] q(1,2)
      by (simp_all add: resumable_def) (simp add: quiet_def)
    then have "resumable rules None ?s"
      using True assms(3) by (auto simp: resumable_def wf_walk_def valid_future_def)
    then obtain m r' where "resume m D T message f rules None ?s = Some r'"
      using goes_on [of ?s] True \<open>ws_ruleIndex s2 = ws_ruleIndex s\<close> by auto
    then have "resume (Suc (max n m)) D T message f rules (Some (PendingExchange p)) s = Some r'"
      using assms(2) True finishPendingExchange_mono [OF fin, of "max n m"] resume_mono [of m D T message f rules None ?s r' "max n m"]
      by auto
    then show ?thesis by blast
  qed
qed

lemma walk_returns:
  assumes "sweepArmedDNSRules D message f (tick T (settleDNSFutures s)) = (NotCommitted, s1)"
    and "\<not> must_wait suspension s1" "\<forall>p. suspension \<noteq> Some (PendingExchange p)"
    and goes_on: "\<And>suspension' s2. walkDNSRules D T message f rules s1 = (Suspended suspension', s2) \<Longrightarrow>
           \<exists>n r. resume n D T message f rules (Some suspension') s2 = Some r"
  shows "\<exists>n r. resume n D T message f rules suspension s = Some r"
proof -
  obtain outcome s2 where w: "walkDNSRules D T message f rules s1 = (outcome, s2)" by fastforce
  show ?thesis
  proof (cases outcome)
    case (Finished r)
    then have "resume (Suc 0) D T message f rules suspension s = Some r"
      using assms(1-3) w by (auto split: option.splits dnsWalkSuspension.splits)
    then show ?thesis by blast
  next
    case (Suspended suspension')
    then obtain n r where "resume n D T message f rules (Some suspension') s2 = Some r" using goes_on w by blast
    then have "resume (Suc n) D T message f rules suspension s = Some r"
      using assms(1-3) w Suspended by (auto split: option.splits dnsWalkSuspension.splits)
    then show ?thesis by blast
  qed
qed

lemma resume_returns:
  assumes "exchanges_return T" "resumable rules suspension s"
  shows "\<exists>n r. resume n D T message f rules suspension s = Some r"
  using assms(2)
proof (induction "(suspension, s)" arbitrary: suspension s rule: wf_induct_rule [OF wf_inv_image [OF wf_walk_less, of "walk_measure T rules"]])
  case (1 suspension s)
  obtain outcome s1 where sw: "sweepArmedDNSRules D message f (tick T (settleDNSFutures s)) = (outcome, s1)" by fastforce
  have IH: "\<exists>n r. resume n D T message f rules suspension' s' = Some r"
    if "(walk_measure T rules (suspension', s'), walk_measure T rules (suspension, s)) \<in> walk_less"
      "resumable rules suspension' s'" for suspension' s'
    using "1.hyps" [of suspension' s'] that by (simp add: in_inv_image)
  show ?case
  proof (cases outcome)
    case (Committed r)
    then have "resume (Suc 0) D T message f rules suspension s = Some r" using sw by simp
    then show ?thesis by blast
  next
    case (CommittedPending p)
    then have "valid_future s1 (pe_future p)" using sweep_pending sw by (simp add: valid_future_def)
    then obtain n r where "finishPendingExchange n D T p s1 = Some r" using finishPendingExchange_returns [OF assms(1)] by blast
    then have "resume (Suc n) D T message f rules suspension s = Some (fst r)" using sw CommittedPending by simp
    then show ?thesis by blast
  next
    case NotCommitted
    note sw = sw [unfolded NotCommitted]
    note q = swept_quiet [OF sw "1.prems"]
    consider (pending) p where "suspension = Some (PendingExchange p)"
      | (wait) "must_wait suspension s1" "\<forall>p. suspension \<noteq> Some (PendingExchange p)"
      | (walk) "\<not> must_wait suspension s1" "\<forall>p. suspension \<noteq> Some (PendingExchange p)" by blast
    then show ?thesis
    proof cases
      case pending
      have "\<exists>n r. resume n D T message f rules None s2 = Some r"
        if "pe_fallback p" "ws_ruleIndex s2 = Suc (ws_ruleIndex s)" "resumable rules None s2" for s2
      proof (rule IH [OF _ that(3)])
        have "length rules - ws_ruleIndex s2 < length rules - ws_ruleIndex s"
          using that "1.prems" pending by (auto simp: resumable_def)
        then show "(walk_measure T rules (None, s2), walk_measure T rules (suspension, s)) \<in> walk_less"
          by (simp add: walk_measure_def walk_less_def)
      qed
      then show ?thesis using pending_returns [OF assms(1) sw] "1.prems" pending by blast
    next
      case wait
      obtain n r where "resume n D T message f rules suspension (tick T s1) = Some r"
        using IH wait_decreases [OF sw "1.prems" assms(1) wait(1)] by blast
      then have "\<exists>r. resume (Suc n) D T message f rules suspension s = Some r"
        using sw wait by (auto split: option.splits dnsWalkSuspension.splits)
      then show ?thesis by blast
    next
      case walk
      then show ?thesis using IH walk_decreases [OF sw "1.prems" walk] by (intro walk_returns [OF sw]) blast+
    qed
  qed
qed

theorem exchange_comes_to_an_end:
  assumes "exchanges_return T"
  shows "\<exists>fuel result. exchangeWithRules fuel D T rules message options allowFakeIP m = Some result"
proof -
  have w: "wf_walk (walk_start options m)" by (simp add: wf_walk_def valid_future_def walk_start_def)
  show ?thesis
  proof (cases "walkDNSRules D T message allowFakeIP rules (walk_start options m)")
    case (Pair outcome s)
    note ok = walk_ok [OF Pair w]
    show ?thesis
    proof (cases outcome)
      case (Suspended suspension)
      then have "resumable rules (Some suspension) s"
        using ok by (auto simp: walk_ok_def resumable_def susp_ok_def walk_start_def unresolved_def)
      then show ?thesis using resume_returns [OF assms] Pair Suspended by (auto simp: exchangeWithRules_def)
    qed (simp add: Pair exchangeWithRules_def)
  qed
qed

end
