(* ===== verification/DNS_Sequential.thy ===== *)
theory DNS_Sequential
  imports DNS_Walk
begin

text \<open>
  A sequential reading of DNS rules: every evaluation is answered before the next rule is looked at. Where no rule races,
  no response has a tag and no rule falls back, the concurrent walk of the DNS router gives the answer of this reading,
  whenever the exchanges return.
\<close>

subsection \<open>Rules that do not look at a response\<close>

fun deaf_item :: "RuleItem \<Rightarrow> bool" where
  "deaf_item (DNSResponseRCodeItem c) = False"
| "deaf_item (DNSResponseRecordItem rs sel) = False"
| "deaf_item _ = True"

definition deaf_default :: "abstractDefaultRule \<Rightarrow> bool" where
  "deaf_default r =
     list_all deaf_item
       (r_items r @ r_sourceAddressItems r @ r_sourcePortItems r @ r_destinationAddressItems r @
        r_destinationIPCIDRItems r @ r_destinationPortItems r)"

fun deaf_headless :: "HeadlessRule \<Rightarrow> bool" where
  "deaf_headless (DefaultHeadlessRule r) = deaf_default r"
| "deaf_headless (LogicalHeadlessRule mode rules invert) = list_all deaf_headless rules"

fun deaf_dns :: "rule_store \<Rightarrow> 'a DNSRule \<Rightarrow> bool" where
  "deaf_dns S (DefaultDNSRule r mr tag race a) =
     (\<not> mr \<and> deaf_default r \<and>
      (case r_ruleSetItem r of
         None \<Rightarrow> True
       | Some rsi \<Rightarrow> list_all (\<lambda>s. list_all deaf_headless (S s)) (rs_setList rsi)))"
| "deaf_dns S (LogicalDNSRule mode rules invert tags anon race a) = list_all (deaf_dns S) rules"

text \<open>Showing a response to a match that does not take addresses from it.\<close>

definition shown :: "dns_Msg option \<Rightarrow> InboundContext \<Rightarrow> InboundContext" where
  "shown r m = m\<lparr>m_DNSResponse := r\<rparr>"

lemma shown_simps [simp]:
  "ResetRuleCache (shown r m) = shown r (ResetRuleCache m)"
  "nestedMetadata rsi (shown r m) = shown r (nestedMetadata rsi m)"
  "m_IPCIDRMatchSource (shown r m) = m_IPCIDRMatchSource m"
  "m_IgnoreDestinationIPCIDRMatch (shown r m) = m_IgnoreDestinationIPCIDRMatch m"
  "m_DestinationAddressMatchFromResponse (shown r m) = m_DestinationAddressMatchFromResponse m"
  by (simp_all add: shown_def ResetRuleCache_def ResetRuleMatchCache_def nestedMetadata_def)

lemma flag_simps [simp]:
  "m_DestinationAddressMatchFromResponse (ResetRuleCache m) = m_DestinationAddressMatchFromResponse m"
  "m_DestinationAddressMatchFromResponse (nestedMetadata rsi m) = m_DestinationAddressMatchFromResponse m"
  by (simp_all add: ResetRuleCache_def ResetRuleMatchCache_def nestedMetadata_def)

lemma deaf_item_shown:
  assumes "deaf_item it" "\<not> m_DestinationAddressMatchFromResponse m"
  shows "RuleItem_Match E it (shown r m) = RuleItem_Match E it m"
  using assms by (cases it) (simp_all add: item_reads shown_def)

lemma item_verdicts_shown:
  "list_all deaf_item items \<Longrightarrow> \<not> m_DestinationAddressMatchFromResponse m \<Longrightarrow>
   item_verdicts E items (shown r m) = item_verdicts E items m"
  by (auto simp: item_verdicts_def list_all_iff deaf_item_shown)

lemma default_parts_shown:
  assumes "deaf_default d" "\<not> m_DestinationAddressMatchFromResponse m"
  shows "items_ok E d (shown r m) = items_ok E d m" "group_verdicts E d (shown r m) = group_verdicts E d m"
proof -
  show "items_ok E d (shown r m) = items_ok E d m"
    using assms by (auto simp: items_ok_def deaf_default_def list_all_iff deaf_item_shown)
  show "group_verdicts E d (shown r m) = group_verdicts E d m"
  proof
    show "group_verdicts E d (shown r m) g = group_verdicts E d m g" for g
      using assms by (cases g) (auto simp: deaf_default_def item_verdicts_shown)
  qed
qed

lemma headless_shown:
  "deaf_headless rule \<Longrightarrow> \<not> m_DestinationAddressMatchFromResponse m \<Longrightarrow>
   headless_formula E rule (shown r m) = headless_formula E rule m"
proof (induction rule arbitrary: m)
  case (LogicalHeadlessRule mode rules invert)
  have "map (\<lambda>q. headless_formula E q (shown r (ResetRuleCache m))) rules =
        map (\<lambda>q. headless_formula E q (ResetRuleCache m)) rules"
    using LogicalHeadlessRule by (auto simp: list_all_iff)
  then show ?case by (simp only: headless_formula.simps shown_simps)
qed (simp add: default_formula_def default_parts_shown split: option.split)

lemma set_shown:
  assumes "list_all deaf_headless rules" "\<not> m_DestinationAddressMatchFromResponse m"
  shows "set_formula E rules V (shown r m) = set_formula E rules V m"
proof (cases "mergeableRuleIn rules")
  case (Some b)
  then have "rules = [DefaultHeadlessRule b]"
    by (auto simp: mergeableRuleIn_def split: list.splits HeadlessRule.splits if_splits)
  then show ?thesis using assms Some by (simp add: set_formula_def default_parts_shown)
next
  case None
  have "list_ex (\<lambda>q. headless_formula E q (shown r m)) rules = list_ex (\<lambda>q. headless_formula E q m) rules"
    using assms headless_shown by (auto simp: list_ex_iff list_all_iff)
  then show ?thesis by (simp add: set_formula_def None)
qed

lemma dns_shown:
  "deaf_dns S rule \<Longrightarrow> \<not> m_DestinationAddressMatchFromResponse m \<Longrightarrow>
   dns_formula E S rule (shown r m) = dns_formula E S rule m"
proof (induction rule arbitrary: m)
  case (DefaultDNSRule d mr tag race a)
  show ?case
  proof (cases "r_ruleSetItem d")
    case None
    then show ?thesis using DefaultDNSRule by (simp add: default_formula_def default_parts_shown)
  next
    case (Some rsi)
    then have "rule_set_formula E S rsi V (shown r m) = rule_set_formula E S rsi V m" for V
      using DefaultDNSRule by (auto simp: rule_set_formula_def list_ex_iff list_all_iff set_shown)
    then show ?thesis using DefaultDNSRule Some by (simp add: default_formula_def default_parts_shown)
  qed
next
  case (LogicalDNSRule mode rules invert tags anon race a)
  have "map (\<lambda>q. dns_formula E S q (shown r (ResetRuleCache m))) rules =
        map (\<lambda>q. dns_formula E S q (ResetRuleCache m)) rules"
    using LogicalDNSRule by (auto simp: list_all_iff)
  then show ?case by (simp only: dns_formula.simps shown_simps)
qed

subsection \<open>The sequential reading\<close>

type_synonym answered = "(DNSTransport \<times> exchange_result) option"

definition answer_view :: "answered \<Rightarrow> dns_Message option" where
  "answer_view a = (case a of Some (transport, Inr response) \<Rightarrow> Some response | _ \<Rightarrow> None)"

definition sequential_match :: "dns_router \<Rightarrow> dns_rule \<Rightarrow> answered \<Rightarrow> InboundContext \<Rightarrow> bool" where
  "sequential_match D rule a m =
     dns_formula (dr_env D) (dr_store D) rule (match_metadata (answer_view a) Map.empty m)"

fun sequential ::
  "dns_router \<Rightarrow> (DNSTransport \<Rightarrow> DNSQueryOptions \<Rightarrow> exchange_result) \<Rightarrow> dns_Message \<Rightarrow> bool \<Rightarrow> InboundContext \<Rightarrow>
   dns_rule list \<Rightarrow> DNSQueryOptions \<Rightarrow> answered \<Rightarrow> exchangeWithRulesResult"
where
  "sequential D ex message f m [] options a =
     exchange_outcome (dr_Default D) (ex (dr_Default D) (finalizeExchangeOptions D options))"
| "sequential D ex message f m (rule # rules) options a =
     (if \<not> sequential_match D rule a m then sequential D ex message f m rules options a
      else case DNSRule_Action rule of
        None \<Rightarrow> sequential D ex message f m rules options a
      | Some (ActionDNSRouteOptions opts) \<Rightarrow>
          sequential D ex message f m rules (applyDNSRouteOptions options opts) a
      | Some (RuleActionEvaluate server tag speculative opts) \<Rightarrow>
          sequential D ex message f m rules options
            (map_option (\<lambda>t. (t, ex t (finalizeExchangeOptions D (applyDNSRouteOptions options opts)))) (dr_Transport D server))
      | Some RuleActionRespond \<Rightarrow> respond_result (answer_view a) (map_option fst a)
      | Some (RuleActionDNSRoute server speculative fallback opts) \<Rightarrow>
          (case resolveDNSRoute D server opts f options of
             RouteResolved t o' \<Rightarrow> exchange_outcome t (ex t (finalizeExchangeOptions D o'))
           | _ \<Rightarrow> sequential D ex message f m rules options a)
      | Some (DNSReject reject_method noDrop) \<Rightarrow>
          (case reject_result message reject_method noDrop of
             Some r \<Rightarrow> r | None \<Rightarrow> sequential D ex message f m rules options a)
      | Some (RuleActionPredefined rcode answer ns extra) \<Rightarrow> predefined_result message rcode answer ns extra)"

text \<open>The rules that are read sequentially.\<close>

definition plain_dns_rule :: "rule_store \<Rightarrow> dns_rule \<Rightarrow> bool" where
  "plain_dns_rule S rule \<longleftrightarrow>
     \<not> DNSRule_Race rule \<and> MatchResponseTags rule = [] \<and> MatchResponseTag rule = [] \<and>
     (hasBindings rule \<or> deaf_dns S rule) \<and>
     (case DNSRule_Action rule of
        Some (RuleActionEvaluate server tag speculative opts) \<Rightarrow> tag = []
      | Some (RuleActionDNSRoute server speculative fallback opts) \<Rightarrow> \<not> fallback
      | _ \<Rightarrow> True)"

subsection \<open>The walk follows the sequential reading\<close>

lemma match_metadata_base [simp]:
  "match_metadata None Map.empty (match_metadata x n m) = match_metadata None Map.empty m"
  by (simp add: match_metadata_def ResetRuleCache_def ResetRuleMatchCache_def)

lemma match_metadata_shown:
  "match_metadata x Map.empty m = shown (map_option metadata_message x) (match_metadata None Map.empty m)"
  by (simp add: match_metadata_def shown_def)

lemma match_metadata_decided: "\<not> m_IgnoreDestinationIPCIDRMatch m \<Longrightarrow> decided (match_metadata x n m)"
  by (simp add: match_metadata_def decided_def ResetRuleCache_def ResetRuleMatchCache_def)

definition same_base :: "InboundContext \<Rightarrow> InboundContext \<Rightarrow> bool" where
  "same_base m m' \<longleftrightarrow>
     \<not> m_IgnoreDestinationIPCIDRMatch m' \<and> match_metadata None Map.empty m' = match_metadata None Map.empty m"

lemma same_base_match [simp]: "same_base m m' \<Longrightarrow> same_base m (match_metadata x n m')"
  by (simp add: same_base_def) (simp add: match_metadata_def ResetRuleCache_def ResetRuleMatchCache_def)

text \<open>The futures have no tag, and have the answer of their transport or none yet.\<close>

definition plain_future :: "(DNSTransport \<Rightarrow> DNSQueryOptions \<Rightarrow> exchange_result) \<Rightarrow> dnsEvaluatedFuture \<Rightarrow> bool" where
  "plain_future ex f \<longleftrightarrow>
     fu_tag f = [] \<and> (fu_result f = None \<or> fu_result f = Some (ex (fu_transport f) (fu_options f)))"

definition future_answer ::
  "(DNSTransport \<Rightarrow> DNSQueryOptions \<Rightarrow> exchange_result) \<Rightarrow> dnsEvaluatedFuture \<Rightarrow> DNSTransport \<times> exchange_result"
where
  "future_answer ex f = (fu_transport f, ex (fu_transport f) (fu_options f))"

text \<open>A state of the walk and the answer that the sequential reading has at the same rule.\<close>

definition follows ::
  "(DNSTransport \<Rightarrow> DNSQueryOptions \<Rightarrow> exchange_result) \<Rightarrow> InboundContext \<Rightarrow> answered \<Rightarrow> dnsRuleWalkState \<Rightarrow> bool"
where
  "follows ex m a s \<longleftrightarrow>
     wf_walk s \<and> ws_armedRules s = [] \<and> ws_terminalFuture s = None \<and> ws_namedResponses s = Map.empty \<and>
     list_all (plain_future ex) (ws_futures s) \<and>
     a = map_option (\<lambda>i. future_answer ex (ws_futures s ! i)) (ws_anonymousFuture s) \<and>
     same_base m (ws_metadata s)"

lemma follows_tick:
  assumes "follows ex m a s" "\<forall>t. sc_exchange T t = ex"
  shows "follows ex m a (tick T s)"
proof -
  have "plain_future ex (ws_futures (tick T s) ! i)"
    "future_answer ex (ws_futures (tick T s) ! i) = future_answer ex (ws_futures s ! i)" if "i < length (ws_futures s)" for i
    using assms that by (auto simp: follows_def list_all_length tick_nth arrive_def plain_future_def future_answer_def)
  then show ?thesis using assms(1) quiet_wf [OF quiet_tick]
    by (auto simp: follows_def list_all_length wf_walk_def valid_future_def option.map_comp comp_def
        intro!: option.map_cong0 split: option.splits)
qed

lemma follows_settle_one:
  assumes "follows ex m a s" "i < length (ws_futures s)"
  shows "follows ex m a (settle_one i s)"
proof (cases "fu_settled (ws_futures s ! i) \<or> \<not> resolved s i")
  case False
  let ?f = "(ws_futures s ! i)\<lparr>fu_settled := True\<rparr>"
  have plain: "plain_future ex (ws_futures s ! i)" using assms by (simp add: follows_def list_all_length)
  then have "settle_one i s = s\<lparr>ws_futures := (ws_futures s)[i := ?f]\<rparr>"
    using False by (simp add: settle_one_def plain_future_def Let_def)
  moreover have "plain_future ex ?f" "future_answer ex ?f = future_answer ex (ws_futures s ! i)"
    using plain by (simp_all add: plain_future_def future_answer_def)
  ultimately show ?thesis using assms
    by (cases "ws_anonymousFuture s")
      (auto simp: follows_def list_all_length nth_list_update wf_walk_def valid_future_def)
qed (use assms in \<open>auto simp: settle_one_def Let_def\<close>)

lemma follows_settle: "follows ex m a s \<Longrightarrow> follows ex m a (settleDNSFutures s)"
proof -
  have "length (ws_futures (fold settle_one is s)) = length (ws_futures s) \<and> follows ex m a (fold settle_one is s)"
    if "follows ex m a s" "list_all (\<lambda>i. i < length (ws_futures s)) is" for "is" s
    using that by (induction "is" arbitrary: s) (simp_all add: follows_settle_one)
  then show "follows ex m a s \<Longrightarrow> follows ex m a (settleDNSFutures s)"
    by (auto simp: settleDNSFutures_def list_all_iff)
qed

lemma follows_metadata: "follows ex m a s \<Longrightarrow> same_base m m' \<Longrightarrow> follows ex m a (s\<lparr>ws_metadata := m'\<rparr>)"
  by (simp add: follows_def wf_walk_def valid_future_def)

text \<open>A future that has finished shows the answer of the sequential reading.\<close>

lemma follows_response:
  assumes "follows ex m a s" "pending_anonymous s = []"
  shows "anonymousResponse s = answer_view a"
    "map_option (\<lambda>i. fu_transport (ws_futures s ! i)) (ws_anonymousFuture s) = map_option fst a"
proof -
  have "plain_future ex (ws_futures s ! i)" if "ws_anonymousFuture s = Some i" for i
    using assms(1) that by (auto simp: follows_def list_all_length wf_walk_def valid_future_def)
  then show "anonymousResponse s = answer_view a"
    using assms
    by (auto simp: follows_def anonymousResponse_def answer_view_def view_def future_answer_def pending_anonymous_def
        resolved_def plain_future_def split: option.splits sum.splits if_splits)
  show "map_option (\<lambda>i. fu_transport (ws_futures s ! i)) (ws_anonymousFuture s) = map_option fst a"
    using assms(1) by (simp add: follows_def option.map_comp comp_def future_answer_def)
qed

lemma follows_match:
  assumes "follows ex m a s" "plain_dns_rule (dr_store D) rule" "hasBindings rule \<Longrightarrow> pending_futures s rule = []"
  shows "\<exists>m'. match_rule D rule (anonymousResponse s) s = (sequential_match D rule a m, s\<lparr>ws_metadata := m'\<rparr>) \<and> same_base m m'"
proof -
  let ?E = "dr_env D" and ?S = "dr_store D" and ?m = "match_metadata (anonymousResponse s) Map.empty (ws_metadata s)"
  have base: "same_base m (ws_metadata s)" and named: "ws_namedResponses s = Map.empty"
    using assms(1) by (simp_all add: follows_def)
  have eq: "match_metadata x Map.empty (ws_metadata s) = match_metadata x Map.empty m" for x
    using base by (metis match_metadata_shown same_base_def)
  have "dns_formula ?E ?S rule ?m = sequential_match D rule a m"
  proof (cases "hasBindings rule")
    case True
    then have "pending_anonymous s = []"
      using assms(2,3) by (auto simp: plain_dns_rule_def hasBindings_def pending_futures_def)
    then show ?thesis using follows_response(1) [OF assms(1)] by (simp add: sequential_match_def eq)
  next
    case False
    then have d: "deaf_dns ?S rule" using assms(2) by (simp add: plain_dns_rule_def)
    have n: "\<not> m_DestinationAddressMatchFromResponse (match_metadata None Map.empty m)" by (simp add: match_metadata_def)
    have "dns_formula ?E ?S rule (match_metadata x Map.empty m) = dns_formula ?E ?S rule (match_metadata None Map.empty m)" for x
      by (simp only: match_metadata_shown [of x m] dns_shown [OF d n])
    then show ?thesis unfolding sequential_match_def eq by metis
  qed
  moreover have "DNSRule_Match ?E ?S rule ?m = (dns_formula ?E ?S rule ?m, ?m)"
    using base by (intro dns_rule.match_decided match_metadata_decided) (simp add: same_base_def)
  ultimately show ?thesis using base by (auto simp: match_rule_def named)
qed

text \<open>
  What a walk leaves: the result, or a state from which the sequential reading of the rules from there on still has the
  value \<open>v\<close>, or an exchange whose answer is that value.
\<close>

definition leads_to ::
  "dns_router \<Rightarrow> (DNSTransport \<Rightarrow> DNSQueryOptions \<Rightarrow> exchange_result) \<Rightarrow> dns_Message \<Rightarrow> bool \<Rightarrow> InboundContext \<Rightarrow>
   dns_rule list \<Rightarrow> exchangeWithRulesResult \<Rightarrow> dnsRuleWalkState \<Rightarrow> bool"
where
  "leads_to D ex message f m rules v s \<longleftrightarrow>
     (\<exists>a. follows ex m a s \<and>
          sequential D ex message f m (drop (ws_ruleIndex s) rules) (ws_effectiveOptions s) a = v)"

definition outcome_leads_to ::
  "dns_router \<Rightarrow> (DNSTransport \<Rightarrow> DNSQueryOptions \<Rightarrow> exchange_result) \<Rightarrow> dns_Message \<Rightarrow> bool \<Rightarrow> InboundContext \<Rightarrow>
   dns_rule list \<Rightarrow> exchangeWithRulesResult \<Rightarrow> walk_outcome \<Rightarrow> dnsRuleWalkState \<Rightarrow> bool"
where
  "outcome_leads_to D ex message f m rules v outcome s =
     (case outcome of
        Finished r \<Rightarrow> r = v
      | Suspended (Await i) \<Rightarrow> leads_to D ex message f m rules v s
      | Suspended Drain \<Rightarrow> False
      | Suspended (PendingExchange p) \<Rightarrow>
          ws_armedRules s = [] \<and> pe_future p = None \<and> \<not> pe_fallback p \<and>
          exchange_outcome (pe_transport p) (ex (pe_transport p) (finalizeExchangeOptions D (pe_options p))) = v)"

lemma follows_launch:
  assumes "follows ex m a s" "launchDNSEvaluate D [] False transport options s = (i, s1)"
  shows "follows ex m (Some (transport, ex transport (finalizeExchangeOptions D options))) (s1\<lparr>ws_anonymousFuture := Some i\<rparr>)"
proof -
  have "wf_walk (s1\<lparr>ws_anonymousFuture := Some i\<rparr>)"
    using assms by (auto simp: follows_def launchDNSEvaluate_def wf_walk_def valid_future_def less_Suc_eq)
  then show ?thesis
    using assms by (auto simp: follows_def launchDNSEvaluate_def plain_future_def future_answer_def)
qed

text \<open>One matching rule.\<close>

lemma action_follows:
  assumes "follows ex m a s" "plain_dns_rule (dr_store D) rule" "hasBindings rule \<Longrightarrow> pending_futures s rule = []"
    and "sequential_match D rule a m" "drop (ws_ruleIndex s) rules = rule # rest"
    and v_def: "v = sequential D ex message f m (rule # rest) (ws_effectiveOptions s) a"
  shows "case action_step D message f rule s of
           NextRule s1 \<Rightarrow> leads_to D ex message f m rules v (s1\<lparr>ws_ruleIndex := Suc (ws_ruleIndex s1)\<rparr>)
         | Stop outcome s1 \<Rightarrow> outcome_leads_to D ex message f m rules v outcome s1"
proof -
  have armed: "ws_armedRules s = []" and terminal: "ws_terminalFuture s = None" and tags: "MatchResponseTags rule = []"
    and tag: "MatchResponseTag rule = []"
    using assms(1,2) by (simp_all add: follows_def plain_dns_rule_def)
  have rest: "drop (Suc (ws_ruleIndex s)) rules = rest"
    using assms(5) by (metis drop_Suc list.sel(3) tl_drop)
  have here: "leads_to D ex message f m rules (sequential D ex message f m (rule # rest) (ws_effectiveOptions s) a) s"
    using assms(1,5) by (auto simp: leads_to_def)
  have goes_on: "leads_to D ex message f m rules (sequential D ex message f m rest options a') (s1\<lparr>ws_ruleIndex := Suc (ws_ruleIndex s1)\<rparr>)"
    if "follows ex m a' s1" "ws_ruleIndex s1 = ws_ruleIndex s" "ws_effectiveOptions s1 = options" for s1 options a'
    using that rest by (auto simp: leads_to_def follows_def wf_walk_def valid_future_def)
  show ?thesis
  proof (cases "DNSRule_Action rule")
    case None
    then show ?thesis using goes_on [OF assms(1)] assms(4) by (simp add: action_step_def v_def)
  next
    case (Some action)
    show ?thesis
    proof (cases action)
      case (RuleActionDNSRoute server speculative fallback opts)
      then show ?thesis using goes_on [OF assms(1)] assms(2,4) Some armed terminal
        by (auto simp: action_step_def v_def route_step_def outcome_leads_to_def plain_dns_rule_def
            split: dnsRouteStatus.splits)
    next
      case (RuleActionEvaluate server tag' speculative opts)
      then have "tag' = []" using assms(2) Some by (simp add: plain_dns_rule_def)
      show ?thesis
      proof (cases "dr_Transport D server")
        case None
        have "follows ex m None (s\<lparr>ws_anonymousFuture := None\<rparr>)"
          using assms(1) by (simp add: follows_def wf_walk_def valid_future_def)
        from goes_on [OF this] show ?thesis
          using RuleActionEvaluate \<open>tag' = []\<close> Some None assms(4) by (simp add: action_step_def v_def evaluate_step_def)
      next
        case (Some transport)
        let ?o = "applyDNSRouteOptions (ws_effectiveOptions s) opts"
        obtain i s1 where l: "launchDNSEvaluate D [] False transport ?o s = (i, s1)" by fastforce
        have "ws_ruleIndex s1 = ws_ruleIndex s" "ws_effectiveOptions s1 = ws_effectiveOptions s"
          using l by (auto simp: launchDNSEvaluate_def)
        then show ?thesis using goes_on [OF follows_launch [OF assms(1) l]]
          RuleActionEvaluate \<open>tag' = []\<close> Some \<open>DNSRule_Action rule = Some action\<close> assms(4) armed l
          by (simp add: action_step_def v_def evaluate_step_def)
      qed
    next
      case RuleActionRespond
      have "pending_anonymous s = []" if "hasBindings rule \<or> pending_anonymous s = []"
        using that assms(3) tags by (auto simp: hasBindings_def pending_futures_def)
      then show ?thesis using follows_response [OF assms(1)] here RuleActionRespond Some assms(4) armed tag
        by (auto simp: action_step_def v_def respond_step_def outcome_leads_to_def Let_def)
    next
      case (ActionDNSRouteOptions opts)
      let ?s = "s\<lparr>ws_effectiveOptions := applyDNSRouteOptions (ws_effectiveOptions s) opts\<rparr>"
      have "follows ex m a ?s" using assms(1) by (simp add: follows_def wf_walk_def valid_future_def)
      from goes_on [OF this] show ?thesis
        using ActionDNSRouteOptions Some assms(4) by (simp add: action_step_def v_def)
    next
      case (DNSReject reject_method noDrop)
      then show ?thesis using goes_on [OF assms(1)] Some assms(4) armed
        by (auto simp: action_step_def v_def outcome_leads_to_def split: option.splits)
    next
      case (RuleActionPredefined rcode answer ns extra)
      then show ?thesis using Some assms(4) armed by (simp add: action_step_def v_def outcome_leads_to_def)
    qed
  qed
qed

text \<open>One rule, matching or not.\<close>

lemma resolved_metadata: "resolved (s\<lparr>ws_metadata := m\<rparr>) = resolved s"
  by (simp add: resolved_def fun_eq_iff)

lemma round_follows:
  assumes "follows ex m a s" "plain_dns_rule (dr_store D) rule" "\<forall>t. sc_exchange T t = ex"
    and "drop (ws_ruleIndex s) rules = rule # rest"
    and v: "v = sequential D ex message f m (rule # rest) (ws_effectiveOptions s) a"
  shows "case rule_round D T message f rule s of
           NextRule s1 \<Rightarrow> leads_to D ex message f m rules v (s1\<lparr>ws_ruleIndex := Suc (ws_ruleIndex s1)\<rparr>)
         | Stop outcome s1 \<Rightarrow> outcome_leads_to D ex message f m rules v outcome s1"
proof -
  define s0 where "s0 = (if hasBindings rule then tick T (settleDNSFutures (tick T s)) else tick T s)"
  have fo: "follows ex m a s0" using assms(1,3) by (auto simp: s0_def intro: follows_tick follows_settle)
  have same: "ws_ruleIndex s0 = ws_ruleIndex s" "ws_effectiveOptions s0 = ws_effectiveOptions s" by (simp_all add: s0_def)
  have race: "\<not> DNSRule_Race rule" using assms(2) by (simp add: plain_dns_rule_def)
  show ?thesis
  proof (cases "hasBindings rule \<and> pending_futures s0 rule \<noteq> []")
    case True
    then have "rule_round D T message f rule s = Stop (Suspended (Await (hd (pending_futures s0 rule)))) s0"
      using race by (auto simp: rule_round_def s0_def Let_def)
    moreover have "leads_to D ex message f m rules v s0" using fo same assms(4) v by (auto simp: leads_to_def)
    ultimately show ?thesis by (simp add: outcome_leads_to_def)
  next
    case False
    then obtain m' where m: "match_rule D rule (anonymousResponse s0) s0 = (sequential_match D rule a m, s0\<lparr>ws_metadata := m'\<rparr>)"
      and base: "same_base m m'" using follows_match [OF fo assms(2)] by blast
    let ?s = "s0\<lparr>ws_metadata := m'\<rparr>"
    have round: "rule_round D T message f rule s =
        (if sequential_match D rule a m then action_step D message f rule ?s else NextRule ?s)"
      using False race m by (auto simp: rule_round_def s0_def Let_def)
    have fo': "follows ex m a ?s" using follows_metadata [OF fo base] .
    show ?thesis
    proof (cases "sequential_match D rule a m")
      case True
      have "pending_futures ?s rule = pending_futures s0 rule"
        unfolding pending_futures_def pending_named_def pending_anonymous_def resolved_metadata by simp
      then show ?thesis
        using action_follows [OF fo' assms(2) _ True, of rules rest v message f] assms(4) same v False True
        by (simp add: round)
    next
      case nomatch: False
      have "drop (Suc (ws_ruleIndex s)) rules = rest" using assms(4) by (metis drop_Suc list.sel(3) tl_drop)
      then have "leads_to D ex message f m rules v (?s\<lparr>ws_ruleIndex := Suc (ws_ruleIndex ?s)\<rparr>)"
        using fo' same v nomatch by (auto simp: leads_to_def follows_def wf_walk_def valid_future_def)
      then show ?thesis using nomatch by (simp add: round)
    qed
  qed
qed

lemma walk_rules_follows:
  assumes "walk_rules D T message f (drop (ws_ruleIndex s) rules) s = (outcome, s')"
    and "list_all (plain_dns_rule (dr_store D)) rules" "\<forall>t. sc_exchange T t = ex"
    and "leads_to D ex message f m rules v s"
  shows "outcome_leads_to D ex message f m rules v outcome s'"
  using assms(1,4)
proof (induction "drop (ws_ruleIndex s) rules" arbitrary: s)
  case Nil
  then obtain a where "follows ex m a s" and v: "sequential D ex message f m [] (ws_effectiveOptions s) a = v"
    by (auto simp: leads_to_def)
  then have "ws_armedRules s = []" by (simp add: follows_def)
  then show ?case using Nil.prems(1) Nil.hyps [symmetric] v by (auto simp: outcome_leads_to_def)
next
  case (Cons rule rest)
  obtain a where a: "follows ex m a s"
    and v: "v = sequential D ex message f m (rule # rest) (ws_effectiveOptions s) a"
    using Cons.prems(2) Cons.hyps(2) [symmetric] by (auto simp: leads_to_def)
  have "rule \<in> set rules" using Cons.hyps(2) by (metis in_set_dropD list.set_intros(1))
  then have p: "plain_dns_rule (dr_store D) rule" using assms(2) by (simp add: list_all_iff)
  note round = round_follows [OF a p assms(3) Cons.hyps(2) [symmetric] v]
  show ?case
  proof (cases "rule_round D T message f rule s")
    case (NextRule s1)
    let ?s = "s1\<lparr>ws_ruleIndex := Suc (ws_ruleIndex s1)\<rparr>"
    have "wf_walk s" using a by (simp add: follows_def)
    then have "ws_ruleIndex s1 = ws_ruleIndex s"
      using rule_round_ok [of s D T message f rule] NextRule by (simp add: step_ok_def next_ok_def)
    then have "rest = drop (ws_ruleIndex ?s) rules" using Cons.hyps(2) by (metis (no_types, lifting)
      drop_Suc list.sel(3) tl_drop dnsRuleWalkState.select_convs(1) dnsRuleWalkState.surjective dnsRuleWalkState.update_convs(1))
    then show ?thesis using Cons.hyps(1) [of ?s] Cons.prems(1) Cons.hyps(2) [symmetric] NextRule round by simp
  next
    case (Stop outcome' s1)
    then show ?thesis using Cons.prems(1) Cons.hyps(2) [symmetric] round by simp
  qed
qed

lemma sweep_no_rules:
  assumes "ws_armedRules s = []"
  shows "sweepArmedDNSRules D message f s = (NotCommitted, s)"
proof -
  have "s\<lparr>ws_armedRules := []\<rparr> = s" using assms by (cases s) simp
  then show ?thesis using assms by (simp add: sweepArmedDNSRules_def)
qed

lemma leads_to_step:
  assumes "leads_to D ex message f m rules v s" "\<forall>t. sc_exchange T t = ex"
  shows "leads_to D ex message f m rules v (tick T s)" "leads_to D ex message f m rules v (settleDNSFutures s)"
proof -
  obtain a where "follows ex m a s" "sequential D ex message f m (drop (ws_ruleIndex s) rules) (ws_effectiveOptions s) a = v"
    using assms(1) by (auto simp: leads_to_def)
  then show "leads_to D ex message f m rules v (tick T s)" "leads_to D ex message f m rules v (settleDNSFutures s)"
    using follows_tick [OF _ assms(2)] follows_settle unfolding leads_to_def by (auto intro!: exI [of _ a])
qed

lemma resume_follows:
  assumes "list_all (plain_dns_rule (dr_store D)) rules" "\<forall>t. sc_exchange T t = ex" "\<forall>t. \<not> sc_contextDone T t"
  shows "resume n D T message f rules (Some suspension) s = Some r \<Longrightarrow>
         outcome_leads_to D ex message f m rules v (Suspended suspension) s \<Longrightarrow> r = v"
proof (induction n arbitrary: suspension s)
  case (Suc n)
  let ?s = "tick T (settleDNSFutures s)"
  have "ws_armedRules ?s = []"
    using Suc.prems(2) by (auto simp: outcome_leads_to_def leads_to_def follows_def split: dnsWalkSuspension.splits)
  note sw = sweep_no_rules [OF this]
  show ?case
  proof (cases suspension)
    case (Await i)
    then have l: "leads_to D ex message f m rules v ?s"
      using Suc.prems(2) leads_to_step assms(2) by (auto simp: outcome_leads_to_def)
    show ?thesis
    proof (cases "must_wait (Some suspension) ?s")
      case True
      then have "resume n D T message f rules (Some suspension) (tick T ?s) = Some r"
        using Suc.prems(1) sw Await assms(3) by simp
      then show ?thesis using Suc.IH leads_to_step(1) [OF l assms(2)] Await by (auto simp: outcome_leads_to_def)
    next
      case False
      obtain outcome s2 where w: "walkDNSRules D T message f rules ?s = (outcome, s2)" by fastforce
      then have o2: "outcome_leads_to D ex message f m rules v outcome s2"
        using walk_rules_follows [OF _ assms(1,2) l] by (simp add: walkDNSRules_def)
      show ?thesis
      proof (cases outcome)
        case (Finished r')
        then show ?thesis using o2 Suc.prems(1) sw Await False w by (simp add: outcome_leads_to_def)
      next
        case (Suspended suspension')
        then have "resume n D T message f rules (Some suspension') s2 = Some r"
          using Suc.prems(1) sw Await False w by simp
        then show ?thesis using Suc.IH o2 Suspended by blast
      qed
    qed
  next
    case Drain
    then show ?thesis using Suc.prems(2) by (simp add: outcome_leads_to_def)
  next
    case (PendingExchange p)
    then show ?thesis using Suc.prems assms(2) sw by (auto simp: outcome_leads_to_def finishPendingExchange_def)
  qed
qed simp

lemma exchange_follows:
  assumes "list_all (plain_dns_rule (dr_store D)) rules" "\<forall>t. sc_exchange T t = ex" "\<forall>t. \<not> sc_contextDone T t"
    and "\<not> m_IgnoreDestinationIPCIDRMatch m"
    and "exchangeWithRules n D T rules message options f m = Some r"
  shows "r = sequential D ex message f m rules options None"
proof -
  let ?s = "walk_start options m" and ?v = "sequential D ex message f m rules options None"
  have "follows ex m None ?s"
    using assms(4) by (simp add: follows_def walk_start_def wf_walk_def valid_future_def same_base_def)
  then have l: "leads_to D ex message f m rules ?v ?s" by (auto simp: leads_to_def walk_start_def)
  obtain outcome s where w: "walkDNSRules D T message f rules ?s = (outcome, s)" by fastforce
  then have o2: "outcome_leads_to D ex message f m rules ?v outcome s"
    using walk_rules_follows [OF _ assms(1,2) l] by (simp add: walkDNSRules_def)
  show ?thesis
  proof (cases outcome)
    case (Finished r')
    then show ?thesis using o2 w assms(5) by (simp add: exchangeWithRules_def outcome_leads_to_def)
  next
    case (Suspended suspension)
    then show ?thesis using resume_follows [OF assms(1-3)] o2 w assms(5) by (simp add: exchangeWithRules_def)
  qed
qed

theorem walk_is_sequential:
  assumes "list_all (plain_dns_rule (dr_store D)) rules" "\<forall>t. sc_exchange T t = ex" "\<forall>t. \<not> sc_contextDone T t"
    and "\<not> m_IgnoreDestinationIPCIDRMatch m" "exchanges_return T"
  shows "\<exists>fuel. exchangeWithRules fuel D T rules message options f m = Some (sequential D ex message f m rules options None)"
  using exchange_comes_to_an_end [OF assms(5)] exchange_follows [OF assms(1-4)] by metis

end
