(* ===== verification/DNS_Router_Properties.thy ===== *)
theory DNS_Router_Properties
  imports DNS_Sequential Rule_Properties
begin

text \<open>
  Properties of the walk of the DNS router: it comes to an end, it gives the answer of the sequential reading of the rules
  where no rule races and no response has a tag, and with tags the time at which an exchange returns can change the answer.
\<close>

subsection \<open>Samples\<close>

text \<open>A router with the server \<^verbatim>\<open>near\<close> and a default server; the answers of the two have different codes.\<close>

definition sample_transport :: "string \<Rightarrow> DNSTransport" where
  "sample_transport tag = \<lparr>t_Type = ''udp'', t_Tag = tag, t_Environment = None\<rparr>"

definition sample_dns_router :: dns_router where
  "sample_dns_router =
     \<lparr>dr_env = sample_env, dr_store = (\<lambda>_. []),
      dr_Transport = (\<lambda>tag. if tag = ''near'' then Some (sample_transport ''near'') else None),
      dr_Default = sample_transport ''default'', dr_defaultDomainStrategy = 0\<rparr>"

definition sample_query :: dns_Message where
  "sample_query =
     \<lparr>h_Id = 7, h_Response = False, h_Authoritative = False, h_RecursionDesired = True, h_RecursionAvailable = False,
      h_Rcode = 0, h_Question = [\<lparr>q_Name = ''a.example.'', q_Qtype = 1, q_Qclass = 1\<rparr>], h_Answer = [], h_Ns = [], h_Extra = []\<rparr>"

definition sample_exchange :: "DNSTransport \<Rightarrow> DNSQueryOptions \<Rightarrow> exchange_result" where
  "sample_exchange transport options =
     Inr (sample_query\<lparr>h_Response := True, h_Rcode := (if t_Tag transport = ''near'' then 0 else 3)\<rparr>)"

text \<open>Every exchange that has been launched returns at the time \<open>k\<close>, or at the next point where it is looked at.\<close>

definition returns_at :: "nat \<Rightarrow> schedule" where
  "returns_at k =
     \<lparr>sc_arrivals = (\<lambda>t. if t < k then [] else [0..<Suc t]), sc_contextDone = (\<lambda>_. False), sc_exchange = (\<lambda>_. sample_exchange)\<rparr>"

definition sample_route_options :: RuleActionDNSRouteOptions where
  "sample_route_options =
     \<lparr>do_Strategy = 0, do_Timeout = 0, do_DisableCache = False, do_DisableOptimisticCache = False, do_RewriteTTL = None,
      do_ClientSubnet = prefix_zero, do_RemoveClientSubnet = False\<rparr>"

definition sample_rcode_rule :: abstractDefaultRule where
  "sample_rcode_rule =
     empty_rule\<lparr>r_items := [DNSResponseRCodeItem 0], r_allItems := [PlainItem (DNSResponseRCodeItem 0)]\<rparr>"

text \<open>
  \<^verbatim>\<open>{"action": "evaluate", "server": "near", "tag": t}\<close> and
  \<^verbatim>\<open>{"match_response": t, "response_rcode": "NOERROR", "action": "respond"}\<close>.
\<close>

definition sample_dns_rules :: "string \<Rightarrow> dns_rule list" where
  "sample_dns_rules tag =
     [DefaultDNSRule empty_rule False [] False (Some (RuleActionEvaluate ''near'' tag False sample_route_options)),
      DefaultDNSRule sample_rcode_rule True tag False (Some RuleActionRespond)]"

lemma returns_at_returns: "exchanges_return (returns_at k)"
proof -
  have "\<exists>t\<ge>n. i \<in> set (sc_arrivals (returns_at k) t)" for i n
    by (rule exI [of _ "max n (max i k)"]) (simp add: returns_at_def del: upt_Suc)
  then show ?thesis by (simp add: exchanges_return_def)
qed

subsection \<open>Properties\<close>

text \<open>
  (C10) The walk of the DNS rules always ends with a result: whatever the rules, racing and falling back included, and
  whenever the exchanges return and the context is cancelled, if every launched exchange returns at some time, there is
  a number of rounds after which \<^verbatim>\<open>exchangeWithRules\<close> has a result. So it never waits for an exchange that has returned or was
  never launched, and never goes round without progress.
\<close>

theorem dns_walk_ends:
  assumes "exchanges_return T"
  shows "\<exists>fuel result. exchangeWithRules fuel D T rules message options allowFakeIP m = Some result"
  using assms by (rule exchange_comes_to_an_end)

theorem dns_walk_ends_witness:
  "exchanges_return (returns_at 4) \<and>
   (\<exists>fuel result. exchangeWithRules fuel sample_dns_router (returns_at 4) (sample_dns_rules ''x'') sample_query
                    DNSQueryOptions_zero True sample_metadata = Some result)"
  using dns_walk_ends [OF returns_at_returns] returns_at_returns by blast

text \<open>
  (C9) Without racing rules, tags and fallback the walk gives the answer of the sequential reading, in which every
  evaluation is answered before the next rule is looked at: the concurrent walk launches evaluations and goes on, and still
  the answer does not depend on when the exchanges return. The rules that match no response must not have conditions on
  a response (\<^const>\<open>plain_dns_rule\<close>), the answer of a transport depends on the transport and the options only, every
  launched exchange returns at some time, the context of the query is not cancelled, and the query is not part of a first
  match without addresses.
\<close>

theorem dns_walk_sequential:
  assumes "list_all (plain_dns_rule (dr_store D)) rules" "\<forall>t. sc_exchange T t = ex" "\<forall>t. \<not> sc_contextDone T t"
    and "\<not> m_IgnoreDestinationIPCIDRMatch m" "exchanges_return T"
  shows "\<exists>fuel. exchangeWithRules fuel D T rules message options allowFakeIP m =
           Some (sequential D ex message allowFakeIP m rules options None)"
  using assms by (rule walk_is_sequential)

theorem dns_walk_sequential_witness:
  "\<exists>fuel. exchangeWithRules fuel sample_dns_router (returns_at 2) (sample_dns_rules []) sample_query
      DNSQueryOptions_zero True sample_metadata =
     Some (result_zero\<lparr>er_response := Some (sample_query\<lparr>h_Response := True\<rparr>), er_transport := Some (sample_transport ''near'')\<rparr>)"
proof -
  have "list_all (plain_dns_rule (dr_store sample_dns_router)) (sample_dns_rules [])" by code_simp
  moreover have "sequential sample_dns_router sample_exchange sample_query True sample_metadata (sample_dns_rules [])
      DNSQueryOptions_zero None =
    result_zero\<lparr>er_response := Some (sample_query\<lparr>h_Response := True\<rparr>), er_transport := Some (sample_transport ''near'')\<rparr>"
    by code_simp
  moreover have "\<not> m_IgnoreDestinationIPCIDRMatch sample_metadata" by code_simp
  ultimately show ?thesis
    using dns_walk_sequential [of sample_dns_router "sample_dns_rules []" "returns_at 2" sample_exchange sample_metadata
        sample_query DNSQueryOptions_zero True] returns_at_returns
    by (auto simp: returns_at_def)
qed

text \<open>
  With a tag the answer depends on the time: \<^verbatim>\<open>walkDNSRules\<close> settles the finished exchanges first and looks for unfinished
  ones after that. An exchange that returns in between is not waited for, and its response is not there for the rule either:
  the rule does not match, and the query goes to the default server, whose answer differs. When the exchange returns before or
  after that, its response is the answer.
\<close>

theorem dns_walk_misses_response:
  "exchangeWithRules 9 sample_dns_router (returns_at 1) (sample_dns_rules ''x'') sample_query DNSQueryOptions_zero True sample_metadata =
     Some (result_zero\<lparr>er_response := Some (sample_query\<lparr>h_Response := True\<rparr>), er_transport := Some (sample_transport ''near'')\<rparr>) \<and>
   exchangeWithRules 9 sample_dns_router (returns_at 2) (sample_dns_rules ''x'') sample_query DNSQueryOptions_zero True sample_metadata =
     Some (result_zero\<lparr>er_response := Some (sample_query\<lparr>h_Response := True, h_Rcode := 3\<rparr>),
                       er_transport := Some (sample_transport ''default'')\<rparr>) \<and>
   exchangeWithRules 9 sample_dns_router (returns_at 3) (sample_dns_rules ''x'') sample_query DNSQueryOptions_zero True sample_metadata =
     Some (result_zero\<lparr>er_response := Some (sample_query\<lparr>h_Response := True\<rparr>), er_transport := Some (sample_transport ''near'')\<rparr>)"
  by code_simp

end
