(* ===== verification/DNS_Legacy.thy ===== *)
theory DNS_Legacy
  imports DNS_Router
begin

text \<open>
  The legacy mode of the DNS router (dns/router.go): a first match of the rules without the addresses, an exchange with the
  server of the rule, a second match on the response, and the next rule when the response is rejected.

  The DNS client is a parameter, a function of its state: it exchanges a message with a transport under a condition on
  the response. A missing transport, for a reject action with a method that the code does not answer, makes the
  client panic.
\<close>

subsection \<open>The first match\<close>

type_synonym response_check = "dns_Message \<Rightarrow> bool"

type_synonym 'c exchanger =
  "DNSTransport \<Rightarrow> dns_Message \<Rightarrow> DNSQueryOptions \<Rightarrow> response_check option \<Rightarrow> 'c \<Rightarrow>
   (dns_Message option \<times> dns_error option) \<times> 'c"

text \<open>The options of a route action, as \<^verbatim>\<open>matchDNS\<close> applies them.\<close>

definition legacyRouteOptions :: "RuleActionDNSRouteOptions \<Rightarrow> bool \<Rightarrow> DNSQueryOptions \<Rightarrow> DNSQueryOptions" where
  "legacyRouteOptions action isFakeIP options =
     (let o1 = (if do_Strategy action \<noteq> DomainStrategyAsIS then options\<lparr>dq_Strategy := do_Strategy action\<rparr> else options);
          o2 = (if isFakeIP \<or> do_DisableCache action then o1\<lparr>dq_DisableCache := True\<rparr> else o1);
          o3 = (case do_RewriteTTL action of Some ttl \<Rightarrow> o2\<lparr>dq_RewriteTTL := Some ttl\<rparr> | None \<Rightarrow> o2);
          o4 = (if do_Timeout action > 0 then o3\<lparr>dq_Timeout := do_Timeout action\<rparr> else o3);
          o5 = (if prefix_IsValid (do_ClientSubnet action)
                then o4\<lparr>dq_ClientSubnet := do_ClientSubnet action, dq_RemoveClientSubnet := False\<rparr> else o4)
      in if do_RemoveClientSubnet action then o5\<lparr>dq_ClientSubnet := prefix_zero, dq_RemoveClientSubnet := True\<rparr> else o5)"

record legacy_match =
  lm_transport :: "DNSTransport option"
  lm_rule :: "(dns_rule \<times> nat) option"
  lm_options :: DNSQueryOptions
  lm_metadata :: InboundContext

text \<open>The loop of \<^verbatim>\<open>matchDNS\<close> from the rule with the number \<open>index\<close> on; \<open>M\<close> is the metadata of the rule-sets.\<close>

fun matchDNS_loop ::
  "dns_router \<Rightarrow> (string \<Rightarrow> RuleSetMetadata) \<Rightarrow> bool \<Rightarrow> bool \<Rightarrow> nat \<Rightarrow> dns_rule list \<Rightarrow> DNSQueryOptions \<Rightarrow> InboundContext \<Rightarrow> legacy_match"
where
  "matchDNS_loop D M allowFakeIP isAddr index [] options m =
     \<lparr>lm_transport = Some (dr_Default D), lm_rule = None, lm_options = options, lm_metadata = m\<rparr>"
| "matchDNS_loop D M allowFakeIP isAddr index (rule # rules) options m =
     (if DNSRule_WithAddressLimit M rule \<and> \<not> isAddr then matchDNS_loop D M allowFakeIP isAddr (Suc index) rules options m
      else
        (case LegacyPreMatch (dr_env D) (dr_store D) rule
                ((ResetRuleCache m)\<lparr>m_DestinationAddressMatchFromResponse := False\<rparr>) of
           (matched, m1) \<Rightarrow>
             if \<not> matched then matchDNS_loop D M allowFakeIP isAddr (Suc index) rules options m1
             else case DNSRule_Action rule of
               Some (RuleActionDNSRoute server speculative fallback action) \<Rightarrow>
                 (case dr_Transport D server of
                    None \<Rightarrow> matchDNS_loop D M allowFakeIP isAddr (Suc index) rules options m1
                  | Some transport \<Rightarrow>
                      (let isFakeIP = (t_Type transport = DNSTypeFakeIP) in
                       if isFakeIP \<and> \<not> allowFakeIP then matchDNS_loop D M allowFakeIP isAddr (Suc index) rules options m1
                       else \<lparr>lm_transport = Some transport, lm_rule = Some (rule, index),
                             lm_options = legacyRouteOptions action isFakeIP options, lm_metadata = m1\<rparr>))
             | Some (ActionDNSRouteOptions action) \<Rightarrow>
                 matchDNS_loop D M allowFakeIP isAddr (Suc index) rules (legacyRouteOptions action False options) m1
             | Some (DNSReject reject_method noDrop) \<Rightarrow>
                 \<lparr>lm_transport = None, lm_rule = Some (rule, index), lm_options = options, lm_metadata = m1\<rparr>
             | Some (RuleActionPredefined rcode answer ns extra) \<Rightarrow>
                 \<lparr>lm_transport = None, lm_rule = Some (rule, index), lm_options = options, lm_metadata = m1\<rparr>
             | _ \<Rightarrow> matchDNS_loop D M allowFakeIP isAddr (Suc index) rules options m1))"

text \<open>\<open>start\<close> is the number of the first rule to look at: \<^verbatim>\<open>ruleIndex + 1\<close>.\<close>

definition matchDNS ::
  "dns_router \<Rightarrow> (string \<Rightarrow> RuleSetMetadata) \<Rightarrow> dns_rule list \<Rightarrow> bool \<Rightarrow> nat \<Rightarrow> bool \<Rightarrow> DNSQueryOptions \<Rightarrow> InboundContext \<Rightarrow> legacy_match"
where
  "matchDNS D M rules allowFakeIP start isAddr options m =
     matchDNS_loop D M allowFakeIP isAddr start (drop start rules) options m"

definition isAddressQuery :: "dns_Message \<Rightarrow> bool" where
  "isAddressQuery message =
     list_ex (\<lambda>question. q_Qtype question = TypeA \<or> q_Qtype question = TypeAAAA \<or> q_Qtype question = TypeHTTPS)
       (h_Question message)"

definition addressLimitResponseCheck ::
  "dns_router \<Rightarrow> (string \<Rightarrow> RuleSetMetadata) \<Rightarrow> dns_rule option \<Rightarrow> InboundContext \<Rightarrow> response_check option"
where
  "addressLimitResponseCheck D M rule m =
     (case rule of
        None \<Rightarrow> None
      | Some r \<Rightarrow>
          if \<not> DNSRule_WithAddressLimit M r then None
          else Some (\<lambda>response. MatchAddressLimit (dr_env D) (dr_store D) r m (Some (metadata_message response))))"

text \<open>The loop ends: a rule that is found lies between the start and the end of the rules.\<close>

lemma matchDNS_loop_index:
  "lm_rule (matchDNS_loop D M f isAddr index rules options m) = Some (found, i) \<Longrightarrow> index \<le> i \<and> i < index + length rules"
proof (induction rules arbitrary: index options m)
  case (Cons rule rules)
  have later: "index \<le> i \<and> i < index + length (rule # rules)"
    if "lm_rule (matchDNS_loop D M f isAddr (Suc index) rules options' m') = Some (found, i)" for options' m'
    using Cons.IH [OF that] by simp
  obtain matched m1 where p: "LegacyPreMatch (dr_env D) (dr_store D) rule
      ((ResetRuleCache m)\<lparr>m_DestinationAddressMatchFromResponse := False\<rparr>) = (matched, m1)" by fastforce
  show ?case
  proof (cases "DNSRule_WithAddressLimit M rule \<and> \<not> isAddr \<or> \<not> matched \<or> DNSRule_Action rule = None")
    case True
    then show ?thesis using Cons.prems p later by (auto split: if_splits)
  next
    case False
    then obtain action where "DNSRule_Action rule = Some action" by blast
    then show ?thesis using Cons.prems p later False
      by (cases action) (auto simp: Let_def split: if_splits option.splits)
  qed
qed simp

lemma matchDNS_index:
  "lm_rule (matchDNS D M rules f start isAddr options m) = Some (rule, i) \<Longrightarrow> start \<le> i \<and> i < length rules"
  using matchDNS_loop_index [of D M f isAddr start "drop start rules" options m rule i]
  by (simp add: matchDNS_def) linarith

subsection \<open>The legacy exchange\<close>

datatype router_error = WalkError walk_error | ClientError dns_error | NilTransportPanic

text \<open>The answer to a query under a rule without a server; \<open>None\<close> where the exchange goes on with a transport.\<close>

definition direct_answer ::
  "dns_Message \<Rightarrow> DNSRuleAction option \<Rightarrow> (dns_Message option \<times> DNSTransport option \<times> router_error option) option"
where
  "direct_answer message action =
     (case action of
        Some (DNSReject reject_method noDrop) \<Rightarrow>
          if reject_method = ''default'' then Some (Some (dnsRefusedResponse message), None, None)
          else if reject_method = ''drop'' then Some (None, None, Some (WalkError ErrDrop))
          else None
      | Some (RuleActionPredefined rcode answer ns extra) \<Rightarrow>
          (case RuleActionPredefined_Response rcode answer ns extra message of
             None \<Rightarrow> Some (None, None, Some (WalkError PredefinedPanic))
           | Some response \<Rightarrow> Some (Some response, None, None))
      | _ \<Rightarrow> None)"

definition rejected_error :: "dns_error option \<Rightarrow> bool" where
  "rejected_error err = (err = Some ErrResponseRejectedCached \<or> err = Some ErrResponseRejected)"

function exchangeLegacy ::
  "dns_router \<Rightarrow> (string \<Rightarrow> RuleSetMetadata) \<Rightarrow> 'c exchanger \<Rightarrow> dns_rule list \<Rightarrow> dns_Message \<Rightarrow> DNSQueryOptions \<Rightarrow> nat \<Rightarrow>
   InboundContext \<Rightarrow> 'c \<Rightarrow> (dns_Message option \<times> DNSTransport option \<times> router_error option) \<times> 'c"
where
  "exchangeLegacy D M ex rules message options start m c =
     (let found = matchDNS D M rules True start (isAddressQuery message) options m in
      case (case lm_rule found of None \<Rightarrow> None | Some (rule, i) \<Rightarrow> direct_answer message (DNSRule_Action rule)) of
        Some answer \<Rightarrow> (answer, c)
      | None \<Rightarrow>
          (case lm_transport found of
             None \<Rightarrow> ((None, None, Some NilTransportPanic), c)
           | Some transport \<Rightarrow>
               (let check = addressLimitResponseCheck D M (map_option fst (lm_rule found)) (lm_metadata found) in
                case ex transport message (finalizeExchangeOptions D (lm_options found)) check c of
                  ((response, err), c1) \<Rightarrow>
                    (case lm_rule found of
                       Some (rule, i) \<Rightarrow>
                         if check \<noteq> None \<and> rejected_error err
                         then exchangeLegacy D M ex rules message options (Suc i) (lm_metadata found) c1
                         else ((response, Some transport, map_option ClientError err), c1)
                     | None \<Rightarrow> ((response, Some transport, map_option ClientError err), c1)))))"
  by pat_completeness auto

termination
proof (relation "measure (\<lambda>(D, M, ex, rules, message, options, start, m, c). length rules - start)", goal_cases)
  case (2 D M ex rules message options start m c found)
  then show ?case using matchDNS_index [of D M rules True start "isAddressQuery message" options m] by fastforce
qed simp

declare exchangeLegacy.simps [simp del]

text \<open>
  A response that the condition of a rule rejects does not reach the caller: the next rules are tried, and
  at last the default server, whose response is not subject to a condition. The client rejects a
  response only when it is given a condition.
\<close>

lemma exchangeLegacy_not_rejected:
  assumes "\<And>t q opts c. \<not> rejected_error (snd (fst (ex t q opts None c)))"
    and "exchangeLegacy D M ex rules message options start m c = ((response, transport, err), c')"
  shows "err \<noteq> Some (ClientError ErrResponseRejected) \<and> err \<noteq> Some (ClientError ErrResponseRejectedCached)"
  using assms
proof (induction D M ex rules message options start m c rule: exchangeLegacy.induct)
  case (1 D M ex rules message options start m c)
  let ?found = "matchDNS D M rules True start (isAddressQuery message) options m"
  let ?direct = "case lm_rule ?found of None \<Rightarrow> None | Some (rule, i) \<Rightarrow> direct_answer message (DNSRule_Action rule)"
  let ?check = "addressLimitResponseCheck D M (map_option fst (lm_rule ?found)) (lm_metadata ?found)"
  note result = "1.prems"(2) [unfolded exchangeLegacy.simps [of D M ex rules message options start m c] Let_def]
  show ?case
  proof (cases ?direct)
    case (Some answer)
    then show ?thesis using result
      by (auto simp: direct_answer_def split: option.splits DNSRuleAction.splits if_splits)
  next
    case direct: None
    show ?thesis
    proof (cases "lm_transport ?found")
      case None
      then show ?thesis using result direct by auto
    next
      case (Some t)
      obtain r e c1 where x: "ex t message (finalizeExchangeOptions D (lm_options ?found)) ?check c = ((r, e), c1)"
        by (metis surj_pair)
      have free: "\<not> rejected_error e" if "?check = None"
        using "1.prems"(1) [of t message "finalizeExchangeOptions D (lm_options ?found)" c] x that by simp
      show ?thesis
      proof (cases "?check \<noteq> None \<and> rejected_error e")
        case True
        then obtain rule i where l: "lm_rule ?found = Some (rule, i)"
          by (cases "lm_rule ?found") (auto simp: addressLimitResponseCheck_def)
        then have "exchangeLegacy D M ex rules message options (Suc i) (lm_metadata ?found) c1 = ((response, transport, err), c')"
          using result direct Some x True by simp
        with "1.IH" [OF refl direct Some refl x [symmetric]] l True "1.prems"(1) show ?thesis by auto
      next
        case False
        then have "err = map_option ClientError e" using result direct Some x by (auto split: option.splits prod.splits)
        then show ?thesis using False free by (auto simp: rejected_error_def)
      qed
    qed
  qed
qed

end
