(* ===== verification/DNS_Client.thy ===== *)
theory DNS_Client
  imports DNS_Query Rule_Items
begin

text \<open>
  The DNS client (dns/client.go): the cache with its keys, the exchange of a message with a transport split
  into the part before and the part after the transport answers, refreshing of expired entries in the
  background, and lookups of addresses.

  The state is the cache, the set of keys that are locked by a running exchange and the set of keys that
  are being refreshed. The library functions, the two stores (for rejected responses and for a persistent
  cache) and the network environment are the record \<open>client_lib\<close>; what an operation sends to the stores, to
  a transport or to the background is a list of effects. The conversion of a duration to seconds by a
  floating point number is treated as exact.
\<close>

subsection \<open>Keys and state\<close>

record dnsCacheKey =
  ck_Question :: dns_Question
  ck_transportTag :: string
  ck_clientSubnet :: prefix
  ck_environment :: "64 word"

type_synonym dns_cache = "dnsCacheKey \<rightharpoonup> dns_Message \<times> int"

text \<open>
  Library functions and stores: what the bounded cache keeps after an insertion, the environment of the
  network manager, \<^verbatim>\<open>LoadRDRC\<close>, \<^verbatim>\<open>LoadDNSCache\<close>, and functions of miekg/dns and net/netip.
\<close>

record client_lib =
  ce_evict :: "dns_cache \<Rightarrow> dns_cache"
  ce_NetworkEnvironment :: "64 word option"
  ce_rdrc :: "(string \<Rightarrow> string \<Rightarrow> 16 word \<Rightarrow> bool) option"
  ce_dnsCache :: "(string \<Rightarrow> string \<Rightarrow> 16 word \<Rightarrow> (bytes \<times> int) option) option"
  ce_Pack :: "dns_Message \<Rightarrow> bytes option"
  ce_Unpack :: "bytes \<Rightarrow> dns_Message option"
  ce_IsEdns0 :: "dns_Message \<Rightarrow> dns_Record option"
  ce_Version :: "dns_Record \<Rightarrow> 8 word"
  ce_UDPSize :: "dns_Record \<Rightarrow> 16 word"
  ce_Do :: "dns_Record \<Rightarrow> bool"
  ce_SetEdns0 :: "16 word \<Rightarrow> bool \<Rightarrow> dns_Message \<Rightarrow> dns_Message"
  ce_Fqdn :: "string \<Rightarrow> string"
  ce_IsFqdn :: "string \<Rightarrow> bool"
  ce_prefix_String :: "prefix \<Rightarrow> string"
  ce_env :: env

record Client =
  cl_disableCache :: bool
  cl_disableExpire :: bool
  cl_optimisticTimeout :: int
  cl_clientSubnet :: prefix
  cl_cache :: "dns_cache option"
  cl_cacheLock :: "dnsCacheKey list"
  cl_backgroundRefresh :: "dnsCacheKey list"

datatype client_effect =
    AskTransport string dns_Message
  | SaveRDRC string string "16 word"
  | SaveDNSCache string string "16 word" bytes int
  | RefreshStarted dnsCacheKey dns_Message

text \<open>The digest \<^verbatim>\<open>fnv.New64a\<close>.\<close>

definition fnv64a_Write :: "64 word \<Rightarrow> bytes \<Rightarrow> 64 word" where
  "fnv64a_Write hash data = foldl (\<lambda>h b. (h XOR ucast b) * 1099511628211) hash data"

definition environmentHash :: "client_lib \<Rightarrow> DNSTransport \<Rightarrow> 64 word" where
  "environmentHash L transport =
     (case t_Environment transport of
        None \<Rightarrow> 0
      | Some environment \<Rightarrow>
          (let networkEnvironment = (case ce_NetworkEnvironment L of None \<Rightarrow> 0 | Some e \<Rightarrow> e)
           in if environment = [] then networkEnvironment
              else fnv64a_Write
                     (foldl (\<lambda>h entry. fnv64a_Write h (string_bytes entry @ [0])) 14695981039346656037 environment)
                     (be_bytes 8 networkEnvironment)))"

definition newCacheKey :: "client_lib \<Rightarrow> Client \<Rightarrow> DNSTransport \<Rightarrow> dns_Question \<Rightarrow> dns_Message \<Rightarrow> DNSQueryOptions \<Rightarrow> dnsCacheKey" where
  "newCacheKey L c transport question message options =
     (let clientSubnet =
        (if dq_RemoveClientSubnet options then prefix_zero
         else if prefix_IsValid (dq_ClientSubnet options) then dq_ClientSubnet options
         else if prefix_IsValid (cl_clientSubnet c) then cl_clientSubnet c
         else clientSubnetFromMessage message)
      in \<lparr>ck_Question = question, ck_transportTag = t_Tag transport, ck_clientSubnet = clientSubnet,
          ck_environment = environmentHash L transport\<rparr>)"

definition finishCacheKey :: "client_lib \<Rightarrow> DNSTransport \<Rightarrow> dnsCacheKey \<Rightarrow> dnsCacheKey option" where
  "finishCacheKey L transport key =
     (let environment = environmentHash L transport
      in if environment = ck_environment key \<or> ck_environment key = 0
         then Some (key\<lparr>ck_environment := environment\<rparr>) else None)"

definition base36_digit :: "nat \<Rightarrow> char" where
  "base36_digit d = ''0123456789abcdefghijklmnopqrstuvwxyz'' ! d"

fun FormatUint36 :: "nat \<Rightarrow> string" where
  "FormatUint36 n = (if n < 36 then [base36_digit n] else FormatUint36 (n div 36) @ [base36_digit (n mod 36)])"

declare FormatUint36.simps [simp del]

definition persistentName :: "client_lib \<Rightarrow> dnsCacheKey \<Rightarrow> string" where
  "persistentName L k =
     ck_transportTag k @
     (if prefix_IsValid (ck_clientSubnet k) then CHR 0x00 # ce_prefix_String L (ck_clientSubnet k) else []) @
     (if ck_environment k \<noteq> 0 then CHR 0x01 # FormatUint36 (unat (ck_environment k)) else [])"

subsection \<open>The cache\<close>

definition second :: int where "second = 1000000000"

definition NewClient :: "bool \<Rightarrow> bool \<Rightarrow> int \<Rightarrow> prefix \<Rightarrow> bool \<Rightarrow> Client" where
  "NewClient disableCache disableExpire optimisticTimeout clientSubnet withDNSCache =
     \<lparr>cl_disableCache = disableCache, cl_disableExpire = disableExpire, cl_optimisticTimeout = optimisticTimeout,
      cl_clientSubnet = clientSubnet,
      cl_cache = (if \<not> disableCache \<and> \<not> withDNSCache then Some Map.empty else None),
      cl_cacheLock = [], cl_backgroundRefresh = []\<rparr>"

text \<open>\<^verbatim>\<open>Start\<close>: without a persistent cache the cache in memory is made if it is missing.\<close>

definition Client_Start :: "client_lib \<Rightarrow> Client \<Rightarrow> Client" where
  "Client_Start L c =
     (if ce_dnsCache L = None \<and> \<not> cl_disableCache c \<and> cl_cache c = None
      then c\<lparr>cl_cache := Some Map.empty\<rparr> else c)"

definition storeCache ::
  "client_lib \<Rightarrow> int \<Rightarrow> dnsCacheKey \<Rightarrow> dns_Message \<Rightarrow> 32 word \<Rightarrow> Client \<Rightarrow> Client \<times> client_effect list"
where
  "storeCache L now key message timeToLive c =
     (if timeToLive = 0 then (c, [])
      else
        (let expireAt = now + second * uint timeToLive in
         if ce_dnsCache L \<noteq> None then
           (c, case ce_Pack L message of
                 None \<Rightarrow> []
               | Some packed \<Rightarrow>
                   [SaveDNSCache (persistentName L key) (q_Name (ck_Question key)) (q_Qtype (ck_Question key)) packed expireAt])
         else case cl_cache c of
                None \<Rightarrow> (c, [])
              | Some cache \<Rightarrow> (c\<lparr>cl_cache := Some (ce_evict L (cache(key \<mapsto> (message, expireAt))))\<rparr>, [])))"

text \<open>A response with its remaining seconds, and whether it has expired.\<close>

definition fresh_response :: "int \<Rightarrow> int \<Rightarrow> dns_Message \<Rightarrow> dns_Message \<times> int \<times> bool" where
  "fresh_response now expireAt response =
     (let nowTTL = max ((expireAt - now) div second) 0 in (normalizeTTL response (of_int nowTTL), nowTTL, False))"

definition usable_stale :: "Client \<Rightarrow> int \<Rightarrow> int \<Rightarrow> bool" where
  "usable_stale c now expireAt = (cl_optimisticTimeout c > 0 \<and> now < expireAt + cl_optimisticTimeout c)"

definition loadPersistentResponse ::
  "client_lib \<Rightarrow> (string \<Rightarrow> string \<Rightarrow> 16 word \<Rightarrow> (bytes \<times> int) option) \<Rightarrow> int \<Rightarrow> dnsCacheKey \<Rightarrow> Client \<Rightarrow>
   (dns_Message \<times> int \<times> bool) option"
where
  "loadPersistentResponse L load now key c =
     (case load (persistentName L key) (q_Name (ck_Question key)) (q_Qtype (ck_Question key)) of
        None \<Rightarrow> None
      | Some (rawMessage, expireAt) \<Rightarrow>
          (case ce_Unpack L rawMessage of
             None \<Rightarrow> None
           | Some response \<Rightarrow>
               if cl_disableExpire c then Some (response, 0, False)
               else if now > expireAt then
                 (if usable_stale c now expireAt then Some (normalizeTTL response 1, 0, True) else None)
               else Some (fresh_response now expireAt response)))"

definition loadResponse ::
  "client_lib \<Rightarrow> int \<Rightarrow> dnsCacheKey \<Rightarrow> Client \<Rightarrow> (dns_Message \<times> int \<times> bool) option \<times> Client"
where
  "loadResponse L now key c =
     (case ce_dnsCache L of
        Some load \<Rightarrow> (loadPersistentResponse L load now key c, c)
      | None \<Rightarrow>
          (case cl_cache c of
             None \<Rightarrow> (None, c)
           | Some cache \<Rightarrow>
               (case cache key of
                  None \<Rightarrow> (None, c)
                | Some (response, expireAt) \<Rightarrow>
                    if cl_disableExpire c then (Some (response, 0, False), c)
                    else if now > expireAt then
                      (if usable_stale c now expireAt then (Some (normalizeTTL response 1, 0, True), c)
                       else (None, c\<lparr>cl_cache := Some (cache(key := None))\<rparr>))
                    else (Some (fresh_response now expireAt response), c))))"

definition ClearCache :: "Client \<Rightarrow> Client" where
  "ClearCache c = (case cl_cache c of None \<Rightarrow> c | Some _ \<Rightarrow> c\<lparr>cl_cache := Some Map.empty\<rparr>)"

subsection \<open>Before the transport answers\<close>

text \<open>
  The record of a running exchange; \<open>op_owner\<close> is the key whose lock it has to release. The condition on
  responses is a function where there is one.
\<close>

record exchangeOperation =
  op_message :: dns_Message
  op_question :: dns_Question
  op_messageId :: "16 word"
  op_options :: DNSQueryOptions
  op_responseChecker :: "(dns_Message \<Rightarrow> bool) option"
  op_disableCache :: bool
  op_cacheKey :: dnsCacheKey
  op_owner :: "dnsCacheKey option"

datatype begin_outcome =
    BeginDone "dns_Message option" "dns_error option"
  | BeginWait
  | BeginBlocked exchangeOperation
  | BeginReady exchangeOperation

definition release :: "exchangeOperation \<Rightarrow> Client \<Rightarrow> Client" where
  "release operation c =
     (case op_owner operation of
        None \<Rightarrow> c | Some key \<Rightarrow> c\<lparr>cl_cacheLock := removeAll key (cl_cacheLock c)\<rparr>)"

definition prepareExchangeMessage :: "Client \<Rightarrow> dns_Message \<Rightarrow> DNSQueryOptions \<Rightarrow> dns_Message" where
  "prepareExchangeMessage c message options =
     (if dq_RemoveClientSubnet options then removeClientSubnet message
      else
        (let clientSubnet = (if prefix_IsValid (dq_ClientSubnet options) then dq_ClientSubnet options
                             else cl_clientSubnet c)
         in if prefix_IsValid clientSubnet then SetClientSubnet message clientSubnet else message))"

definition isSimpleRequest :: "dns_Message \<Rightarrow> bool" where
  "isSimpleRequest message =
     (length (h_Question message) = 1 \<and> h_Ns message = [] \<and>
      (case h_Extra message of
         [] \<Rightarrow> True
       | [r] \<Rightarrow> is_OPT r \<and> rr_Class r > 0 \<and> rr_Ttl r = 0 \<and>
                list_all (\<lambda>it. edns0_Option it = EDNS0SUBNET) (RR_options (rr_Data r))
       | _ \<Rightarrow> False))"

definition backgroundRefreshDNS :: "dnsCacheKey \<Rightarrow> dns_Message \<Rightarrow> Client \<Rightarrow> Client \<times> client_effect list" where
  "backgroundRefreshDNS key message c =
     (if key \<in> set (cl_backgroundRefresh c) then (c, [])
      else (c\<lparr>cl_backgroundRefresh := key # cl_backgroundRefresh c\<rparr>, [RefreshStarted key message]))"

text \<open>
  The end of \<^verbatim>\<open>beginExchange\<close>, when nothing usable is cached: the test for a loop of transports and the store of
  rejected responses. \<open>contextTag\<close> is the tag of the transport that the query comes from.
\<close>

definition begin_query ::
  "client_lib \<Rightarrow> string option \<Rightarrow> DNSTransport \<Rightarrow> exchangeOperation \<Rightarrow> Client \<Rightarrow> begin_outcome \<times> Client \<times> client_effect list"
where
  "begin_query L contextTag transport operation c =
     (if contextTag = Some (t_Tag transport)
      then (BeginDone None (Some (QueryLoopback (t_Tag transport))), release operation c, [])
      else if \<not> op_disableCache operation \<and> op_responseChecker operation \<noteq> None \<and>
              (case ce_rdrc L of
                 None \<Rightarrow> False
               | Some load \<Rightarrow> load (t_Tag transport) (q_Name (op_question operation)) (q_Qtype (op_question operation)))
      then (BeginDone None (Some ErrResponseRejectedCached), release operation c, [])
      else (BeginReady operation, c, [AskTransport (t_Tag transport) (op_message operation)]))"

text \<open>From the cache on: after the lock was taken, or after waiting for it.\<close>

definition begin_cached ::
  "client_lib \<Rightarrow> int \<Rightarrow> string option \<Rightarrow> DNSTransport \<Rightarrow> exchangeOperation \<Rightarrow> Client \<Rightarrow>
   begin_outcome \<times> Client \<times> client_effect list"
where
  "begin_cached L now contextTag transport operation c =
     (let message = op_message operation;
          answer = (\<lambda>response. BeginDone (Some (response\<lparr>h_Id := h_Id message\<rparr>)) None)
      in if op_disableCache operation then begin_query L contextTag transport operation c
         else case loadResponse L now (op_cacheKey operation) c of
                (Some (response, ttl, isStale), c1) \<Rightarrow>
                  if isStale \<and> \<not> dq_DisableOptimisticCache (op_options operation) then
                    (case backgroundRefreshDNS (op_cacheKey operation) message c1 of
                       (c2, effects) \<Rightarrow> (answer response, release operation c2, effects))
                  else if \<not> isStale then (answer response, release operation c1, [])
                  else begin_query L contextTag transport operation c1
              | (None, c1) \<Rightarrow> begin_query L contextTag transport operation c1)"

text \<open>
  \<open>BeginBlocked\<close>: the exchange waits until the lock of its key is released, and goes on with
  \<open>after_wait\<close>, or until its context is done.
\<close>

definition beginExchange ::
  "client_lib \<Rightarrow> int \<Rightarrow> string option \<Rightarrow> DNSTransport \<Rightarrow> dns_Message \<Rightarrow> DNSQueryOptions \<Rightarrow>
   (dns_Message \<Rightarrow> bool) option \<Rightarrow> bool \<Rightarrow> Client \<Rightarrow> begin_outcome \<times> Client \<times> client_effect list"
where
  "beginExchange L now contextTag transport message0 options responseChecker allowWait c =
     (case h_Question message0 of
        [] \<Rightarrow> (BeginDone (Some (FixedResponseStatus message0 RcodeFormatError)) None, c, [])
      | question # _ \<Rightarrow>
          if q_Qtype question = TypeA \<and> dq_Strategy options = DomainStrategyIPv6Only \<or>
             q_Qtype question = TypeAAAA \<and> dq_Strategy options = DomainStrategyIPv4Only
          then (BeginDone (Some (FixedResponseStatus message0 RcodeSuccess)) None, c, [])
          else
            (let message = prepareExchangeMessage c message0 options;
                 disableCache = (\<not> isSimpleRequest message0 \<or> cl_disableCache c \<or> dq_DisableCache options);
                 cacheKey = newCacheKey L c transport question message options;
                 operation = \<lparr>op_message = message, op_question = question, op_messageId = h_Id message,
                   op_options = options, op_responseChecker = responseChecker, op_disableCache = disableCache,
                   op_cacheKey = cacheKey, op_owner = None\<rparr>
             in if disableCache then begin_cached L now contextTag transport operation c
                else if cacheKey \<in> set (cl_cacheLock c) then
                  (if allowWait then (BeginBlocked operation, c, []) else (BeginWait, c, []))
                else begin_cached L now contextTag transport (operation\<lparr>op_owner := Some cacheKey\<rparr>)
                       (c\<lparr>cl_cacheLock := cacheKey # cl_cacheLock c\<rparr>)))"

definition after_wait ::
  "client_lib \<Rightarrow> int \<Rightarrow> string option \<Rightarrow> DNSTransport \<Rightarrow> exchangeOperation \<Rightarrow> Client \<Rightarrow>
   begin_outcome \<times> Client \<times> client_effect list"
where
  "after_wait L now contextTag transport operation c =
     begin_cached L now contextTag transport
       (operation\<lparr>op_cacheKey := newCacheKey L c transport (op_question operation) (op_message operation) (op_options operation)\<rparr>) c"

subsection \<open>After the transport has answered\<close>

datatype transport_error = TransportRcode int | TransportError string

text \<open>\<^verbatim>\<open>exchangeToTransport\<close>: an error that is a response code becomes a response.\<close>

definition exchangeToTransport :: "dns_Message \<Rightarrow> (transport_error, dns_Message) res \<Rightarrow> (dns_error, dns_Message) res" where
  "exchangeToTransport message answer =
     (case answer of
        Inr response \<Rightarrow> Inr (stripDNSPadding response)
      | Inl (TransportRcode rcode) \<Rightarrow> Inr (FixedResponseStatus message rcode)
      | Inl (TransportError e) \<Rightarrow> Inl (TransportFailed e))"

definition cacheable_rcode :: "dns_Message \<Rightarrow> bool" where
  "cacheable_rcode response = (h_Rcode response = RcodeSuccess \<or> h_Rcode response = RcodeNameError)"

definition response_rejected :: "(dns_Message \<Rightarrow> bool) option \<Rightarrow> dns_Message \<Rightarrow> bool" where
  "response_rejected responseChecker response =
     (case responseChecker of
        None \<Rightarrow> False | Some check \<Rightarrow> \<not> cacheable_rcode response \<or> \<not> check response)"

definition store_response ::
  "client_lib \<Rightarrow> int \<Rightarrow> DNSTransport \<Rightarrow> dnsCacheKey \<Rightarrow> dns_Message \<Rightarrow> 32 word \<Rightarrow> Client \<Rightarrow> Client \<times> client_effect list"
where
  "store_response L now transport key response timeToLive c =
     (case finishCacheKey L transport key of
        None \<Rightarrow> (c, [])
      | Some cacheKey \<Rightarrow> storeCache L now cacheKey response timeToLive c)"

definition align_edns0 :: "client_lib \<Rightarrow> dns_Message \<Rightarrow> dns_Message \<Rightarrow> dns_Message" where
  "align_edns0 L request response =
     (case ce_IsEdns0 L response of
        None \<Rightarrow> response
      | Some responseOpt \<Rightarrow>
          (let dropped = response\<lparr>h_Extra := filter (\<lambda>it. \<not> is_OPT it) (h_Extra response)\<rparr> in
           case ce_IsEdns0 L request of
             None \<Rightarrow> dropped
           | Some requestOpt \<Rightarrow>
               if ce_Version L requestOpt < ce_Version L responseOpt
               then ce_SetEdns0 L (ce_UDPSize L responseOpt) (ce_Do L responseOpt) dropped
               else response))"

definition finishExchange ::
  "client_lib \<Rightarrow> int \<Rightarrow> DNSTransport \<Rightarrow> exchangeOperation \<Rightarrow> dns_Message \<Rightarrow> Client \<Rightarrow>
   (dns_Message \<times> dns_error option) \<times> Client \<times> client_effect list"
where
  "finishExchange L now transport operation response c =
     (let question = op_question operation;
          disableCache = (op_disableCache operation \<or> \<not> cacheable_rcode response)
      in if response_rejected (op_responseChecker operation) response then
           ((response, Some ErrResponseRejected), c,
            if \<not> disableCache \<and> ce_rdrc L \<noteq> None
            then [SaveRDRC (t_Tag transport) (q_Name question) (q_Qtype question)] else [])
         else
           (let (timeToLive, response1) = applyResponseOptions question response (op_options operation);
                (c1, effects) = (if disableCache then (c, [])
                                 else store_response L now transport (op_cacheKey operation) response1 timeToLive c);
                response2 = response1\<lparr>h_Id := op_messageId operation\<rparr>
            in ((align_edns0 L (op_message operation) response2, None), c1, effects)))"

text \<open>
  The rest of an exchange that was begun: \<open>answer\<close> is what the transport does with a message, \<open>later\<close> the time
  when it is done.
\<close>

definition run_operation ::
  "client_lib \<Rightarrow> int \<Rightarrow> DNSTransport \<Rightarrow> (dns_Message \<Rightarrow> (transport_error, dns_Message) res) \<Rightarrow> exchangeOperation \<Rightarrow>
   Client \<Rightarrow> (dns_Message option \<times> dns_error option) \<times> Client \<times> client_effect list"
where
  "run_operation L later transport answer operation c =
     (case exchangeToTransport (op_message operation) (answer (op_message operation)) of
        Inl e \<Rightarrow> ((None, Some e), release operation c, [])
      | Inr response \<Rightarrow>
          (case finishExchange L later transport operation response c of
             ((response1, err), c1, effects) \<Rightarrow> ((Some response1, err), release operation c1, effects)))"

text \<open>\<^verbatim>\<open>Exchange\<close>, when nobody else holds the lock of the key.\<close>

definition Client_Exchange ::
  "client_lib \<Rightarrow> int \<Rightarrow> int \<Rightarrow> string option \<Rightarrow> DNSTransport \<Rightarrow> (dns_Message \<Rightarrow> (transport_error, dns_Message) res) \<Rightarrow>
   dns_Message \<Rightarrow> DNSQueryOptions \<Rightarrow> (dns_Message \<Rightarrow> bool) option \<Rightarrow> Client \<Rightarrow>
   (dns_Message option \<times> dns_error option) \<times> Client \<times> client_effect list"
where
  "Client_Exchange L now later contextTag transport answer message options responseChecker c =
     (case beginExchange L now contextTag transport message options responseChecker True c of
        (BeginReady operation, c1, effects) \<Rightarrow>
          (case run_operation L later transport answer operation c1 of
             (result, c2, effects1) \<Rightarrow> (result, c2, effects @ effects1))
      | (BeginDone response err, c1, effects) \<Rightarrow> ((response, err), c1, effects)
      | (_, c1, effects) \<Rightarrow> ((None, Some QueryContextDone), c1, effects))"

text \<open>The goroutine of \<^verbatim>\<open>backgroundRefreshDNS\<close>, when the transport has answered.\<close>

definition refresh_finish ::
  "client_lib \<Rightarrow> int \<Rightarrow> DNSTransport \<Rightarrow> dnsCacheKey \<Rightarrow> dns_Message \<Rightarrow> (transport_error, dns_Message) res \<Rightarrow>
   DNSQueryOptions \<Rightarrow> (dns_Message \<Rightarrow> bool) option \<Rightarrow> Client \<Rightarrow> Client \<times> client_effect list"
where
  "refresh_finish L now transport key message answer options responseChecker c =
     (let c1 = c\<lparr>cl_backgroundRefresh := removeAll key (cl_backgroundRefresh c)\<rparr> in
      case exchangeToTransport message answer of
        Inl e \<Rightarrow> (c1, [])
      | Inr response \<Rightarrow>
          if response_rejected responseChecker response then
            (c1, if ce_rdrc L \<noteq> None
                 then [SaveRDRC (t_Tag transport) (q_Name (ck_Question key)) (q_Qtype (ck_Question key))] else [])
          else if responseChecker = None \<and> \<not> cacheable_rcode response then (c1, [])
          else
            (case finishCacheKey L transport key of
               None \<Rightarrow> (c1, [])
             | Some storeKey \<Rightarrow>
                 (case applyResponseOptions (ck_Question key) response options of
                    (timeToLive, response1) \<Rightarrow> storeCache L now storeKey response1 timeToLive c1)))"

subsection \<open>Looking up addresses\<close>

definition MessageToAddresses :: "client_lib \<Rightarrow> dns_Message \<Rightarrow> addr list" where
  "MessageToAddresses L response = DNSResponseAddresses (ce_env L) (Some (metadata_message response))"

definition response_addresses :: "client_lib \<Rightarrow> dns_Message \<Rightarrow> (dns_error, addr list) res" where
  "response_addresses L response =
     (if h_Rcode response \<noteq> RcodeSuccess then Inl (RcodeError (h_Rcode response))
      else Inr (MessageToAddresses L response))"

definition questionCache ::
  "client_lib \<Rightarrow> int \<Rightarrow> DNSTransport \<Rightarrow> dns_Message \<Rightarrow> dns_Question \<Rightarrow> DNSQueryOptions \<Rightarrow> Client \<Rightarrow>
   (dns_error, addr list) res \<times> Client \<times> client_effect list"
where
  "questionCache L now transport message question options c =
     (let cacheKey = newCacheKey L c transport question message options in
      case loadResponse L now cacheKey c of
        (None, c1) \<Rightarrow> (Inl ErrNotCached, c1, [])
      | (Some (response, ttl, isStale), c1) \<Rightarrow>
          if isStale \<and> dq_DisableOptimisticCache options then (Inl ErrNotCached, c1, [])
          else
            (case (if isStale then backgroundRefreshDNS cacheKey (prepareExchangeMessage c1 message options) c1
                   else (c1, [])) of
               (c2, effects) \<Rightarrow> (response_addresses L response, c2, effects)))"

definition lookup_message :: "string \<Rightarrow> 16 word \<Rightarrow> dns_Message" where
  "lookup_message name qType =
     \<lparr>h_Id = 0, h_Response = False, h_Authoritative = False, h_RecursionDesired = True, h_RecursionAvailable = False,
      h_Rcode = 0, h_Question = [\<lparr>q_Name = name, q_Qtype = qType, q_Qclass = ClassINET\<rparr>], h_Answer = [], h_Ns = [],
      h_Extra = []\<rparr>"

definition lookupToExchange ::
  "client_lib \<Rightarrow> int \<Rightarrow> int \<Rightarrow> string option \<Rightarrow> DNSTransport \<Rightarrow> (dns_Message \<Rightarrow> (transport_error, dns_Message) res) \<Rightarrow>
   string \<Rightarrow> 16 word \<Rightarrow> DNSQueryOptions \<Rightarrow> (dns_Message \<Rightarrow> bool) option \<Rightarrow> Client \<Rightarrow>
   (dns_error, addr list) res \<times> Client \<times> client_effect list"
where
  "lookupToExchange L now later contextTag transport answer name qType options responseChecker c =
     (let message = lookup_message name qType;
          question = \<lparr>q_Name = name, q_Qtype = qType, q_Qclass = ClassINET\<rparr>;
          exchange = (\<lambda>c1 effects.
            case Client_Exchange L now later contextTag transport answer message options responseChecker c1 of
              ((_, Some e), c2, effects1) \<Rightarrow> (Inl e, c2, effects @ effects1)
            | ((Some response, None), c2, effects1) \<Rightarrow> (response_addresses L response, c2, effects @ effects1)
            | ((None, None), c2, effects1) \<Rightarrow> (Inr [], c2, effects @ effects1))
      in if cl_disableCache c \<or> dq_DisableCache options then exchange c []
         else case questionCache L now transport message question options c of
                (Inl ErrNotCached, c1, effects) \<Rightarrow> exchange c1 effects
              | found \<Rightarrow> found)"

text \<open>The end of \<^verbatim>\<open>Lookup\<close> for both families: the two lookups run in a group, whose error joins their errors.\<close>

definition lookup_both :: "8 word \<Rightarrow> (dns_error, addr list) res \<Rightarrow> (dns_error, addr list) res \<Rightarrow> (dns_error, addr list) res" where
  "lookup_both strategy result4 result6 =
     (let addresses = (\<lambda>r. case r of Inl _ \<Rightarrow> [] | Inr as \<Rightarrow> as);
          errors = (\<lambda>r. case r of Inl e \<Rightarrow> [e] | Inr _ \<Rightarrow> [])
      in if addresses result4 = [] \<and> addresses result6 = [] then
           (if errors result4 @ errors result6 = [] then Inr []
            else Inl (GroupError (errors result4 @ errors result6)))
         else Inr (sortAddresses (addresses result4) (addresses result6) strategy))"

definition Client_Lookup ::
  "client_lib \<Rightarrow> int \<Rightarrow> int \<Rightarrow> string option \<Rightarrow> DNSTransport \<Rightarrow> (dns_Message \<Rightarrow> (transport_error, dns_Message) res) \<Rightarrow>
   string \<Rightarrow> DNSQueryOptions \<Rightarrow> (dns_Message \<Rightarrow> bool) option \<Rightarrow> Client \<Rightarrow>
   (dns_error, addr list) res \<times> Client \<times> client_effect list"
where
  "Client_Lookup L now later contextTag transport answer domain options responseChecker c =
     (let dnsName = ce_Fqdn L (FqdnToDomain (ce_IsFqdn L) domain);
          strategy = (if dq_LookupStrategy options \<noteq> DomainStrategyAsIS then dq_LookupStrategy options
                      else dq_Strategy options);
          lookupOptions = (if dq_LookupStrategy options \<noteq> DomainStrategyAsIS
                           then options\<lparr>dq_Strategy := strategy\<rparr> else options);
          lookup = (\<lambda>qType. lookupToExchange L now later contextTag transport answer dnsName qType lookupOptions responseChecker)
      in if strategy = DomainStrategyIPv4Only then lookup TypeA c
         else if strategy = DomainStrategyIPv6Only then lookup TypeAAAA c
         else
           (case lookup TypeA c of
              (result4, c1, effects1) \<Rightarrow>
                (case lookup TypeAAAA c1 of
                   (result6, c2, effects2) \<Rightarrow> (lookup_both strategy result4 result6, c2, effects1 @ effects2))))"

end
