(* ===== verification/DNS_Client_Lemmas.thy ===== *)
theory DNS_Client_Lemmas
  imports DNS_Client "HOL-Library.Multiset"
begin

text \<open>
  Lemmas on the DNS client: what it keeps of a message, running exchanges and the locks they hold, and where the
  entries of the cache come from.
\<close>

subsection \<open>The identifier of a message\<close>

lemma prepare_id:
  "prepareExchangeMessage c (message\<lparr>h_Id := i\<rparr>) options = (prepareExchangeMessage c message options)\<lparr>h_Id := i\<rparr>"
  by (auto simp: prepareExchangeMessage_def removeClientSubnet_def SetClientSubnet_def Let_def split: prod.splits option.splits)

lemma prepare_keeps [simp]:
  "h_Id (prepareExchangeMessage c message options) = h_Id message"
  "h_Question (prepareExchangeMessage c message options) = h_Question message"
  by (auto simp: prepareExchangeMessage_def removeClientSubnet_def SetClientSubnet_def Let_def split: prod.splits option.splits)

lemma cache_key_id [simp]:
  "newCacheKey L c transport question (message\<lparr>h_Id := i\<rparr>) options = newCacheKey L c transport question message options"
  by (simp add: newCacheKey_def clientSubnetFromMessage_def Let_def)

lemma cache_key_client:
  "cl_clientSubnet c' = cl_clientSubnet c \<Longrightarrow> newCacheKey L c' = newCacheKey L c"
  "cl_clientSubnet c' = cl_clientSubnet c \<Longrightarrow> prepareExchangeMessage c' = prepareExchangeMessage c"
  by (simp_all add: fun_eq_iff newCacheKey_def prepareExchangeMessage_def)

lemma finish_same_key [simp]:
  "finishCacheKey L transport (newCacheKey L c transport question message options) =
   Some (newCacheKey L c transport question message options)"
  by (simp add: finishCacheKey_def newCacheKey_def Let_def)

subsection \<open>Asking and answering from the cache\<close>

text \<open>The cache in memory is used, entries expire, and the entry that was inserted last is kept.\<close>

definition plain_cache :: "client_lib \<Rightarrow> Client \<Rightarrow> bool" where
  "plain_cache L c \<longleftrightarrow>
     ce_dnsCache L = None \<and> cl_cache c \<noteq> None \<and> \<not> cl_disableCache c \<and> \<not> cl_disableExpire c"

definition keeps_newest :: "client_lib \<Rightarrow> bool" where
  "keeps_newest L \<longleftrightarrow> (\<forall>cache k v. ce_evict L (cache(k \<mapsto> v)) k = Some v)"

text \<open>A query that may use the cache.\<close>

definition cacheable_query :: "dns_Message \<Rightarrow> dns_Question \<Rightarrow> DNSQueryOptions \<Rightarrow> bool" where
  "cacheable_query message question options \<longleftrightarrow>
     h_Question message = [question] \<and> isSimpleRequest message \<and> \<not> dq_DisableCache options \<and>
     \<not> (q_Qtype question = TypeA \<and> dq_Strategy options = DomainStrategyIPv6Only) \<and>
     \<not> (q_Qtype question = TypeAAAA \<and> dq_Strategy options = DomainStrategyIPv4Only)"

definition query_key :: "client_lib \<Rightarrow> Client \<Rightarrow> DNSTransport \<Rightarrow> dns_Message \<Rightarrow> dns_Question \<Rightarrow> DNSQueryOptions \<Rightarrow> dnsCacheKey" where
  "query_key L c transport message question options =
     newCacheKey L c transport question (prepareExchangeMessage c message options) options"

lemma cached_answer:
  assumes "plain_cache L c" "cacheable_query message question options"
    and "query_key L c transport message question options \<notin> set (cl_cacheLock c)"
    and "cl_cache c = Some cache" "cache (query_key L c transport message question options) = Some (response, expireAt)"
    and "now \<le> expireAt"
  shows "Client_Exchange L now later contextTag transport answer message options checker c =
    ((Some ((fst (fresh_response now expireAt response))\<lparr>h_Id := h_Id message\<rparr>), None), c, [])"
proof -
  have "c\<lparr>cl_cacheLock := removeAll k (k # cl_cacheLock c)\<rparr> = c" if "k \<notin> set (cl_cacheLock c)" for k
    using that by (cases c) (simp add: removeAll_id)
  then show ?thesis
    using assms
    by (auto simp: Client_Exchange_def beginExchange_def cacheable_query_def query_key_def begin_cached_def loadResponse_def
        plain_cache_def release_def fresh_response_def Let_def split: prod.splits)
qed

lemma uncached_question:
  assumes "plain_cache L c" "cacheable_query message question options"
    and "query_key L c transport message question options \<notin> set (cl_cacheLock c)"
    and "cl_cache c = Some cache" "cache (query_key L c transport message question options) = None"
    and "contextTag \<noteq> Some (t_Tag transport)"
    and "answer (prepareExchangeMessage c message options) = Inr response" "cacheable_rcode (stripDNSPadding response)"
    and "applyResponseOptions question (stripDNSPadding response) options = (ttl, response1)" "ttl \<noteq> 0"
  shows "Client_Exchange L now later contextTag transport answer message options None c =
    ((Some (align_edns0 L (prepareExchangeMessage c message options) (response1\<lparr>h_Id := h_Id message\<rparr>)), None),
     c\<lparr>cl_cache := Some (ce_evict L (cache(query_key L c transport message question options \<mapsto>
                                        (response1, later + second * uint ttl))))\<rparr>,
     [AskTransport (t_Tag transport) (prepareExchangeMessage c message options)])"
proof -
  have "removeAll k (k # cl_cacheLock c) = cl_cacheLock c" if "k \<notin> set (cl_cacheLock c)" for k
    using that by (simp add: removeAll_id)
  then show ?thesis
    using assms
    by (auto simp: Client_Exchange_def beginExchange_def cacheable_query_def query_key_def begin_cached_def loadResponse_def
        plain_cache_def release_def begin_query_def run_operation_def exchangeToTransport_def finishExchange_def
        response_rejected_def store_response_def storeCache_def Let_def split: prod.splits)
qed

subsection \<open>Exchanges that run at the same time\<close>

text \<open>
  The client with its running exchanges: those that ask a transport, those that wait for a lock, the refreshes in the
  background, and the answers of transports so far, each with the transport, the message and the time. Any number of exchanges
  run at the same time; a step is one of the parts that run without waiting.
\<close>

record client_state =
  st_client :: Client
  st_running :: "(DNSTransport \<times> exchangeOperation) list"
  st_waiting :: "(DNSTransport \<times> exchangeOperation) list"
  st_refreshing :: "(DNSTransport \<times> dnsCacheKey \<times> dns_Message) list"
  st_answers :: "(DNSTransport \<times> dns_Message \<times> (transport_error, dns_Message) res \<times> int) list"

fun begun :: "DNSTransport \<Rightarrow> begin_outcome \<Rightarrow> client_state \<Rightarrow> client_state" where
  "begun transport (BeginReady operation) s = s\<lparr>st_running := (transport, operation) # st_running s\<rparr>"
| "begun transport (BeginBlocked operation) s = s\<lparr>st_waiting := (transport, operation) # st_waiting s\<rparr>"
| "begun transport BeginWait s = s"
| "begun transport (BeginDone response err) s = s"

fun refreshes :: "DNSTransport \<Rightarrow> client_effect list \<Rightarrow> (DNSTransport \<times> dnsCacheKey \<times> dns_Message) list" where
  "refreshes transport [] = []"
| "refreshes transport (RefreshStarted key message # effects) = (transport, key, message) # refreshes transport effects"
| "refreshes transport (_ # effects) = refreshes transport effects"

definition after_begin ::
  "DNSTransport \<Rightarrow> begin_outcome \<times> Client \<times> client_effect list \<Rightarrow> client_state \<Rightarrow> client_state"
where
  "after_begin transport result s =
     (case result of
        (outcome, c, effects) \<Rightarrow>
          begun transport outcome (s\<lparr>st_client := c, st_refreshing := refreshes transport effects @ st_refreshing s\<rparr>))"

inductive client_step :: "client_lib \<Rightarrow> client_state \<Rightarrow> client_state \<Rightarrow> bool" for L where
  start: "client_step L s
     (after_begin transport (beginExchange L now contextTag transport message options checker allowWait (st_client s)) s)"
| wake: "(transport, operation) \<in> set (st_waiting s) \<Longrightarrow>
     client_step L s
       (after_begin transport (after_wait L now contextTag transport operation (st_client s))
          (s\<lparr>st_waiting := remove1 (transport, operation) (st_waiting s)\<rparr>))"
| give_up: "(transport, operation) \<in> set (st_waiting s) \<Longrightarrow>
     client_step L s (s\<lparr>st_waiting := remove1 (transport, operation) (st_waiting s)\<rparr>)"
| finish: "(transport, operation) \<in> set (st_running s) \<Longrightarrow>
     run_operation L now transport (\<lambda>_. answer) operation (st_client s) = (result, c, effects) \<Longrightarrow>
     client_step L s (s\<lparr>st_client := c, st_running := remove1 (transport, operation) (st_running s),
        st_answers := (transport, op_message operation, answer, now) # st_answers s\<rparr>)"
| refresh: "(transport, key, message) \<in> set (st_refreshing s) \<Longrightarrow>
     refresh_finish L now transport key message answer options checker (st_client s) = (c, effects) \<Longrightarrow>
     client_step L s (s\<lparr>st_client := c, st_refreshing := remove1 (transport, key, message) (st_refreshing s),
        st_answers := (transport, message, answer, now) # st_answers s\<rparr>)"
| clear: "client_step L s (s\<lparr>st_client := ClearCache (st_client s)\<rparr>)"

inductive client_reachable :: "client_lib \<Rightarrow> client_state \<Rightarrow> bool" for L where
  initial: "client_reachable L
     \<lparr>st_client = Client_Start L (NewClient disableCache disableExpire timeout subnet withDNSCache), st_running = [],
      st_waiting = [], st_refreshing = [], st_answers = []\<rparr>"
| step: "client_reachable L s \<Longrightarrow> client_step L s s' \<Longrightarrow> client_reachable L s'"

subsection \<open>Locks\<close>

definition operation_owner :: "DNSTransport \<times> exchangeOperation \<Rightarrow> dnsCacheKey list" where
  "operation_owner = (\<lambda>(transport, operation). case op_owner operation of None \<Rightarrow> [] | Some key \<Rightarrow> [key])"

definition lock_owners :: "(DNSTransport \<times> exchangeOperation) list \<Rightarrow> dnsCacheKey list" where
  "lock_owners running = concat (map operation_owner running)"

lemma lock_owners_Cons [simp]: "lock_owners (x # xs) = operation_owner x @ lock_owners xs"
  by (simp add: lock_owners_def)

lemma lock_owners_remove1:
  "x \<in> set xs \<Longrightarrow> mset (lock_owners xs) = mset (lock_owners (remove1 x xs)) + mset (operation_owner x)"
  by (induction xs) (auto simp: lock_owners_def)

text \<open>The keys that are locked are those of the running exchanges, and no key is locked twice.\<close>

definition locks_owned :: "client_state \<Rightarrow> bool" where
  "locks_owned s \<longleftrightarrow>
     distinct (cl_cacheLock (st_client s)) \<and> mset (cl_cacheLock (st_client s)) = mset (lock_owners (st_running s)) \<and>
     (\<forall>(transport, operation)\<in>set (st_waiting s). op_owner operation = None)"

lemma release_lock: "cl_cacheLock (release operation c) =
    (case op_owner operation of None \<Rightarrow> cl_cacheLock c | Some key \<Rightarrow> removeAll key (cl_cacheLock c))"
  by (simp add: release_def split: option.split)

lemma loadResponse_lock: "loadResponse L now key c = (found, c') \<Longrightarrow> cl_cacheLock c' = cl_cacheLock c"
  by (auto simp: loadResponse_def split: option.splits if_splits prod.splits)

lemma backgroundRefresh_lock: "backgroundRefreshDNS key message c = (c', effects) \<Longrightarrow> cl_cacheLock c' = cl_cacheLock c"
  by (auto simp: backgroundRefreshDNS_def split: if_splits)

lemma begin_query_lock:
  assumes "begin_query L contextTag transport operation c = (outcome, c', effects)"
  shows "outcome = BeginReady operation \<and> c' = c \<or> (\<exists>r e. outcome = BeginDone r e) \<and> c' = release operation c"
  using assms by (auto simp: begin_query_def split: if_splits option.splits)

lemma begin_cached_lock:
  assumes "begin_cached L now contextTag transport operation c = (outcome, c', effects)"
  shows "outcome = BeginReady operation \<and> cl_cacheLock c' = cl_cacheLock c \<or>
         (\<exists>r e. outcome = BeginDone r e) \<and> cl_cacheLock c' = cl_cacheLock (release operation c)"
proof -
  obtain found c1 where l: "loadResponse L now (op_cacheKey operation) c = (found, c1)" by fastforce
  obtain c2 fx where b: "backgroundRefreshDNS (op_cacheKey operation) (op_message operation) c1 = (c2, fx)" by fastforce
  note locks = loadResponse_lock [OF l] backgroundRefresh_lock [OF b]
  show ?thesis
    using assms l b locks begin_query_lock [of L contextTag transport operation c outcome c' effects]
      begin_query_lock [of L contextTag transport operation c1 outcome c' effects]
    by (auto simp: begin_cached_def Let_def release_lock split: if_splits option.splits prod.splits)
qed

lemma store_lock:
  "storeCache L now key message ttl c = (c', effects) \<Longrightarrow> cl_cacheLock c' = cl_cacheLock c"
  by (auto simp: storeCache_def Let_def split: if_splits option.splits)

lemma finish_lock:
  "finishExchange L now transport operation response c = (result, c', effects) \<Longrightarrow> cl_cacheLock c' = cl_cacheLock c"
  by (auto simp: finishExchange_def store_response_def Let_def store_lock split: if_splits option.splits prod.splits)

lemma run_lock:
  "run_operation L now transport answer operation c = (result, c', effects) \<Longrightarrow>
   cl_cacheLock c' = cl_cacheLock (release operation c)"
  by (auto simp: run_operation_def release_lock finish_lock split: sum.splits prod.splits option.splits)

lemma refresh_lock:
  "refresh_finish L now transport key message answer options checker c = (c', effects) \<Longrightarrow> cl_cacheLock c' = cl_cacheLock c"
  by (auto simp: refresh_finish_def Let_def dest!: store_lock split: sum.splits if_splits option.splits prod.splits)

lemma after_begin_locks:
  assumes "begin_cached L now contextTag transport operation c = result"
    and "distinct (cl_cacheLock c)"
    and "mset (cl_cacheLock c) = mset (lock_owners ((transport, operation) # st_running s))"
    and "\<forall>(transport, operation)\<in>set (st_waiting s). op_owner operation = None"
  shows "locks_owned (after_begin transport result s)"
proof -
  obtain outcome c' effects where r: "result = (outcome, c', effects)" by (cases result)
  from begin_cached_lock [OF assms(1) [unfolded r]] show ?thesis
  proof (elim disjE conjE exE)
    assume "outcome = BeginReady operation" "cl_cacheLock c' = cl_cacheLock c"
    then show ?thesis using assms by (simp add: r after_begin_def locks_owned_def)
  next
    fix response e
    assume o: "outcome = BeginDone response e" and l: "cl_cacheLock c' = cl_cacheLock (release operation c)"
    have "mset (cl_cacheLock c') = mset (lock_owners (st_running s)) \<and> distinct (cl_cacheLock c')"
    proof (cases "op_owner operation")
      case None
      then show ?thesis using l assms(2,3) by (simp add: release_lock operation_owner_def)
    next
      case (Some key)
      then have "mset (cl_cacheLock c) = add_mset key (mset (lock_owners (st_running s)))"
        using assms(3) by (simp add: operation_owner_def)
      then have "mset (remove1 key (cl_cacheLock c)) = mset (lock_owners (st_running s))" by simp
      then show ?thesis using l assms(2) Some
        by (simp add: release_lock distinct_remove1_removeAll [symmetric] distinct_remove1)
    qed
    then show ?thesis using assms(4) by (simp add: r o after_begin_def locks_owned_def)
  qed
qed

lemma remove1_released:
  assumes "distinct (cl_cacheLock c)" "mset (cl_cacheLock c) = mset (lock_owners running)" "(transport, operation) \<in> set running"
    and "cl_cacheLock c' = cl_cacheLock (release operation c)"
  shows "distinct (cl_cacheLock c')" "mset (cl_cacheLock c') = mset (lock_owners (remove1 (transport, operation) running))"
proof -
  have m: "mset (cl_cacheLock c) = mset (lock_owners (remove1 (transport, operation) running)) + mset (operation_owner (transport, operation))"
    using lock_owners_remove1 [OF assms(3)] assms(2) by simp
  show "distinct (cl_cacheLock c')" using assms(1,4) by (simp add: release_lock distinct_removeAll split: option.split)
  show "mset (cl_cacheLock c') = mset (lock_owners (remove1 (transport, operation) running))"
  proof (cases "op_owner operation")
    case None
    then show ?thesis using m assms(4) by (simp add: release_lock operation_owner_def)
  next
    case (Some key)
    then have "cl_cacheLock c' = remove1 key (cl_cacheLock c)"
      using assms(1,4) by (simp add: release_lock distinct_remove1_removeAll)
    then show ?thesis using m Some by (simp add: operation_owner_def)
  qed
qed

lemma start_locks:
  assumes "locks_owned s"
  shows "locks_owned (after_begin transport
           (beginExchange L now contextTag transport message options checker allowWait (st_client s)) s)"
proof (cases "h_Question message")
  case Nil
  then show ?thesis using assms by (simp add: beginExchange_def after_begin_def locks_owned_def)
next
  case (Cons question rest)
  let ?c = "st_client s"
  let ?message = "prepareExchangeMessage ?c message options"
  let ?key = "newCacheKey L ?c transport question ?message options"
  let ?off = "\<not> isSimpleRequest message \<or> cl_disableCache ?c \<or> dq_DisableCache options"
  let ?op = "\<lparr>op_message = ?message, op_question = question, op_messageId = h_Id ?message, op_options = options,
    op_responseChecker = checker, op_disableCache = ?off, op_cacheKey = ?key, op_owner = None\<rparr>"
  have l: "distinct (cl_cacheLock ?c)" "mset (cl_cacheLock ?c) = mset (lock_owners (st_running s))"
    "\<forall>(transport, operation)\<in>set (st_waiting s). op_owner operation = None"
    using assms by (auto simp: locks_owned_def)
  consider (no_family) "q_Qtype question = TypeA \<and> dq_Strategy options = DomainStrategyIPv6Only \<or>
      q_Qtype question = TypeAAAA \<and> dq_Strategy options = DomainStrategyIPv4Only"
    | (off) "\<not> (q_Qtype question = TypeA \<and> dq_Strategy options = DomainStrategyIPv6Only \<or>
        q_Qtype question = TypeAAAA \<and> dq_Strategy options = DomainStrategyIPv4Only)" "?off"
    | (locked) "\<not> (q_Qtype question = TypeA \<and> dq_Strategy options = DomainStrategyIPv6Only \<or>
        q_Qtype question = TypeAAAA \<and> dq_Strategy options = DomainStrategyIPv4Only)" "\<not> ?off" "?key \<in> set (cl_cacheLock ?c)"
    | (free) "\<not> (q_Qtype question = TypeA \<and> dq_Strategy options = DomainStrategyIPv6Only \<or>
        q_Qtype question = TypeAAAA \<and> dq_Strategy options = DomainStrategyIPv4Only)" "\<not> ?off" "?key \<notin> set (cl_cacheLock ?c)"
    by blast
  then show ?thesis
  proof cases
    case no_family
    then show ?thesis using assms Cons by (simp add: beginExchange_def after_begin_def locks_owned_def)
  next
    case off
    have "beginExchange L now contextTag transport message options checker allowWait ?c =
        begin_cached L now contextTag transport ?op ?c"
      using Cons off by (auto simp: beginExchange_def Let_def)
    then show ?thesis using l after_begin_locks [OF refl l(1), where operation = ?op and s = s and transport = transport]
      by (simp add: operation_owner_def)
  next
    case locked
    then show ?thesis using assms Cons by (auto simp: beginExchange_def after_begin_def locks_owned_def Let_def)
  next
    case free
    have "beginExchange L now contextTag transport message options checker allowWait ?c =
        begin_cached L now contextTag transport (?op\<lparr>op_owner := Some ?key\<rparr>) (?c\<lparr>cl_cacheLock := ?key # cl_cacheLock ?c\<rparr>)"
      using Cons free by (auto simp: beginExchange_def Let_def)
    moreover have "locks_owned (after_begin transport
        (begin_cached L now contextTag transport (?op\<lparr>op_owner := Some ?key\<rparr>) (?c\<lparr>cl_cacheLock := ?key # cl_cacheLock ?c\<rparr>)) s)"
      by (rule after_begin_locks [OF refl]) (use l free in \<open>simp_all add: operation_owner_def\<close>)
    ultimately show ?thesis by simp
  qed
qed

lemma wake_locks:
  assumes "locks_owned s" "(transport, operation) \<in> set (st_waiting s)"
  shows "locks_owned (after_begin transport (after_wait L now contextTag transport operation (st_client s))
           (s\<lparr>st_waiting := remove1 (transport, operation) (st_waiting s)\<rparr>))"
proof -
  have "op_owner operation = None" using assms by (auto simp: locks_owned_def)
  moreover have "\<forall>(t, q)\<in>set (remove1 (transport, operation) (st_waiting s)). op_owner q = None"
    using assms(1) set_remove1_subset by (fastforce simp: locks_owned_def)
  ultimately show ?thesis
    unfolding after_wait_def using assms(1)
    by (intro after_begin_locks [OF refl]) (simp_all add: locks_owned_def operation_owner_def)
qed

lemma client_step_locks:
  assumes "client_step L s s'" "locks_owned s"
  shows "locks_owned s'"
  using assms
proof (induction rule: client_step.induct)
  case (give_up transport operation s)
  then show ?case using set_remove1_subset by (fastforce simp: locks_owned_def)
next
  case (finish transport operation s now answer result c effects)
  then show ?case
    using remove1_released [of "st_client s" "st_running s" transport operation c] run_lock [OF finish(2)]
    by (simp add: locks_owned_def)
next
  case (clear s)
  then show ?case by (simp add: locks_owned_def ClearCache_def split: option.split)
next
  case (refresh transport key message s now answer options checker c effects)
  then show ?case by (simp add: locks_owned_def refresh_lock [OF refresh(2)])
qed (rule start_locks wake_locks; assumption)+

lemma client_locks: "client_reachable L s \<Longrightarrow> locks_owned s"
proof (induction rule: client_reachable.induct)
  case (initial disableCache disableExpire timeout subnet withDNSCache)
  show ?case by (simp add: locks_owned_def NewClient_def Client_Start_def lock_owners_def)
qed (rule client_step_locks)

subsection \<open>Where entries of the cache come from\<close>

definition cached :: "Client \<Rightarrow> dnsCacheKey \<Rightarrow> dns_Message \<times> int \<Rightarrow> bool" where
  "cached c key v \<longleftrightarrow> (\<exists>cache. cl_cache c = Some cache \<and> cache key = Some v)"

text \<open>
  The entry of a key is the answer of the transport of the key to its question, with the options of the query applied, and
  expires when the time to live is over that was computed for it when it came.
\<close>

definition answer_of ::
  "(DNSTransport \<times> dns_Message \<times> (transport_error, dns_Message) res \<times> int) list \<Rightarrow> dnsCacheKey \<Rightarrow> dns_Message \<times> int \<Rightarrow> bool"
where
  "answer_of answers key v \<longleftrightarrow>
     (\<exists>(transport, message, answer, t)\<in>set answers. \<exists>response options ttl.
        t_Tag transport = ck_transportTag key \<and> hd (h_Question message) = ck_Question key \<and>
        exchangeToTransport message answer = Inr response \<and> cacheable_rcode response \<and> ttl \<noteq> 0 \<and>
        applyResponseOptions (ck_Question key) response options = (ttl, fst v) \<and> snd v = t + second * uint ttl)"

definition operation_ok :: "DNSTransport \<times> exchangeOperation \<Rightarrow> bool" where
  "operation_ok = (\<lambda>(transport, operation).
     op_question operation = hd (h_Question (op_message operation)) \<and>
     ck_Question (op_cacheKey operation) = op_question operation \<and> ck_transportTag (op_cacheKey operation) = t_Tag transport)"

definition refresh_ok :: "DNSTransport \<times> dnsCacheKey \<times> dns_Message \<Rightarrow> bool" where
  "refresh_ok = (\<lambda>(transport, key, message).
     ck_Question key = hd (h_Question message) \<and> ck_transportTag key = t_Tag transport)"

definition cache_sound :: "client_state \<Rightarrow> bool" where
  "cache_sound s \<longleftrightarrow>
     (\<forall>key v. cached (st_client s) key v \<longrightarrow> answer_of (st_answers s) key v) \<and>
     list_all operation_ok (st_running s) \<and> list_all operation_ok (st_waiting s) \<and> list_all refresh_ok (st_refreshing s)"

lemma answer_of_Cons: "answer_of answers key v \<Longrightarrow> answer_of (a # answers) key v"
  by (auto simp: answer_of_def)

lemma release_cached [simp]: "cached (release operation c) key v = cached c key v"
  by (simp add: cached_def release_def split: option.split)

lemma loadResponse_cached: "loadResponse L now k c = (found, c') \<Longrightarrow> cached c' key v \<Longrightarrow> cached c key v"
  by (auto simp: loadResponse_def cached_def split: option.splits if_splits prod.splits)

lemma backgroundRefresh_cached: "backgroundRefreshDNS k message c = (c', effects) \<Longrightarrow> cached c' key v = cached c key v"
  by (auto simp: backgroundRefreshDNS_def cached_def split: if_splits)

lemma begin_query_cached:
  "begin_query L contextTag transport operation c = (outcome, c', effects) \<Longrightarrow> cached c' key v \<Longrightarrow> cached c key v"
  using begin_query_lock [of L contextTag transport operation c outcome c' effects] by auto

lemma begin_cached_cached:
  assumes "begin_cached L now contextTag transport operation c = (outcome, c', effects)" "cached c' key v"
  shows "cached c key v"
proof -
  obtain found c1 where l: "loadResponse L now (op_cacheKey operation) c = (found, c1)" by fastforce
  obtain c2 fx where b: "backgroundRefreshDNS (op_cacheKey operation) (op_message operation) c1 = (c2, fx)" by fastforce
  note facts = loadResponse_cached [OF l, of key v] backgroundRefresh_cached [OF b, of key v]
    begin_query_cached [of L contextTag transport operation c outcome c' effects key v]
    begin_query_cached [of L contextTag transport operation c1 outcome c' effects key v]
  show ?thesis
    using assms l b facts
    by (auto simp: begin_cached_def Let_def split: if_splits option.splits prod.splits)
qed

lemma begin_query_refreshes:
  "begin_query L contextTag transport operation c = (outcome, c', effects) \<Longrightarrow> refreshes transport' effects = []"
  by (auto simp: begin_query_def split: if_splits)

lemma begin_cached_refreshes:
  assumes "begin_cached L now contextTag transport operation c = (outcome, c', effects)" "operation_ok (transport, operation)"
  shows "list_all refresh_ok (refreshes transport effects)"
  using assms begin_query_refreshes [of L contextTag transport operation _ outcome c' effects transport]
  by (auto simp: begin_cached_def Let_def backgroundRefreshDNS_def operation_ok_def refresh_ok_def
      split: if_splits option.splits prod.splits)

lemma after_begin_sound:
  assumes "begin_cached L now contextTag transport operation c = result"
    and "operation_ok (transport, operation)" "\<And>key v. cached c key v = cached (st_client s) key v" "cache_sound s"
  shows "cache_sound (after_begin transport result s)"
proof -
  obtain outcome c' effects where r: "result = (outcome, c', effects)" by (cases result)
  note b = assms(1) [unfolded r]
  have "outcome = BeginReady operation \<or> (\<exists>r e. outcome = BeginDone r e)" using begin_cached_lock [OF b] by blast
  then show ?thesis
    using begin_cached_cached [OF b] begin_cached_refreshes [OF b assms(2)] assms(2-4)
    by (auto simp: r after_begin_def cache_sound_def)
qed

lemma cache_key_parts [simp]:
  "ck_Question (newCacheKey L c transport question message options) = question"
  "ck_transportTag (newCacheKey L c transport question message options) = t_Tag transport"
  by (simp_all add: newCacheKey_def Let_def)

lemma start_sound:
  assumes "cache_sound s"
  shows "cache_sound (after_begin transport
           (beginExchange L now contextTag transport message options checker allowWait (st_client s)) s)"
proof (cases "h_Question message")
  case Nil
  then show ?thesis using assms by (simp add: beginExchange_def after_begin_def cache_sound_def)
next
  case (Cons question rest)
  have locked: "cached (c\<lparr>cl_cacheLock := l\<rparr>) key v = cached c key v" for c l key v by (simp add: cached_def)
  have sound: "cache_sound (after_begin transport (begin_cached L now contextTag transport operation c) s)"
    if "operation_ok (transport, operation)" "\<And>key v. cached c key v = cached (st_client s) key v" for operation c
    using after_begin_sound [OF refl that assms] .
  show ?thesis
    using assms Cons unfolding beginExchange_def
    by (auto simp: Let_def intro!: sound simp: operation_ok_def locked) (auto simp: after_begin_def cache_sound_def operation_ok_def)
qed

lemma list_all_remove1: "list_all P xs \<Longrightarrow> list_all P (remove1 x xs)"
  using set_remove1_subset by (fastforce simp: list_all_iff)

lemma wake_sound:
  assumes "cache_sound s" "(transport, operation) \<in> set (st_waiting s)"
  shows "cache_sound (after_begin transport (after_wait L now contextTag transport operation (st_client s))
           (s\<lparr>st_waiting := remove1 (transport, operation) (st_waiting s)\<rparr>))"
proof -
  have "operation_ok (transport, operation)" using assms by (auto simp: cache_sound_def list_all_iff)
  then show ?thesis unfolding after_wait_def using assms(1)
    by (intro after_begin_sound [OF refl]) (simp_all add: cache_sound_def operation_ok_def list_all_remove1)
qed

text \<open>What is stored.\<close>

definition only_removes :: "client_lib \<Rightarrow> bool" where
  "only_removes L \<longleftrightarrow> (\<forall>cache. ce_evict L cache \<subseteq>\<^sub>m cache)"

lemma store_cached:
  assumes "storeCache L now k message ttl c = (c', effects)" "cached c' key v" "only_removes L"
  shows "cached c key v \<or> key = k \<and> v = (message, now + second * uint ttl) \<and> ttl \<noteq> 0"
proof -
  have "cache key = Some v" if "ce_evict L cache key = Some v" for cache
    using assms(3) that unfolding only_removes_def map_le_def by (metis domI)
  then show ?thesis using assms(1,2)
    by (fastforce simp: storeCache_def cached_def Let_def split: if_splits option.splits)
qed

lemma finish_key_parts:
  "finishCacheKey L transport key = Some key' \<Longrightarrow> ck_Question key' = ck_Question key \<and> ck_transportTag key' = ck_transportTag key"
  by (auto simp: finishCacheKey_def Let_def split: if_splits)

lemma finish_cached:
  assumes "finishExchange L now transport operation response c = (result, c', effects)" "cached c' key v" "only_removes L"
    and "operation_ok (transport, operation)" "exchangeToTransport (op_message operation) answer = Inr response"
  shows "cached c key v \<or> answer_of ((transport, op_message operation, answer, now) # answers) key v"
proof -
  obtain ttl response1 where a: "applyResponseOptions (op_question operation) response (op_options operation) = (ttl, response1)"
    by fastforce
  have "answer_of ((transport, op_message operation, answer, now) # answers) k (response1, now + second * uint ttl)"
    if "finishCacheKey L transport (op_cacheKey operation) = Some k" "cacheable_rcode response" "ttl \<noteq> 0" for k
    using finish_key_parts [OF that(1)] that assms(4,5) a
    by (auto simp: answer_of_def operation_ok_def)
  then show ?thesis
    using assms(1,2) store_cached [OF _ _ assms(3), where key = key and v = v and c' = c'] a
    by (fastforce simp: finishExchange_def store_response_def Let_def split: if_splits option.splits prod.splits)
qed

lemma run_cached:
  assumes "run_operation L now transport (\<lambda>_. answer) operation c = (result, c', effects)" "cached c' key v" "only_removes L"
    and "operation_ok (transport, operation)"
  shows "cached c key v \<or> answer_of ((transport, op_message operation, answer, now) # answers) key v"
proof (cases "exchangeToTransport (op_message operation) answer")
  case (Inl e)
  then show ?thesis using assms(1,2) by (auto simp: run_operation_def)
next
  case (Inr response)
  obtain r c1 fx where f: "finishExchange L now transport operation response c = (r, c1, fx)" by (metis prod_cases3)
  then have "cached c1 key v" using assms(1,2) Inr by (auto simp: run_operation_def split: prod.splits)
  then show ?thesis using finish_cached [OF f _ assms(3,4) Inr] by blast
qed

lemma refresh_cached:
  assumes "refresh_finish L now transport k message answer options checker c = (c', effects)" "cached c' key v" "only_removes L"
    and "refresh_ok (transport, k, message)"
  shows "cached c key v \<or> answer_of ((transport, message, answer, now) # answers) key v"
proof (cases "exchangeToTransport message answer")
  case (Inl e)
  then show ?thesis using assms(1,2) by (auto simp: refresh_finish_def cached_def)
next
  case (Inr response)
  let ?c = "c\<lparr>cl_backgroundRefresh := removeAll k (cl_backgroundRefresh c)\<rparr>"
  obtain ttl response1 where a: "applyResponseOptions (ck_Question k) response options = (ttl, response1)" by fastforce
  have same: "cached ?c key v = cached c key v" by (simp add: cached_def)
  have "answer_of ((transport, message, answer, now) # answers) k' (response1, now + second * uint ttl)"
    if "finishCacheKey L transport k = Some k'" "cacheable_rcode response" "ttl \<noteq> 0" for k'
    using finish_key_parts [OF that(1)] that assms(4) Inr a by (auto simp: answer_of_def refresh_ok_def)
  moreover have "cached ?c key v \<or> (\<exists>k'. finishCacheKey L transport k = Some k' \<and> key = k' \<and> cacheable_rcode response \<and>
      v = (response1, now + second * uint ttl) \<and> ttl \<noteq> 0)"
    using assms(1,2) Inr a store_cached [OF _ assms(2,3), of now _ response1 ttl ?c effects]
    by (auto simp: refresh_finish_def response_rejected_def Let_def split: if_splits option.splits)
  ultimately show ?thesis using same by blast
qed

lemma client_step_sound:
  assumes "client_step L s s'" "cache_sound s" "only_removes L"
  shows "cache_sound s'"
  using assms
proof (induction rule: client_step.induct)
  case (start s transport now contextTag message options checker allowWait)
  then show ?case by (intro start_sound)
next
  case (wake transport operation s now contextTag)
  then show ?case by (intro wake_sound)
next
  case (give_up transport operation s)
  then show ?case by (simp add: cache_sound_def list_all_remove1)
next
  case (finish transport operation s now answer result c effects)
  then have "operation_ok (transport, operation)" by (auto simp: cache_sound_def list_all_iff)
  from run_cached [OF finish(2) _ finish.prems(2) this]
  have "cached c key v \<Longrightarrow> answer_of ((transport, op_message operation, answer, now) # st_answers s) key v" for key v
    using finish.prems(1) answer_of_Cons unfolding cache_sound_def by metis
  then show ?case using finish.prems(1) by (simp add: cache_sound_def list_all_remove1)
next
  case (refresh transport key message s now answer options checker c effects)
  then have "refresh_ok (transport, key, message)" by (auto simp: cache_sound_def list_all_iff)
  from refresh_cached [OF refresh(2) _ refresh.prems(2) this]
  have "cached c k v \<Longrightarrow> answer_of ((transport, message, answer, now) # st_answers s) k v" for k v
    using refresh.prems(1) answer_of_Cons unfolding cache_sound_def by metis
  then show ?case using refresh.prems(1) by (simp add: cache_sound_def list_all_remove1)
next
  case (clear s)
  then show ?case by (auto simp: cache_sound_def ClearCache_def cached_def split: option.split)
qed

lemma client_cache_sound:
  assumes "client_reachable L s" "only_removes L"
  shows "cache_sound s"
  using assms(1)
proof (induction rule: client_reachable.induct)
  case (initial disableCache disableExpire timeout subnet withDNSCache)
  show ?case by (auto simp: cache_sound_def NewClient_def Client_Start_def cached_def)
next
  case (step s s')
  then show ?case using client_step_sound [OF step(2) _ assms(2)] by blast
qed

end
