(* ===== verification/DNS_Subnet.thy ===== *)
theory DNS_Subnet
  imports DNS_Query
begin

text \<open>
  Lemmas on the client subnet of a DNS message and on the time to live of a response: the subnet that is set is the one that
  is read, and the computed time to live is the least positive one of the records.
\<close>

subsection \<open>Client subnet\<close>

lemma records_subnet_append:
  "records_subnet (xs @ ys) = (case records_subnet xs of Some s \<Rightarrow> Some s | None \<Rightarrow> records_subnet ys)"
  by (induction xs) (auto split: RR.splits option.splits)

lemma first_subnet_None: "first_subnet options = None \<longleftrightarrow> subnet_index j options = None"
  by (induction options arbitrary: j rule: first_subnet.induct) auto

lemma first_subnet_update:
  "subnet_index k options = Some j \<Longrightarrow>
   k \<le> j \<and> first_subnet (options[j - k := EDNS0_SUBNET family netmask scope address]) = Some (netmask, address)"
proof (induction k options rule: subnet_index.induct)
  case (3 i code data options)
  then have IH: "Suc i \<le> j" "first_subnet (options[j - Suc i := EDNS0_SUBNET family netmask scope address]) = Some (netmask, address)"
    by auto
  then have "j - i = Suc (j - Suc i)" by simp
  then show ?case using IH by simp
qed auto

lemma first_subnet_append:
  "first_subnet options = None \<Longrightarrow> first_subnet (options @ [EDNS0_SUBNET family netmask scope address]) = Some (netmask, address)"
  by (induction options rule: first_subnet.induct) auto

text \<open>The search ends at the record with the first subnet option, or at an OPT record where no record has one.\<close>

lemma findExists_found:
  "findExists i opt rs = (o', Some j) \<Longrightarrow>
   \<exists>xs r ys options. rs = xs @ r # ys \<and> o' = Some (i + length xs) \<and> rr_Data r = RR_OPT options \<and>
     subnet_index 0 options = Some j \<and> records_subnet xs = None"
proof (induction rs arbitrary: i opt)
  case (Cons r rs)
  show ?case
  proof (cases "\<exists>options. rr_Data r = RR_OPT options \<and> subnet_index 0 options \<noteq> None")
    case True
    then show ?thesis using Cons.prems by (intro exI [of _ "[]"]) auto
  next
    case False
    then have "first_subnet options = None" if "rr_Data r = RR_OPT options" for options
      using that first_subnet_None [of options 0] by auto
    then have none: "records_subnet [r] = None" by (auto split: RR.split)
    have "\<exists>opt'. findExists (Suc i) opt' rs = (o', Some j)"
      using Cons.prems False by (cases "rr_Data r") (auto split: option.splits)
    then obtain opt' where "findExists (Suc i) opt' rs = (o', Some j)" by blast
    note Cons.IH [OF this]
    then obtain xs q ys options where "rs = xs @ q # ys" "o' = Some (Suc i + length xs)" "rr_Data q = RR_OPT options"
      "subnet_index 0 options = Some j" "records_subnet xs = None" by blast
    then show ?thesis using none records_subnet_append [of "[r]" xs]
      by (intro exI [of _ "r # xs"]) auto
  qed
qed simp

lemma findExists_missing:
  "findExists i opt rs = (o', None) \<Longrightarrow>
   records_subnet rs = None \<and>
   (o' = opt \<or> o' = None \<or> (\<exists>xs r ys options. rs = xs @ r # ys \<and> o' = Some (i + length xs) \<and> rr_Data r = RR_OPT options))"
proof (induction rs arbitrary: i opt)
  case (Cons r rs)
  show ?case
  proof (cases "\<exists>options. rr_Data r = RR_OPT options")
    case True
    then obtain options where r: "rr_Data r = RR_OPT options" "subnet_index 0 options = None"
      using Cons.prems by (auto split: option.splits)
    then have f: "findExists (Suc i) (Some i) rs = (o', None)" using Cons.prems by simp
    have "records_subnet rs = None" and
      c: "o' = Some i \<or> o' = None \<or> (\<exists>xs r ys options. rs = xs @ r # ys \<and> o' = Some (Suc i + length xs) \<and> rr_Data r = RR_OPT options)"
      using Cons.IH [OF f] by auto
    then have "records_subnet (r # rs) = None" using r first_subnet_None [of options 0] by simp
    moreover have "o' = Some i \<Longrightarrow> \<exists>xs q ys options. r # rs = xs @ q # ys \<and> o' = Some (i + length xs) \<and> rr_Data q = RR_OPT options"
      using r by (intro exI [of _ "[]"]) auto
    moreover have "\<exists>xs q ys options. rs = xs @ q # ys \<and> o' = Some (Suc i + length xs) \<and> rr_Data q = RR_OPT options \<Longrightarrow>
        \<exists>xs q ys options. r # rs = xs @ q # ys \<and> o' = Some (i + length xs) \<and> rr_Data q = RR_OPT options"
      by (metis add_Suc add_Suc_right append_Cons length_Cons)
    ultimately show ?thesis using c by blast
  next
    case False
    then have f: "findExists (Suc i) None rs = (o', None)" using Cons.prems by (cases "rr_Data r") auto
    have "records_subnet rs = None \<and>
        (o' = None \<or> (\<exists>xs q ys options. rs = xs @ q # ys \<and> o' = Some (Suc i + length xs) \<and> rr_Data q = RR_OPT options))"
      using Cons.IH [OF f] by auto
    moreover have "\<exists>xs q ys options. rs = xs @ q # ys \<and> o' = Some (Suc i + length xs) \<and> rr_Data q = RR_OPT options \<Longrightarrow>
        \<exists>xs q ys options. r # rs = xs @ q # ys \<and> o' = Some (i + length xs) \<and> rr_Data q = RR_OPT options"
      by (metis add_Suc add_Suc_right append_Cons length_Cons)
    moreover have "records_subnet (r # rs) = records_subnet rs" using False by (cases "rr_Data r") auto
    ultimately show ?thesis by auto
  qed
qed simp

lemma subnet_option_shape:
  "\<exists>family scope. subnet_option p old = EDNS0_SUBNET family (of_int (prefix_Bits p)) scope (addr_AsSlice (prefix_Addr p))"
  by (simp add: subnet_option_def Let_def)

lemma SetClientSubnet_subnet:
  "records_subnet (h_Extra (SetClientSubnet message p)) = Some (of_int (prefix_Bits p), addr_AsSlice (prefix_Addr p))"
proof -
  obtain o' found where f: "findExists 0 None (h_Extra message) = (o', found)" by fastforce
  show ?thesis
  proof (cases found)
    case (Some j)
    then obtain xs r ys options where x: "h_Extra message = xs @ r # ys" "o' = Some (length xs)" "rr_Data r = RR_OPT options"
      "subnet_index 0 options = Some j" "records_subnet xs = None"
      using findExists_found f by fastforce
    then show ?thesis
      using f Some first_subnet_update [OF x(4)] subnet_option_shape [of p "Some (options ! j)"]
      by (auto simp: SetClientSubnet_def Let_def records_subnet_append)
  next
    case None
    then have m: "records_subnet (h_Extra message) = None"
      "o' = None \<or> (\<exists>xs r ys options. h_Extra message = xs @ r # ys \<and> o' = Some (length xs) \<and> rr_Data r = RR_OPT options)"
      using findExists_missing f by fastforce+
    from m(2) show ?thesis
    proof
      assume "o' = None"
      then show ?thesis using f None m(1) subnet_option_shape [of p None]
        by (auto simp: SetClientSubnet_def records_subnet_append)
    next
      assume "\<exists>xs r ys options. h_Extra message = xs @ r # ys \<and> o' = Some (length xs) \<and> rr_Data r = RR_OPT options"
      then obtain xs r ys options where x: "h_Extra message = xs @ r # ys" "o' = Some (length xs)" "rr_Data r = RR_OPT options"
        by blast
      have "records_subnet xs = None" "first_subnet options = None"
        using m(1) x(1,3) by (auto simp: records_subnet_append split: option.splits)
      then show ?thesis using f None x subnet_option_shape [of p None] first_subnet_append
        by (auto simp: SetClientSubnet_def Let_def records_subnet_append)
    qed
  qed
qed

lemma client_subnet_read_back:
  assumes "prefix_wf p" "prefix_IsValid p" "addr_Unmap (prefix_Addr p) = prefix_Addr p"
  shows "clientSubnetFromMessage (SetClientSubnet message p) = p"
proof -
  have "addr_IsValid (prefix_Addr p)" "\<not> addr_hasZone (prefix_Addr p)" and b: "0 \<le> prefix_Bits p" "prefix_Bits p \<le> 128"
    using assms addr_BitLen_le [of "prefix_Addr p"]
    by (auto simp: prefix_wf_def prefix_IsValid_def prefix_Bits_def split: option.splits)
  then have "AddrFromSlice (addr_AsSlice (prefix_Addr p)) = Some (prefix_Addr p)" by (intro addr_AsSlice_inverse)
  moreover have "uint (of_int (prefix_Bits p) :: 8 word) = prefix_Bits p"
    using b by (simp add: uint_word_of_int)
  ultimately show ?thesis
    using assms by (simp add: clientSubnetFromMessage_def SetClientSubnet_subnet PrefixFrom_Bits)
qed

lemma client_subnet_removed: "clientSubnetFromMessage (removeClientSubnet message) = prefix_zero"
proof -
  have dropped: "first_subnet (filter (\<lambda>o1. edns0_Option o1 \<noteq> EDNS0SUBNET) options) = None" for options
  proof (induction options)
    case (Cons a options)
    then show ?case by (cases a) auto
  qed simp
  have none: "first_subnet options = None" if "\<not> list_ex (\<lambda>o1. edns0_Option o1 = EDNS0SUBNET) options" for options
    using that by (induction options rule: first_subnet.induct) auto
  have "records_subnet (map (drop_option EDNS0SUBNET) rs) = None" for rs
    by (induction rs) (auto simp: drop_option_def dropped split: RR.split)
  moreover have "records_subnet rs = None" if "\<not> list_ex (has_option EDNS0SUBNET) rs" for rs
    using that by (induction rs) (auto simp: has_option_def none split: RR.splits)
  ultimately show ?thesis by (simp add: clientSubnetFromMessage_def removeClientSubnet_def)
qed

subsection \<open>Time to live\<close>

definition positive_ttls :: "dns_Record list \<Rightarrow> 32 word set" where
  "positive_ttls rs = {rr_Ttl r |r. r \<in> set rs \<and> \<not> is_OPT r \<and> rr_Ttl r > 0}"

lemma positive_ttls_simps [simp]:
  "positive_ttls [] = {}"
  "positive_ttls (r # rs) = (if \<not> is_OPT r \<and> rr_Ttl r > 0 then insert (rr_Ttl r) (positive_ttls rs) else positive_ttls rs)"
  by (auto simp: positive_ttls_def)

lemma finite_positive_ttls [simp]: "finite (positive_ttls rs)"
  by (induction rs) auto

lemma least_ttl:
  "fold ttl_step rs t =
     (if t = 0 then (if positive_ttls rs = {} then 0 else Min (positive_ttls rs)) else Min (insert t (positive_ttls rs)))"
proof (induction rs arbitrary: t)
  case (Cons r rs)
  let ?P = "positive_ttls rs" and ?x = "rr_Ttl r"
  have le: "Min (insert t (insert ?x ?P)) = Min (insert (min t ?x) ?P)"
    by (cases "?P = {}") (simp_all add: min.assoc)
  consider (skip) "is_OPT r \<or> ?x = 0" | (first) "\<not> is_OPT r" "?x \<noteq> 0" "t = 0"
    | (less) "\<not> is_OPT r" "?x \<noteq> 0" "t \<noteq> 0" "?x < t" | (more) "\<not> is_OPT r" "?x \<noteq> 0" "t \<noteq> 0" "\<not> ?x < t" by blast
  then show ?case
  proof cases
    case skip
    then have "ttl_step r t = t" "positive_ttls (r # rs) = ?P" by (auto simp: ttl_step_def)
    then show ?thesis by (simp add: Cons)
  next
    case first
    then have "ttl_step r t = ?x" "positive_ttls (r # rs) = insert ?x ?P" by (simp_all add: ttl_step_def word_gt_0)
    then show ?thesis using first by (simp add: Cons)
  next
    case less
    then have "ttl_step r t = ?x" "positive_ttls (r # rs) = insert ?x ?P" by (simp_all add: ttl_step_def word_gt_0)
    moreover have "min t ?x = ?x" using less by simp
    ultimately show ?thesis using less(2,3) le by (simp only: fold_simps Cons if_False)
  next
    case more
    then have "ttl_step r t = t" "positive_ttls (r # rs) = insert ?x ?P" by (simp_all add: ttl_step_def word_gt_0)
    moreover have "min t ?x = t" using more by simp
    ultimately show ?thesis using more(2,3) le by (simp only: fold_simps Cons if_False)
  qed
qed simp

lemma computed_ttl:
  assumes "h_Answer response \<noteq> [] \<or> extractNegativeTTL response = None"
  shows "computeTimeToLive response =
    (if positive_ttls (message_records response) = {} then 0 else Min (positive_ttls (message_records response)))"
  using assms by (simp add: computeTimeToLive_def least_ttl)

end
