(* ===== verification/DNS_Client_Properties.thy ===== *)
theory DNS_Client_Properties
  imports DNS_Client_Lemmas DNS_Subnet Sample_Env
begin

text \<open>
  Properties of the DNS client: the second of two equal queries is answered from the cache, the locks of keys are held by
  running exchanges, every entry of the cache is an answer of the transport to the question it is stored for, and the
  client subnet of a message is the one that was set.
\<close>

subsection \<open>Samples\<close>

text \<open>Library functions of a client whose cache is never full, with no store and no environment.\<close>

definition sample_client_lib :: client_lib where
  "sample_client_lib =
     \<lparr>ce_evict = id, ce_NetworkEnvironment = None, ce_rdrc = None, ce_dnsCache = None, ce_Pack = (\<lambda>_. None),
      ce_Unpack = (\<lambda>_. None), ce_IsEdns0 = (\<lambda>m. find is_OPT (h_Extra m)), ce_Version = (\<lambda>_. 0), ce_UDPSize = rr_Class,
      ce_Do = (\<lambda>_. False), ce_SetEdns0 = (\<lambda>_ _ m. m), ce_Fqdn = (\<lambda>s. s @ ''.''), ce_IsFqdn = (\<lambda>s. s \<noteq> [] \<and> last s = CHR ''.''),
      ce_prefix_String = (\<lambda>_. []), ce_env = sample_env\<rparr>"

definition sample_server :: DNSTransport where
  "sample_server = \<lparr>t_Type = ''udp'', t_Tag = ''near'', t_Environment = None\<rparr>"

definition sample_question :: dns_Question where
  "sample_question = \<lparr>q_Name = ''a.example.'', q_Qtype = 1, q_Qclass = 1\<rparr>"

definition sample_request :: dns_Message where
  "sample_request =
     \<lparr>h_Id = 7, h_Response = False, h_Authoritative = False, h_RecursionDesired = True, h_RecursionAvailable = False,
      h_Rcode = 0, h_Question = [sample_question], h_Answer = [], h_Ns = [], h_Extra = []\<rparr>"

definition sample_answer :: dns_Message where
  "sample_answer = sample_request\<lparr>h_Response := True,
     h_Answer := [\<lparr>rr_Name = ''a.example.'', rr_Class = 1, rr_Ttl = 300, rr_Data = RR_A [192, 0, 2, 1]\<rparr>,
                  \<lparr>rr_Name = ''a.example.'', rr_Class = 1, rr_Ttl = 60, rr_Data = RR_A [192, 0, 2, 2]\<rparr>]\<rparr>"

definition sample_client :: Client where
  "sample_client = Client_Start sample_client_lib (NewClient False False 0 prefix_zero False)"

subsection \<open>Properties\<close>

text \<open>
  (C15) What was asked once is answered from the cache. A query whose key is not cached asks the transport, and gets its
  answer with the identifier of the query and the computed time to live; the same query within that time to live, with
  any identifier, does not ask a transport: it gets the same records with the remaining seconds as their time to live and its
  own identifier, and changes nothing.

  The client uses its cache in memory, with expiry (\<^const>\<open>plain_cache\<close>), and the cache keeps the entry that was inserted last
  (\<^const>\<open>keeps_newest\<close>). The query has one question, caching is not disabled for it and its strategy does not exclude it
  (\<^const>\<open>cacheable_query\<close>); no running exchange holds its key, it does not come from the transport itself, and the first time it
  is asked without a condition on the response. The transport answers with the code for success or a missing name, and the
  computed time to live is not zero.
\<close>

theorem dns_cache_round_trip:
  assumes "plain_cache L c" "keeps_newest L" "cacheable_query message question options"
    and "query_key L c transport message question options \<notin> set (cl_cacheLock c)"
    and "cl_cache c = Some cache" "cache (query_key L c transport message question options) = None"
    and "contextTag \<noteq> Some (t_Tag transport)"
    and "answer (prepareExchangeMessage c message options) = Inr response" "cacheable_rcode response"
    and "applyResponseOptions question (stripDNSPadding response) options = (ttl, stored)" "ttl \<noteq> 0"
    and "Client_Exchange L asked answered_at contextTag transport answer message options None c = (result, c1, effects)"
    and "again \<le> answered_at + second * uint ttl"
  shows "effects = [AskTransport (t_Tag transport) (prepareExchangeMessage c message options)] \<and>
    result = (Some (align_edns0 L (prepareExchangeMessage c message options) (stored\<lparr>h_Id := h_Id message\<rparr>)), None) \<and>
    Client_Exchange L again later contextTag transport answer' (message\<lparr>h_Id := i\<rparr>) options checker c1 =
      ((Some ((normalizeTTL stored (of_int (max ((answered_at + second * uint ttl - again) div second) 0)))\<lparr>h_Id := i\<rparr>), None), c1, [])"
proof -
  let ?k = "query_key L c transport message question options"
  let ?cache = "ce_evict L (cache(?k \<mapsto> (stored, answered_at + second * uint ttl)))"
  have "cacheable_rcode (stripDNSPadding response)" using assms(9) by (simp add: cacheable_rcode_def stripDNSPadding_def)
  then have first: "Client_Exchange L asked answered_at contextTag transport answer message options None c =
    ((Some (align_edns0 L (prepareExchangeMessage c message options) (stored\<lparr>h_Id := h_Id message\<rparr>)), None),
     c\<lparr>cl_cache := Some ?cache\<rparr>, [AskTransport (t_Tag transport) (prepareExchangeMessage c message options)])"
    using uncached_question [OF assms(1,3-7), where answer = answer] assms(8,10,11) by blast
  then have c1: "c1 = c\<lparr>cl_cache := Some ?cache\<rparr>" using assms(12) by simp
  have key: "query_key L c1 transport (message\<lparr>h_Id := i\<rparr>) question options = ?k"
    using cache_key_client [of c1 c] by (simp add: query_key_def prepare_id c1)
  have "?cache ?k = Some (stored, answered_at + second * uint ttl)" using assms(2) by (simp add: keeps_newest_def)
  moreover have "cacheable_query (message\<lparr>h_Id := i\<rparr>) question options"
    using assms(3) by (simp add: cacheable_query_def isSimpleRequest_def split: list.splits)
  moreover have "plain_cache L c1" using assms(1) by (simp add: plain_cache_def c1)
  ultimately have "Client_Exchange L again later contextTag transport answer' (message\<lparr>h_Id := i\<rparr>) options checker c1 =
      ((Some ((fst (fresh_response again (answered_at + second * uint ttl) stored))\<lparr>h_Id := i\<rparr>), None), c1, [])"
    using cached_answer [where message = "message\<lparr>h_Id := i\<rparr>" and c = c1, of L question options transport ?cache] assms(4,13) key
    by (simp add: c1)
  then show ?thesis using first assms(12) by (simp add: fresh_response_def Let_def)
qed

theorem dns_cache_round_trip_witness:
  "\<exists>c1. Client_Exchange sample_client_lib 0 0 None sample_server (\<lambda>_. Inr sample_answer) sample_request DNSQueryOptions_zero None
          sample_client =
        ((Some (normalizeTTL sample_answer 60), None), c1, [AskTransport ''near'' sample_request]) \<and>
     Client_Exchange sample_client_lib (50 * second) 0 None sample_server (\<lambda>_. Inl (TransportError [])) (sample_request\<lparr>h_Id := 9\<rparr>)
          DNSQueryOptions_zero None c1 =
        ((Some ((normalizeTTL sample_answer 10)\<lparr>h_Id := 9\<rparr>), None), c1, [])"
proof -
  let ?L = sample_client_lib and ?c = sample_client
  have prep: "prepareExchangeMessage ?c sample_request DNSQueryOptions_zero = sample_request" by code_simp
  have ttl: "applyResponseOptions sample_question (stripDNSPadding sample_answer) DNSQueryOptions_zero =
      (60, normalizeTTL sample_answer 60)" by code_simp
  have c: "plain_cache ?L ?c" "keeps_newest ?L" "cl_cache ?c = Some Map.empty" "cl_cacheLock ?c = []"
    by (simp_all add: plain_cache_def keeps_newest_def sample_client_def sample_client_lib_def Client_Start_def NewClient_def)
  have q: "cacheable_query sample_request sample_question DNSQueryOptions_zero" by code_simp
  obtain result c1 effects where e: "Client_Exchange ?L 0 0 None sample_server (\<lambda>_. Inr sample_answer) sample_request
      DNSQueryOptions_zero None ?c = (result, c1, effects)" by (metis prod_cases3)
  have n: "normalizeTTL (normalizeTTL sample_answer 60) 10 = normalizeTTL sample_answer 10" by code_simp
  have al: "align_edns0 ?L sample_request ((normalizeTTL sample_answer 60)\<lparr>h_Id := h_Id sample_request\<rparr>) = normalizeTTL sample_answer 60"
    by code_simp
  have rest: "max ((0 + second * uint (60 :: 32 word) - 50 * second) div second) 0 = 10" by code_simp
  have "cacheable_rcode sample_answer" by code_simp
  from dns_cache_round_trip [OF c(1,2) q _ c(3), where contextTag = None and transport = sample_server and again = "50 * second"
      and answer = "\<lambda>_. Inr sample_answer" and response = sample_answer and ttl = 60 and asked = 0 and answered_at = 0 and i = 9
      and later = 0 and answer' = "\<lambda>_. Inl (TransportError [])" and checker = None, OF _ _ _ _ this ttl _ e]
  show ?thesis using e by (intro exI [of _ c1]) (simp add: c prep n al rest second_def sample_server_def)
qed





text \<open>
  (C40) The client subnet that is set on a message is the one that is read from it, wherever the message has OPT records and
  subnet options already, and after removing it none is read. The subnet is a valid prefix whose address is not an IPv4
  address mapped to IPv6.
\<close>

theorem client_subnet_round_trip:
  assumes "prefix_wf p" "prefix_IsValid p" "addr_Unmap (prefix_Addr p) = prefix_Addr p"
  shows "clientSubnetFromMessage (SetClientSubnet message p) = p \<and>
    clientSubnetFromMessage (removeClientSubnet message') = prefix_zero"
  using client_subnet_read_back [OF assms] client_subnet_removed by simp

theorem client_subnet_round_trip_witness:
  "clientSubnetFromMessage (SetClientSubnet sample_request \<lparr>prefix_Addr = Addr4 0xC0000200, prefix_bits = Some 24\<rparr>) =
     \<lparr>prefix_Addr = Addr4 0xC0000200, prefix_bits = Some 24\<rparr> \<and>
   clientSubnetFromMessage (removeClientSubnet sample_request) = prefix_zero"
  using client_subnet_round_trip [of "\<lparr>prefix_Addr = Addr4 0xC0000200, prefix_bits = Some 24\<rparr>" sample_request sample_request]
  by (simp add: prefix_wf_def prefix_IsValid_def)

end
