(* ===== verification/Spec2Isabelle.thy ===== *)
theory Spec2Isabelle
  imports Rule_Properties Rule_Build_Properties FakeIP_Properties SRS_Properties
    Router_Properties Connection_Properties Outbound_Properties Group_Properties
    DNS_Router_Properties DNS_Legacy DNS_Client_Properties
begin

text \<open>
  Verification of the routing core of the Android proxy application QuinMo: the Go code under
  src/libcore/sing-box that decides, for every connection and DNS query, what happens to it. All paths
  below are relative to this directory.

  \<^bold>\<open>The program.\<close> An inbound hands a connection with its metadata to the router. The router looks for the
  process and the domain behind the connection, walks through the rules in order, performs their actions
  (sniff the protocol, resolve the domain, set options) and ends at the first rule with a final action. The
  outbound named by it, possibly a group, gets the connection, and the connection manager copies the data.
  DNS queries go through rules of their own to a DNS client with a cache, and from there to a transport. The
  FakeIP transport answers with addresses of a private range; the router translates connections to these
  addresses back. Rules are built from options, and rule-sets may come from binary files. Managers hold the
  inbounds, outbounds, endpoints and services and start them in order.

  \<^bold>\<open>How it is modelled.\<close> Structures are records, enumerations and interfaces with known implementations are
  datatypes, functions are functions with the state as an argument and a result, errors and panics are values
  (\<open>('e, 'a) res\<close> is \<open>'e + 'a\<close>), integers keep their width where it matters. Slices that the code compares
  with nil are options of lists. Goroutines are step relations (\<open>copy_step\<close>, \<open>client_step\<close>) or functions of a
  schedule that says when an exchange returns (\<open>schedule\<close>). Code outside of the repository is a field of a
  record of parameters: \<open>env\<close> (conditions), \<open>build_env\<close> and \<open>action_env\<close> (constructors), \<open>router_env\<close> and
  \<open>flow_lib\<close> (router), \<open>setup_env\<close> (dialing), \<open>sniff_lib\<close> (parsers), \<open>srs_lib\<close> (binary format), \<open>client_lib\<close> and
  \<open>dns_router\<close> (DNS). What a theorem needs of such a field is a named hypothesis: \<open>srs_lib_ok\<close> (written values are
  read back; what is read for a domain matcher matches the same names), \<open>ipset_builder_ok\<close>, \<open>srs_lib_consumes\<close>,
  \<open>sniff_laws\<close>, \<open>quic_law\<close>, \<open>stream_laws\<close>, \<open>keeps_newest\<close> and \<open>only_removes\<close> (the bounded cache of the DNS client),
  \<open>exchanges_return\<close> (launched exchanges end). \<^verbatim>\<open>Sample_Env\<close> and the samples beside the properties are functions that
  satisfy them.

  \<^bold>\<open>The theories.\<close>

  \<^item> Shared vocabulary: \<^verbatim>\<open>QM_Prelude\<close> (results as sums, Go slices and loops, collections of facts), \<^verbatim>\<open>Go_Std\<close>,
    \<^verbatim>\<open>Netip\<close>, \<^verbatim>\<open>Netip_Codec\<close> and \<^verbatim>\<open>Codec\<close> (what the code uses of strings, strconv, net/netip, io and
    encoding/binary), \<^verbatim>\<open>Inbound_Context\<close> (adapter/inbound.go, the metadata of a connection), \<^verbatim>\<open>DNS_Message\<close>
    (DNS messages and the fixed responses of dns/client.go).
  \<^item> Rules: \<^verbatim>\<open>Rule_Items\<close> (route/rule/rule\_item\_*.go, the conditions), \<^verbatim>\<open>Rule_Match\<close> (match\_state.go and
    rule\_abstract.go, matching with condition groups, rule-sets and deferred groups), \<^verbatim>\<open>Rule_DNS\<close>
    (rule\_dns.go), \<^verbatim>\<open>Rule_Action\<close> (rule\_action.go), \<^verbatim>\<open>Rule_Options\<close>, \<^verbatim>\<open>Rule_Build\<close> and \<^verbatim>\<open>Rule_New\<close> (option/rule*.go
    and the constructors of rules). \<^verbatim>\<open>Rule_Semantics\<close> gives every rule a boolean formula (the locale
    \<open>headless_rule_interface\<close> lifts it from sub-rules to logical rules and is interpreted for headless, route and
    DNS rules), \<^verbatim>\<open>Rule_Deferred\<close> and \<^verbatim>\<open>Rule_Set_Deferred\<close> a three-valued one for a match without destination
    addresses, \<^verbatim>\<open>Rule_Frame\<close> says what matching leaves alone, \<^verbatim>\<open>Rule_Alike\<close> when two rules cannot be told apart.
    \<^verbatim>\<open>Rule_Properties\<close>: matching computes the documented formula, rule-sets are merged or are conditions, and
    alternatives; the first match of a DNS rule rejects only what every response would reject.
    \<^verbatim>\<open>Rule_Build_Properties\<close>: built rules agree with their lists of conditions, sub-rules have no action, metadata
    of rule-sets are true. \<^verbatim>\<open>Rule_Action\<close> also has the bound of the flood control.
  \<^item> Router: \<^verbatim>\<open>Sniff\<close> (common/sniff), \<^verbatim>\<open>Router\<close> (route/route.go, route/process\_cache.go, adapter/router.go),
    \<^verbatim>\<open>FakeIP_Conn\<close> (route/fakeip\_conn.go), \<^verbatim>\<open>Connection_Manager\<close> (route/conn.go). \<^verbatim>\<open>Router_Properties\<close>: the first
    rule with a final action decides, the outbound is the demanded one, sniffing loses no data, FakeIP packets are
    translated in both directions. \<^verbatim>\<open>Sniff_Properties\<close>: verdicts of stream sniffers do not change with more data.
    \<^verbatim>\<open>Connection_Properties\<close>: copying ends in every interleaving and reports the close once.
  \<^item> DNS: \<^verbatim>\<open>DNS_Query\<close> (options, time to live and client subnet: adapter/dns.go, dns/client.go,
    dns/extension\_edns0\_subnet.go), \<^verbatim>\<open>DNS_Client\<close> (dns/client.go: cache, locks, exchange, refresh, lookup), \<^verbatim>\<open>DNS_Router\<close>
    (dns/router.go: the walk of the rules with evaluations in the background, racing rules and fallback), \<^verbatim>\<open>DNS_Legacy\<close>
    (dns/router.go: the legacy mode, where a response that a rule rejects does not reach the caller). \<^verbatim>\<open>DNS_Walk\<close> has the
    invariant of the walk and a measure that every round decreases, \<^verbatim>\<open>DNS_Sequential\<close> a sequential reading of the rules
    and the simulation between both; \<^verbatim>\<open>DNS_Router_Properties\<close>: the walk ends, and gives the answer of the sequential
    reading. \<^verbatim>\<open>DNS_Client_Lemmas\<close> makes the client a step relation; \<^verbatim>\<open>DNS_Subnet\<close>, \<^verbatim>\<open>DNS_Client_Properties\<close>: round trips
    through the cache and the subnet option, locks belong to running exchanges, cached entries are answers.
  \<^item> FakeIP: \<^verbatim>\<open>FakeIP\<close> (dns/transport/fakeip), \<^verbatim>\<open>FakeIP_Pool\<close> (the walk through the addresses of a range),
    \<^verbatim>\<open>FakeIP_Store\<close> (the contract of a storage as the locale \<open>fakeip_storage\<close>, interpreted with the storage in
    memory). \<^verbatim>\<open>FakeIP_Properties\<close>: the store refines a one-to-one relation, addresses are usable and are kept
    as long as the range allows.
  \<^item> Binary rule-sets: \<^verbatim>\<open>SRS_Codec\<close> (common/srs), \<^verbatim>\<open>SRS_Round\<close> (reading what was written), \<^verbatim>\<open>SRS_Rules\<close> (the rules built
    from it, termination, nesting). \<^verbatim>\<open>SRS_Properties\<close>: round trip, the compiled rules match like the source,
    reading ends, the nesting limit.
  \<^item> Managers and groups: \<^verbatim>\<open>Lifecycle\<close> (adapter/lifecycle.go), \<^verbatim>\<open>Adapter_Manager\<close> (adapter/inbound, endpoint and
    service managers), \<^verbatim>\<open>Outbound_Manager\<close> (adapter/outbound/manager.go), \<^verbatim>\<open>Outbound_Order\<close> (lemmas on the order
    of starting), \<^verbatim>\<open>Outbound_Group\<close> (protocol/group). \<^verbatim>\<open>Outbound_Properties\<close>: starting respects the dependencies,
    ends, and reports true errors; the registry stays consistent. \<^verbatim>\<open>Group_Properties\<close>: the choice of a URL test
    group, groups name members, and following groups to a real outbound ends.
  \<^item> \<^verbatim>\<open>Sample_Env\<close> holds concrete library functions for the witnesses.

  \<^bold>\<open>Loops, bounds and fuel.\<close> Loops over lists are structural. \<open>start_loop\<close>, \<open>lintOutbound\<close>, \<open>utp_extensions\<close>,
  \<open>AppendUvarint\<close> and \<open>exchangeLegacy\<close> have termination proofs. \<open>RealTag_loop\<close> may run forever in principle and is a
  partial function, which is shown to have a result after a successful start. The loop over the items of a
  binary rule has one round more than there are bytes, and \<open>srs_reading_ends\<close> shows that it is never cut off. The
  nesting of binary rules is bounded by the limit of the code. \<open>exchangeWithRules\<close> has fuel, since the waiting
  depends on the schedule; \<open>dns_walk_ends\<close> gives enough fuel for every schedule in which exchanges return. Numbers of
  elements in the binary format are below two to the 64th, the size of the counter that is written.

  \<^bold>\<open>Not modelled.\<close> Logging and descriptions; JSON decoding of options (a third-party library); the process cache,
  the network manager and the DNS packet loop of hijacked connections in the router; the QUIC sniffer, which
  decrypts packets with third-party code and is a parameter; the copying of bytes between connections, deadlines
  and counters; preparing a query, the reverse mapping, lookups and the choice of the mode in the DNS router, and
  the asynchronous variants of exchanges; loading, reference counts and updates of rule-sets; URL test
  measurements and tickers; the DNS transport manager and the transports other than FakeIP, dialers, TLS,
  protocols and services, which are I/O around third-party libraries; the bridge to Android and the application.
\<close>

end
